(* ===== verification/Prelude.thy ===== *)
theory Prelude
  imports
    Complex_Main
    "HOL-Library.AList"
    "HOL-Library.Char_ord"
    "HOL-Library.List_Lexorder"
    "HOL-Library.Product_Lexorder"
    "HOL-Library.Sublist"
begin

text \<open>
  The vocabulary every component shares: Python exceptions as values, operations as
  state-passing actions that may raise, insertion-ordered dictionaries, the values a
  \<^verbatim>\<open>dict[str, Any]\<close> can hold, and a locale of two-state contracts that is proved to be
  closed under sequencing, handling and branching once and for all.
\<close>

named_theorems action_simps \<open>the definitions of the action combinators\<close>
named_theorems effects \<open>actions that respect a two-state contract\<close>

section \<open>Exceptions\<close>

text \<open>
  The exception classes the sources raise. \<open>OtherError\<close> is any further subclass of
  \<^verbatim>\<open>Exception\<close>, named by its class: what a storage backend, a client library or a user
  supplied callable may raise. \<open>Interrupt\<close> is a \<^verbatim>\<open>BaseException\<close> that is not an
  \<^verbatim>\<open>Exception\<close> (\<^verbatim>\<open>KeyboardInterrupt\<close>, \<^verbatim>\<open>SystemExit\<close>), which an \<^verbatim>\<open>except Exception\<close> clause lets
  pass. The string is the text \<^verbatim>\<open>str(exc)\<close>.
\<close>

datatype exn_class =
    ValueError
  | PermissionError
  | KeyError
  | RuntimeError
  | ValidationError
  | ExecutionRejectedError
  | InvalidRuntimeStateTransitionError
  | OtherError string

datatype exn = Raised exn_class string | Interrupt string

fun class_name :: "exn_class \<Rightarrow> string" where
  "class_name ValueError = ''ValueError''"
| "class_name PermissionError = ''PermissionError''"
| "class_name KeyError = ''KeyError''"
| "class_name RuntimeError = ''RuntimeError''"
| "class_name ValidationError = ''ValidationError''"
| "class_name ExecutionRejectedError = ''ExecutionRejectedError''"
| "class_name InvalidRuntimeStateTransitionError = ''InvalidRuntimeStateTransitionError''"
| "class_name (OtherError n) = n"

fun is_exception :: "exn \<Rightarrow> bool" where
  "is_exception (Raised c m) = True"
| "is_exception (Interrupt m) = False"

fun exn_str :: "exn \<Rightarrow> string" where
  "exn_str (Raised c m) = m"
| "exn_str (Interrupt m) = m"

text \<open>\<^verbatim>\<open>str(KeyError("text"))\<close> is the \<^verbatim>\<open>repr\<close> of the text: quoted.\<close>

definition quoted :: "string \<Rightarrow> string" where
  "quoted s = CHR 0x27 # s @ [CHR 0x27]"

abbreviation value_error :: "string \<Rightarrow> exn" where
  "value_error m \<equiv> Raised ValueError m"

abbreviation permission_error :: "string \<Rightarrow> exn" where
  "permission_error m \<equiv> Raised PermissionError m"

abbreviation key_error :: "string \<Rightarrow> exn" where
  "key_error m \<equiv> Raised KeyError (quoted m)"

abbreviation runtime_error :: "string \<Rightarrow> exn" where
  "runtime_error m \<equiv> Raised RuntimeError m"

text \<open>pydantic's report on a constructor whose field constraint fails.\<close>

abbreviation validation_error :: exn where
  "validation_error \<equiv> Raised ValidationError ''validation error''"

definition type_error :: "string \<Rightarrow> exn" where
  "type_error m = Raised (OtherError ''TypeError'') m"

definition attribute_error :: "string \<Rightarrow> exn" where
  "attribute_error m = Raised (OtherError ''AttributeError'') m"

section \<open>Actions\<close>

text \<open>
  A method is an action on the state of the objects it can reach: it returns a value or
  the exception it raises, together with the state it leaves behind. The state is kept
  when an exception is raised, because Python does not roll back.
\<close>

type_synonym ('s, 'a) action = "'s \<Rightarrow> (exn + 'a) \<times> 's"

definition ret :: "'a \<Rightarrow> ('s, 'a) action" where
  [action_simps]: "ret a s = (Inr a, s)"

definition raise :: "exn \<Rightarrow> ('s, 'a) action" where
  [action_simps]: "raise e s = (Inl e, s)"

definition bindA :: "('s, 'a) action \<Rightarrow> ('a \<Rightarrow> ('s, 'b) action) \<Rightarrow> ('s, 'b) action" where
  [action_simps]: "bindA m f s =
     (case m s of (r, s') \<Rightarrow> (case r of Inl e \<Rightarrow> (Inl e, s') | Inr a \<Rightarrow> f a s'))"

definition gets :: "('s \<Rightarrow> 'a) \<Rightarrow> ('s, 'a) action" where
  [action_simps]: "gets f s = (Inr (f s), s)"

definition modify :: "('s \<Rightarrow> 's) \<Rightarrow> ('s, unit) action" where
  [action_simps]: "modify f s = (Inr (), f s)"

definition lift_res :: "exn + 'a \<Rightarrow> ('s, 'a) action" where
  [action_simps]: "lift_res r s = (r, s)"

text \<open>\<^verbatim>\<open>try: m except Exception as e: h(e)\<close>.\<close>

definition catchA :: "('s, 'a) action \<Rightarrow> (exn \<Rightarrow> ('s, 'a) action) \<Rightarrow> ('s, 'a) action" where
  [action_simps]: "catchA m h s =
     (case m s of (r, s') \<Rightarrow>
       (case r of
          Inl e \<Rightarrow> (if is_exception e then h e s' else (Inl e, s'))
        | Inr a \<Rightarrow> (Inr a, s')))"

text \<open>\<^verbatim>\<open>try: m except Exception: h; raise\<close>: the handler runs, then the exception continues.
  An exception the handler raises itself replaces it.\<close>

definition on_error :: "('s, 'a) action \<Rightarrow> ('s, unit) action \<Rightarrow> ('s, 'a) action" where
  "on_error m h = catchA m (\<lambda>e. bindA h (\<lambda>_. raise e))"

text \<open>\<^verbatim>\<open>try: x = m except Exception as e: ... else: ...\<close>: the outcome as a value, for the code after
  it to branch on.\<close>

definition attempt :: "('s, 'a) action \<Rightarrow> ('s, exn + 'a) action" where
  [action_simps]: "attempt m = catchA (bindA m (\<lambda>a. ret (Inr a))) (\<lambda>e. ret (Inl e))"

lemma bindA_ret [simp]: "bindA (ret a) f = f a"
  by (rule ext) (simp add: action_simps)

lemma bindA_raise [simp]: "bindA (raise e) f = raise e"
  by (rule ext) (simp add: action_simps)

lemma attempt_cases:
  "attempt m s = (case m s of
     (Inl e, t) \<Rightarrow> (if is_exception e then (Inr (Inl e), t) else (Inl e, t))
   | (Inr a, t) \<Rightarrow> (Inr (Inr a), t))"
  by (simp add: action_simps split: prod.split sum.split)

lemma snd_bindA_ret [simp]: "snd (bindA m (\<lambda>a. ret (g a)) s) = snd (m s)"
  by (simp add: action_simps split: prod.split sum.split)

lemma bind_value:
  "bindA m f s = (Inr v, t) \<longleftrightarrow> (\<exists>x u. m s = (Inr x, u) \<and> f x u = (Inr v, t))"
  by (auto simp: bindA_def split: prod.splits sum.splits)

lemma bindA_assoc: "bindA (bindA m f) g = bindA m (\<lambda>a. bindA (f a) g)"
  by (rule ext) (simp add: action_simps split: prod.splits sum.splits)

text \<open>The same for results without a state.\<close>

definition bindR :: "exn + 'a \<Rightarrow> ('a \<Rightarrow> exn + 'b) \<Rightarrow> exn + 'b" where
  [simp]: "bindR r f = (case r of Inl e \<Rightarrow> Inl e | Inr a \<Rightarrow> f a)"

section \<open>Two-state contracts\<close>

text \<open>
  \<open>obeys R m\<close>: whatever \<open>m\<close> does, the states before and after are related by \<open>R\<close>.
  Frame conditions (a field is not written), growth of a log and preservation of an
  invariant are all of this form; each is reflexive and transitive, which is all that
  sequencing, branching and exception handling need.
\<close>

definition obeys :: "('s \<Rightarrow> 's \<Rightarrow> bool) \<Rightarrow> ('s, 'a) action \<Rightarrow> bool" where
  "obeys R m \<longleftrightarrow> (\<forall>s. R s (snd (m s)))"

lemma obeysI: "(\<And>s. R s (snd (m s))) \<Longrightarrow> obeys R m"
  by (simp add: obeys_def)

lemma obeysD: "obeys R m \<Longrightarrow> R s (snd (m s))"
  by (simp add: obeys_def)

locale contract =
  fixes R :: "'s \<Rightarrow> 's \<Rightarrow> bool"
  assumes contract_refl: "R s s"
    and contract_trans: "R s t \<Longrightarrow> R t u \<Longrightarrow> R s u"
begin

lemma ret_in: "obeys R (ret a)"
  by (simp add: obeys_def ret_def contract_refl)

lemma raise_in: "obeys R (raise e)"
  by (simp add: obeys_def raise_def contract_refl)

lemma gets_in: "obeys R (gets f)"
  by (simp add: obeys_def gets_def contract_refl)

lemma lift_res_in: "obeys R (lift_res r)"
  by (simp add: obeys_def lift_res_def contract_refl)

lemma bind_in:
  assumes "obeys R m" and "\<And>a. obeys R (f a)"
  shows "obeys R (bindA m f)"
proof (rule obeysI)
  fix s
  obtain r s' where m: "m s = (r, s')" by (cases "m s")
  with assms(1) have "R s s'" by (metis obeysD snd_conv)
  with assms(2) show "R s (snd (bindA m f s))"
    by (cases r) (auto simp: bindA_def m dest: obeysD [of R _ s'] intro: contract_trans)
qed

lemma catch_in:
  assumes "obeys R m" and "\<And>e. obeys R (h e)"
  shows "obeys R (catchA m h)"
proof (rule obeysI)
  fix s
  obtain r s' where m: "m s = (r, s')" by (cases "m s")
  with assms(1) have "R s s'" by (metis obeysD snd_conv)
  with assms(2) show "R s (snd (catchA m h s))"
    by (cases r) (auto simp: catchA_def m dest: obeysD [of R _ s'] intro: contract_trans)
qed

lemma on_error_in: "obeys R m \<Longrightarrow> obeys R h \<Longrightarrow> obeys R (on_error m h)"
  unfolding on_error_def by (intro catch_in bind_in raise_in)

lemma attempt_in: "obeys R m \<Longrightarrow> obeys R (attempt m)"
  unfolding attempt_def by (intro catch_in bind_in ret_in)

lemma if_in: "obeys R m \<Longrightarrow> obeys R m' \<Longrightarrow> obeys R (if c then m else m')"
  by simp

lemma option_in:
  "obeys R m \<Longrightarrow> (\<And>x. obeys R (f x)) \<Longrightarrow> obeys R (case_option m f oo)"
  by (cases oo) auto

lemma sum_in:
  "(\<And>x. obeys R (f x)) \<Longrightarrow> (\<And>y. obeys R (g y)) \<Longrightarrow> obeys R (case_sum f g x)"
  by (cases x) auto

lemmas closure_rules =
  ret_in raise_in gets_in lift_res_in bind_in catch_in on_error_in attempt_in if_in option_in sum_in

end

text \<open>Two families of contracts every component uses: a projection that is not written,
  and an invariant that is kept.\<close>

interpretation frame: contract "\<lambda>s t. f t = f s" for f
  by unfold_locales auto

interpretation keep: contract "\<lambda>s t. I s \<longrightarrow> I t" for I
  by unfold_locales auto

abbreviation frames :: "('s \<Rightarrow> 'x) \<Rightarrow> ('s, 'a) action \<Rightarrow> bool" where
  "frames f m \<equiv> obeys (\<lambda>s t. f t = f s) m"

abbreviation keeps :: "('s \<Rightarrow> bool) \<Rightarrow> ('s, 'a) action \<Rightarrow> bool" where
  "keeps I m \<equiv> obeys (\<lambda>s t. I s \<longrightarrow> I t) m"

section \<open>Runs of a machine given by its calls\<close>

text \<open>
  A component is driven by a sequence of calls, each of which may raise; the caller goes
  on with the state the call left.
\<close>

fun run :: "('c \<Rightarrow> ('s, 'a) action) \<Rightarrow> 's \<Rightarrow> 'c list \<Rightarrow> 's" where
  "run exec s [] = s"
| "run exec s (c # cs) = run exec (snd (exec c s)) cs"

lemma run_append: "run exec s (cs @ ds) = run exec (run exec s cs) ds"
  by (induction cs arbitrary: s) auto

lemma run_obeys:
  assumes "contract R" and "\<And>c. obeys R (exec c)"
  shows "R s (run exec s cs)"
proof (induction cs arbitrary: s)
  case Nil
  show ?case using assms(1) by (simp add: contract_def)
next
  case (Cons c cs)
  have "R s (snd (exec c s))" using assms(2) by (rule obeysD)
  with Cons.IH assms(1) show ?case by (auto intro: contract.contract_trans)
qed

section \<open>Dictionaries\<close>

text \<open>
  A Python dictionary keeps its keys in insertion order, and assigning to a present key
  keeps its place: exactly \<^const>\<open>AList.update\<close>. \<^const>\<open>map_of\<close> is \<^verbatim>\<open>dict.get\<close>.
\<close>

type_synonym ('k, 'v) dict = "('k \<times> 'v) list"

abbreviation dict_set :: "'k \<Rightarrow> 'v \<Rightarrow> ('k, 'v) dict \<Rightarrow> ('k, 'v) dict" where
  "dict_set k v d \<equiv> AList.update k v d"

abbreviation dict_del :: "'k \<Rightarrow> ('k, 'v) dict \<Rightarrow> ('k, 'v) dict" where
  "dict_del k d \<equiv> AList.delete k d"

abbreviation dict_values :: "('k, 'v) dict \<Rightarrow> 'v list" where
  "dict_values d \<equiv> map snd d"

text \<open>The dictionary of a component is well formed when its keys are distinct (true of every
  Python dictionary) and each value is filed under its own identifier.\<close>

definition keyed :: "('v \<Rightarrow> 'k) \<Rightarrow> ('k, 'v) dict \<Rightarrow> bool" where
  "keyed key d \<longleftrightarrow> distinct (map fst d) \<and> list_all (\<lambda>(k, v). key v = k) d"

lemma keyed_Nil [simp]: "keyed key []"
  by (simp add: keyed_def)

lemma keyed_distinct: "keyed key d \<Longrightarrow> distinct (map fst d)"
  by (simp add: keyed_def)

lemma keyed_lookup: "keyed key d \<Longrightarrow> map_of d k = Some v \<Longrightarrow> key v = k"
  by (auto simp: keyed_def list_all_iff dest: map_of_SomeD)

lemma set_update_cases: "x \<in> set (dict_set k v d) \<Longrightarrow> x = (k, v) \<or> x \<in> set d"
  by (induction d) (auto split: if_splits)

lemma keyed_update: "keyed key d \<Longrightarrow> key v = k \<Longrightarrow> keyed key (dict_set k v d)"
  by (auto simp: keyed_def list_all_iff distinct_update dest!: set_update_cases)

lemma keyed_value_iff:
  "keyed key d \<Longrightarrow> v \<in> set (dict_values d) \<longleftrightarrow> map_of d (key v) = Some v"
  by (force simp: keyed_def list_all_iff image_iff dest: map_of_SomeD intro: map_of_is_SomeI)

lemma map_of_update [simp]: "map_of (dict_set k v d) = (map_of d)(k \<mapsto> v)"
  by (rule update_conv')

lemma map_of_delete' [simp]: "map_of (dict_del k d) = (map_of d)(k := None)"
  by (rule delete_conv')

text \<open>Totals over the values of a dictionary: a new key adds, an old key replaces.\<close>

definition dict_total :: "('v \<Rightarrow> int) \<Rightarrow> ('k, 'v) dict \<Rightarrow> int" where
  "dict_total f d = sum_list (map (f \<circ> snd) d)"

lemma dict_total_Nil [simp]: "dict_total f [] = 0"
  by (simp add: dict_total_def)

lemma dict_total_insert: "map_of d k = None \<Longrightarrow> dict_total f (dict_set k v d) = dict_total f d + f v"
  by (induction d) (auto simp: dict_total_def split: if_splits)

lemma dict_total_replace:
  "map_of d k = Some w \<Longrightarrow> dict_total f (dict_set k v d) = dict_total f d - f w + f v"
  by (induction d) (auto simp: dict_total_def split: if_splits)

lemma dict_total_nonneg: "\<forall>v \<in> set (dict_values d). 0 \<le> f v \<Longrightarrow> 0 \<le> dict_total f d"
  by (induction d) (auto simp: dict_total_def)

lemma dict_total_member_le:
  "\<forall>v \<in> set (dict_values d). 0 \<le> f v \<Longrightarrow> map_of d k = Some w \<Longrightarrow> f w \<le> dict_total f d"
proof (induction d)
  case (Cons p d)
  then show ?case
    using dict_total_nonneg [of d f] by (cases p) (auto simp: dict_total_def split: if_splits)
qed simp

section \<open>Values of a \<^verbatim>\<open>dict[str, Any]\<close>\<close>

text \<open>
  Floats are rationals with the two infinities and NaN; every comparison with NaN is
  false, as in IEEE 754.
\<close>

datatype pyfloat = Fin rat | PosInf | NegInf | NaN

fun float_le :: "pyfloat \<Rightarrow> pyfloat \<Rightarrow> bool" where
  "float_le NaN y = False"
| "float_le x NaN = False"
| "float_le NegInf y = True"
| "float_le x PosInf = True"
| "float_le (Fin a) (Fin b) = (a \<le> b)"
| "float_le x y = False"

datatype pyval =
    PNone
  | PBool bool
  | PInt int
  | PFloat pyfloat
  | PStr string
  | PList "pyval list"
  | PDict "(string \<times> pyval) list"

type_synonym pydict = "(string, pyval) dict"

text \<open>The truth value of an object.\<close>

fun truthy :: "pyval \<Rightarrow> bool" where
  "truthy PNone \<longleftrightarrow> False"
| "truthy (PBool b) \<longleftrightarrow> b"
| "truthy (PInt i) \<longleftrightarrow> i \<noteq> 0"
| "truthy (PFloat x) \<longleftrightarrow> x \<noteq> Fin 0"
| "truthy (PStr s) \<longleftrightarrow> s \<noteq> []"
| "truthy (PList vs) \<longleftrightarrow> vs \<noteq> []"
| "truthy (PDict d) \<longleftrightarrow> d \<noteq> []"

text \<open>\<^verbatim>\<open>str.lower\<close>.\<close>

definition lower_char :: "char \<Rightarrow> char" where
  "lower_char c = (let n = of_char c :: nat in
     if 65 \<le> n \<and> n \<le> 90 \<or> 192 \<le> n \<and> n \<le> 222 \<and> n \<noteq> 215 then char_of (n + 32) else c)"

definition lower :: "string \<Rightarrow> string" where
  "lower s = map lower_char s"

end
