(* ===== verification/Environment.thy ===== *)
theory Environment
  imports Prelude "HOL-Library.Word"
begin

unbundle bit_operations_syntax

text \<open>
  What the components draw from the outside: random identifiers (\<^verbatim>\<open>str(uuid.uuid4())\<close>)
  and the wall clock (\<^verbatim>\<open>datetime.now(timezone.utc)\<close>). Both are read from an arbitrary
  source carried in the state, so every theorem holds for every sequence of random bits
  and every clock, including clocks that jump.
\<close>

section \<open>Random identifiers\<close>

definition hex_digit :: "nat \<Rightarrow> char" where
  "hex_digit n = ''0123456789abcdef'' ! (n mod 16)"

definition uuid_hex :: "128 word \<Rightarrow> string" where
  "uuid_hex w = map (\<lambda>i. hex_digit (unat (take_bit 4 (drop_bit (4 * i) w)))) (rev [0..<32])"

text \<open>\<^verbatim>\<open>UUID.__str__\<close>: 32 hexadecimal digits in groups of 8, 4, 4, 4 and 12.\<close>

definition uuid_str :: "128 word \<Rightarrow> string" where
  "uuid_str w = (let h = uuid_hex w in
     take 8 h @ ''-'' @ take 4 (drop 8 h) @ ''-'' @ take 4 (drop 12 h) @ ''-''
       @ take 4 (drop 16 h) @ ''-'' @ drop 20 h)"

text \<open>\<^verbatim>\<open>uuid4\<close> fixes the variant and version bits of 128 random ones.\<close>

definition uuid4_bits :: "128 word \<Rightarrow> 128 word" where
  "uuid4_bits w =
     ((((w AND NOT (push_bit 48 0xc000)) OR push_bit 48 0x8000)
        AND NOT (push_bit 64 0xf000)) OR push_bit 76 4)"

lemma length_uuid_hex [simp]: "length (uuid_hex w) = 32"
  by (simp add: uuid_hex_def)

lemma length_uuid_str: "length (uuid_str w) = 36"
  by (simp add: uuid_str_def Let_def)

lemma uuid_str_nonempty [simp]: "uuid_str w \<noteq> []"
  using length_uuid_str [of w] by auto

section \<open>The source state\<close>

text \<open>A point in time is a number of microseconds since the epoch, in UTC, between the first and the
  last microsecond a Python \<^verbatim>\<open>datetime\<close> can hold (the years 1 to 9999).\<close>

definition first_micro :: int where
  "first_micro = -62135596800000000"

definition last_micro :: int where
  "last_micro = 253402300799999999"

typedef datetime = "{t. first_micro \<le> t \<and> t \<le> last_micro}"
  morphisms micros_of at_micros
  by (rule exI [of _ 0]) (simp add: first_micro_def last_micro_def)

setup_lifting type_definition_datetime

lemma micros_of_range: "first_micro \<le> micros_of t" "micros_of t \<le> last_micro"
  using micros_of [of t] by auto

lemma at_micros_of [simp]: "at_micros (micros_of t) = t"
  by (rule micros_of_inverse)

text \<open>
  \<^verbatim>\<open>datetime.isoformat()\<close> of an aware UTC time: the civil date of a day number (proleptic
  Gregorian calendar), the time of day, the microseconds only when they are not zero.
\<close>

definition civil :: "int \<Rightarrow> int \<times> int \<times> int" where
  "civil days =
     (let z = days + 719468; era = z div 146097; doe = z mod 146097;
          yoe = (doe - doe div 1460 + doe div 36524 - doe div 146096) div 365;
          doy = doe - (365 * yoe + yoe div 4 - yoe div 100);
          mp = (5 * doy + 2) div 153;
          m = (if mp < 10 then mp + 3 else mp - 9)
      in (yoe + era * 400 + (if m \<le> 2 then 1 else 0), m, doy - (153 * mp + 2) div 5 + 1))"

fun padded :: "nat \<Rightarrow> int \<Rightarrow> string" where
  "padded 0 n = []"
| "padded (Suc w) n = padded w (n div 10) @ [hex_digit (nat (n mod 10))]"

definition isoformat :: "datetime \<Rightarrow> string" where
  "isoformat t =
     (let day = micros_of t div 86400000000; us = micros_of t mod 86400000000; sec = us div 1000000;
          frac = us mod 1000000
      in case civil day of (y, m, d) \<Rightarrow>
           padded 4 y @ ''-'' @ padded 2 m @ ''-'' @ padded 2 d @ ''T''
             @ padded 2 (sec div 3600) @ '':'' @ padded 2 (sec div 60 mod 60) @ '':''
             @ padded 2 (sec mod 60)
             @ (if frac = 0 then [] else ''.'' @ padded 6 frac) @ ''+00:00'')"

record env_world =
  uuid_src :: "nat \<Rightarrow> 128 word"
  clock_src :: "nat \<Rightarrow> datetime"
  uuid_pos :: nat
  clock_pos :: nat

definition fresh_uuid :: "('z env_world_scheme, string) action" where
  [action_simps]: "fresh_uuid s =
     (Inr (uuid_str (uuid4_bits (uuid_src s (uuid_pos s)))), s\<lparr>uuid_pos := Suc (uuid_pos s)\<rparr>)"

definition now :: "('z env_world_scheme, datetime) action" where
  [action_simps]: "now s = (Inr (clock_src s (clock_pos s)), s\<lparr>clock_pos := Suc (clock_pos s)\<rparr>)"

text \<open>Drawing an identifier or reading the clock touches nothing else.\<close>

lemma fresh_uuid_more: "frames env_world.more fresh_uuid"
  by (simp add: obeys_def fresh_uuid_def)

lemma now_more: "frames env_world.more now"
  by (simp add: obeys_def now_def)

text \<open>A source for examples: identifier \<open>n\<close> is the number \<open>n\<close>, the clock ticks once a second.\<close>

definition demo_uuids :: "nat \<Rightarrow> 128 word" where
  "demo_uuids n = of_nat n"

lift_definition demo_clock :: "nat \<Rightarrow> datetime" is "\<lambda>n. int n mod 1000 * 1000000"
proof -
  fix n :: nat
  define k where "k = int n mod 1000"
  have "0 \<le> k" "k < 1000" by (simp_all add: k_def)
  then show "first_micro \<le> int n mod 1000 * 1000000 \<and> int n mod 1000 * 1000000 \<le> last_micro"
    unfolding first_micro_def last_micro_def k_def [symmetric] by simp
qed

end
