(* ===== verification/Audit_Log.thy ===== *)
theory Audit_Log
  imports Environment
begin

text \<open>
  The audit component: the audit record and its constructor's validation
  (\<^verbatim>\<open>audit/models.py\<close>), the sink interface (\<^verbatim>\<open>audit/interface.py\<close>) as a locale, and the
  in-memory sink (\<^verbatim>\<open>audit/memory_sink.py\<close>) as its lossless instance. The persistent sink
  is the theory \<open>Audit_Database\<close>.
\<close>

section \<open>Records\<close>

datatype audit_event_type =
    MemoryRetrieve
  | MemoryStore
  | MemoryForget
  | CommunicationSend
  | SchedulerTask
  | StrategySignalReceived
  | StrategySignalExecuted
  | RiskAssessment

datatype audit_action = AuditRequested | AuditCompleted | AuditFailed

datatype audit_result = AuditSuccess | AuditFailure

fun event_type_value :: "audit_event_type \<Rightarrow> string" where
  "event_type_value MemoryRetrieve = ''memory.retrieve''"
| "event_type_value MemoryStore = ''memory.store''"
| "event_type_value MemoryForget = ''memory.forget''"
| "event_type_value CommunicationSend = ''communication.send''"
| "event_type_value SchedulerTask = ''scheduler.task''"
| "event_type_value StrategySignalReceived = ''strategy_signal.received''"
| "event_type_value StrategySignalExecuted = ''strategy_signal.executed''"
| "event_type_value RiskAssessment = ''risk.assessment''"

fun action_value :: "audit_action \<Rightarrow> string" where
  "action_value AuditRequested = ''requested''"
| "action_value AuditCompleted = ''completed''"
| "action_value AuditFailed = ''failed''"

fun result_value :: "audit_result \<Rightarrow> string" where
  "result_value AuditSuccess = ''success''"
| "result_value AuditFailure = ''failure''"

record audit_record =
  ar_contract_version :: string
  ar_event_id :: string
  ar_event_type :: audit_event_type
  ar_operation_id :: string
  ar_agent_id :: string
  ar_timestamp :: datetime
  ar_action :: audit_action
  ar_resource :: string
  ar_result :: audit_result
  ar_metadata :: pydict

text \<open>The constructor checks \<^verbatim>\<open>Field(min_length=1)\<close> of the five string fields.\<close>

definition new_audit_record ::
  "string \<Rightarrow> string \<Rightarrow> audit_event_type \<Rightarrow> string \<Rightarrow> string \<Rightarrow> datetime \<Rightarrow> audit_action \<Rightarrow>
   string \<Rightarrow> audit_result \<Rightarrow> pydict \<Rightarrow> exn + audit_record" where
  "new_audit_record cv eid et opid ag t ac res rs md =
     (if cv = [] \<or> eid = [] \<or> opid = [] \<or> ag = [] \<or> res = [] then Inl validation_error
      else Inr \<lparr>ar_contract_version = cv, ar_event_id = eid, ar_event_type = et,
                ar_operation_id = opid, ar_agent_id = ag, ar_timestamp = t, ar_action = ac,
                ar_resource = res, ar_result = rs, ar_metadata = md\<rparr>)"

text \<open>What an auditor reads off a record, without the random identifier, the time and the
  metadata.\<close>

type_synonym audit_entry =
  "audit_event_type \<times> string \<times> string \<times> audit_action \<times> string \<times> audit_result"

definition entry :: "audit_record \<Rightarrow> audit_entry" where
  "entry r = (ar_event_type r, ar_operation_id r, ar_agent_id r, ar_action r, ar_resource r,
     ar_result r)"

section \<open>The sink interface\<close>

definition record_all :: "(audit_record \<Rightarrow> ('k, unit) action) \<Rightarrow> audit_record list \<Rightarrow> 'k \<Rightarrow> 'k" where
  "record_all snk rs k = fold (\<lambda>r k. snd (snk r k)) rs k"

text \<open>
  What the callers of \<^verbatim>\<open>AuditSink.record\<close> rely on: it never raises (an audit failure must
  not crash the pipeline), and the stored rows only ever grow by the image of the event.
\<close>

locale audit_sink =
  fixes sink :: "audit_record \<Rightarrow> ('k, unit) action"
    and rows :: "'k \<Rightarrow> 'r list"
    and view :: "audit_record \<Rightarrow> 'r"
  assumes quiet: "fst (sink r k) = Inr ()"
    and grows: "rows (snd (sink r k)) = rows k \<or> rows (snd (sink r k)) = rows k @ [view r]"
begin

lemma rows_record_all: "\<exists>qs. subseq qs rs \<and> rows (record_all sink rs k) = rows k @ map view qs"
proof (induction rs arbitrary: k)
  case Nil
  show ?case by (simp add: record_all_def)
next
  case (Cons r rs)
  obtain qs where qs: "subseq qs rs"
    "rows (record_all sink rs (snd (sink r k))) = rows (snd (sink r k)) @ map view qs"
    using Cons.IH by blast
  have "record_all sink (r # rs) k = record_all sink rs (snd (sink r k))"
    by (simp add: record_all_def)
  with qs grows [of r k] show ?case
    by (auto intro: exI [of _ qs] exI [of _ "r # qs"])
qed

lemma rows_prefix: "prefix (rows k) (rows (record_all sink rs k))"
  using rows_record_all [of rs k] by auto

end

locale lossless_sink = audit_sink +
  assumes lossless: "rows (snd (sink r k)) = rows k @ [view r]"
begin

lemma rows_record_all_eq: "rows (record_all sink rs k) = rows k @ map view rs"
proof (induction rs arbitrary: k)
  case Nil
  show ?case by (simp add: record_all_def)
next
  case (Cons r rs)
  have "record_all sink (r # rs) k = record_all sink rs (snd (sink r k))"
    by (simp add: record_all_def)
  then show ?case by (simp add: Cons.IH lossless)
qed

end

section \<open>The in-memory sink\<close>

record audit_world = env_world +
  audit_log :: "audit_record list"

definition memory_sink_record :: "audit_record \<Rightarrow> ('z audit_world_scheme, unit) action" where
  [action_simps]: "memory_sink_record ev = modify (\<lambda>s. s\<lparr>audit_log := audit_log s @ [ev]\<rparr>)"

definition memory_sink_events :: "'z audit_world_scheme \<Rightarrow> audit_record list" where
  "memory_sink_events s = audit_log s"

interpretation memory_sink: lossless_sink memory_sink_record memory_sink_events id
  by unfold_locales (auto simp: action_simps memory_sink_events_def)

definition trail :: "'z audit_world_scheme \<Rightarrow> audit_entry list" where
  "trail s = map entry (audit_log s)"

section \<open>The body shared by the components' audit methods\<close>

text \<open>
  Gateway, scheduler, forgetting and experience engine all record with a fresh identifier
  and the current time; only the fields differ. A field that is empty makes the
  constructor raise, and nothing is recorded.
\<close>

definition audit_event ::
  "audit_event_type \<Rightarrow> string \<Rightarrow> string \<Rightarrow> audit_action \<Rightarrow> string \<Rightarrow> audit_result \<Rightarrow> pydict \<Rightarrow>
   ('z audit_world_scheme, unit) action" where
  "audit_event et opid ag ac res rs md =
     bindA fresh_uuid (\<lambda>u.
     bindA now (\<lambda>t.
     bindA (lift_res (new_audit_record ''1.0'' u et opid ag t ac res rs md)) memory_sink_record))"

definition drawn :: "'z env_world_scheme \<Rightarrow> 'z env_world_scheme" where
  "drawn s = s\<lparr>uuid_pos := Suc (uuid_pos s), clock_pos := Suc (clock_pos s)\<rparr>"

definition stamped ::
  "audit_event_type \<Rightarrow> string \<Rightarrow> string \<Rightarrow> audit_action \<Rightarrow> string \<Rightarrow> audit_result \<Rightarrow> pydict \<Rightarrow>
   'z audit_world_scheme \<Rightarrow> audit_record" where
  "stamped et opid ag ac res rs md s =
     \<lparr>ar_contract_version = ''1.0'', ar_event_id = uuid_str (uuid4_bits (uuid_src s (uuid_pos s))),
      ar_event_type = et, ar_operation_id = opid, ar_agent_id = ag,
      ar_timestamp = clock_src s (clock_pos s), ar_action = ac, ar_resource = res,
      ar_result = rs, ar_metadata = md\<rparr>"

lemma audit_event_ok:
  assumes "opid \<noteq> []" "ag \<noteq> []" "res \<noteq> []"
  shows "audit_event et opid ag ac res rs md s =
    (Inr (), (drawn s)\<lparr>audit_log := audit_log s @ [stamped et opid ag ac res rs md s]\<rparr>)"
  using assms
  by (simp add: audit_event_def action_simps new_audit_record_def drawn_def stamped_def)

lemma audit_event_invalid:
  assumes "opid = [] \<or> ag = [] \<or> res = []"
  shows "audit_event et opid ag ac res rs md s = (Inl validation_error, drawn s)"
  using assms by (auto simp: audit_event_def action_simps new_audit_record_def drawn_def)

lemma audit_event_cases:
  "audit_event et opid ag ac res rs md s =
    (if opid \<noteq> [] \<and> ag \<noteq> [] \<and> res \<noteq> []
     then (Inr (), (drawn s)\<lparr>audit_log := audit_log s @ [stamped et opid ag ac res rs md s]\<rparr>)
     else (Inl validation_error, drawn s))"
  by (auto simp: audit_event_ok audit_event_invalid)

lemma entry_stamped [simp]: "entry (stamped et opid ag ac res rs md s) = (et, opid, ag, ac, res, rs)"
  by (simp add: entry_def stamped_def)

lemma drawn_more [simp]: "audit_log (drawn s) = audit_log s"
  "audit_world.more (drawn s) = audit_world.more s"
  by (simp_all add: drawn_def)

text \<open>Auditing writes the log and the sources, and nothing a later component adds.\<close>

lemma audit_event_frame: "frames audit_world.more (audit_event et opid ag ac res rs md)"
  by (simp add: obeys_def audit_event_cases)

text \<open>The log only grows: the contract every operation of every component is checked against.\<close>

definition log_extends :: "'z audit_world_scheme \<Rightarrow> 'z audit_world_scheme \<Rightarrow> bool" where
  "log_extends s t \<longleftrightarrow> prefix (audit_log s) (audit_log t)"

interpretation log: contract log_extends
  by unfold_locales (auto simp: log_extends_def)

lemma audit_event_log: "obeys log_extends (audit_event et opid ag ac res rs md)"
  by (simp add: obeys_def audit_event_cases log_extends_def)

end
