(* ===== verification/Transition_Table.thy ===== *)
theory Transition_Table
  imports Prelude
begin

text \<open>
  Two components keep a table of permitted status changes and a dictionary from agents to
  their status: the agent lifecycle (\<^verbatim>\<open>lifecycle/engine.py\<close>) and the runtime state manager
  (\<^verbatim>\<open>agent_runtime/state/engine.py\<close>). What such a table promises, and what follows for
  every run of a component that only changes a status along the table, is stated and proved
  here once.
\<close>

definition reaches :: "('a \<Rightarrow> 'a list) \<Rightarrow> 'a \<Rightarrow> 'a \<Rightarrow> bool" where
  "reaches nxt = (\<lambda>x y. y \<in> set (nxt x))\<^sup>*\<^sup>*"

lemma reaches_refl [simp]: "reaches nxt x x"
  by (simp add: reaches_def)

lemma reaches_step: "y \<in> set (nxt x) \<Longrightarrow> reaches nxt x y"
  by (auto simp: reaches_def)

lemma reaches_trans: "reaches nxt x y \<Longrightarrow> reaches nxt y z \<Longrightarrow> reaches nxt x z"
  by (auto simp: reaches_def)

lemma reaches_cons: "y \<in> set (nxt x) \<Longrightarrow> reaches nxt y z \<Longrightarrow> reaches nxt x z"
  by (blast intro: reaches_step reaches_trans)

lemma reaches_closed:
  assumes "reaches nxt x y" and "x \<in> S" and "\<And>u v. u \<in> S \<Longrightarrow> v \<in> set (nxt u) \<Longrightarrow> v \<in> S"
  shows "y \<in> S"
  using assms(1) unfolding reaches_def by (induction rule: rtranclp_induct) (use assms(2,3) in auto)

locale status_table =
  fixes nxt :: "'a \<Rightarrow> 'a list"
    and start :: 'a
    and final :: 'a
  assumes no_way_back: "start \<notin> set (nxt x)"
    and final_stuck: "nxt final = []"
    and final_within_reach: "reaches nxt x final"
begin

lemma final_absorbs: "reaches nxt final y \<Longrightarrow> y = final"
  using reaches_closed [of nxt final y "{final}"] final_stuck by auto

lemma never_back: "reaches nxt x start \<Longrightarrow> x = start"
  unfolding reaches_def by (induction rule: converse_rtranclp_induct) (use no_way_back in auto)

lemma only_final_stuck: "nxt x = [] \<Longrightarrow> x = final"
  using final_within_reach [of x] unfolding reaches_def
  by (induction rule: converse_rtranclp_induct) auto

end

text \<open>
  How the statuses of a store may evolve: a key that is present stays present, and its
  status moves along the table.
\<close>

definition evolves :: "('a \<Rightarrow> 'a list) \<Rightarrow> ('s \<Rightarrow> 'k \<Rightarrow> 'a option) \<Rightarrow> 's \<Rightarrow> 's \<Rightarrow> bool" where
  "evolves nxt status s t \<longleftrightarrow>
     (\<forall>k x. status s k = Some x \<longrightarrow> (\<exists>y. status t k = Some y \<and> reaches nxt x y))"

locale status_store = status_table nxt start final
  for nxt :: "'a \<Rightarrow> 'a list" and start :: 'a and final :: 'a +
  fixes status :: "'s \<Rightarrow> 'k \<Rightarrow> 'a option"
begin

lemma evolves_refl: "evolves nxt status s s"
  by (auto simp: evolves_def)

lemma evolves_trans: "evolves nxt status s t \<Longrightarrow> evolves nxt status t u \<Longrightarrow> evolves nxt status s u"
  unfolding evolves_def by (meson reaches_trans)

lemma final_stays: "evolves nxt status s t \<Longrightarrow> status s k = Some final \<Longrightarrow> status t k = Some final"
  unfolding evolves_def by (metis final_absorbs)

end

sublocale status_store \<subseteq> evolution: contract "evolves nxt status"
  by unfold_locales (rule evolves_refl, rule evolves_trans)

lemma evolves_update:
  assumes "\<And>k. k \<noteq> key \<Longrightarrow> status t k = status s k"
    and "status s key = Some x" and "status t key = Some y" and "reaches nxt x y"
  shows "evolves nxt status s t"
  unfolding evolves_def using assms by (metis option.inject reaches_refl)

lemma evolves_insert:
  assumes "\<And>k. k \<noteq> key \<Longrightarrow> status t k = status s k" and "status s key = None"
  shows "evolves nxt status s t"
  unfolding evolves_def using assms by (metis option.distinct(1) reaches_refl)

end
