(* ===== verification/Registry.thy ===== *)
theory Registry
  imports Audit_Log Transition_Table
begin

text \<open>
  Agent identities (\<^verbatim>\<open>identity/models.py\<close>), the registry (\<^verbatim>\<open>registry/registry.py\<close>) and the
  lifecycle engine that drives it (\<^verbatim>\<open>lifecycle/engine.py\<close>).
\<close>

section \<open>Identities\<close>

datatype agent_status =
    AgentCreated
  | AgentValidated
  | AgentReady
  | AgentRunning
  | AgentSuspended
  | AgentTerminated

fun agent_status_value :: "agent_status \<Rightarrow> string" where
  "agent_status_value AgentCreated = ''created''"
| "agent_status_value AgentValidated = ''validated''"
| "agent_status_value AgentReady = ''ready''"
| "agent_status_value AgentRunning = ''running''"
| "agent_status_value AgentSuspended = ''suspended''"
| "agent_status_value AgentTerminated = ''terminated''"

record agent_identity =
  id_agent_id :: string
  id_version :: string
  id_status :: agent_status

definition new_identity :: "string \<Rightarrow> string \<Rightarrow> agent_status \<Rightarrow> exn + agent_identity" where
  "new_identity a v st =
     (if a = [] \<or> v = [] then Inl validation_error
      else Inr \<lparr>id_agent_id = a, id_version = v, id_status = st\<rparr>)"

section \<open>The registry\<close>

record reg_world = audit_world +
  agents :: "(string, agent_identity) dict"

definition registry_register :: "agent_identity \<Rightarrow> ('z reg_world_scheme, unit) action" where
  "registry_register identity s =
     (if agent_status_value (id_status identity) \<noteq> ''validated''
      then raise (value_error ''Only validated agents may be registered.'') s
      else if map_of (agents s) (id_agent_id identity) \<noteq> None
      then raise (value_error ''Agent is already registered.'') s
      else (Inr (), s\<lparr>agents := dict_set (id_agent_id identity) identity (agents s)\<rparr>))"

definition registry_get :: "string \<Rightarrow> ('z reg_world_scheme, agent_identity option) action" where
  "registry_get aid =
     (if aid = [] then raise (value_error ''agent_id must not be empty.'')
      else gets (\<lambda>s. map_of (agents s) aid))"

definition registry_contains :: "string \<Rightarrow> ('z reg_world_scheme, bool) action" where
  "registry_contains aid = bindA (registry_get aid) (\<lambda>i. ret (i \<noteq> None))"

definition registry_replace :: "agent_identity \<Rightarrow> ('z reg_world_scheme, unit) action" where
  "registry_replace identity s =
     (if map_of (agents s) (id_agent_id identity) = None
      then raise (value_error ''Agent is not registered.'') s
      else if agent_status_value (id_status identity) = ''created''
      then raise (value_error ''Registered Agent cannot return to created state.'') s
      else (Inr (), s\<lparr>agents := dict_set (id_agent_id identity) identity (agents s)\<rparr>))"

section \<open>The lifecycle engine\<close>

fun lifecycle_transitions :: "agent_status \<Rightarrow> agent_status list" where
  "lifecycle_transitions AgentCreated = [AgentValidated]"
| "lifecycle_transitions AgentValidated = [AgentReady]"
| "lifecycle_transitions AgentReady = [AgentRunning, AgentTerminated]"
| "lifecycle_transitions AgentRunning = [AgentSuspended, AgentTerminated]"
| "lifecycle_transitions AgentSuspended = [AgentReady, AgentTerminated]"
| "lifecycle_transitions AgentTerminated = []"

definition lifecycle_transition ::
  "string \<Rightarrow> agent_status \<Rightarrow> ('z reg_world_scheme, agent_identity) action" where
  "lifecycle_transition aid target =
     bindA (registry_get aid) (\<lambda>found.
     case found of
       None \<Rightarrow> raise (permission_error ''Unknown Agent.'')
     | Some identity \<Rightarrow>
         (if target \<notin> set (lifecycle_transitions (id_status identity))
          then raise (value_error (''Invalid lifecycle transition: ''
                 @ agent_status_value (id_status identity) @ '' -> '' @ agent_status_value target))
          else let updated = identity\<lparr>id_status := target\<rparr> in
               bindA (registry_replace updated) (\<lambda>_. ret updated)))"

definition lifecycle_startup :: "string \<Rightarrow> ('z reg_world_scheme, agent_identity) action" where
  "lifecycle_startup aid =
     bindA (registry_get aid) (\<lambda>found.
     case found of
       None \<Rightarrow> raise (permission_error ''Unknown Agent.'')
     | Some identity \<Rightarrow>
         bindA (if id_status identity = AgentValidated
                then bindA (lifecycle_transition aid AgentReady) (\<lambda>_. ret ()) else ret ()) (\<lambda>_.
         bindA (registry_get aid) (\<lambda>again.
         case again of
           None \<Rightarrow> raise (runtime_error ''Agent disappeared during startup.'')
         | Some identity' \<Rightarrow>
             (if id_status identity' = AgentReady then lifecycle_transition aid AgentRunning
              else raise (value_error (''Agent cannot start from state: ''
                     @ agent_status_value (id_status identity')))))))"

definition lifecycle_suspend :: "string \<Rightarrow> ('z reg_world_scheme, agent_identity) action" where
  "lifecycle_suspend aid = lifecycle_transition aid AgentSuspended"

definition lifecycle_resume :: "string \<Rightarrow> ('z reg_world_scheme, agent_identity) action" where
  "lifecycle_resume aid = lifecycle_transition aid AgentReady"

definition lifecycle_shutdown :: "string \<Rightarrow> ('z reg_world_scheme, agent_identity) action" where
  "lifecycle_shutdown aid =
     bindA (registry_get aid) (\<lambda>found.
     case found of
       None \<Rightarrow> raise (permission_error ''Unknown Agent.'')
     | Some identity \<Rightarrow>
         (if id_status identity \<notin> {AgentReady, AgentRunning, AgentSuspended}
          then raise (value_error (''Agent cannot shutdown from state: ''
                 @ agent_status_value (id_status identity)))
          else lifecycle_transition aid AgentTerminated))"

section \<open>Facts about the registry\<close>

named_theorems registry_defs \<open>the registry and lifecycle operations\<close>

declare registry_register_def [registry_defs] registry_get_def [registry_defs]
  registry_contains_def [registry_defs] registry_replace_def [registry_defs]
  lifecycle_transition_def [registry_defs] lifecycle_startup_def [registry_defs]
  lifecycle_suspend_def [registry_defs] lifecycle_resume_def [registry_defs]
  lifecycle_shutdown_def [registry_defs]

lemma status_value_validated [simp]: "agent_status_value st = ''validated'' \<longleftrightarrow> st = AgentValidated"
  by (cases st) auto

lemma status_value_created [simp]: "agent_status_value st = ''created'' \<longleftrightarrow> st = AgentCreated"
  by (cases st) auto

text \<open>A well-formed registry: identities filed under their own, non-empty identifier, none of
  them in the created state.\<close>

definition registry_ok :: "'z reg_world_scheme \<Rightarrow> bool" where
  "registry_ok s \<longleftrightarrow> keyed id_agent_id (agents s) \<and>
     list_all (\<lambda>(a, i). id_status i \<noteq> AgentCreated) (agents s)"

lemma registry_ok_keyed: "registry_ok s \<Longrightarrow> map_of (agents s) a = Some i \<Longrightarrow> id_agent_id i = a"
  by (auto simp: registry_ok_def dest: keyed_lookup)

lemma registry_ok_update:
  "registry_ok s \<Longrightarrow> id_status i \<noteq> AgentCreated \<Longrightarrow>
   registry_ok (s\<lparr>agents := dict_set (id_agent_id i) i (agents s)\<rparr>)"
  by (auto simp: registry_ok_def list_all_iff intro: keyed_update dest!: set_update_cases)

lemma registry_register_ok: "keeps registry_ok (registry_register i)"
  by (auto simp: obeys_def registry_register_def raise_def intro: registry_ok_update)

lemma registry_replace_ok: "keeps registry_ok (registry_replace i)"
  by (auto simp: obeys_def registry_replace_def raise_def intro: registry_ok_update)

text \<open>Only the \<^const>\<open>agents\<close> field is written: neither the log nor anything declared later.\<close>

definition outside_registry :: "'z reg_world_scheme \<Rightarrow> audit_record list \<times> nat \<times> nat \<times> 'z" where
  "outside_registry s = (audit_log s, uuid_pos s, clock_pos s, reg_world.more s)"

lemma registry_register_frame: "frames outside_registry (registry_register i)"
  by (simp add: obeys_def registry_register_def raise_def outside_registry_def)

lemma registry_replace_frame: "frames outside_registry (registry_replace i)"
  by (simp add: obeys_def registry_replace_def raise_def outside_registry_def)

lemma registry_get_pure: "snd (registry_get a s) = s"
  by (simp add: registry_get_def action_simps)

lemma registry_get_value:
  "a \<noteq> [] \<Longrightarrow> registry_get a s = (Inr (map_of (agents s) a), s)"
  by (simp add: registry_get_def action_simps)

section \<open>Transitions\<close>

text \<open>The complete behaviour of a transition on a well-formed registry.\<close>

lemma lifecycle_transition_cases:
  assumes "registry_ok s"
  shows "lifecycle_transition aid target s =
    (if aid = [] then (Inl (value_error ''agent_id must not be empty.''), s)
     else case map_of (agents s) aid of
       None \<Rightarrow> (Inl (permission_error ''Unknown Agent.''), s)
     | Some i \<Rightarrow>
         (if target \<in> set (lifecycle_transitions (id_status i))
          then (Inr (i\<lparr>id_status := target\<rparr>),
                s\<lparr>agents := dict_set aid (i\<lparr>id_status := target\<rparr>) (agents s)\<rparr>)
          else (Inl (value_error (''Invalid lifecycle transition: ''
                  @ agent_status_value (id_status i) @ '' -> '' @ agent_status_value target)), s)))"
proof -
  have "AgentCreated \<notin> set (lifecycle_transitions st)" for st
    by (cases st) auto
  then show ?thesis
    using registry_ok_keyed [OF assms, of aid]
    by (auto simp: lifecycle_transition_def registry_get_def registry_replace_def action_simps
        Let_def split: option.splits)
qed

lemma lifecycle_terminates: "reaches lifecycle_transitions x AgentTerminated"
proof -
  have r: "reaches lifecycle_transitions AgentReady AgentTerminated"
    by (rule reaches_step) simp
  have v: "reaches lifecycle_transitions AgentValidated AgentTerminated"
    by (rule reaches_cons [OF _ r]) simp
  have c: "reaches lifecycle_transitions AgentCreated AgentTerminated"
    by (rule reaches_cons [OF _ v]) simp
  show ?thesis
    by (cases x) (simp_all add: r v c reaches_step)
qed

interpretation lifecycle: status_table lifecycle_transitions AgentCreated AgentTerminated
proof
  show "AgentCreated \<notin> set (lifecycle_transitions x)" for x
    by (cases x) auto
qed (simp_all add: lifecycle_terminates)

definition agent_status_of :: "'z reg_world_scheme \<Rightarrow> string \<Rightarrow> agent_status option" where
  "agent_status_of s a = map_option id_status (map_of (agents s) a)"

interpretation lifecycle_store:
  status_store lifecycle_transitions AgentCreated AgentTerminated agent_status_of
  by unfold_locales

lemma lifecycle_startup_cases:
  assumes ok: "registry_ok s"
  shows "lifecycle_startup aid s =
    (if aid = [] then (Inl (value_error ''agent_id must not be empty.''), s)
     else case map_of (agents s) aid of
       None \<Rightarrow> (Inl (permission_error ''Unknown Agent.''), s)
     | Some i \<Rightarrow>
         (if id_status i \<in> {AgentValidated, AgentReady}
          then (Inr (i\<lparr>id_status := AgentRunning\<rparr>),
                s\<lparr>agents := dict_set aid (i\<lparr>id_status := AgentRunning\<rparr>) (agents s)\<rparr>)
          else (Inl (value_error (''Agent cannot start from state: ''
                  @ agent_status_value (id_status i))), s)))"
proof -
  have ready: "registry_ok (s\<lparr>agents := dict_set aid (i\<lparr>id_status := AgentReady\<rparr>) (agents s)\<rparr>)"
    if "map_of (agents s) aid = Some i" for i
    using registry_ok_update [OF ok, of "i\<lparr>id_status := AgentReady\<rparr>"] registry_ok_keyed [OF ok that]
    by simp
  show ?thesis
    by (auto simp: lifecycle_startup_def registry_get_def action_simps ok ready
        lifecycle_transition_cases split: option.splits)
qed

lemma lifecycle_shutdown_cases:
  assumes "registry_ok s"
  shows "lifecycle_shutdown aid s =
    (if aid = [] then (Inl (value_error ''agent_id must not be empty.''), s)
     else case map_of (agents s) aid of
       None \<Rightarrow> (Inl (permission_error ''Unknown Agent.''), s)
     | Some i \<Rightarrow>
         (if id_status i \<in> {AgentReady, AgentRunning, AgentSuspended}
          then (Inr (i\<lparr>id_status := AgentTerminated\<rparr>),
                s\<lparr>agents := dict_set aid (i\<lparr>id_status := AgentTerminated\<rparr>) (agents s)\<rparr>)
          else (Inl (value_error (''Agent cannot shutdown from state: ''
                  @ agent_status_value (id_status i))), s)))"
  using assms
  by (auto simp: lifecycle_shutdown_def registry_get_def action_simps
      lifecycle_transition_cases split: option.splits)

section \<open>Runs of the lifecycle engine\<close>

datatype lifecycle_call =
    Register agent_identity
  | Transition string agent_status
  | Startup string
  | Suspend string
  | Resume string
  | Shutdown string
  | Lookup string

fun lifecycle_exec :: "lifecycle_call \<Rightarrow> ('z reg_world_scheme, agent_identity option) action" where
  "lifecycle_exec (Register i) = bindA (registry_register i) (\<lambda>_. ret None)"
| "lifecycle_exec (Transition a st) = bindA (lifecycle_transition a st) (\<lambda>i. ret (Some i))"
| "lifecycle_exec (Startup a) = bindA (lifecycle_startup a) (\<lambda>i. ret (Some i))"
| "lifecycle_exec (Suspend a) = bindA (lifecycle_suspend a) (\<lambda>i. ret (Some i))"
| "lifecycle_exec (Resume a) = bindA (lifecycle_resume a) (\<lambda>i. ret (Some i))"
| "lifecycle_exec (Shutdown a) = bindA (lifecycle_shutdown a) (\<lambda>i. ret (Some i))"
| "lifecycle_exec (Lookup a) = registry_get a"

definition same_versions :: "'z reg_world_scheme \<Rightarrow> 'z reg_world_scheme \<Rightarrow> bool" where
  "same_versions s t \<longleftrightarrow> (\<forall>a i. map_of (agents s) a = Some i \<longrightarrow>
     (\<exists>j. map_of (agents t) a = Some j \<and> id_version j = id_version i))"

definition lifecycle_contract :: "'z reg_world_scheme \<Rightarrow> 'z reg_world_scheme \<Rightarrow> bool" where
  "lifecycle_contract s t \<longleftrightarrow> outside_registry t = outside_registry s \<and>
     (registry_ok s \<longrightarrow>
        registry_ok t \<and> evolves lifecycle_transitions agent_status_of s t \<and> same_versions s t)"

interpretation lifecycle_runs: contract lifecycle_contract
proof
  show "lifecycle_contract s s" for s :: "'a reg_world_scheme"
    by (auto simp: lifecycle_contract_def same_versions_def lifecycle_store.evolves_refl)
  show "lifecycle_contract s u" if "lifecycle_contract s t" "lifecycle_contract t u"
    for s t u :: "'a reg_world_scheme"
    using that lifecycle_store.evolves_trans [of s t u]
    unfolding lifecycle_contract_def same_versions_def by metis
qed

lemma registry_register_runs: "obeys lifecycle_contract (registry_register i)"
proof (rule obeysI)
  fix s :: "'a reg_world_scheme"
  have "evolves lifecycle_transitions agent_status_of s (snd (registry_register i s))"
    if "map_of (agents s) (id_agent_id i) = None"
    using that
    by (auto simp: registry_register_def raise_def agent_status_of_def
        intro: evolves_insert [where key = "id_agent_id i"] lifecycle_store.evolves_refl)
  then show "lifecycle_contract s (snd (registry_register i s))"
    using obeysD [OF registry_register_ok [of i], of s]
      obeysD [OF registry_register_frame [of i], of s]
    by (auto simp: lifecycle_contract_def same_versions_def registry_register_def raise_def
        lifecycle_store.evolves_refl split: if_splits)
qed

lemma registry_get_runs: "obeys lifecycle_contract (registry_get a)"
  by (rule obeysI) (simp add: registry_get_pure lifecycle_runs.contract_refl)

lemma lifecycle_transition_runs: "obeys lifecycle_contract (lifecycle_transition a st)"
proof (rule obeysI)
  fix s :: "'a reg_world_scheme"
  have frame: "outside_registry (snd (lifecycle_transition a st s)) = outside_registry s"
    by (auto simp: lifecycle_transition_def registry_get_def registry_replace_def action_simps
        Let_def outside_registry_def split: option.splits)
  show "lifecycle_contract s (snd (lifecycle_transition a st s))"
  proof (cases "registry_ok s")
    case False
    with frame show ?thesis by (simp add: lifecycle_contract_def)
  next
    case True
    let ?t = "snd (lifecycle_transition a st s)"
    have nc: "AgentCreated \<notin> set (lifecycle_transitions x)" for x
      by (rule lifecycle.no_way_back)
    have "registry_ok ?t"
      using True registry_ok_update [OF True, of "i\<lparr>id_status := st\<rparr>" for i]
        registry_ok_keyed [OF True] nc
      by (fastforce simp: lifecycle_transition_cases split: option.splits)
    moreover have "same_versions s ?t"
      using True by (auto simp: same_versions_def lifecycle_transition_cases split: option.splits)
    moreover have "evolves lifecycle_transitions agent_status_of s ?t"
      using True
      by (auto simp: lifecycle_transition_cases agent_status_of_def lifecycle_store.evolves_refl
          intro!: evolves_update [where key = a] reaches_step split: option.splits)
    ultimately show ?thesis
      using frame by (simp add: lifecycle_contract_def)
  qed
qed

lemmas lifecycle_runs_rules =
  lifecycle_runs.closure_rules registry_register_runs registry_get_runs lifecycle_transition_runs

lemma lifecycle_exec_runs: "obeys lifecycle_contract (lifecycle_exec c)"
proof (cases c)
  case (Startup a)
  have "obeys lifecycle_contract (lifecycle_startup a)"
    unfolding lifecycle_startup_def by (intro lifecycle_runs_rules)
  with Startup show ?thesis by (auto intro!: lifecycle_runs_rules)
next
  case (Shutdown a)
  have "obeys lifecycle_contract (lifecycle_shutdown a)"
    unfolding lifecycle_shutdown_def by (intro lifecycle_runs_rules)
  with Shutdown show ?thesis by (auto intro!: lifecycle_runs_rules)
qed (auto simp: lifecycle_suspend_def lifecycle_resume_def intro!: lifecycle_runs_rules)

lemma lifecycle_run_contract: "lifecycle_contract s (run lifecycle_exec s cs)"
  by (rule run_obeys [OF lifecycle_runs.contract_axioms lifecycle_exec_runs])

section \<open>Properties\<close>

definition reg_demo :: "(string, agent_identity) dict \<Rightarrow> reg_world" where
  "reg_demo ags = \<lparr>uuid_src = demo_uuids, clock_src = demo_clock, uuid_pos = 0, clock_pos = 0,
     audit_log = [], agents = ags\<rparr>"

definition demo_agent :: "string \<Rightarrow> agent_status \<Rightarrow> agent_identity" where
  "demo_agent a st = \<lparr>id_agent_id = a, id_version = ''v1'', id_status = st\<rparr>"

text \<open>
  C12. Whatever calls the lifecycle engine and the registry's registration serve, in any order
  and whether or not they raise, a registered agent stays registered with the same version, its
  status moves along the transition table, it never is in the created state, and once
  terminated it stays terminated; the registry stays well formed and nothing outside it is
  written.
\<close>

theorem lifecycle_runs_follow_table:
  assumes ok: "registry_ok s" and found: "map_of (agents s) a = Some i"
    and ran: "t = run lifecycle_exec s cs"
  shows "\<exists>j. map_of (agents t) a = Some j \<and> id_agent_id j = a \<and> id_version j = id_version i
      \<and> reaches lifecycle_transitions (id_status i) (id_status j)
      \<and> id_status j \<noteq> AgentCreated
      \<and> (id_status i = AgentTerminated \<longrightarrow> id_status j = AgentTerminated)
      \<and> registry_ok t \<and> outside_registry t = outside_registry s"
proof -
  have c: "lifecycle_contract s t" unfolding ran by (rule lifecycle_run_contract)
  with ok have t: "registry_ok t" "outside_registry t = outside_registry s"
    by (auto simp: lifecycle_contract_def)
  from c ok found obtain j where j: "map_of (agents t) a = Some j" "id_version j = id_version i"
    by (auto simp: lifecycle_contract_def same_versions_def)
  from c ok found j(1) have "reaches lifecycle_transitions (id_status i) (id_status j)"
    by (fastforce simp: lifecycle_contract_def evolves_def agent_status_of_def)
  moreover have "id_status j \<noteq> AgentCreated"
    using t(1) map_of_SomeD [OF j(1)] by (auto simp: registry_ok_def list_all_iff)
  ultimately show ?thesis
    using j t registry_ok_keyed [OF t(1) j(1)] lifecycle.final_absorbs by auto
qed

lemma reg_demo_valid:
  "registry_ok (reg_demo [(''a'', demo_agent ''a'' AgentValidated)])"
  "map_of (agents (reg_demo [(''a'', demo_agent ''a'' AgentValidated)])) ''a''
    = Some (demo_agent ''a'' AgentValidated)"
  by (simp_all add: registry_ok_def keyed_def reg_demo_def demo_agent_def)

theorem lifecycle_runs_follow_table_witness:
  "\<exists>j. map_of (agents (run lifecycle_exec
        (reg_demo [(''a'', demo_agent ''a'' AgentValidated)])
        [Startup ''a'', Resume ''a'', Suspend ''a'', Startup ''a'', Shutdown ''a''])) ''a'' = Some j
     \<and> id_version j = id_version (demo_agent ''a'' AgentValidated) \<and> id_status j \<noteq> AgentCreated"
  using lifecycle_runs_follow_table [OF reg_demo_valid refl] by blast

text \<open>
  Starting an agent: from the validated or the ready state the stored identity becomes
  running, with everything else about it unchanged; from any other state, for an unknown agent
  and for an empty identifier the call raises the documented error and writes nothing. In
  particular the error \<^verbatim>\<open>Agent disappeared during startup\<close> cannot occur, and a validated
  agent is never left half started.
\<close>

theorem lifecycle_startup_spec:
  assumes "registry_ok s"
  shows "lifecycle_startup aid s =
    (if aid = [] then (Inl (value_error ''agent_id must not be empty.''), s)
     else case map_of (agents s) aid of
       None \<Rightarrow> (Inl (permission_error ''Unknown Agent.''), s)
     | Some i \<Rightarrow>
         (if id_status i \<in> {AgentValidated, AgentReady}
          then (Inr (i\<lparr>id_status := AgentRunning\<rparr>),
                s\<lparr>agents := dict_set aid (i\<lparr>id_status := AgentRunning\<rparr>) (agents s)\<rparr>)
          else (Inl (value_error (''Agent cannot start from state: ''
                  @ agent_status_value (id_status i))), s)))"
  by (rule lifecycle_startup_cases [OF assms])

theorem lifecycle_startup_spec_witness:
  "lifecycle_startup ''a'' (reg_demo [(''a'', demo_agent ''a'' AgentValidated)]) =
    (Inr (demo_agent ''a'' AgentRunning), reg_demo [(''a'', demo_agent ''a'' AgentRunning)])"
  using lifecycle_startup_spec [of "reg_demo [(''a'', demo_agent ''a'' AgentValidated)]" "''a''"]
  by (simp add: registry_ok_def keyed_def reg_demo_def demo_agent_def)

end
