(* ===== verification/Permissions.thy ===== *)
theory Permissions
  imports Registry
begin

text \<open>
  Capabilities and permission sets (\<^verbatim>\<open>permissions/models.py\<close>), the permission engine
  (\<^verbatim>\<open>permissions/engine.py\<close>) and the policy engine (\<^verbatim>\<open>policy/engine.py\<close>), which the gateway
  asks before each memory operation.
\<close>

datatype capability = CapMemoryRetrieve | CapMemoryStore | CapMemoryForget

fun capability_value :: "capability \<Rightarrow> string" where
  "capability_value CapMemoryRetrieve = ''memory.retrieve''"
| "capability_value CapMemoryStore = ''memory.store''"
| "capability_value CapMemoryForget = ''memory.forget''"

record permission_set =
  ps_agent_id :: string
  ps_capabilities :: "capability set"

definition new_permission_set :: "string \<Rightarrow> capability set \<Rightarrow> exn + permission_set" where
  "new_permission_set a cs =
     (if a = [] then Inl validation_error else Inr \<lparr>ps_agent_id = a, ps_capabilities = cs\<rparr>)"

record perm_world = reg_world +
  perms :: "(string, permission_set) dict"

definition permissions_grant :: "permission_set \<Rightarrow> ('z perm_world_scheme, unit) action" where
  "permissions_grant p = modify (\<lambda>s. s\<lparr>perms := dict_set (ps_agent_id p) p (perms s)\<rparr>)"

definition permissions_require :: "string \<Rightarrow> capability \<Rightarrow> ('z perm_world_scheme, unit) action" where
  "permissions_require aid c s =
     (case map_of (perms s) aid of
        None \<Rightarrow> raise (permission_error ''Agent has no registered permissions.'') s
      | Some p \<Rightarrow>
          (if c \<notin> ps_capabilities p
           then raise (permission_error (''Agent lacks capability: '' @ capability_value c)) s
           else ret () s))"

definition policy_validate :: "capability \<Rightarrow> ('s, unit) action" where
  "policy_validate c =
     (if c \<notin> {CapMemoryRetrieve, CapMemoryStore, CapMemoryForget}
      then raise (permission_error ''Policy rejected capability.'') else ret ())"

text \<open>What an agent may do: the capabilities of the set granted to it last.\<close>

definition holds_capability :: "'z perm_world_scheme \<Rightarrow> string \<Rightarrow> capability \<Rightarrow> bool" where
  "holds_capability s aid c \<longleftrightarrow>
     (case map_of (perms s) aid of None \<Rightarrow> False | Some p \<Rightarrow> c \<in> ps_capabilities p)"

lemma permissions_require_pure [simp]: "snd (permissions_require a c s) = s"
  by (simp add: permissions_require_def action_simps split: option.split)

lemma permissions_require_iff [simp]:
  "fst (permissions_require a c s) = Inr () \<longleftrightarrow> holds_capability s a c"
  by (auto simp: permissions_require_def holds_capability_def action_simps split: option.split)

text \<open>The policy's allowed set lists every capability there is, so it never rejects one.\<close>

lemma policy_validate_total [simp]: "policy_validate c = ret ()"
  by (cases c) (simp_all add: policy_validate_def)

lemma grant_replaces:
  "holds_capability (snd (permissions_grant p s)) a c \<longleftrightarrow>
   (if a = ps_agent_id p then c \<in> ps_capabilities p else holds_capability s a c)"
  by (auto simp: permissions_grant_def holds_capability_def action_simps)

end
