(* ===== verification/Scheduler.thy ===== *)
theory Scheduler
  imports Permissions
begin

text \<open>
  The task scheduler: \<^verbatim>\<open>scheduler/models.py\<close> and \<^verbatim>\<open>scheduler/engine.py\<close>. Its state is the
  resource ledger and the dictionary of tasks; it reads the registry and writes the audit log.
\<close>

section \<open>Models\<close>

datatype task_priority = PriorityLow | PriorityNormal | PriorityHigh | PriorityCritical

datatype task_status = TaskQueued | TaskRunning | TaskCompleted | TaskFailed | TaskCancelled

record agent_task =
  tk_task_id :: string
  tk_agent_id :: string
  tk_priority :: task_priority
  tk_resource_units :: int
  tk_status :: task_status

definition new_agent_task ::
  "string \<Rightarrow> string \<Rightarrow> task_priority \<Rightarrow> int \<Rightarrow> task_status \<Rightarrow> exn + agent_task" where
  "new_agent_task tid aid pr units st =
     (if tid = [] \<or> aid = [] \<or> units < 1 then Inl validation_error
      else Inr \<lparr>tk_task_id = tid, tk_agent_id = aid, tk_priority = pr,
                tk_resource_units = units, tk_status = st\<rparr>)"

record scheduler_resources =
  rs_capacity :: int
  rs_available :: int

text \<open>Both the field constraints and the model validator surface as pydantic's error.\<close>

definition new_scheduler_resources :: "int \<Rightarrow> int \<Rightarrow> exn + scheduler_resources" where
  "new_scheduler_resources cap avail =
     (if cap < 1 \<or> avail < 0 then Inl validation_error
      else if avail > cap then Inl validation_error
      else Inr \<lparr>rs_capacity = cap, rs_available = avail\<rparr>)"

section \<open>The engine\<close>

record sched_world = perm_world +
  resources :: scheduler_resources
  tasks :: "(string, agent_task) dict"

definition scheduler_init :: "scheduler_resources \<Rightarrow> 'z sched_world_scheme \<Rightarrow> 'z sched_world_scheme" where
  "scheduler_init r s = s\<lparr>resources := r, tasks := []\<rparr>"

fun priority_rank :: "task_priority \<Rightarrow> nat" where
  "priority_rank PriorityCritical = 0"
| "priority_rank PriorityHigh = 1"
| "priority_rank PriorityNormal = 2"
| "priority_rank PriorityLow = 3"

definition scheduler_audit ::
  "audit_action \<Rightarrow> audit_result \<Rightarrow> agent_task \<Rightarrow> ('z sched_world_scheme, unit) action" where
  "scheduler_audit ac rs t =
     audit_event SchedulerTask (tk_task_id t) (tk_agent_id t) ac (tk_task_id t) rs []"

definition scheduler_audit_rejection :: "agent_task \<Rightarrow> ('z sched_world_scheme, unit) action" where
  "scheduler_audit_rejection t = scheduler_audit AuditFailed AuditFailure t"

definition scheduler_reject :: "agent_task \<Rightarrow> exn \<Rightarrow> ('z sched_world_scheme, 'a) action" where
  "scheduler_reject t e = bindA (scheduler_audit_rejection t) (\<lambda>_. raise e)"

definition scheduler_submit :: "agent_task \<Rightarrow> ('z sched_world_scheme, agent_task) action" where
  "scheduler_submit t s =
     (if map_of (tasks s) (tk_task_id t) \<noteq> None
      then scheduler_reject t (value_error ''Task is already registered.'') s
      else if tk_status t \<noteq> TaskQueued
      then scheduler_reject t (value_error ''Only queued tasks may be submitted.'') s
      else bindA (registry_get (tk_agent_id t)) (\<lambda>found.
        case found of
          None \<Rightarrow> scheduler_reject t (permission_error ''Unknown Agent.'')
        | Some identity \<Rightarrow>
            (if id_status identity \<notin> {AgentReady, AgentRunning}
             then scheduler_reject t (permission_error ''Agent is not schedulable.'')
             else if tk_resource_units t > rs_capacity (resources s)
             then scheduler_reject t (runtime_error ''Task exceeds scheduler capacity.'')
             else bindA (modify (\<lambda>s. s\<lparr>tasks := dict_set (tk_task_id t) t (tasks s)\<rparr>)) (\<lambda>_.
                  bindA (scheduler_audit AuditRequested AuditSuccess t) (\<lambda>_. ret t)))) s)"

definition queued_tasks :: "'z sched_world_scheme \<Rightarrow> agent_task list" where
  "queued_tasks s = filter (\<lambda>t. tk_status t = TaskQueued) (dict_values (tasks s))"

definition task_rank :: "agent_task \<Rightarrow> nat \<times> string" where
  "task_rank t = (priority_rank (tk_priority t), tk_task_id t)"

definition scheduler_next_task :: "('z sched_world_scheme, agent_task option) action" where
  "scheduler_next_task = gets (\<lambda>s.
     if queued_tasks s = [] then None else Some (arg_min_list task_rank (queued_tasks s)))"

definition scheduler_get :: "string \<Rightarrow> ('z sched_world_scheme, agent_task option) action" where
  "scheduler_get tid =
     (if tid = [] then raise (value_error ''task_id must not be empty.'')
      else gets (\<lambda>s. map_of (tasks s) tid))"

definition scheduler_get_known :: "string \<Rightarrow> ('z sched_world_scheme, agent_task) action" where
  "scheduler_get_known tid =
     bindA (scheduler_get tid) (\<lambda>found.
     case found of None \<Rightarrow> raise (key_error ''Unknown task.'') | Some t \<Rightarrow> ret t)"

definition scheduler_start :: "string \<Rightarrow> ('z sched_world_scheme, agent_task) action" where
  "scheduler_start tid =
     bindA (scheduler_get_known tid) (\<lambda>t.
     if tk_status t \<noteq> TaskQueued
     then scheduler_reject t (value_error ''Only queued tasks may start.'')
     else bindA (registry_get (tk_agent_id t)) (\<lambda>found.
       case found of
         None \<Rightarrow> scheduler_reject t (permission_error ''Unknown Agent.'')
       | Some identity \<Rightarrow>
           (if id_status identity \<notin> {AgentReady, AgentRunning}
            then scheduler_reject t (permission_error ''Agent is not schedulable.'')
            else (\<lambda>s.
              if tk_resource_units t > rs_available (resources s)
              then scheduler_reject t (runtime_error ''Insufficient scheduler resources.'') s
              else let new_available = rs_available (resources s) - tk_resource_units t;
                       updated = t\<lparr>tk_status := TaskRunning\<rparr>
                   in bindA (modify (\<lambda>s.
                        s\<lparr>resources := (resources s)\<lparr>rs_available := new_available\<rparr>,
                          tasks := dict_set tid updated (tasks s)\<rparr>)) (\<lambda>_.
                      bindA (scheduler_audit AuditRequested AuditSuccess updated) (\<lambda>_.
                      ret updated)) s))))"

definition scheduler_finish :: "string \<Rightarrow> task_status \<Rightarrow> ('z sched_world_scheme, agent_task) action" where
  "scheduler_finish tid st =
     bindA (scheduler_get_known tid) (\<lambda>t.
     if tk_status t \<noteq> TaskRunning
     then scheduler_reject t (value_error ''Only running tasks may finish.'')
     else (\<lambda>s.
       let new_available = rs_available (resources s) + tk_resource_units t in
       if new_available > rs_capacity (resources s)
       then raise (runtime_error ''Scheduler resource accounting overflow.'') s
       else let updated = t\<lparr>tk_status := st\<rparr> in
            bindA (modify (\<lambda>s.
              s\<lparr>resources := (resources s)\<lparr>rs_available := new_available\<rparr>,
                tasks := dict_set tid updated (tasks s)\<rparr>)) (\<lambda>_.
            bindA (if st = TaskFailed then scheduler_audit AuditFailed AuditFailure updated
                   else scheduler_audit AuditCompleted AuditSuccess updated) (\<lambda>_.
            ret updated)) s))"

definition scheduler_complete :: "string \<Rightarrow> ('z sched_world_scheme, agent_task) action" where
  "scheduler_complete tid = scheduler_finish tid TaskCompleted"

definition scheduler_fail :: "string \<Rightarrow> ('z sched_world_scheme, agent_task) action" where
  "scheduler_fail tid = scheduler_finish tid TaskFailed"

definition scheduler_cancel :: "string \<Rightarrow> ('z sched_world_scheme, agent_task) action" where
  "scheduler_cancel tid = scheduler_finish tid TaskCancelled"

section \<open>The ledger and well-formed scheduler states\<close>

definition valid_task :: "agent_task \<Rightarrow> bool" where
  "valid_task t \<longleftrightarrow> tk_task_id t \<noteq> [] \<and> tk_agent_id t \<noteq> [] \<and> 1 \<le> tk_resource_units t"

lemma new_agent_task_valid: "new_agent_task tid aid pr u st = Inr t \<Longrightarrow> valid_task t"
  by (auto simp: new_agent_task_def valid_task_def split: if_splits)

definition held_units :: "agent_task \<Rightarrow> int" where
  "held_units t = (if tk_status t = TaskRunning then tk_resource_units t else 0)"

definition units_in_use :: "'z sched_world_scheme \<Rightarrow> int" where
  "units_in_use s = dict_total held_units (tasks s)"

text \<open>The units the scheduler accounts for: the free ones and those held by running tasks.\<close>

definition ledger :: "'z sched_world_scheme \<Rightarrow> int" where
  "ledger s = rs_available (resources s) + units_in_use s"

definition sched_ok :: "'z sched_world_scheme \<Rightarrow> bool" where
  "sched_ok s \<longleftrightarrow> keyed tk_task_id (tasks s)
     \<and> (\<forall>t \<in> set (dict_values (tasks s)).
          valid_task t \<and> tk_resource_units t \<le> rs_capacity (resources s))
     \<and> 0 \<le> rs_available (resources s) \<and> ledger s \<le> rs_capacity (resources s)"

lemma sched_ok_task:
  assumes "sched_ok s" and "map_of (tasks s) tid = Some t"
  shows "tk_task_id t = tid" and "valid_task t" and "tk_resource_units t \<le> rs_capacity (resources s)"
  using assms keyed_lookup [of tk_task_id "tasks s" tid t]
  by (force simp: sched_ok_def dest: map_of_SomeD)+

lemma held_units_nonneg: "sched_ok s \<Longrightarrow> \<forall>t \<in> set (dict_values (tasks s)). 0 \<le> held_units t"
  by (force simp: sched_ok_def held_units_def valid_task_def)

lemma sched_ok_bounds:
  assumes "sched_ok s"
  shows "0 \<le> units_in_use s" and "rs_available (resources s) \<le> rs_capacity (resources s)"
  using assms dict_total_nonneg [OF held_units_nonneg [OF assms]]
  by (auto simp: sched_ok_def ledger_def units_in_use_def)

text \<open>An agent whose tasks may be submitted and started.\<close>

definition schedulable :: "'z reg_world_scheme \<Rightarrow> string \<Rightarrow> bool" where
  "schedulable s aid \<longleftrightarrow> (case map_of (agents s) aid of
      None \<Rightarrow> False | Some i \<Rightarrow> id_status i \<in> {AgentReady, AgentRunning})"

section \<open>The operations, branch by branch\<close>

definition task_logged ::
  "audit_action \<Rightarrow> audit_result \<Rightarrow> agent_task \<Rightarrow> 'z sched_world_scheme \<Rightarrow> 'z sched_world_scheme" where
  "task_logged ac rs t s = (drawn s)\<lparr>audit_log := audit_log s @
     [stamped SchedulerTask (tk_task_id t) (tk_agent_id t) ac (tk_task_id t) rs [] s]\<rparr>"

lemma scheduler_audit_ok:
  "valid_task t \<Longrightarrow> scheduler_audit ac rs t s = (Inr (), task_logged ac rs t s)"
  by (simp add: scheduler_audit_def audit_event_ok valid_task_def task_logged_def)

lemma task_logged_fields [simp]:
  "tasks (task_logged ac rs t s) = tasks s"
  "resources (task_logged ac rs t s) = resources s"
  "agents (task_logged ac rs t s) = agents s"
  "perms (task_logged ac rs t s) = perms s"
  "sched_world.more (task_logged ac rs t s) = sched_world.more s"
  by (simp_all add: task_logged_def drawn_def)

lemma task_logged_trail [simp]:
  "trail (task_logged ac rs t s) =
     trail s @ [(SchedulerTask, tk_task_id t, tk_agent_id t, ac, tk_task_id t, rs)]"
  by (simp add: task_logged_def trail_def)

definition with_task :: "agent_task \<Rightarrow> int \<Rightarrow> 'z sched_world_scheme \<Rightarrow> 'z sched_world_scheme" where
  "with_task t avail s =
     s\<lparr>resources := (resources s)\<lparr>rs_available := avail\<rparr>,
       tasks := dict_set (tk_task_id t) t (tasks s)\<rparr>"

lemma with_task_fields [simp]:
  "tasks (with_task t avail s) = dict_set (tk_task_id t) t (tasks s)"
  "rs_available (resources (with_task t avail s)) = avail"
  "rs_capacity (resources (with_task t avail s)) = rs_capacity (resources s)"
  "agents (with_task t avail s) = agents s"
  "perms (with_task t avail s) = perms s"
  "audit_log (with_task t avail s) = audit_log s"
  "trail (with_task t avail s) = trail s"
  "sched_world.more (with_task t avail s) = sched_world.more s"
  by (simp_all add: with_task_def trail_def)

text \<open>Why a submission or a start is refused; \<^const>\<open>None\<close> means it is accepted.\<close>

definition submit_refusal :: "'z sched_world_scheme \<Rightarrow> agent_task \<Rightarrow> exn option" where
  "submit_refusal s t =
     (if map_of (tasks s) (tk_task_id t) \<noteq> None then Some (value_error ''Task is already registered.'')
      else if tk_status t \<noteq> TaskQueued then Some (value_error ''Only queued tasks may be submitted.'')
      else if map_of (agents s) (tk_agent_id t) = None then Some (permission_error ''Unknown Agent.'')
      else if \<not> schedulable s (tk_agent_id t) then Some (permission_error ''Agent is not schedulable.'')
      else if tk_resource_units t > rs_capacity (resources s)
      then Some (runtime_error ''Task exceeds scheduler capacity.'')
      else None)"

definition start_refusal :: "'z sched_world_scheme \<Rightarrow> agent_task \<Rightarrow> exn option" where
  "start_refusal s t =
     (if tk_status t \<noteq> TaskQueued then Some (value_error ''Only queued tasks may start.'')
      else if map_of (agents s) (tk_agent_id t) = None then Some (permission_error ''Unknown Agent.'')
      else if \<not> schedulable s (tk_agent_id t) then Some (permission_error ''Agent is not schedulable.'')
      else if tk_resource_units t > rs_available (resources s)
      then Some (runtime_error ''Insufficient scheduler resources.'')
      else None)"

lemmas scheduler_reject_simps =
  scheduler_reject_def scheduler_audit_rejection_def scheduler_audit_ok action_simps

lemma scheduler_submit_cases:
  assumes "valid_task t"
  shows "scheduler_submit t s =
    (case submit_refusal s t of
       Some e \<Rightarrow> (Inl e, task_logged AuditFailed AuditFailure t s)
     | None \<Rightarrow> (Inr t, task_logged AuditRequested AuditSuccess t
                        (with_task t (rs_available (resources s)) s)))"
  using assms
  by (auto simp: scheduler_submit_def submit_refusal_def scheduler_reject_simps registry_get_def
      valid_task_def schedulable_def with_task_def split: option.splits)

lemma scheduler_get_known_cases:
  "scheduler_get_known tid s =
    (if tid = [] then (Inl (value_error ''task_id must not be empty.''), s)
     else case map_of (tasks s) tid of
       None \<Rightarrow> (Inl (key_error ''Unknown task.''), s) | Some t \<Rightarrow> (Inr t, s))"
  by (simp add: scheduler_get_known_def scheduler_get_def action_simps split: option.split)

lemma scheduler_start_cases:
  assumes "sched_ok s"
  shows "scheduler_start tid s =
    (if tid = [] then (Inl (value_error ''task_id must not be empty.''), s)
     else case map_of (tasks s) tid of
       None \<Rightarrow> (Inl (key_error ''Unknown task.''), s)
     | Some t \<Rightarrow>
         (case start_refusal s t of
            Some e \<Rightarrow> (Inl e, task_logged AuditFailed AuditFailure t s)
          | None \<Rightarrow> (let u = t\<lparr>tk_status := TaskRunning\<rparr> in
              (Inr u, task_logged AuditRequested AuditSuccess u
                 (with_task u (rs_available (resources s) - tk_resource_units t) s)))))"
proof (cases "tid = [] \<or> map_of (tasks s) tid = None")
  case True
  then show ?thesis
    by (auto simp: scheduler_start_def scheduler_get_known_cases bindA_def)
next
  case False
  then obtain t where t: "tid \<noteq> []" "map_of (tasks s) tid = Some t" by auto
  from sched_ok_task [OF assms t(2)] have "tk_task_id t = tid" "valid_task t" by auto
  moreover from this have "valid_task (t\<lparr>tk_status := TaskRunning\<rparr>)" by (simp add: valid_task_def)
  ultimately show ?thesis using t
    by (auto simp: scheduler_start_def scheduler_get_known_cases start_refusal_def
        scheduler_reject_simps registry_get_def schedulable_def with_task_def Let_def
        valid_task_def [of t] split: option.splits)
qed

definition finish_entry :: "task_status \<Rightarrow> audit_action \<times> audit_result" where
  "finish_entry st = (if st = TaskFailed then (AuditFailed, AuditFailure)
     else (AuditCompleted, AuditSuccess))"

text \<open>The accounting overflow branch is not in the list: it cannot be reached.\<close>

lemma scheduler_finish_cases:
  assumes "sched_ok s"
  shows "scheduler_finish tid st s =
    (if tid = [] then (Inl (value_error ''task_id must not be empty.''), s)
     else case map_of (tasks s) tid of
       None \<Rightarrow> (Inl (key_error ''Unknown task.''), s)
     | Some t \<Rightarrow>
         (if tk_status t \<noteq> TaskRunning
          then (Inl (value_error ''Only running tasks may finish.''),
                task_logged AuditFailed AuditFailure t s)
          else (let u = t\<lparr>tk_status := st\<rparr> in
            (Inr u, task_logged (fst (finish_entry st)) (snd (finish_entry st)) u
               (with_task u (rs_available (resources s) + tk_resource_units t) s)))))"
proof (cases "tid = [] \<or> map_of (tasks s) tid = None")
  case True
  then show ?thesis
    by (auto simp: scheduler_finish_def scheduler_get_known_cases bindA_def)
next
  case False
  then obtain t where t: "tid \<noteq> []" "map_of (tasks s) tid = Some t" by auto
  from sched_ok_task [OF assms t(2)] have v: "tk_task_id t = tid" "valid_task t" by auto
  moreover from this have "valid_task (t\<lparr>tk_status := st\<rparr>)" by (simp add: valid_task_def)
  moreover have "\<not> rs_capacity (resources s) < rs_available (resources s) + tk_resource_units t"
    if "tk_status t = TaskRunning"
    using dict_total_member_le [OF held_units_nonneg [OF assms] t(2)] that assms
    by (auto simp: held_units_def [of t] sched_ok_def ledger_def units_in_use_def)
  ultimately show ?thesis using t
    by (auto simp: scheduler_finish_def scheduler_get_known_cases scheduler_reject_simps
        with_task_def Let_def finish_entry_def)
qed

section \<open>Runs\<close>

fun task_steps :: "task_status \<Rightarrow> task_status list" where
  "task_steps TaskQueued = [TaskRunning]"
| "task_steps TaskRunning = [TaskCompleted, TaskFailed, TaskCancelled]"
| "task_steps TaskCompleted = []"
| "task_steps TaskFailed = []"
| "task_steps TaskCancelled = []"

text \<open>A registered task stays registered, unchanged but for its status, which only moves
  forward.\<close>

definition tasks_evolve :: "'z sched_world_scheme \<Rightarrow> 'z sched_world_scheme \<Rightarrow> bool" where
  "tasks_evolve s t \<longleftrightarrow> (\<forall>k x. map_of (tasks s) k = Some x \<longrightarrow>
     (\<exists>y. map_of (tasks t) k = Some y \<and> y = x\<lparr>tk_status := tk_status y\<rparr>
        \<and> reaches task_steps (tk_status x) (tk_status y)))"

lemma tasks_evolve_refl: "tasks_evolve s s"
  by (simp add: tasks_evolve_def)

lemma tasks_evolve_trans: "tasks_evolve s t \<Longrightarrow> tasks_evolve t u \<Longrightarrow> tasks_evolve s u"
  unfolding tasks_evolve_def
  by (smt (verit, best) agent_task.surjective agent_task.update_convs(5) reaches_trans)

lemma tasks_evolve_same: "tasks t = tasks s \<Longrightarrow> tasks_evolve s t"
  by (simp add: tasks_evolve_def)

definition sched_contract :: "'z sched_world_scheme \<Rightarrow> 'z sched_world_scheme \<Rightarrow> bool" where
  "sched_contract s t \<longleftrightarrow> (sched_ok s \<longrightarrow> sched_ok t \<and> ledger t = ledger s
     \<and> rs_capacity (resources t) = rs_capacity (resources s)
     \<and> tasks_evolve s t \<and> prefix (trail s) (trail t))"

interpretation sched_runs: contract sched_contract
proof
  show "sched_contract s s" for s :: "'a sched_world_scheme"
    by (simp add: sched_contract_def tasks_evolve_refl)
  show "sched_contract s u" if "sched_contract s t" "sched_contract t u"
    for s t u :: "'a sched_world_scheme"
    using that tasks_evolve_trans [of s t u] by (auto simp: sched_contract_def)
qed

lemma sched_contract_quiet:
  assumes "tasks t = tasks s" "resources t = resources s" "prefix (trail s) (trail t)"
  shows "sched_contract s t"
  using assms
  by (auto simp: sched_contract_def sched_ok_def ledger_def units_in_use_def tasks_evolve_same)

text \<open>The one way tasks change: a task \<open>t\<close> is replaced by \<open>u\<close>, or a queued one is new, and
  the free units change by what \<open>t\<close> held and \<open>u\<close> holds.\<close>

lemma sched_contract_with_task:
  assumes old: "case map_of (tasks s) (tk_task_id u) of
      None \<Rightarrow> held_units u = 0 \<and> avail = rs_available (resources s)
    | Some t \<Rightarrow> u = t\<lparr>tk_status := tk_status u\<rparr> \<and> tk_status u \<in> set (task_steps (tk_status t))
        \<and> avail + held_units u = rs_available (resources s) + held_units t"
    and u: "sched_ok s \<Longrightarrow> valid_task u \<and> tk_resource_units u \<le> rs_capacity (resources s) \<and> 0 \<le> avail"
    and rest: "tasks v = tasks (with_task u avail s)" "resources v = resources (with_task u avail s)"
      "prefix (trail s) (trail v)"
  shows "sched_contract s v"
proof (unfold sched_contract_def, intro impI conjI)
  assume ok: "sched_ok s"
  show eq: "ledger v = ledger s"
    using old rest
    by (auto simp: ledger_def units_in_use_def dict_total_insert dict_total_replace
        split: option.splits)
  show cap: "rs_capacity (resources v) = rs_capacity (resources s)"
    using rest by simp
  show "sched_ok v"
    using ok u rest eq cap
    by (auto simp: sched_ok_def keyed_update dest!: set_update_cases)
  show "tasks_evolve s v"
    using old rest
    by (auto simp: tasks_evolve_def reaches_step split: option.splits if_splits)
qed (use rest in simp)

lemma submit_accepted:
  "submit_refusal s t = None \<longleftrightarrow> map_of (tasks s) (tk_task_id t) = None \<and> tk_status t = TaskQueued
     \<and> schedulable s (tk_agent_id t) \<and> tk_resource_units t \<le> rs_capacity (resources s)"
  by (auto simp: submit_refusal_def schedulable_def)

lemma start_accepted:
  "start_refusal s t = None \<longleftrightarrow> tk_status t = TaskQueued
     \<and> schedulable s (tk_agent_id t) \<and> tk_resource_units t \<le> rs_available (resources s)"
  by (auto simp: start_refusal_def schedulable_def)

lemma scheduler_submit_runs:
  assumes "valid_task t"
  shows "sched_contract s (snd (scheduler_submit t s))"
proof (cases "submit_refusal s t")
  case None
  then have a: "map_of (tasks s) (tk_task_id t) = None" "tk_status t = TaskQueued"
    "tk_resource_units t \<le> rs_capacity (resources s)"
    by (simp_all add: submit_accepted)
  show ?thesis
    by (rule sched_contract_with_task [where u = t and avail = "rs_available (resources s)"])
      (use a assms None in \<open>auto simp: scheduler_submit_cases held_units_def sched_ok_def\<close>)
next
  case (Some e)
  then show ?thesis
    by (intro sched_contract_quiet) (simp_all add: scheduler_submit_cases assms)
qed

lemma scheduler_start_runs: "sched_contract s (snd (scheduler_start tid s))"
proof (cases "sched_ok s")
  case ok: True
  show ?thesis
  proof (cases "tid = [] \<or> map_of (tasks s) tid = None")
    case False
    then obtain t where t: "tid \<noteq> []" "map_of (tasks s) tid = Some t" by auto
    show ?thesis
    proof (cases "start_refusal s t")
      case None
      then have a: "tk_status t = TaskQueued" "tk_resource_units t \<le> rs_available (resources s)"
        by (simp_all add: start_accepted)
      show ?thesis
        by (rule sched_contract_with_task [where u = "t\<lparr>tk_status := TaskRunning\<rparr>"
              and avail = "rs_available (resources s) - tk_resource_units t"])
          (use a t None sched_ok_task [OF ok t(2)] in
            \<open>auto simp: scheduler_start_cases [OF ok] held_units_def Let_def valid_task_def\<close>)
    next
      case (Some e)
      with t show ?thesis
        by (intro sched_contract_quiet) (simp_all add: scheduler_start_cases [OF ok])
    qed
  qed (auto simp: scheduler_start_cases [OF ok] sched_runs.contract_refl)
qed (simp add: sched_contract_def)

lemma scheduler_finish_runs:
  assumes "st \<in> {TaskCompleted, TaskFailed, TaskCancelled}"
  shows "sched_contract s (snd (scheduler_finish tid st s))"
proof (cases "sched_ok s")
  case ok: True
  show ?thesis
  proof (cases "tid = [] \<or> map_of (tasks s) tid = None")
    case False
    then obtain t where t: "tid \<noteq> []" "map_of (tasks s) tid = Some t" by auto
    note v = sched_ok_task [OF ok t(2)]
    have avail: "0 \<le> rs_available (resources s)"
      using ok by (simp add: sched_ok_def)
    show ?thesis
    proof (cases "tk_status t = TaskRunning")
      case True
      show ?thesis
        by (rule sched_contract_with_task [where u = "t\<lparr>tk_status := st\<rparr>"
              and avail = "rs_available (resources s) + tk_resource_units t"])
          (use True t v assms avail in
            \<open>auto simp: scheduler_finish_cases [OF ok] held_units_def Let_def valid_task_def\<close>)
    next
      case False
      with t show ?thesis
        by (intro sched_contract_quiet) (simp_all add: scheduler_finish_cases [OF ok])
    qed
  qed (auto simp: scheduler_finish_cases [OF ok] sched_runs.contract_refl)
qed (simp add: sched_contract_def)

text \<open>
  The calls a client makes. A submission carries the arguments of the task's constructor; the
  other engines that share the registry may change agents in between.
\<close>

datatype sched_call =
    Submit string string task_priority int task_status
  | NextTask
  | Start string
  | Complete string
  | Fail string
  | Cancel string
  | GetTask string
  | Agents lifecycle_call

fun sched_exec :: "sched_call \<Rightarrow> ('z sched_world_scheme, agent_task option) action" where
  "sched_exec (Submit tid aid pr u st) =
     bindA (lift_res (new_agent_task tid aid pr u st)) (\<lambda>t.
     bindA (scheduler_submit t) (\<lambda>t. ret (Some t)))"
| "sched_exec NextTask = scheduler_next_task"
| "sched_exec (Start tid) = bindA (scheduler_start tid) (\<lambda>t. ret (Some t))"
| "sched_exec (Complete tid) = bindA (scheduler_complete tid) (\<lambda>t. ret (Some t))"
| "sched_exec (Fail tid) = bindA (scheduler_fail tid) (\<lambda>t. ret (Some t))"
| "sched_exec (Cancel tid) = bindA (scheduler_cancel tid) (\<lambda>t. ret (Some t))"
| "sched_exec (GetTask tid) = scheduler_get tid"
| "sched_exec (Agents c) = bindA (lifecycle_exec c) (\<lambda>_. ret None)"

lemma lifecycle_exec_sched: "obeys sched_contract (lifecycle_exec c)"
proof (rule obeysI)
  fix s :: "'a sched_world_scheme"
  let ?t = "snd (lifecycle_exec c s)"
  have "outside_registry ?t = outside_registry s"
    using obeysD [OF lifecycle_exec_runs [of c], of s] by (simp add: lifecycle_contract_def)
  then have "reg_world.more ?t = reg_world.more s" "audit_log ?t = audit_log s"
    by (simp_all add: outside_registry_def)
  then have "tasks ?t = tasks s" "resources ?t = resources s" "trail ?t = trail s"
    by (cases ?t; cases s; simp add: trail_def)+
  then show "sched_contract s ?t" by (intro sched_contract_quiet) auto
qed

lemma sched_exec_runs: "obeys sched_contract (sched_exec c)"
proof (cases c)
  case (Submit tid aid pr u st)
  have "sched_contract s (snd (scheduler_submit t s))" if "new_agent_task tid aid pr u st = Inr t"
    for t and s :: "'a sched_world_scheme"
    by (rule scheduler_submit_runs [OF new_agent_task_valid [OF that]])
  with Submit show ?thesis
    by (auto simp: obeys_def action_simps sched_runs.contract_refl split: prod.splits sum.splits)
      (metis snd_conv)+
qed (auto simp: scheduler_complete_def scheduler_fail_def scheduler_cancel_def scheduler_get_def
    scheduler_next_task_def lifecycle_exec_sched scheduler_start_runs scheduler_finish_runs
    intro!: sched_runs.closure_rules obeysI [of sched_contract "scheduler_start tid" for tid]
      obeysI [of sched_contract "scheduler_finish tid st" for tid st])

lemma sched_run_contract: "sched_contract s (run sched_exec s cs)"
  by (rule run_obeys [OF sched_runs.contract_axioms sched_exec_runs])

section \<open>The queue\<close>

lemma queued_iff:
  "sched_ok s \<Longrightarrow> t \<in> set (queued_tasks s) \<longleftrightarrow>
     map_of (tasks s) (tk_task_id t) = Some t \<and> tk_status t = TaskQueued"
  by (auto simp: queued_tasks_def sched_ok_def simp flip: keyed_value_iff)

lemma queued_distinct:
  assumes "sched_ok s"
  shows "distinct (map tk_task_id (queued_tasks s))"
proof -
  have eq: "map tk_task_id (dict_values (tasks s)) = map fst (tasks s)"
    using assms by (auto simp: sched_ok_def keyed_def list_all_iff)
  have "distinct (map tk_task_id (dict_values (tasks s)))"
    unfolding eq using assms by (simp add: sched_ok_def keyed_def)
  then show ?thesis
    unfolding queued_tasks_def by (rule distinct_map_filter)
qed

lemma task_rank_inj: "sched_ok s \<Longrightarrow> inj_on task_rank (set (queued_tasks s))"
  by (auto simp: inj_on_def queued_iff task_rank_def)

text \<open>The order in which a queue is served: by priority, then by task identifier.\<close>

definition queue_order :: "'z sched_world_scheme \<Rightarrow> agent_task list" where
  "queue_order s = sort_key task_rank (queued_tasks s)"

lemma queue_order_set [simp]: "set (queue_order s) = set (queued_tasks s)"
  by (simp add: queue_order_def)

lemma queue_order_unique:
  assumes "sched_ok s" and "set ts = set (queued_tasks s)" and "sorted (map task_rank ts)"
    and "distinct (map task_rank ts)"
  shows "queue_order s = ts"
proof (rule map_sorted_distinct_set_unique [of task_rank])
  have d: "distinct (map task_rank (queued_tasks s))"
    using queued_distinct [OF assms(1)] task_rank_inj [OF assms(1)]
    by (simp add: distinct_map)
  show "sorted (map task_rank (queue_order s))" by (simp add: queue_order_def)
  show "distinct (map task_rank (queue_order s))"
    using d by (simp add: queue_order_def distinct_map)
qed (use assms task_rank_inj [OF assms(1)] in simp_all)

lemma next_task_order:
  assumes "sched_ok s"
  shows "scheduler_next_task s =
    (Inr (case queue_order s of [] \<Rightarrow> None | t # ts \<Rightarrow> Some t), s)"
proof (cases "queue_order s")
  case Nil
  then have "queued_tasks s = []" using queue_order_set [of s] by simp
  with Nil show ?thesis by (simp add: scheduler_next_task_def action_simps)
next
  case (Cons t ts)
  then have t: "t \<in> set (queued_tasks s)" using queue_order_set [of s] by (metis list.set_intros(1))
  then have ne: "queued_tasks s \<noteq> []" by auto
  have "sorted (map task_rank (queue_order s))" by (simp add: queue_order_def)
  with Cons have le: "task_rank t \<le> task_rank x" if "x \<in> set (queued_tasks s)" for x
    using that queue_order_set [of s] by auto
  let ?m = "arg_min_list task_rank (queued_tasks s)"
  have "?m \<in> set (queued_tasks s)" by (rule arg_min_list_in [OF ne])
  moreover have "task_rank ?m \<le> task_rank t"
    using t by (simp add: f_arg_min_list_f [OF ne])
  ultimately have "?m = t"
    using le t task_rank_inj [OF assms] by (metis antisym inj_onD)
  with Cons ne show ?thesis by (simp add: scheduler_next_task_def action_simps)
qed

section \<open>Serving the queue\<close>

text \<open>A worker that takes the next task, starts it and completes it.\<close>

definition serve_next :: "('z sched_world_scheme, unit) action" where
  "serve_next = bindA scheduler_next_task (\<lambda>n.
     case n of None \<Rightarrow> ret ()
     | Some t \<Rightarrow> bindA (scheduler_start (tk_task_id t)) (\<lambda>_.
                 bindA (scheduler_complete (tk_task_id t)) (\<lambda>_. ret ())))"

definition served :: "agent_task \<Rightarrow> audit_entry list" where
  "served t = map (\<lambda>ac. (SchedulerTask, tk_task_id t, tk_agent_id t, ac, tk_task_id t, AuditSuccess))
     [AuditRequested, AuditCompleted]"

definition all_free :: "'z sched_world_scheme \<Rightarrow> bool" where
  "all_free s \<longleftrightarrow> rs_available (resources s) = rs_capacity (resources s)
     \<and> (\<forall>t \<in> set (queued_tasks s). schedulable s (tk_agent_id t))"

lemma serve_next_state:
  assumes ok: "sched_ok s" and nt: "scheduler_next_task s = (Inr (Some t), s)"
    and t: "map_of (tasks s) (tk_task_id t) = Some t" "start_refusal s t = None"
  shows "\<exists>u. serve_next s = (Inr (), u) \<and> sched_ok u \<and> resources u = resources s
     \<and> agents u = agents s \<and> trail u = trail s @ served t
     \<and> map_of (tasks u) = (map_of (tasks s))(tk_task_id t \<mapsto> t\<lparr>tk_status := TaskCompleted\<rparr>)"
proof -
  have ne: "tk_task_id t \<noteq> []"
    using sched_ok_task [OF ok t(1)] by (simp add: valid_task_def)
  define r where "r = snd (scheduler_start (tk_task_id t) s)"
  have start: "scheduler_start (tk_task_id t) s = (Inr (t\<lparr>tk_status := TaskRunning\<rparr>), r)"
    and r: "r = task_logged AuditRequested AuditSuccess (t\<lparr>tk_status := TaskRunning\<rparr>)
        (with_task (t\<lparr>tk_status := TaskRunning\<rparr>)
          (rs_available (resources s) - tk_resource_units t) s)"
    using t ne by (simp_all add: r_def scheduler_start_cases [OF ok] Let_def)
  have okr: "sched_ok r"
    using scheduler_start_runs [of s "tk_task_id t"] ok by (simp add: r_def sched_contract_def)
  have tr: "map_of (tasks r) (tk_task_id t) = Some (t\<lparr>tk_status := TaskRunning\<rparr>)"
    by (simp add: r)
  define u where "u = snd (scheduler_complete (tk_task_id t) r)"
  have finish: "scheduler_complete (tk_task_id t) r = (Inr (t\<lparr>tk_status := TaskCompleted\<rparr>), u)"
    and u: "u = task_logged AuditCompleted AuditSuccess (t\<lparr>tk_status := TaskCompleted\<rparr>)
        (with_task (t\<lparr>tk_status := TaskCompleted\<rparr>)
          (rs_available (resources r) + tk_resource_units t) r)"
    using ne tr by (simp_all add: u_def scheduler_complete_def scheduler_finish_cases [OF okr]
        Let_def finish_entry_def)
  have "sched_ok u"
    using scheduler_finish_runs [of TaskCompleted r "tk_task_id t"] okr
    by (simp add: u_def scheduler_complete_def sched_contract_def)
  moreover have "serve_next s = (Inr (), u)"
    by (simp add: serve_next_def bindA_def nt start finish ret_def)
  moreover have "trail u = trail s @ served t"
    unfolding u r by (simp add: served_def)
  moreover have "resources u = resources s" "agents u = agents s"
    "map_of (tasks u) = (map_of (tasks s))(tk_task_id t \<mapsto> t\<lparr>tk_status := TaskCompleted\<rparr>)"
    unfolding u r by (simp_all add: with_task_def)
  ultimately show ?thesis by blast
qed

lemma serve_next_step:
  assumes ok: "sched_ok s" and free: "all_free s" and q: "queue_order s = t # ts"
  shows "\<exists>u. serve_next s = (Inr (), u) \<and> sched_ok u \<and> all_free u \<and> queue_order u = ts
     \<and> resources u = resources s
     \<and> map_of (tasks u) = (map_of (tasks s))(tk_task_id t \<mapsto> t\<lparr>tk_status := TaskCompleted\<rparr>)
     \<and> trail u = trail s @ served t"
proof -
  have "t \<in> set (queued_tasks s)"
    using q queue_order_set [of s] by (metis list.set_intros(1))
  then have t: "map_of (tasks s) (tk_task_id t) = Some t" "tk_status t = TaskQueued"
    and sch: "schedulable s (tk_agent_id t)"
    using free queued_iff [OF ok] by (auto simp: all_free_def)
  have acc: "start_refusal s t = None"
    using t sch sched_ok_task(3) [OF ok t(1)] free by (simp add: start_accepted all_free_def)
  have nt: "scheduler_next_task s = (Inr (Some t), s)"
    by (simp add: next_task_order [OF ok] q)
  obtain u where u: "serve_next s = (Inr (), u)" "sched_ok u" "resources u = resources s"
    "agents u = agents s" "trail u = trail s @ served t"
    and map: "map_of (tasks u) = (map_of (tasks s))(tk_task_id t \<mapsto> t\<lparr>tk_status := TaskCompleted\<rparr>)"
    using serve_next_state [OF ok nt t(1) acc] by blast
  have qu: "set (queued_tasks u) = set (queued_tasks s) - {t}"
  proof (rule set_eqI)
    fix x
    show "x \<in> set (queued_tasks u) \<longleftrightarrow> x \<in> set (queued_tasks s) - {t}"
    proof (cases "tk_task_id x = tk_task_id t")
      case True
      have "t\<lparr>tk_status := TaskCompleted\<rparr> \<noteq> t"
        using t(2) by (cases t) simp
      with True t show ?thesis by (auto simp: queued_iff [OF u(2)] queued_iff [OF ok] map)
    next
      case False
      then have "x \<noteq> t" by auto
      with False show ?thesis by (simp add: queued_iff [OF u(2)] queued_iff [OF ok] map)
    qed
  qed
  have rs: "sorted (map task_rank (queue_order s))" "distinct (map task_rank (queue_order s))"
    using queued_distinct [OF ok] task_rank_inj [OF ok]
    by (simp_all add: queue_order_def distinct_map)
  have ts: "sorted (map task_rank ts)" "distinct (map task_rank ts)"
    using rs unfolding q by simp_all
  have "t \<notin> set ts" "set (queued_tasks s) = insert t (set ts)"
    using rs(2) queue_order_set [of s] unfolding q by (auto simp: distinct_map)
  then have "set ts = set (queued_tasks u)" unfolding qu by blast
  then have "queue_order u = ts"
    by (rule queue_order_unique [OF u(2) _ ts])
  moreover have "all_free u"
    using free u qu by (simp add: all_free_def schedulable_def)
  ultimately show ?thesis using u map by blast
qed

fun serve :: "nat \<Rightarrow> 'z sched_world_scheme \<Rightarrow> 'z sched_world_scheme" where
  "serve 0 s = s"
| "serve (Suc n) s = serve n (snd (serve_next s))"

lemma serve_queue:
  assumes "sched_ok s" and "all_free s" and "queue_order s = ts"
  shows "queued_tasks (serve (length ts) s) = [] \<and> resources (serve (length ts) s) = resources s
    \<and> trail (serve (length ts) s) = trail s @ concat (map served ts)
    \<and> map_of (tasks (serve (length ts) s)) =
        map_of (tasks s) ++ (\<lambda>k. map_option (\<lambda>t. t\<lparr>tk_status := TaskCompleted\<rparr>)
          (map_of (map (\<lambda>t. (tk_task_id t, t)) ts) k))"
  using assms
proof (induction ts arbitrary: s)
  case Nil
  then have "queued_tasks s = []" using queue_order_set [of s] by simp
  with Nil show ?case by (simp add: map_add_def)
next
  case (Cons t ts)
  obtain u where u: "serve_next s = (Inr (), u)" "sched_ok u" "all_free u" "queue_order u = ts"
    "resources u = resources s"
    "map_of (tasks u) = (map_of (tasks s))(tk_task_id t \<mapsto> t\<lparr>tk_status := TaskCompleted\<rparr>)"
    "trail u = trail s @ served t"
    using serve_next_step [OF Cons.prems(1,2,3)] by blast
  have d: "distinct (map tk_task_id (t # ts))"
    using queued_distinct [OF Cons.prems(1)] Cons.prems(3) queue_order_def [of s]
    by (metis distinct_map distinct_sort queue_order_set)
  then have "map_of (map (\<lambda>t. (tk_task_id t, t)) ts) (tk_task_id t) = None"
    by (auto simp: map_of_eq_None_iff)
  with Cons.IH [OF u(2-4)] u show ?case
    by (auto simp: map_add_def fun_eq_iff split: option.splits)
qed

section \<open>Properties\<close>

lemma scheduler_init_ok:
  assumes "new_scheduler_resources cap avail = Inr r"
  shows "sched_ok (scheduler_init r s)" and "ledger (scheduler_init r s) = avail"
    and "rs_capacity (resources (scheduler_init r s)) = cap"
  using assms
  by (auto simp: new_scheduler_resources_def scheduler_init_def sched_ok_def ledger_def
      units_in_use_def split: if_splits)

definition sched_demo :: "agent_task list \<Rightarrow> sched_world" where
  "sched_demo ts = \<lparr>uuid_src = demo_uuids, clock_src = demo_clock, uuid_pos = 0, clock_pos = 0,
     audit_log = [], agents = [(''a'', demo_agent ''a'' AgentRunning)], perms = [],
     resources = \<lparr>rs_capacity = 4, rs_available = 4\<rparr>,
     tasks = map (\<lambda>t. (tk_task_id t, t)) ts\<rparr>"

definition demo_task :: "string \<Rightarrow> task_priority \<Rightarrow> int \<Rightarrow> agent_task" where
  "demo_task tid pr u = \<lparr>tk_task_id = tid, tk_agent_id = ''a'', tk_priority = pr,
     tk_resource_units = u, tk_status = TaskQueued\<rparr>"

definition demo_queue :: "agent_task list" where
  "demo_queue = [demo_task ''t1'' PriorityLow 3, demo_task ''t2'' PriorityHigh 2,
     demo_task ''t0'' PriorityHigh 4]"

lemmas sched_demo_simps = sched_demo_def demo_task_def demo_queue_def demo_agent_def

lemma demo_queue_ok: "sched_ok (sched_demo demo_queue)"
  by (simp add: sched_demo_simps sched_ok_def keyed_def valid_task_def ledger_def
      units_in_use_def dict_total_def held_units_def)

lemma demo_resources: "new_scheduler_resources 4 3 = Inr \<lparr>rs_capacity = 4, rs_available = 3\<rparr>"
  by (simp add: new_scheduler_resources_def)

text \<open>
  C3. Resource conservation. A scheduler created with \<open>avail\<close> free units out of \<open>cap\<close>: after
  any sequence of submissions, starts, completions, failures, cancellations, queries and
  lifecycle calls, refused ones included, the free units and the units of the running tasks
  still add up to \<open>avail\<close>, and neither is ever negative or above the capacity.
\<close>

theorem scheduler_conserves_resources:
  assumes "new_scheduler_resources cap avail = Inr r"
    and "t = run sched_exec (scheduler_init r s) cs"
  shows "rs_available (resources t) + units_in_use t = avail
    \<and> 0 \<le> rs_available (resources t) \<and> 0 \<le> units_in_use t
    \<and> rs_capacity (resources t) = cap \<and> avail \<le> cap"
proof -
  have "sched_contract (scheduler_init r s) t"
    unfolding assms(2) by (rule sched_run_contract)
  with scheduler_init_ok [OF assms(1), of s] have t: "sched_ok t" "ledger t = avail"
    "rs_capacity (resources t) = cap"
    by (auto simp: sched_contract_def)
  then show ?thesis
    using sched_ok_bounds [OF t(1)] by (auto simp: ledger_def sched_ok_def)
qed

theorem scheduler_conserves_resources_witness:
  "rs_available (resources (run sched_exec (scheduler_init \<lparr>rs_capacity = 4, rs_available = 3\<rparr>
      (sched_demo [])) [Submit ''t'' ''a'' PriorityLow 2 TaskQueued, Start ''t'']))
   + units_in_use (run sched_exec (scheduler_init \<lparr>rs_capacity = 4, rs_available = 3\<rparr>
      (sched_demo [])) [Submit ''t'' ''a'' PriorityLow 2 TaskQueued, Start ''t'']) = 3"
  using scheduler_conserves_resources [OF demo_resources refl] by blast

definition overflow_error :: exn where
  "overflow_error = runtime_error ''Scheduler resource accounting overflow.''"

lemma sched_exec_no_overflow:
  assumes ok: "sched_ok s"
  shows "fst (sched_exec c s) \<noteq> Inl overflow_error"
proof (cases c)
  case (Submit tid aid pr u st)
  have "fst (scheduler_submit x s) \<noteq> Inl overflow_error" if "new_agent_task tid aid pr u st = Inr x" for x
    using new_agent_task_valid [OF that]
    by (auto simp: scheduler_submit_cases submit_refusal_def overflow_error_def)
  with Submit show ?thesis
    by (auto simp: action_simps new_agent_task_def overflow_error_def split: prod.splits sum.splits if_splits)
next
  case (Agents lc)
  have "fst (lifecycle_exec lc s) \<noteq> Inl overflow_error"
    by (cases lc) (auto simp: registry_defs action_simps overflow_error_def Let_def
        split: prod.splits sum.splits option.splits if_splits)
  with Agents show ?thesis
    by (auto simp: action_simps split: prod.splits sum.splits)
qed (auto simp: scheduler_complete_def scheduler_fail_def scheduler_cancel_def scheduler_get_def
      scheduler_next_task_def scheduler_finish_cases [OF ok] scheduler_start_cases [OF ok]
      start_refusal_def action_simps overflow_error_def Let_def
      split: prod.splits sum.splits option.splits if_splits)

text \<open>
  The guard \<^verbatim>\<open>Scheduler resource accounting overflow\<close> is dead code: no call on any
  reachable scheduler raises it.
\<close>

theorem scheduler_never_overflows:
  assumes "new_scheduler_resources cap avail = Inr r"
  shows "fst (sched_exec c (run sched_exec (scheduler_init r s) cs)) \<noteq> Inl overflow_error"
proof (rule sched_exec_no_overflow)
  show "sched_ok (run sched_exec (scheduler_init r s) cs)"
    using sched_run_contract [of "scheduler_init r s" cs] scheduler_init_ok [OF assms, of s]
    by (simp add: sched_contract_def)
qed

theorem scheduler_never_overflows_witness:
  "fst (sched_exec (Complete ''t'') (run sched_exec
      (scheduler_init \<lparr>rs_capacity = 4, rs_available = 3\<rparr> (sched_demo []))
      [Submit ''t'' ''a'' PriorityLow 2 TaskQueued, Start ''t''])) \<noteq> Inl overflow_error"
  by (rule scheduler_never_overflows [OF demo_resources])

lemma finished_stays:
  "reaches task_steps x y \<Longrightarrow> x \<in> {TaskCompleted, TaskFailed, TaskCancelled} \<Longrightarrow> y = x"
  by (erule reaches_closed [where S = "{x}", simplified]) auto

text \<open>
  The history of a task. Once registered, a task is never removed or altered: after any
  calls it has the same agent, priority and units, its status has only moved along
  queued - running - completed, failed or cancelled, and a finished task keeps its status for
  ever. The audit trail only grows.
\<close>

theorem scheduler_task_history:
  assumes "sched_ok s" and "map_of (tasks s) tid = Some x" and "t = run sched_exec s cs"
  shows "(\<exists>y. map_of (tasks t) tid = Some y \<and> y = x\<lparr>tk_status := tk_status y\<rparr>
      \<and> reaches task_steps (tk_status x) (tk_status y)
      \<and> (tk_status x \<in> {TaskCompleted, TaskFailed, TaskCancelled} \<longrightarrow> y = x))
    \<and> prefix (trail s) (trail t)"
proof -
  have c: "sched_contract s t" unfolding assms(3) by (rule sched_run_contract)
  with assms(1,2) obtain y where y: "map_of (tasks t) tid = Some y"
    "y = x\<lparr>tk_status := tk_status y\<rparr>" "reaches task_steps (tk_status x) (tk_status y)"
    by (auto simp: sched_contract_def tasks_evolve_def)
  moreover have "y = x" if "tk_status x \<in> {TaskCompleted, TaskFailed, TaskCancelled}"
    using finished_stays [OF y(3) that] y(2) by (cases x; cases y) simp
  ultimately show ?thesis
    using c assms(1) by (auto simp: sched_contract_def)
qed

lemma demo_queue_t0:
  "map_of (tasks (sched_demo demo_queue)) ''t0'' = Some (demo_task ''t0'' PriorityHigh 4)"
  by (simp add: sched_demo_simps)

theorem scheduler_task_history_witness:
  "\<exists>y. map_of (tasks (run sched_exec (sched_demo demo_queue)
      [Start ''t0'', Cancel ''t0'', Fail ''t0''])) ''t0'' = Some y
    \<and> reaches task_steps (tk_status (demo_task ''t0'' PriorityHigh 4)) (tk_status y)"
  using scheduler_task_history [OF demo_queue_ok demo_queue_t0 refl] by blast

text \<open>
  Selection. \<^verbatim>\<open>next_task\<close> changes nothing and never raises; it returns nothing exactly when
  no task is queued, and otherwise a registered queued task such that every other queued task
  has a less urgent priority, or the same priority and a larger identifier.
\<close>

theorem scheduler_next_task_most_urgent:
  assumes "sched_ok s"
  shows "\<exists>r. scheduler_next_task s = (Inr r, s) \<and> (case r of
      None \<Rightarrow> \<not> (\<exists>k t. map_of (tasks s) k = Some t \<and> tk_status t = TaskQueued)
    | Some t \<Rightarrow> map_of (tasks s) (tk_task_id t) = Some t \<and> tk_status t = TaskQueued
        \<and> (\<forall>k u. map_of (tasks s) k = Some u \<and> tk_status u = TaskQueued \<and> u \<noteq> t \<longrightarrow>
             priority_rank (tk_priority t) < priority_rank (tk_priority u)
             \<or> tk_priority t = tk_priority u \<and> tk_task_id t < tk_task_id u))"
proof -
  have q: "u \<in> set (queued_tasks s)" if "map_of (tasks s) k = Some u" "tk_status u = TaskQueued" for k u
    using that sched_ok_task(1) [OF assms that(1)] by (simp add: queued_iff [OF assms])
  show ?thesis
  proof (cases "queue_order s")
    case Nil
    then have "set (queued_tasks s) = {}" using queue_order_set [of s] by simp
    then show ?thesis using q by (auto simp: next_task_order [OF assms] Nil)
  next
    case (Cons t ts)
    then have t: "t \<in> set (queued_tasks s)" using queue_order_set [of s] by (metis list.set_intros(1))
    have pr: "priority_rank p = priority_rank p' \<Longrightarrow> p = p'" for p p'
      by (cases p; cases p') auto
    have "sorted (map task_rank (queue_order s))" by (simp add: queue_order_def)
    with Cons have "task_rank t \<le> task_rank u" if "u \<in> set (queued_tasks s)" for u
      using that queue_order_set [of s] by auto
    then have "task_rank t < task_rank u" if "u \<in> set (queued_tasks s)" "u \<noteq> t" for u
      using that t task_rank_inj [OF assms] by (metis inj_onD order_neq_le_trans)
    then have "priority_rank (tk_priority t) < priority_rank (tk_priority u)
        \<or> tk_priority t = tk_priority u \<and> tk_task_id t < tk_task_id u"
      if "map_of (tasks s) k = Some u" "tk_status u = TaskQueued" "u \<noteq> t" for k u
      using q [OF that(1,2)] that(3) pr by (fastforce simp: task_rank_def)
    then show ?thesis
      using t by (auto simp: next_task_order [OF assms] Cons queued_iff [OF assms])
  qed
qed

theorem scheduler_next_task_most_urgent_witness:
  "\<exists>r. scheduler_next_task (sched_demo demo_queue) = (Inr r, sched_demo demo_queue)"
  using scheduler_next_task_most_urgent [OF demo_queue_ok] by blast

text \<open>
  Starting a task, completely: an empty identifier or an unknown task raises and writes
  nothing; a task that is not queued, whose agent is unknown or neither ready nor running, or
  that needs more than the free units is refused with the documented error and exactly one
  FAILED/FAILURE audit entry; otherwise the task is stored as running, its units are taken
  from the free ones and one REQUESTED/SUCCESS entry is appended.
\<close>

theorem scheduler_start_spec:
  assumes "sched_ok s"
  shows "scheduler_start tid s =
    (if tid = [] then (Inl (value_error ''task_id must not be empty.''), s)
     else case map_of (tasks s) tid of
       None \<Rightarrow> (Inl (key_error ''Unknown task.''), s)
     | Some t \<Rightarrow>
         (case start_refusal s t of
            Some e \<Rightarrow> (Inl e, task_logged AuditFailed AuditFailure t s)
          | None \<Rightarrow> (let u = t\<lparr>tk_status := TaskRunning\<rparr> in
              (Inr u, task_logged AuditRequested AuditSuccess u
                 (with_task u (rs_available (resources s) - tk_resource_units t) s)))))"
  by (rule scheduler_start_cases [OF assms])

theorem scheduler_start_spec_witness:
  "fst (scheduler_start ''t2'' (sched_demo demo_queue)) =
     Inr ((demo_task ''t2'' PriorityHigh 2)\<lparr>tk_status := TaskRunning\<rparr>)"
  using scheduler_start_spec [OF demo_queue_ok, of "''t2''"]
  by (simp add: sched_demo_simps start_refusal_def schedulable_def Let_def)

text \<open>
  Finishing a task, completely: only a running task finishes; its units return to the free
  ones, its new status is stored, and one entry is appended, FAILED/FAILURE for a failure and
  COMPLETED/SUCCESS for a completion or a cancellation.
\<close>

theorem scheduler_finish_spec:
  assumes "sched_ok s"
  shows "scheduler_finish tid st s =
    (if tid = [] then (Inl (value_error ''task_id must not be empty.''), s)
     else case map_of (tasks s) tid of
       None \<Rightarrow> (Inl (key_error ''Unknown task.''), s)
     | Some t \<Rightarrow>
         (if tk_status t \<noteq> TaskRunning
          then (Inl (value_error ''Only running tasks may finish.''),
                task_logged AuditFailed AuditFailure t s)
          else (let u = t\<lparr>tk_status := st\<rparr> in
            (Inr u, task_logged (fst (finish_entry st)) (snd (finish_entry st)) u
               (with_task u (rs_available (resources s) + tk_resource_units t) s)))))"
  by (rule scheduler_finish_cases [OF assms])

theorem scheduler_finish_spec_witness:
  "fst (scheduler_finish ''t2'' TaskFailed (sched_demo demo_queue)) =
     Inl (value_error ''Only running tasks may finish.'')"
  using scheduler_finish_spec [OF demo_queue_ok, of "''t2''" TaskFailed]
  by (simp add: sched_demo_simps)

text \<open>
  C11. Progress. When all units are free and the agents of the queued tasks are ready or
  running, a worker that repeatedly takes the next task, starts it and completes it empties
  the queue in as many rounds as there are queued tasks: no start is ever refused, the tasks
  are served in the order of priority and identifier (the audit trail is exactly that order),
  each ends completed, and all units are free again.
\<close>

theorem scheduler_serves_queue_in_order:
  assumes "sched_ok s" and "all_free s"
    and "t = serve (length (queued_tasks s)) s"
  shows "queued_tasks t = [] \<and> resources t = resources s
    \<and> trail t = trail s @ concat (map served (sort_key task_rank (queued_tasks s)))
    \<and> (\<forall>x \<in> set (queued_tasks s).
         map_of (tasks t) (tk_task_id x) = Some (x\<lparr>tk_status := TaskCompleted\<rparr>))"
proof -
  have len: "length (queue_order s) = length (queued_tasks s)" by (simp add: queue_order_def)
  have d: "distinct (map tk_task_id (queue_order s))"
    using queued_distinct [OF assms(1)] by (simp add: queue_order_def distinct_map)
  have "map_of (map (\<lambda>t. (tk_task_id t, t)) (queue_order s)) (tk_task_id x) = Some x"
    if "x \<in> set (queued_tasks s)" for x
    using that d by (intro map_of_is_SomeI) (auto simp: comp_def)
  then show ?thesis
    using serve_queue [OF assms(1,2) refl]
    unfolding assms(3) len by (auto simp: queue_order_def map_add_def)
qed

lemma demo_queue_free: "all_free (sched_demo demo_queue)"
  by (simp add: all_free_def sched_demo_simps queued_tasks_def schedulable_def)

theorem scheduler_serves_queue_in_order_witness:
  "map (\<lambda>(et, opid, ag, ac, res, rs). opid)
     (trail (serve (length (queued_tasks (sched_demo demo_queue))) (sched_demo demo_queue)))
   = [''t0'', ''t0'', ''t2'', ''t2'', ''t1'', ''t1'']"
  using scheduler_serves_queue_in_order [OF demo_queue_ok demo_queue_free refl]
  by (simp add: served_def sched_demo_simps queued_tasks_def task_rank_def trail_def
      less_list_code)

end
