(* ===== verification/Audit_Database.thy ===== *)
theory Audit_Database
  imports Audit_Log
begin

text \<open>
  The persistent audit sink (\<^verbatim>\<open>audit/database_sink.py\<close>): scrubbing of sensitive metadata,
  the payload, and the insert that never lets an error out. The table it writes to is the
  \<^verbatim>\<open>audit_events\<close> table of the SQL migrations, whose primary key is the event identifier;
  the network between them may fail at any call.
\<close>

section \<open>Scrubbing\<close>

definition sensitive_keys :: "string list" where
  "sensitive_keys =
     [''password'', ''secret'', ''token'', ''api_key'', ''apikey'',
      ''authorization'', ''credential'', ''private_key'', ''supabase_key'']"

definition sensitive :: "string \<Rightarrow> bool" where
  "sensitive k \<longleftrightarrow> lower k \<in> set sensitive_keys"

definition redacted :: pyval where
  "redacted = PStr ''[REDACTED]''"

fun scrub_metadata :: "pydict \<Rightarrow> pydict" where
  "scrub_metadata [] = []"
| "scrub_metadata ((k, PDict v) # d) =
     (k, if sensitive k then redacted else PDict (scrub_metadata v)) # scrub_metadata d"
| "scrub_metadata ((k, v) # d) = (k, if sensitive k then redacted else v) # scrub_metadata d"

lemma redacted_not_dict [simp]: "redacted \<noteq> PDict d"
  by (simp add: redacted_def)

lemma scrub_redacted: "sensitive k \<Longrightarrow> scrub_metadata ((k, redacted) # d) = (k, redacted) # scrub_metadata d"
  by (simp add: redacted_def)

section \<open>The payload and the sink\<close>

definition allowed_fields :: "string list" where
  "allowed_fields =
     [''event_id'', ''contract_version'', ''event_type'', ''operation_id'',
      ''agent_id'', ''timestamp'', ''action'', ''resource'', ''result'', ''metadata'']"

definition audit_payload :: "audit_record \<Rightarrow> pydict" where
  "audit_payload ev =
     [(''event_id'', PStr (ar_event_id ev)),
      (''contract_version'', PStr (ar_contract_version ev)),
      (''event_type'', PStr (event_type_value (ar_event_type ev))),
      (''operation_id'', PStr (ar_operation_id ev)),
      (''agent_id'', PStr (ar_agent_id ev)),
      (''timestamp'', PStr (isoformat (ar_timestamp ev))),
      (''action'', PStr (action_value (ar_action ev))),
      (''resource'', PStr (ar_resource ev)),
      (''result'', PStr (result_value (ar_result ev))),
      (''metadata'', PDict (scrub_metadata (ar_metadata ev)))]"

definition extra_keys :: "pydict \<Rightarrow> string list" where
  "extra_keys payload = filter (\<lambda>k. k \<notin> set allowed_fields) (map fst payload)"

text \<open>\<open>ins\<close> is \<^verbatim>\<open>client.table("audit_events").insert(payload).execute()\<close>.\<close>

definition db_sink_record ::
  "(pydict \<Rightarrow> ('c, unit) action) \<Rightarrow> audit_record \<Rightarrow> ('c, unit) action" where
  "db_sink_record ins ev =
     catchA
       (let payload = audit_payload ev in
        if extra_keys payload \<noteq> [] then ret () else ins payload)
       (\<lambda>_. ret ())"

text \<open>
  The constructor: a given client is used as it is; otherwise one is made from the two
  environment variables, which must be set and not empty.
\<close>

definition db_sink_client ::
  "'c option \<Rightarrow> (string \<Rightarrow> string option) \<Rightarrow> (string \<Rightarrow> string \<Rightarrow> 'c) \<Rightarrow> exn + 'c" where
  "db_sink_client client env create_client =
     (case client of
        Some c \<Rightarrow> Inr c
      | None \<Rightarrow>
          (case (env ''SUPABASE_URL'', env ''SUPABASE_KEY'') of
             (Some url, Some key) \<Rightarrow>
               (if url = [] \<or> key = []
                then Inl (runtime_error (''SUPABASE_URL and SUPABASE_KEY environment variables ''
                            @ ''are required for DatabaseAuditSink''))
                else Inr (create_client url key))
           | _ \<Rightarrow> Inl (runtime_error (''SUPABASE_URL and SUPABASE_KEY environment variables ''
                            @ ''are required for DatabaseAuditSink''))))"

lemma no_extra_keys [simp]: "extra_keys (audit_payload ev) = []"
  by (simp add: extra_keys_def audit_payload_def allowed_fields_def)

lemma db_sink_record_simp:
  "db_sink_record ins ev = catchA (ins (audit_payload ev)) (\<lambda>_. ret ())"
  by (simp add: db_sink_record_def)

section \<open>The table\<close>

text \<open>
  What the sink relies on: an insert that returns has appended its row, one that raises an
  \<^verbatim>\<open>Exception\<close> has appended it or not (the response may be lost after the commit), and
  nothing else is ever written.
\<close>

locale append_table =
  fixes ins :: "pydict \<Rightarrow> ('c, unit) action"
    and tbl :: "'c \<Rightarrow> pydict list"
  assumes insert_ok: "fst (ins p c) = Inr () \<Longrightarrow> tbl (snd (ins p c)) = tbl c @ [p]"
    and insert_err: "fst (ins p c) = Inl e \<Longrightarrow>
      is_exception e \<and> tbl (snd (ins p c)) \<in> {tbl c, tbl c @ [p]}"
begin

lemma db_sink_quiet: "fst (db_sink_record ins ev c) = Inr ()"
  using insert_err [of "audit_payload ev" c]
  by (auto simp: db_sink_record_simp catchA_def ret_def split: prod.splits sum.splits)

lemma db_sink_grows:
  "tbl (snd (db_sink_record ins ev c)) = tbl c \<or>
   tbl (snd (db_sink_record ins ev c)) = tbl c @ [audit_payload ev]"
  using insert_err [of "audit_payload ev" c] insert_ok [of "audit_payload ev" c]
  by (auto simp: db_sink_record_simp catchA_def ret_def split: prod.splits sum.splits)

end

sublocale append_table \<subseteq> db: audit_sink "db_sink_record ins" tbl audit_payload
  by unfold_locales (rule db_sink_quiet, rule db_sink_grows)

text \<open>
  The \<^verbatim>\<open>audit_events\<close> table: \<^verbatim>\<open>event_id\<close> is the primary key (text since the migration that
  widens it), so a second row with the same identifier is refused; rows are never updated
  or deleted. The schedule says which calls the network loses.
\<close>

record audit_table =
  at_rows :: "pydict list"
  at_outage :: "nat \<Rightarrow> bool"
  at_calls :: nat

definition row_id :: "pydict \<Rightarrow> pyval option" where
  "row_id p = map_of p ''event_id''"

definition audit_table_insert :: "pydict \<Rightarrow> (audit_table, unit) action" where
  "audit_table_insert p s =
     (let s' = s\<lparr>at_calls := Suc (at_calls s)\<rparr> in
      if at_outage s (at_calls s) then (Inl (Raised (OtherError ''ConnectError'') []), s')
      else if row_id p \<in> set (map row_id (at_rows s))
      then (Inl (Raised (OtherError ''APIError'') []), s')
      else (Inr (), s'\<lparr>at_rows := at_rows s @ [p]\<rparr>))"

interpretation audit_events: append_table audit_table_insert at_rows
  by unfold_locales (auto simp: audit_table_insert_def Let_def split: if_splits)

lemma row_id_payload [simp]: "row_id (audit_payload ev) = Some (PStr (ar_event_id ev))"
  by (simp add: row_id_def audit_payload_def)

text \<open>The rows a run of the sink keeps when the network is up: the first of each identifier.\<close>

fun firsts :: "string list \<Rightarrow> audit_record list \<Rightarrow> audit_record list" where
  "firsts seen [] = []"
| "firsts seen (r # rs) =
     (if ar_event_id r \<in> set seen then firsts seen rs
      else r # firsts (ar_event_id r # seen) rs)"

lemma table_record_firsts:
  assumes "\<forall>n. \<not> at_outage c n"
    and "set (map row_id (at_rows c)) = (\<lambda>i. Some (PStr i)) ` set seen"
  shows "at_rows (record_all (db_sink_record audit_table_insert) rs c) =
    at_rows c @ map audit_payload (firsts seen rs)"
  using assms
proof (induction rs arbitrary: c seen)
  case Nil
  show ?case by (simp add: record_all_def)
next
  case (Cons r rs)
  let ?c = "snd (db_sink_record audit_table_insert r c)"
  have step: "record_all (db_sink_record audit_table_insert) (r # rs) c =
      record_all (db_sink_record audit_table_insert) rs ?c"
    by (simp add: record_all_def)
  have mem: "row_id (audit_payload r) \<in> set (map row_id (at_rows c)) \<longleftrightarrow> ar_event_id r \<in> set seen"
    unfolding Cons.prems(2) by auto
  show ?case
  proof (cases "ar_event_id r \<in> set seen")
    case True
    with mem Cons.prems(1) have c: "?c = c\<lparr>at_calls := Suc (at_calls c)\<rparr>"
      by (simp add: db_sink_record_simp audit_table_insert_def catchA_def ret_def)
    have "at_rows (record_all (db_sink_record audit_table_insert) rs ?c) =
        at_rows ?c @ map audit_payload (firsts seen rs)"
      by (rule Cons.IH) (use Cons.prems c in auto)
    with True c step show ?thesis by simp
  next
    case False
    with mem Cons.prems(1)
    have c: "?c = c\<lparr>at_calls := Suc (at_calls c), at_rows := at_rows c @ [audit_payload r]\<rparr>"
      by (simp add: db_sink_record_simp audit_table_insert_def catchA_def ret_def)
    have "at_rows (record_all (db_sink_record audit_table_insert) rs ?c) =
        at_rows ?c @ map audit_payload (firsts (ar_event_id r # seen) rs)"
      by (rule Cons.IH) (use Cons.prems c in auto)
    with False c step show ?thesis by simp
  qed
qed

lemma firsts_distinct: "distinct (map ar_event_id rs) \<Longrightarrow> set (map ar_event_id rs) \<inter> set seen = {} \<Longrightarrow>
  firsts seen rs = rs"
  by (induction rs arbitrary: seen) auto

section \<open>Properties\<close>

text \<open>
  What may not be stored in clear, without the code's own test: the nine words, with each letter in either
  case. \<open>entries\<close> lists what a dictionary and the dictionaries in it hold, each value with the path of keys
  that leads to it, and does not enter what is filed under such a word.
\<close>

definition either_case :: "char \<Rightarrow> char \<Rightarrow> bool" where
  "either_case x y \<longleftrightarrow> x = y \<or> of_char x + (32 :: nat) = of_char y \<and> CHR ''A'' \<le> x \<and> x \<le> CHR ''Z''"

definition secret_word :: "string \<Rightarrow> bool" where
  "secret_word k \<longleftrightarrow> list_ex (list_all2 either_case k)
     [''password'', ''secret'', ''token'', ''api_key'', ''apikey'', ''authorization'', ''credential'', ''private_key'',
      ''supabase_key'']"

fun entries :: "string list \<Rightarrow> pydict \<Rightarrow> (string list \<times> pyval) list" where
  "entries path [] = []"
| "entries path ((k, PDict v) # d) =
     (if secret_word k then [(path @ [k], PDict v)] else (path @ [k], PDict []) # entries (path @ [k]) v) @ entries path d"
| "entries path ((k, v) # d) = (path @ [k], v) # entries path d"

definition marked :: "string list \<times> pyval \<Rightarrow> string list \<times> pyval" where
  "marked e = (if secret_word (last (fst e)) then (fst e, PStr ''[REDACTED]'') else e)"

lemma lower_char_letter:
  assumes "CHR ''_'' \<le> y" "y \<le> CHR ''z''"
  shows "lower_char x = y \<longleftrightarrow> either_case x y"
proof -
  have y: "95 \<le> (of_char y :: nat)" "of_char y \<le> (122 :: nat)" using assms by (simp_all add: less_eq_char_def)
  have eq: "a = b \<longleftrightarrow> (of_char a :: nat) = of_char b" for a b :: char by simp
  have n: "(of_char x :: nat) < 256" by simp
  have "of_char (lower_char x) = (let n = of_char x :: nat in if 65 \<le> n \<and> n \<le> 90 \<or> 192 \<le> n \<and> n \<le> 222 \<and> n \<noteq> 215 then n + 32 else n)"
    by (auto simp: lower_char_def Let_def of_char_of)
  then show ?thesis using y n unfolding either_case_def eq less_eq_char_def by (auto simp: Let_def)
qed

lemma lower_word:
  assumes "list_all (\<lambda>y. CHR ''_'' \<le> y \<and> y \<le> CHR ''z'') w"
  shows "lower k = w \<longleftrightarrow> list_all2 either_case k w"
proof -
  have "lower k = w \<longleftrightarrow> list_all2 (\<lambda>x y. lower_char x = y) k w"
    by (auto simp: lower_def list_eq_iff_nth_eq list_all2_conv_all_nth)
  also have "\<dots> \<longleftrightarrow> list_all2 either_case k w"
    by (rule list.rel_cong) (use assms in \<open>auto simp: list_all_iff lower_char_letter\<close>)
  finally show ?thesis .
qed

lemma sensitive_secret: "sensitive k \<longleftrightarrow> secret_word k"
proof -
  have "sensitive k \<longleftrightarrow> list_ex (\<lambda>w. lower k = w) sensitive_keys"
    by (auto simp: sensitive_def list_ex_iff)
  also have "\<dots> \<longleftrightarrow> list_ex (list_all2 either_case k) sensitive_keys"
    by (rule list_ex_cong [OF refl]) (auto intro!: lower_word simp: sensitive_keys_def)
  finally show ?thesis by (simp add: sensitive_keys_def secret_word_def)
qed

lemma entries_scrub: "entries path (scrub_metadata d) = map marked (entries path d)"
  by (induction d arbitrary: path rule: scrub_metadata.induct)
    (auto simp: marked_def sensitive_secret redacted_def)

lemma scrub_keys: "map fst (scrub_metadata d) = map fst d"
  by (induction d rule: scrub_metadata.induct) auto

lemma scrub_idem: "scrub_metadata (scrub_metadata d) = scrub_metadata d"
  by (induction d rule: scrub_metadata.induct) (auto simp: scrub_redacted)

lemma payload_metadata: "map_of (audit_payload ev) ''metadata'' = Some (PDict (scrub_metadata (ar_metadata ev)))"
  by (simp add: audit_payload_def)

text \<open>
  C16. What the sink persists of the metadata. Whatever the client, recording an event is inserting one row,
  with an \<^verbatim>\<open>Exception\<close> of the insert swallowed, and the metadata of that row are those of the event, key by
  key and in order, at every depth of nested dictionaries, except that whatever is filed under one of the nine secret
  words, with each letter in upper or lower case, is the mark \<^verbatim>\<open>[REDACTED]\<close>. Scrubbing such a row again changes
  nothing. The keys themselves stay, where the code's comments have them removed (a finding).
\<close>

theorem scrub_metadata_redacts:
  "\<exists>p m. db_sink_record ins ev c = catchA (ins p) (\<lambda>_. ret ()) c
     \<and> map_of p ''metadata'' = Some (PDict m)
     \<and> entries [] m = map marked (entries [] (ar_metadata ev))
     \<and> map fst m = map fst (ar_metadata ev)
     \<and> scrub_metadata m = m"
  using db_sink_record_simp payload_metadata entries_scrub scrub_keys scrub_idem by metis

text \<open>
  The limit of scrubbing: a dictionary inside a list is persisted as it is, whatever its
  keys, so a password there reaches the table.
\<close>

theorem scrub_metadata_misses_lists:
  "sensitive k \<Longrightarrow>
   scrub_metadata [(''items'', PList [PDict [(k, v)]])] = [(''items'', PList [PDict [(k, v)]])]"
  by (simp add: sensitive_def sensitive_keys_def lower_def lower_char_def)

theorem scrub_metadata_misses_lists_witness:
  "scrub_metadata [(''items'', PList [PDict [(''Password'', PStr ''hunter2'')]])] =
     [(''items'', PList [PDict [(''Password'', PStr ''hunter2'')]])]"
  by (rule scrub_metadata_misses_lists) code_simp

text \<open>
  The sink never disturbs its caller and never invents, alters or removes a row: whatever
  calls the network loses and whatever the table refuses, recording returns normally, and after
  any sequence of events the table holds its old rows followed by the payloads of a subsequence
  of the events, in order.
\<close>

theorem db_sink_appends_subsequence:
  "fst (db_sink_record audit_table_insert ev c) = Inr ()
   \<and> (\<exists>qs. subseq qs rs
        \<and> at_rows (record_all (db_sink_record audit_table_insert) rs c) =
            at_rows c @ map audit_payload qs)"
  using audit_events.db.quiet audit_events.db.rows_record_all by blast

end
