(* ===== verification/Communication.thy ===== *)
theory Communication
  imports Scheduler Audit_Database
begin

text \<open>
  Messages between agents: \<^verbatim>\<open>communication/models.py\<close> and \<^verbatim>\<open>communication/engine.py\<close>. The
  engine keeps the dictionary of messages, reads the registry, and writes the audit log.
\<close>

section \<open>Models\<close>

datatype message_type = MsgRequest | MsgResponse | MsgEvent | MsgCommand

datatype message_status = MsgCreated | MsgDelivered | MsgRejected

fun message_type_value :: "message_type \<Rightarrow> string" where
  "message_type_value MsgRequest = ''request''"
| "message_type_value MsgResponse = ''response''"
| "message_type_value MsgEvent = ''event''"
| "message_type_value MsgCommand = ''command''"

fun message_status_value :: "message_status \<Rightarrow> string" where
  "message_status_value MsgCreated = ''created''"
| "message_status_value MsgDelivered = ''delivered''"
| "message_status_value MsgRejected = ''rejected''"

record agent_message =
  ms_message_id :: string
  ms_sender_id :: string
  ms_recipient_id :: string
  ms_message_type :: message_type
  ms_payload :: pydict
  ms_status :: message_status

definition new_agent_message ::
  "string \<Rightarrow> string \<Rightarrow> string \<Rightarrow> message_type \<Rightarrow> pydict \<Rightarrow> message_status \<Rightarrow> exn + agent_message" where
  "new_agent_message mid sid rid ty pl st =
     (if mid = [] \<or> sid = [] \<or> rid = [] then Inl validation_error
      else Inr \<lparr>ms_message_id = mid, ms_sender_id = sid, ms_recipient_id = rid,
                ms_message_type = ty, ms_payload = pl, ms_status = st\<rparr>)"

record communication_policy =
  allow_agent_to_agent :: bool
  allow_agent_to_system :: bool
  allow_system_to_agent :: bool

definition default_communication_policy :: communication_policy where
  "default_communication_policy =
     \<lparr>allow_agent_to_agent = True, allow_agent_to_system = False, allow_system_to_agent = True\<rparr>"

section \<open>The engine\<close>

record comm_world = sched_world +
  comm_policy :: communication_policy
  messages :: "(string, agent_message) dict"

definition communication_init ::
  "communication_policy \<Rightarrow> 'z comm_world_scheme \<Rightarrow> 'z comm_world_scheme" where
  "communication_init p s = s\<lparr>comm_policy := p, messages := []\<rparr>"

definition communication_audit ::
  "agent_message \<Rightarrow> audit_action \<Rightarrow> audit_result \<Rightarrow> ('z comm_world_scheme, unit) action" where
  "communication_audit m ac rs =
     bindA now (\<lambda>t.
     bindA (lift_res (new_audit_record ''1.0'' (ms_message_id m) CommunicationSend
              (ms_message_id m) (ms_sender_id m) t ac (ms_recipient_id m) rs
              [(''message_type'', PStr (message_type_value (ms_message_type m))),
               (''message_status'', PStr (message_status_value (ms_status m)))]))
       memory_sink_record)"

definition store_message :: "string \<Rightarrow> agent_message \<Rightarrow> ('z comm_world_scheme, unit) action" where
  "store_message mid m = modify (\<lambda>s. s\<lparr>messages := dict_set mid m (messages s)\<rparr>)"

definition communication_create :: "agent_message \<Rightarrow> ('z comm_world_scheme, agent_message) action" where
  "communication_create m s =
     (if map_of (messages s) (ms_message_id m) \<noteq> None
      then raise (value_error ''Message is already registered.'') s
      else if ms_status m \<noteq> MsgCreated
      then raise (value_error ''Only created messages may be registered.'') s
      else bindA (store_message (ms_message_id m) m) (\<lambda>_. ret m) s)"

definition communication_get :: "string \<Rightarrow> ('z comm_world_scheme, agent_message option) action" where
  "communication_get mid =
     (if mid = [] then raise (value_error ''message_id must not be empty.'')
      else gets (\<lambda>s. map_of (messages s) mid))"

definition send_authorized :: "agent_message \<Rightarrow> ('z comm_world_scheme, agent_message) action" where
  "send_authorized m =
     bindA (registry_get (ms_sender_id m)) (\<lambda>sender.
     case sender of
       None \<Rightarrow> raise (permission_error ''Unknown sender Agent.'')
     | Some sender \<Rightarrow>
         (if id_status sender \<notin> {AgentReady, AgentRunning}
          then raise (permission_error ''Sender Agent is not authorized.'')
          else bindA (registry_get (ms_recipient_id m)) (\<lambda>recipient.
            bindA (case recipient of
                None \<Rightarrow> (\<lambda>s. if \<not> allow_agent_to_system (comm_policy s)
                     then raise (permission_error ''Agent-to-system communication is disabled.'') s
                     else ret () s)
              | Some recipient \<Rightarrow> (\<lambda>s. if \<not> allow_agent_to_agent (comm_policy s)
                     then raise (permission_error ''Agent-to-Agent communication is disabled.'') s
                     else if id_status recipient \<in>
                            {AgentCreated, AgentValidated, AgentSuspended, AgentTerminated}
                     then raise (permission_error ''Recipient Agent is not available.'') s
                     else ret () s)) (\<lambda>_.
            let delivered = m\<lparr>ms_status := MsgDelivered\<rparr> in
            bindA (store_message (ms_message_id m) delivered) (\<lambda>_.
            bindA (communication_audit delivered AuditCompleted AuditSuccess) (\<lambda>_.
            ret delivered))))))"

text \<open>\<^verbatim>\<open>send\<close> accepts a message or the identifier of a registered one.\<close>

datatype message_ref = ById string | ByMessage agent_message

definition send_resolve :: "message_ref \<Rightarrow> ('z comm_world_scheme, agent_message) action" where
  "send_resolve r =
     (case r of
        ById mid \<Rightarrow>
          bindA (communication_get mid) (\<lambda>found.
          case found of
            None \<Rightarrow> raise (key_error ''Unknown message.'')
          | Some registered \<Rightarrow>
              (if ms_status registered \<noteq> MsgCreated
               then raise (value_error ''Only created messages may be sent.'')
               else ret registered))
      | ByMessage m \<Rightarrow>
          bindA (gets (\<lambda>s. map_of (messages s) (ms_message_id m))) (\<lambda>found.
          case found of
            None \<Rightarrow> ret m
          | Some registered \<Rightarrow>
              (if ms_status registered \<noteq> MsgCreated
               then raise (value_error ''Only created messages may be sent.'')
               else ret registered)))"

definition communication_send :: "message_ref \<Rightarrow> ('z comm_world_scheme, agent_message) action" where
  "communication_send r =
     bindA (send_resolve r) (\<lambda>m.
     bindA (communication_audit m AuditRequested AuditSuccess) (\<lambda>_.
     on_error (send_authorized m) (communication_audit m AuditFailed AuditFailure)))"

definition communication_reject :: "string \<Rightarrow> ('z comm_world_scheme, agent_message) action" where
  "communication_reject mid =
     bindA (communication_get mid) (\<lambda>found.
     case found of
       None \<Rightarrow> raise (key_error ''Unknown message.'')
     | Some m \<Rightarrow>
         (if ms_status m \<noteq> MsgCreated
          then raise (value_error ''Only created messages may be rejected.'')
          else let rejected = m\<lparr>ms_status := MsgRejected\<rparr> in
               bindA (store_message mid rejected) (\<lambda>_.
               bindA (communication_audit rejected AuditFailed AuditFailure) (\<lambda>_.
               ret rejected))))"

section \<open>The operations, branch by branch\<close>

definition valid_message :: "agent_message \<Rightarrow> bool" where
  "valid_message m \<longleftrightarrow> ms_message_id m \<noteq> [] \<and> ms_sender_id m \<noteq> [] \<and> ms_recipient_id m \<noteq> []"

lemma valid_message_status [simp]: "valid_message (m\<lparr>ms_status := st\<rparr>) = valid_message m"
  by (simp add: valid_message_def)

lemma new_agent_message_valid: "new_agent_message mid sid rid ty pl st = Inr m \<Longrightarrow> valid_message m"
  by (auto simp: new_agent_message_def valid_message_def split: if_splits)

text \<open>The record of a message event: its identifier is the message's, not a fresh one.\<close>

definition message_record ::
  "audit_action \<Rightarrow> audit_result \<Rightarrow> agent_message \<Rightarrow> 'z env_world_scheme \<Rightarrow> audit_record" where
  "message_record ac rs m s =
     \<lparr>ar_contract_version = ''1.0'', ar_event_id = ms_message_id m,
      ar_event_type = CommunicationSend, ar_operation_id = ms_message_id m,
      ar_agent_id = ms_sender_id m, ar_timestamp = clock_src s (clock_pos s), ar_action = ac,
      ar_resource = ms_recipient_id m, ar_result = rs,
      ar_metadata = [(''message_type'', PStr (message_type_value (ms_message_type m))),
        (''message_status'', PStr (message_status_value (ms_status m)))]\<rparr>"

definition message_logged ::
  "audit_action \<Rightarrow> audit_result \<Rightarrow> agent_message \<Rightarrow> 'z comm_world_scheme \<Rightarrow> 'z comm_world_scheme" where
  "message_logged ac rs m s = s\<lparr>clock_pos := Suc (clock_pos s),
     audit_log := audit_log s @ [message_record ac rs m s]\<rparr>"

definition with_message :: "agent_message \<Rightarrow> 'z comm_world_scheme \<Rightarrow> 'z comm_world_scheme" where
  "with_message m s = s\<lparr>messages := dict_set (ms_message_id m) m (messages s)\<rparr>"

lemma communication_audit_ok:
  "valid_message m \<Longrightarrow> communication_audit m ac rs s = (Inr (), message_logged ac rs m s)"
  by (simp add: communication_audit_def valid_message_def new_audit_record_def action_simps
      message_logged_def message_record_def)

lemma message_logged_fields [simp]:
  "messages (message_logged ac rs m s) = messages s"
  "agents (message_logged ac rs m s) = agents s"
  "comm_policy (message_logged ac rs m s) = comm_policy s"
  "audit_log (message_logged ac rs m s) = audit_log s @ [message_record ac rs m s]"
  "trail (message_logged ac rs m s) = trail s @
     [(CommunicationSend, ms_message_id m, ms_sender_id m, ac, ms_recipient_id m, rs)]"
  by (simp_all add: message_logged_def trail_def entry_def message_record_def)

lemma with_message_fields [simp]:
  "messages (with_message m s) = dict_set (ms_message_id m) m (messages s)"
  "agents (with_message m s) = agents s"
  "comm_policy (with_message m s) = comm_policy s"
  "audit_log (with_message m s) = audit_log s"
  "trail (with_message m s) = trail s"
  by (simp_all add: with_message_def trail_def)

text \<open>Why a resolved message is not delivered; \<^const>\<open>None\<close> means it is.\<close>

definition deliver_refusal :: "'z comm_world_scheme \<Rightarrow> agent_message \<Rightarrow> exn option" where
  "deliver_refusal s m =
     (case map_of (agents s) (ms_sender_id m) of
        None \<Rightarrow> Some (permission_error ''Unknown sender Agent.'')
      | Some sender \<Rightarrow>
          (if id_status sender \<notin> {AgentReady, AgentRunning}
           then Some (permission_error ''Sender Agent is not authorized.'')
           else case map_of (agents s) (ms_recipient_id m) of
             None \<Rightarrow> (if allow_agent_to_system (comm_policy s) then None
                else Some (permission_error ''Agent-to-system communication is disabled.''))
           | Some recipient \<Rightarrow>
               (if \<not> allow_agent_to_agent (comm_policy s)
                then Some (permission_error ''Agent-to-Agent communication is disabled.'')
                else if id_status recipient \<in> {AgentReady, AgentRunning} then None
                else Some (permission_error ''Recipient Agent is not available.''))))"

lemma deliver_refusal_cong [simp]:
  "deliver_refusal (message_logged ac rs m' s) m = deliver_refusal s m"
  unfolding deliver_refusal_def message_logged_fields ..

lemma deliver_refusal_exception: "deliver_refusal s m = Some e \<Longrightarrow> is_exception e"
  by (auto simp: deliver_refusal_def split: option.splits if_splits)

lemma send_authorized_cases:
  assumes "valid_message m"
  shows "send_authorized m s =
    (case deliver_refusal s m of
       Some e \<Rightarrow> (Inl e, s)
     | None \<Rightarrow> (let d = m\<lparr>ms_status := MsgDelivered\<rparr> in
         (Inr d, message_logged AuditCompleted AuditSuccess d (with_message d s))))"
proof -
  have st: False if "st \<noteq> AgentCreated" "st \<noteq> AgentValidated" "st \<noteq> AgentSuspended"
    "st \<noteq> AgentTerminated" "st \<noteq> AgentReady" "st \<noteq> AgentRunning" for st
    using that by (cases st) auto
  show ?thesis
    using assms
    by (auto simp: send_authorized_def deliver_refusal_def registry_get_def action_simps Let_def
        valid_message_def [of m] communication_audit_ok store_message_def with_message_def
        dest: st split: option.split)
qed

definition resolved :: "'z comm_world_scheme \<Rightarrow> message_ref \<Rightarrow> exn + agent_message" where
  "resolved s r = fst (send_resolve r s)"

lemma send_resolve_pure: "send_resolve r s = (resolved s r, s)"
  by (auto simp: resolved_def send_resolve_def communication_get_def action_simps
      split: message_ref.split option.split)

lemma communication_send_cases:
  assumes "\<forall>m. resolved s r = Inr m \<longrightarrow> valid_message m"
  shows "communication_send r s =
    (case resolved s r of
       Inl e \<Rightarrow> (Inl e, s)
     | Inr m \<Rightarrow>
         (let q = message_logged AuditRequested AuditSuccess m s in
          case deliver_refusal s m of
            Some e \<Rightarrow> (Inl e, message_logged AuditFailed AuditFailure m q)
          | None \<Rightarrow> (let d = m\<lparr>ms_status := MsgDelivered\<rparr> in
              (Inr d, message_logged AuditCompleted AuditSuccess d (with_message d q)))))"
  using assms deliver_refusal_exception
  by (auto simp: communication_send_def bindA_def send_resolve_pure communication_audit_ok
      on_error_def catchA_def send_authorized_cases Let_def raise_def
      split: sum.splits option.splits)

lemma communication_reject_cases:
  assumes "\<forall>m. map_of (messages s) mid = Some m \<longrightarrow> valid_message m \<and> ms_message_id m = mid"
  shows "communication_reject mid s =
    (if mid = [] then (Inl (value_error ''message_id must not be empty.''), s)
     else case map_of (messages s) mid of
       None \<Rightarrow> (Inl (key_error ''Unknown message.''), s)
     | Some m \<Rightarrow>
         (if ms_status m \<noteq> MsgCreated
          then (Inl (value_error ''Only created messages may be rejected.''), s)
          else let d = m\<lparr>ms_status := MsgRejected\<rparr> in
               (Inr d, message_logged AuditFailed AuditFailure d (with_message d s))))"
  using assms
  by (auto simp: communication_reject_def communication_get_def action_simps Let_def
      communication_audit_ok store_message_def with_message_def split: option.split)

section \<open>Runs\<close>

text \<open>The deliveries of an identifier on the audit trail.\<close>

fun is_delivery :: "string \<Rightarrow> audit_entry \<Rightarrow> bool" where
  "is_delivery mid (et, opid, ag, ac, res, rs) =
     (et = CommunicationSend \<and> opid = mid \<and> ac = AuditCompleted)"

definition deliveries :: "'z audit_world_scheme \<Rightarrow> string \<Rightarrow> nat" where
  "deliveries s mid = length (filter (is_delivery mid) (trail s))"

definition delivered :: "'z comm_world_scheme \<Rightarrow> string \<Rightarrow> bool" where
  "delivered s mid \<longleftrightarrow> (case map_of (messages s) mid of
     None \<Rightarrow> False | Some m \<Rightarrow> ms_status m = MsgDelivered)"

definition comm_ok :: "'z comm_world_scheme \<Rightarrow> bool" where
  "comm_ok s \<longleftrightarrow> keyed ms_message_id (messages s)
     \<and> (\<forall>m \<in> set (dict_values (messages s)). valid_message m)
     \<and> (\<forall>mid. deliveries s mid = (if delivered s mid then 1 else 0))"

lemma comm_ok_message:
  assumes "comm_ok s" and "map_of (messages s) mid = Some m"
  shows "valid_message m" and "ms_message_id m = mid"
  using assms keyed_lookup [of ms_message_id "messages s" mid m]
  by (force simp: comm_ok_def dest: map_of_SomeD)+

fun message_steps :: "message_status \<Rightarrow> message_status list" where
  "message_steps MsgCreated = [MsgDelivered, MsgRejected]"
| "message_steps MsgDelivered = []"
| "message_steps MsgRejected = []"

definition messages_evolve :: "'z comm_world_scheme \<Rightarrow> 'z comm_world_scheme \<Rightarrow> bool" where
  "messages_evolve s t \<longleftrightarrow> (\<forall>k x. map_of (messages s) k = Some x \<longrightarrow>
     (\<exists>y. map_of (messages t) k = Some y \<and> y = x\<lparr>ms_status := ms_status y\<rparr>
        \<and> reaches message_steps (ms_status x) (ms_status y)))"

lemma messages_evolve_refl: "messages_evolve s s"
  by (simp add: messages_evolve_def)

lemma messages_evolve_trans:
  "messages_evolve s t \<Longrightarrow> messages_evolve t u \<Longrightarrow> messages_evolve s u"
  unfolding messages_evolve_def
  by (smt (verit, best) agent_message.surjective agent_message.update_convs(6) reaches_trans)

definition comm_contract :: "'z comm_world_scheme \<Rightarrow> 'z comm_world_scheme \<Rightarrow> bool" where
  "comm_contract s t \<longleftrightarrow> (comm_ok s \<longrightarrow> comm_ok t \<and> messages_evolve s t)"

interpretation comm_runs: contract comm_contract
proof
  show "comm_contract s s" for s :: "'a comm_world_scheme"
    by (simp add: comm_contract_def messages_evolve_refl)
  show "comm_contract s u" if "comm_contract s t" "comm_contract t u"
    for s t u :: "'a comm_world_scheme"
    using that messages_evolve_trans [of s t u] by (auto simp: comm_contract_def)
qed

lemma comm_contract_quiet:
  assumes "messages t = messages s" and "\<And>mid. deliveries t mid = deliveries s mid"
  shows "comm_contract s t"
  using assms by (auto simp: comm_contract_def comm_ok_def delivered_def messages_evolve_def)

text \<open>The one way messages change: \<open>m\<close> is new, or takes the place of a created message that
  differs only in its status, and the trail has one more delivery if \<open>m\<close> is delivered.\<close>

lemma comm_contract_with_message:
  assumes old: "case map_of (messages s) (ms_message_id m) of None \<Rightarrow> True
    | Some x \<Rightarrow> ms_status x = MsgCreated \<and> m = x\<lparr>ms_status := ms_status m\<rparr>"
    and m: "comm_ok s \<Longrightarrow> valid_message m"
    and msgs: "messages t = dict_set (ms_message_id m) m (messages s)"
    and dels: "\<And>mid. deliveries t mid = deliveries s mid +
      (if mid = ms_message_id m \<and> ms_status m = MsgDelivered then 1 else 0)"
  shows "comm_contract s t"
proof (unfold comm_contract_def, intro impI conjI)
  assume ok: "comm_ok s"
  have none: "deliveries s (ms_message_id m) = 0"
    using ok old by (auto simp: comm_ok_def delivered_def split: option.splits)
  show "comm_ok t"
    using ok m none
    by (auto simp: comm_ok_def msgs dels keyed_update delivered_def dest!: set_update_cases)
  have "reaches message_steps MsgCreated (ms_status m)"
    by (cases "ms_status m") (auto intro: reaches_step)
  then show "messages_evolve s t"
    using old by (auto simp: messages_evolve_def msgs split: option.splits)
qed

lemma deliveries_logged [simp]:
  "deliveries (message_logged ac rs m s) mid =
     deliveries s mid + (if mid = ms_message_id m \<and> ac = AuditCompleted then 1 else 0)"
  "deliveries (with_message m s) mid = deliveries s mid"
  by (simp_all add: deliveries_def)

lemma send_resolve_valid:
  assumes "comm_ok s" and "\<And>m. r = ByMessage m \<Longrightarrow> valid_message m" and "resolved s r = Inr m"
  shows "valid_message m"
    and "case map_of (messages s) (ms_message_id m) of None \<Rightarrow> r = ByMessage m
      | Some x \<Rightarrow> x = m \<and> ms_status m = MsgCreated"
  using assms comm_ok_message [OF assms(1)]
  by (fastforce simp: resolved_def send_resolve_def communication_get_def action_simps
      split: message_ref.splits option.splits if_splits)+

lemma communication_send_runs:
  assumes r: "\<And>m. r = ByMessage m \<Longrightarrow> valid_message m"
  shows "comm_contract s (snd (communication_send r s))"
proof (cases "comm_ok s")
  case ok: True
  have "\<forall>m. resolved s r = Inr m \<longrightarrow> valid_message m"
    using send_resolve_valid(1) [OF ok r] by blast
  note cases = communication_send_cases [OF this]
  show ?thesis
  proof (cases "resolved s r")
    case (Inl e)
    then show ?thesis by (simp add: cases comm_runs.contract_refl)
  next
    case (Inr m)
    note m = send_resolve_valid [OF ok r Inr]
    show ?thesis
    proof (cases "deliver_refusal s m")
      case None
      show ?thesis
        by (rule comm_contract_with_message [where m = "m\<lparr>ms_status := MsgDelivered\<rparr>"])
          (use m in \<open>auto simp: cases Inr None Let_def split: option.splits\<close>)
    next
      case (Some e)
      then show ?thesis by (intro comm_contract_quiet) (simp_all add: cases Inr Let_def)
    qed
  qed
qed (simp add: comm_contract_def)

lemma communication_reject_runs: "comm_contract s (snd (communication_reject mid s))"
proof (cases "comm_ok s")
  case ok: True
  have "\<forall>m. map_of (messages s) mid = Some m \<longrightarrow> valid_message m \<and> ms_message_id m = mid"
    using comm_ok_message [OF ok] by blast
  note cases = communication_reject_cases [OF this]
  show ?thesis
  proof (cases "mid = [] \<or> (case map_of (messages s) mid of None \<Rightarrow> True
      | Some m \<Rightarrow> ms_status m \<noteq> MsgCreated)")
    case True
    then show ?thesis by (auto simp: cases comm_runs.contract_refl split: option.splits)
  next
    case False
    then obtain m where m: "map_of (messages s) mid = Some m" "ms_status m = MsgCreated" "mid \<noteq> []"
      by (auto split: option.splits)
    show ?thesis
      by (rule comm_contract_with_message [where m = "m\<lparr>ms_status := MsgRejected\<rparr>"])
        (use m comm_ok_message [OF ok m(1)] in \<open>auto simp: cases Let_def\<close>)
  qed
qed (simp add: comm_contract_def)

lemma communication_create_runs:
  assumes "valid_message m"
  shows "comm_contract s (snd (communication_create m s))"
proof (cases "map_of (messages s) (ms_message_id m) = None \<and> ms_status m = MsgCreated")
  case True
  then show ?thesis
    by (intro comm_contract_with_message [where m = m])
      (auto simp: communication_create_def store_message_def action_simps assms deliveries_def trail_def)
qed (auto simp: communication_create_def raise_def comm_runs.contract_refl)

datatype comm_call =
    CreateMessage string string string message_type pydict message_status
  | SendById string
  | SendMessage string string string message_type pydict message_status
  | Reject string
  | GetMessage string
  | CommAgents lifecycle_call

fun comm_exec :: "comm_call \<Rightarrow> ('z comm_world_scheme, agent_message option) action" where
  "comm_exec (CreateMessage mid sid rid ty pl st) =
     bindA (lift_res (new_agent_message mid sid rid ty pl st)) (\<lambda>m.
     bindA (communication_create m) (\<lambda>m. ret (Some m)))"
| "comm_exec (SendById mid) = bindA (communication_send (ById mid)) (\<lambda>m. ret (Some m))"
| "comm_exec (SendMessage mid sid rid ty pl st) =
     bindA (lift_res (new_agent_message mid sid rid ty pl st)) (\<lambda>m.
     bindA (communication_send (ByMessage m)) (\<lambda>m. ret (Some m)))"
| "comm_exec (Reject mid) = bindA (communication_reject mid) (\<lambda>m. ret (Some m))"
| "comm_exec (GetMessage mid) = communication_get mid"
| "comm_exec (CommAgents c) = bindA (lifecycle_exec c) (\<lambda>_. ret None)"

lemma obeys_constructed:
  assumes "contract R" and "\<And>x s. c = Inr x \<Longrightarrow> R s (snd (m x s))"
  shows "obeys R (bindA (lift_res c) m)"
  using assms by (cases c) (auto simp: obeys_def action_simps contract_def)

lemma lifecycle_exec_comm: "obeys comm_contract (lifecycle_exec c)"
proof (rule obeysI)
  fix s :: "'a comm_world_scheme"
  let ?t = "snd (lifecycle_exec c s)"
  have "outside_registry ?t = outside_registry s"
    using obeysD [OF lifecycle_exec_runs [of c], of s] by (simp add: lifecycle_contract_def)
  then have "reg_world.more ?t = reg_world.more s" "audit_log ?t = audit_log s"
    by (simp_all add: outside_registry_def)
  then have "messages ?t = messages s" "trail ?t = trail s"
    by (cases ?t; cases s; simp add: trail_def)+
  then show "comm_contract s ?t" by (intro comm_contract_quiet) (auto simp: deliveries_def)
qed

lemma communication_calls_run:
  "valid_message m \<Longrightarrow> obeys comm_contract (communication_create m)"
  "obeys comm_contract (communication_send (ById mid))"
  "valid_message m \<Longrightarrow> obeys comm_contract (communication_send (ByMessage m))"
  "obeys comm_contract (communication_reject mid)"
  "obeys comm_contract (communication_get mid)"
  by (auto intro!: obeysI communication_create_runs communication_send_runs
      communication_reject_runs)
    (simp add: communication_get_def action_simps comm_runs.contract_refl)

lemmas comm_rules = comm_runs.closure_rules communication_calls_run lifecycle_exec_comm

lemma comm_exec_runs: "obeys comm_contract (comm_exec c)"
proof (cases c)
  case (CreateMessage mid sid rid ty pl st)
  show ?thesis
    unfolding CreateMessage comm_exec.simps
    by (rule obeys_constructed [OF comm_runs.contract_axioms])
      (auto dest!: new_agent_message_valid intro!: obeysD [where R = comm_contract] comm_rules)
next
  case (SendMessage mid sid rid ty pl st)
  show ?thesis
    unfolding SendMessage comm_exec.simps
    by (rule obeys_constructed [OF comm_runs.contract_axioms])
      (auto dest!: new_agent_message_valid intro!: obeysD [where R = comm_contract] comm_rules)
qed (auto intro!: comm_rules)

lemma comm_run_contract: "comm_contract s (run comm_exec s cs)"
  by (rule run_obeys [OF comm_runs.contract_axioms comm_exec_runs])

section \<open>Properties\<close>

definition comm_demo :: comm_world where
  "comm_demo = \<lparr>uuid_src = demo_uuids, clock_src = demo_clock, uuid_pos = 0, clock_pos = 0,
     audit_log = [], agents = [(''a'', demo_agent ''a'' AgentRunning),
       (''b'', demo_agent ''b'' AgentReady), (''c'', demo_agent ''c'' AgentSuspended)],
     perms = [], resources = \<lparr>rs_capacity = 4, rs_available = 4\<rparr>, tasks = [],
     comm_policy = default_communication_policy, messages = []\<rparr>"

definition demo_message :: "string \<Rightarrow> string \<Rightarrow> agent_message" where
  "demo_message mid rid = \<lparr>ms_message_id = mid, ms_sender_id = ''a'', ms_recipient_id = rid,
     ms_message_type = MsgRequest, ms_payload = [], ms_status = MsgCreated\<rparr>"

lemmas comm_demo_simps = comm_demo_def demo_message_def demo_agent_def

lemma comm_demo_ok: "comm_ok comm_demo"
  by (simp add: comm_demo_simps comm_ok_def deliveries_def trail_def delivered_def)

lemma comm_init_ok:
  "audit_log s = [] \<Longrightarrow> comm_ok (communication_init p s)"
  by (simp add: comm_ok_def communication_init_def deliveries_def trail_def delivered_def)

text \<open>The result of sending the message \<open>m\<close>, once it is settled which message that is.\<close>

definition send_outcome :: "'z comm_world_scheme \<Rightarrow> agent_message \<Rightarrow> (exn + agent_message) \<times> 'z comm_world_scheme" where
  "send_outcome s m =
     (let q = message_logged AuditRequested AuditSuccess m s in
      case deliver_refusal s m of
        Some e \<Rightarrow> (Inl e, message_logged AuditFailed AuditFailure m q)
      | None \<Rightarrow> (let d = m\<lparr>ms_status := MsgDelivered\<rparr> in
          (Inr d, message_logged AuditCompleted AuditSuccess d (with_message d q))))"

text \<open>
  C14. Sending, completely. By identifier: an empty or unknown one raises, and so does that of a message
  that is not in the created state, with no audit entry and the state as it was. As an object: when its
  identifier is registered, the registered message is the one that is sent, and it must be in the created
  state; when it is not, the object itself is sent, whatever its status. The message that is sent is
  audited as REQUESTED. The call then raises the documented error, after a FAILED entry and with the
  messages as they were, in exactly these cases: the sender is unknown, or neither ready nor running; the
  recipient is unknown and system communication is disabled; the recipient is known and communication
  between agents is disabled; it is known and neither ready nor running. Otherwise the message is
  stored and returned as delivered, everything else in it unchanged, with a COMPLETED entry.
\<close>

theorem communication_send_spec:
  assumes "comm_ok s" and "\<forall>m. r = ByMessage m \<longrightarrow> valid_message m"
  shows "communication_send r s =
    (let only_created = (\<lambda>m. if ms_status m = MsgCreated then send_outcome s m
           else (Inl (value_error ''Only created messages may be sent.''), s))
     in case r of
       ById mid \<Rightarrow>
         (if mid = [] then (Inl (value_error ''message_id must not be empty.''), s)
          else case map_of (messages s) mid of
            None \<Rightarrow> (Inl (key_error ''Unknown message.''), s)
          | Some m \<Rightarrow> only_created m)
     | ByMessage m \<Rightarrow>
         (case map_of (messages s) (ms_message_id m) of
            None \<Rightarrow> send_outcome s m
          | Some registered \<Rightarrow> only_created registered))
    \<and> (deliver_refusal s m = None \<longleftrightarrow>
        (\<exists>a. map_of (agents s) (ms_sender_id m) = Some a \<and> id_status a \<in> {AgentReady, AgentRunning})
        \<and> (case map_of (agents s) (ms_recipient_id m) of
             None \<Rightarrow> allow_agent_to_system (comm_policy s)
           | Some b \<Rightarrow> allow_agent_to_agent (comm_policy s) \<and> id_status b \<in> {AgentReady, AgentRunning}))"
proof
  have "\<forall>m. resolved s r = Inr m \<longrightarrow> valid_message m"
    using send_resolve_valid(1) [OF assms(1)] assms(2) by blast
  note sends = communication_send_cases [OF this, folded send_outcome_def]
  show "communication_send r s =
    (let only_created = (\<lambda>m. if ms_status m = MsgCreated then send_outcome s m
           else (Inl (value_error ''Only created messages may be sent.''), s))
     in case r of
       ById mid \<Rightarrow>
         (if mid = [] then (Inl (value_error ''message_id must not be empty.''), s)
          else case map_of (messages s) mid of
            None \<Rightarrow> (Inl (key_error ''Unknown message.''), s)
          | Some m \<Rightarrow> only_created m)
     | ByMessage m \<Rightarrow>
         (case map_of (messages s) (ms_message_id m) of
            None \<Rightarrow> send_outcome s m
          | Some registered \<Rightarrow> only_created registered))"
    unfolding sends
    by (auto simp: resolved_def send_resolve_def communication_get_def action_simps Let_def
        split: message_ref.split option.split)
qed (auto simp: deliver_refusal_def split: option.splits)

lemma demo_message_valid: "\<forall>m. ByMessage (demo_message ''m'' ''b'') = ByMessage m \<longrightarrow> valid_message m"
  by (simp add: demo_message_def valid_message_def)

theorem communication_send_spec_witness:
  "fst (communication_send (ByMessage (demo_message ''m'' ''b'')) comm_demo) =
     Inr ((demo_message ''m'' ''b'')\<lparr>ms_status := MsgDelivered\<rparr>)"
  using communication_send_spec [OF comm_demo_ok demo_message_valid]
  by (simp add: comm_demo_simps send_outcome_def deliver_refusal_def
      default_communication_policy_def Let_def)

text \<open>
  C13. At most one delivery. Over any sequence of messages created, sent (by identifier or as
  an object, with arbitrary constructor arguments), rejected and looked up, interleaved with
  lifecycle calls: the audit trail has exactly one COMPLETED entry for each message stored as
  delivered and none for any other identifier; and a registered message is never removed, never
  altered but for its status, and keeps the status once it is delivered or rejected.
\<close>

theorem communication_delivers_at_most_once:
  assumes "comm_ok s" and "t = run comm_exec s cs"
  shows "deliveries t mid = (if delivered t mid then 1 else 0)
    \<and> (\<forall>x. map_of (messages s) mid = Some x \<longrightarrow>
        (\<exists>y. map_of (messages t) mid = Some y \<and> y = x\<lparr>ms_status := ms_status y\<rparr>
          \<and> (ms_status x \<noteq> MsgCreated \<longrightarrow> y = x)))"
proof -
  have c: "comm_contract s t" unfolding assms(2) by (rule comm_run_contract)
  have fin: "v = u" if "reaches message_steps u v" "u \<noteq> MsgCreated" for u v
    using reaches_closed [OF that(1), of "{u}"] that(2) by (cases u) auto
  have "y = x" if "y = x\<lparr>ms_status := ms_status y\<rparr>" "ms_status y = ms_status x" for x y :: agent_message
    using that by (cases x; cases y) simp
  then show ?thesis
    using c assms(1) fin unfolding comm_contract_def comm_ok_def messages_evolve_def by metis
qed

theorem communication_delivers_at_most_once_witness:
  "deliveries (run comm_exec comm_demo
     [CreateMessage ''m'' ''a'' ''b'' MsgEvent [] MsgCreated, SendById ''m'', SendById ''m'',
      SendMessage ''m'' ''a'' ''b'' MsgEvent [] MsgCreated]) ''m'' \<le> 1"
  using communication_delivers_at_most_once [OF comm_demo_ok refl,
      of "[CreateMessage ''m'' ''a'' ''b'' MsgEvent [] MsgCreated, SendById ''m'', SendById ''m'',
      SendMessage ''m'' ''a'' ''b'' MsgEvent [] MsgCreated]" "''m''"]
  by (simp split: if_splits del: run.simps)

text \<open>
  Rejecting, completely: only a registered message in the created state is rejected; it is
  stored and returned as rejected with one FAILED entry, and every other case raises and writes
  nothing.
\<close>

theorem communication_reject_spec:
  assumes "comm_ok s"
  shows "communication_reject mid s =
    (if mid = [] then (Inl (value_error ''message_id must not be empty.''), s)
     else case map_of (messages s) mid of
       None \<Rightarrow> (Inl (key_error ''Unknown message.''), s)
     | Some m \<Rightarrow>
         (if ms_status m \<noteq> MsgCreated
          then (Inl (value_error ''Only created messages may be rejected.''), s)
          else let d = m\<lparr>ms_status := MsgRejected\<rparr> in
               (Inr d, message_logged AuditFailed AuditFailure d (with_message d s))))"
  by (rule communication_reject_cases) (use comm_ok_message [OF assms] in blast)

theorem communication_reject_spec_witness:
  "communication_reject ''m'' comm_demo = (Inl (key_error ''Unknown message.''), comm_demo)"
  using communication_reject_spec [OF comm_demo_ok, of "''m''"] by (simp add: comm_demo_def)

text \<open>
  What the persistent sink keeps of a send. The two audit records of one send carry the
  same event identifier (the message's), which is the primary key of the audit table: written
  to an empty table over a network without outages, the REQUESTED row is kept and the COMPLETED
  row is refused by the table and dropped by the sink.
\<close>

theorem send_completion_lost_in_table:
  assumes "comm_ok s" and "\<forall>m. r = ByMessage m \<longrightarrow> valid_message m"
    and "communication_send r s = (Inr d, t)"
    and "at_rows c = []" and "\<forall>n. \<not> at_outage c n"
    and "new = drop (length (audit_log s)) (audit_log t)"
  shows "map ar_action new = [AuditRequested, AuditCompleted]
    \<and> at_rows (record_all (db_sink_record audit_table_insert) new c) = [audit_payload (hd new)]"
proof -
  have "\<forall>m. resolved s r = Inr m \<longrightarrow> valid_message m"
    using send_resolve_valid(1) [OF assms(1)] assms(2) by blast
  note sends = communication_send_cases [OF this]
  obtain m where m: "resolved s r = Inr m" "deliver_refusal s m = None"
    using assms(3) sends
    by (auto simp: Let_def split: sum.splits option.splits)
  then have new: "new = [message_record AuditRequested AuditSuccess m s,
      message_record AuditCompleted AuditSuccess (m\<lparr>ms_status := MsgDelivered\<rparr>)
        (with_message (m\<lparr>ms_status := MsgDelivered\<rparr>) (message_logged AuditRequested AuditSuccess m s))]"
    using assms(3,6) sends by (auto simp: Let_def)
  have "at_rows (record_all (db_sink_record audit_table_insert) new c)
      = at_rows c @ map audit_payload (firsts [] new)"
    by (rule table_record_firsts) (use assms in auto)
  then show ?thesis
    by (simp add: new assms(4) message_record_def)
qed

lemma demo_sent:
  "communication_send (ByMessage (demo_message ''m'' ''b'')) comm_demo =
     (Inr ((demo_message ''m'' ''b'')\<lparr>ms_status := MsgDelivered\<rparr>),
      snd (communication_send (ByMessage (demo_message ''m'' ''b'')) comm_demo))"
proof (rule prod_eqI)
  have "resolved comm_demo (ByMessage (demo_message ''m'' ''b'')) = Inr (demo_message ''m'' ''b'')"
    by (simp add: comm_demo_def resolved_def send_resolve_def action_simps)
  then show "fst (communication_send (ByMessage (demo_message ''m'' ''b'')) comm_demo) =
      fst (Inr ((demo_message ''m'' ''b'')\<lparr>ms_status := MsgDelivered\<rparr>),
        snd (communication_send (ByMessage (demo_message ''m'' ''b'')) comm_demo))"
    by (subst communication_send_cases)
      (simp_all add: valid_message_def deliver_refusal_def comm_demo_simps
        default_communication_policy_def Let_def)
qed simp

definition empty_table :: audit_table where
  "empty_table = \<lparr>at_rows = [], at_outage = (\<lambda>_. False), at_calls = 0\<rparr>"

lemma empty_table_fields: "at_rows empty_table = []" "\<forall>n. \<not> at_outage empty_table n"
  by (simp_all add: empty_table_def)

theorem send_completion_lost_in_table_witness:
  "length (at_rows (record_all (db_sink_record audit_table_insert)
     (drop (length (audit_log comm_demo))
       (audit_log (snd (communication_send (ByMessage (demo_message ''m'' ''b'')) comm_demo))))
     empty_table)) = 1"
  using send_completion_lost_in_table
    [OF comm_demo_ok demo_message_valid demo_sent empty_table_fields refl] by simp

end
