(* ===== verification/Runtime_State.thy ===== *)
theory Runtime_State
  imports Communication
begin

text \<open>
  The runtime state manager: \<^verbatim>\<open>agent_runtime/state/models.py\<close> and
  \<^verbatim>\<open>agent_runtime/state/engine.py\<close>. A second status table over agents, independent of the
  registry's lifecycle.
\<close>

section \<open>Models\<close>

datatype runtime_state =
    RtInitialized
  | RtReady
  | RtRunning
  | RtPaused
  | RtFailed
  | RtTerminated

fun runtime_state_value :: "runtime_state \<Rightarrow> string" where
  "runtime_state_value RtInitialized = ''initialized''"
| "runtime_state_value RtReady = ''ready''"
| "runtime_state_value RtRunning = ''running''"
| "runtime_state_value RtPaused = ''paused''"
| "runtime_state_value RtFailed = ''failed''"
| "runtime_state_value RtTerminated = ''terminated''"

record agent_runtime_state =
  rt_agent_id :: string
  rt_state :: runtime_state

definition new_agent_runtime_state :: "string \<Rightarrow> runtime_state \<Rightarrow> exn + agent_runtime_state" where
  "new_agent_runtime_state a st =
     (if a = [] then Inl validation_error else Inr \<lparr>rt_agent_id = a, rt_state = st\<rparr>)"

section \<open>The manager\<close>

record rt_world = comm_world +
  runtime_states :: "(string, agent_runtime_state) dict"

fun runtime_transitions :: "runtime_state \<Rightarrow> runtime_state list" where
  "runtime_transitions RtInitialized = [RtReady]"
| "runtime_transitions RtReady = [RtRunning]"
| "runtime_transitions RtRunning = [RtPaused, RtFailed, RtTerminated]"
| "runtime_transitions RtPaused = [RtRunning, RtFailed, RtTerminated]"
| "runtime_transitions RtFailed = [RtTerminated]"
| "runtime_transitions RtTerminated = []"

definition runtime_initialize :: "string \<Rightarrow> ('z rt_world_scheme, agent_runtime_state) action" where
  "runtime_initialize aid s =
     (if aid = [] then raise (value_error ''agent_id must not be empty.'') s
      else if map_of (runtime_states s) aid \<noteq> None
      then raise (value_error ''Agent runtime state is already initialized.'') s
      else bindA (lift_res (new_agent_runtime_state aid RtInitialized)) (\<lambda>st.
           bindA (modify (\<lambda>s. s\<lparr>runtime_states := dict_set aid st (runtime_states s)\<rparr>)) (\<lambda>_.
           ret st)) s)"

definition runtime_get :: "string \<Rightarrow> ('z rt_world_scheme, agent_runtime_state option) action" where
  "runtime_get aid =
     (if aid = [] then raise (value_error ''agent_id must not be empty.'')
      else gets (\<lambda>s. map_of (runtime_states s) aid))"

definition runtime_transition ::
  "string \<Rightarrow> runtime_state \<Rightarrow> ('z rt_world_scheme, agent_runtime_state) action" where
  "runtime_transition aid target =
     bindA (runtime_get aid) (\<lambda>found.
     case found of
       None \<Rightarrow> raise (key_error ''Unknown Agent runtime state.'')
     | Some current \<Rightarrow>
         (if target \<notin> set (runtime_transitions (rt_state current))
          then raise (Raised InvalidRuntimeStateTransitionError
                 (''Invalid runtime state transition: ''
                    @ runtime_state_value (rt_state current) @ '' -> ''
                    @ runtime_state_value target))
          else let updated = current\<lparr>rt_state := target\<rparr> in
               bindA (modify (\<lambda>s. s\<lparr>runtime_states := dict_set aid updated (runtime_states s)\<rparr>))
                 (\<lambda>_. ret updated)))"

section \<open>The table\<close>

lemma runtime_terminates: "reaches runtime_transitions x RtTerminated"
proof -
  have run: "reaches runtime_transitions RtRunning RtTerminated"
    by (rule reaches_step) simp
  have ready: "reaches runtime_transitions RtReady RtTerminated"
    by (rule reaches_cons [OF _ run]) simp
  have init: "reaches runtime_transitions RtInitialized RtTerminated"
    by (rule reaches_cons [OF _ ready]) simp
  show ?thesis
    by (cases x) (simp_all add: run ready init reaches_step)
qed

interpretation runtime_table: status_table runtime_transitions RtInitialized RtTerminated
proof
  show "RtInitialized \<notin> set (runtime_transitions x)" for x
    by (cases x) auto
qed (simp_all add: runtime_terminates)

definition runtime_state_of :: "'z rt_world_scheme \<Rightarrow> string \<Rightarrow> runtime_state option" where
  "runtime_state_of s a = map_option rt_state (map_of (runtime_states s) a)"

interpretation runtime_store:
  status_store runtime_transitions RtInitialized RtTerminated runtime_state_of
  by unfold_locales

text \<open>A failed agent is stuck but for termination: the manager has no recovery transition.\<close>

lemma failed_only_terminates: "reaches runtime_transitions RtFailed y \<Longrightarrow> y \<in> {RtFailed, RtTerminated}"
  by (erule reaches_closed [where S = "{RtFailed, RtTerminated}"]) auto

section \<open>Runs\<close>

datatype runtime_call = RtInitialize string | RtTransition string runtime_state | RtGet string

fun runtime_exec :: "runtime_call \<Rightarrow> ('z rt_world_scheme, agent_runtime_state option) action" where
  "runtime_exec (RtInitialize a) = bindA (runtime_initialize a) (\<lambda>i. ret (Some i))"
| "runtime_exec (RtTransition a st) = bindA (runtime_transition a st) (\<lambda>i. ret (Some i))"
| "runtime_exec (RtGet a) = runtime_get a"

definition runtime_ok :: "'z rt_world_scheme \<Rightarrow> bool" where
  "runtime_ok s \<longleftrightarrow> keyed rt_agent_id (runtime_states s)"

definition outside_runtime :: "'z rt_world_scheme \<Rightarrow> (string, agent_identity) dict \<times> audit_record list" where
  "outside_runtime s = (agents s, audit_log s)"

definition runtime_contract :: "'z rt_world_scheme \<Rightarrow> 'z rt_world_scheme \<Rightarrow> bool" where
  "runtime_contract s t \<longleftrightarrow> outside_runtime t = outside_runtime s
     \<and> evolves runtime_transitions runtime_state_of s t \<and> (runtime_ok s \<longrightarrow> runtime_ok t)"

interpretation runtime_runs: contract runtime_contract
proof
  show "runtime_contract s s" for s :: "'a rt_world_scheme"
    by (simp add: runtime_contract_def runtime_store.evolves_refl)
  show "runtime_contract s u" if "runtime_contract s t" "runtime_contract t u"
    for s t u :: "'a rt_world_scheme"
    using that runtime_store.evolves_trans [of s t u] by (auto simp: runtime_contract_def)
qed

lemma runtime_transition_cases:
  "runtime_transition aid target s =
    (if aid = [] then (Inl (value_error ''agent_id must not be empty.''), s)
     else case map_of (runtime_states s) aid of
       None \<Rightarrow> (Inl (key_error ''Unknown Agent runtime state.''), s)
     | Some i \<Rightarrow>
         (if target \<in> set (runtime_transitions (rt_state i))
          then (Inr (i\<lparr>rt_state := target\<rparr>),
                s\<lparr>runtime_states := dict_set aid (i\<lparr>rt_state := target\<rparr>) (runtime_states s)\<rparr>)
          else (Inl (Raised InvalidRuntimeStateTransitionError
                  (''Invalid runtime state transition: ''
                    @ runtime_state_value (rt_state i) @ '' -> '' @ runtime_state_value target)), s)))"
  by (auto simp: runtime_transition_def runtime_get_def action_simps Let_def split: option.splits)

lemma runtime_initialize_cases:
  "runtime_initialize aid s =
    (if aid = [] then (Inl (value_error ''agent_id must not be empty.''), s)
     else if map_of (runtime_states s) aid \<noteq> None
     then (Inl (value_error ''Agent runtime state is already initialized.''), s)
     else (let st = \<lparr>rt_agent_id = aid, rt_state = RtInitialized\<rparr> in
       (Inr st, s\<lparr>runtime_states := dict_set aid st (runtime_states s)\<rparr>)))"
  by (simp add: runtime_initialize_def new_agent_runtime_state_def action_simps Let_def)

lemma runtime_transition_runs: "obeys runtime_contract (runtime_transition a st)"
proof (rule obeysI)
  fix s :: "'a rt_world_scheme"
  let ?t = "snd (runtime_transition a st s)"
  have "outside_runtime ?t = outside_runtime s"
    by (simp add: runtime_transition_cases outside_runtime_def split: option.split)
  moreover have "evolves runtime_transitions runtime_state_of s ?t"
    by (auto simp: runtime_transition_cases runtime_state_of_def runtime_store.evolves_refl
        intro!: evolves_update [where key = a] reaches_step split: option.splits)
  moreover have "runtime_ok s \<longrightarrow> runtime_ok ?t"
    by (auto simp: runtime_transition_cases runtime_ok_def intro!: keyed_update
        dest: keyed_lookup split: option.splits)
  ultimately show "runtime_contract s ?t" by (simp add: runtime_contract_def)
qed

lemma runtime_initialize_runs: "obeys runtime_contract (runtime_initialize a)"
proof (rule obeysI)
  fix s :: "'a rt_world_scheme"
  let ?t = "snd (runtime_initialize a s)"
  have "outside_runtime ?t = outside_runtime s"
    by (simp add: runtime_initialize_cases outside_runtime_def Let_def)
  moreover have "evolves runtime_transitions runtime_state_of s ?t"
    by (auto simp: runtime_initialize_cases runtime_state_of_def runtime_store.evolves_refl Let_def
        intro!: evolves_insert [where key = a])
  moreover have "runtime_ok s \<longrightarrow> runtime_ok ?t"
    by (auto simp: runtime_initialize_cases runtime_ok_def Let_def intro!: keyed_update)
  ultimately show "runtime_contract s ?t" by (simp add: runtime_contract_def)
qed

lemma runtime_run_contract: "runtime_contract s (run runtime_exec s cs)"
proof (rule run_obeys [OF runtime_runs.contract_axioms])
  show "obeys runtime_contract (runtime_exec c)" for c :: runtime_call
    by (cases c) (auto simp: runtime_get_def
        intro!: runtime_runs.closure_rules runtime_transition_runs runtime_initialize_runs)
qed

section \<open>Properties\<close>

definition rt_demo :: rt_world where
  "rt_demo = comm_world.extend comm_demo (rt_world.fields [])"

text \<open>
  C17. Over any sequence of calls to the manager, an initialized agent stays in the table and its
  state only moves along the transition table: it never returns to initialized, once failed it
  can only be terminated, once terminated it stays so. Neither the registry nor the audit log
  is written.
\<close>

theorem runtime_runs_follow_table:
  assumes "runtime_state_of s a = Some x" and "t = run runtime_exec s cs"
  shows "\<exists>y. runtime_state_of t a = Some y \<and> reaches runtime_transitions x y
    \<and> (y = RtInitialized \<longrightarrow> x = RtInitialized)
    \<and> (x = RtFailed \<longrightarrow> y \<in> {RtFailed, RtTerminated})
    \<and> (x = RtTerminated \<longrightarrow> y = RtTerminated)
    \<and> outside_runtime t = outside_runtime s"
proof -
  have c: "runtime_contract s t" unfolding assms(2) by (rule runtime_run_contract)
  then obtain y where y: "runtime_state_of t a = Some y" "reaches runtime_transitions x y"
    using assms(1) unfolding runtime_contract_def evolves_def by blast
  moreover have "outside_runtime t = outside_runtime s"
    using c by (simp add: runtime_contract_def)
  ultimately show ?thesis
    using runtime_table.final_absorbs runtime_table.never_back failed_only_terminates by blast
qed

lemma rt_demo_started:
  "runtime_state_of (snd (runtime_initialize ''a'' rt_demo)) ''a'' = Some RtInitialized"
  by (simp add: runtime_initialize_cases rt_demo_def comm_demo_def comm_world.defs rt_world.defs
      runtime_state_of_def Let_def)

theorem runtime_runs_follow_table_witness:
  "\<exists>y. runtime_state_of (run runtime_exec (snd (runtime_initialize ''a'' rt_demo))
      [RtTransition ''a'' RtReady, RtTransition ''a'' RtFailed, RtTransition ''a'' RtRunning]) ''a''
      = Some y \<and> reaches runtime_transitions RtInitialized y"
  using runtime_runs_follow_table [OF rt_demo_started refl] by blast

text \<open>
  One transition, completely: an empty identifier, an agent that was never initialized, and
  a target that the table does not list for the current state raise the documented error and
  write nothing; a listed target is stored and returned with the same agent.
\<close>

theorem runtime_transition_spec:
  "runtime_transition aid target s =
    (if aid = [] then (Inl (value_error ''agent_id must not be empty.''), s)
     else case map_of (runtime_states s) aid of
       None \<Rightarrow> (Inl (key_error ''Unknown Agent runtime state.''), s)
     | Some i \<Rightarrow>
         (if target \<in> set (runtime_transitions (rt_state i))
          then (Inr (i\<lparr>rt_state := target\<rparr>),
                s\<lparr>runtime_states := dict_set aid (i\<lparr>rt_state := target\<rparr>) (runtime_states s)\<rparr>)
          else (Inl (Raised InvalidRuntimeStateTransitionError
                  (''Invalid runtime state transition: ''
                    @ runtime_state_value (rt_state i) @ '' -> '' @ runtime_state_value target)), s)))"
  by (rule runtime_transition_cases)

end
