(* ===== verification/Execution.thy ===== *)
theory Execution
  imports Runtime_State
begin

text \<open>
  The execution engine: \<^verbatim>\<open>agent_runtime/execution/models.py\<close> and
  \<^verbatim>\<open>agent_runtime/execution/engine.py\<close>. The behaviour it runs is user code: any action on the
  whole world, which may itself call the scheduler, raise, or be interrupted.
\<close>

section \<open>Models\<close>

datatype execution_status = ExecPending | ExecRunning | ExecCompleted | ExecFailed

record execution_request =
  rq_task_id :: string
  rq_agent_id :: string
  rq_resource_units :: int

definition new_execution_request :: "string \<Rightarrow> string \<Rightarrow> int \<Rightarrow> exn + execution_request" where
  "new_execution_request tid aid units =
     (if tid = [] \<or> aid = [] \<or> units < 1 then Inl validation_error
      else Inr \<lparr>rq_task_id = tid, rq_agent_id = aid, rq_resource_units = units\<rparr>)"

record execution_result =
  er_task_id :: string
  er_agent_id :: string
  er_status :: execution_status
  er_error :: "string option"
  er_metadata :: pydict

definition new_execution_result ::
  "string \<Rightarrow> string \<Rightarrow> execution_status \<Rightarrow> string option \<Rightarrow> pydict \<Rightarrow> exn + execution_result" where
  "new_execution_result tid aid st err md =
     (if tid = [] \<or> aid = [] then Inl validation_error
      else Inr \<lparr>er_task_id = tid, er_agent_id = aid, er_status = st, er_error = err,
                er_metadata = md\<rparr>)"

section \<open>The engine\<close>

fun exn_type_name :: "exn \<Rightarrow> string" where
  "exn_type_name (Raised c m) = class_name c"
| "exn_type_name (Interrupt m) = ''BaseException''"

abbreviation rejected_error :: "string \<Rightarrow> exn" where
  "rejected_error m \<equiv> Raised ExecutionRejectedError m"

definition require_running_task ::
  "execution_request \<Rightarrow> ('z sched_world_scheme, agent_task) action" where
  "require_running_task rq =
     bindA (scheduler_get (rq_task_id rq)) (\<lambda>found.
     case found of
       None \<Rightarrow> raise (rejected_error ''Unknown task.'')
     | Some t \<Rightarrow>
         (if tk_agent_id t \<noteq> rq_agent_id rq
          then raise (rejected_error ''Task agent_id does not match request.'')
          else if tk_status t \<noteq> TaskRunning
          then raise (rejected_error (''Only running tasks may be executed. ''
                 @ ''Scheduler.start() must succeed before execute().''))
          else if tk_resource_units t \<noteq> rq_resource_units rq
          then raise (rejected_error ''Request resource_units does not match the admitted task.'')
          else ret t))"

definition execution_complete ::
  "agent_task \<Rightarrow> pyval \<Rightarrow> ('z sched_world_scheme, execution_result) action" where
  "execution_complete t out =
     bindA (scheduler_complete (tk_task_id t)) (\<lambda>f.
     lift_res (new_execution_result (tk_task_id f) (tk_agent_id f) ExecCompleted None
       [(''output'', out)]))"

definition execution_fail ::
  "agent_task \<Rightarrow> exn \<Rightarrow> ('z sched_world_scheme, execution_result) action" where
  "execution_fail t e =
     bindA (scheduler_fail (tk_task_id t)) (\<lambda>f.
     lift_res (new_execution_result (tk_task_id f) (tk_agent_id f) ExecFailed
       (Some (exn_type_name e @ '': '' @ exn_str e))
       [(''exception_type'', PStr (exn_type_name e))]))"

text \<open>The \<^verbatim>\<open>try\<close> covers the behaviour only; completing is outside it.\<close>

definition execution_execute ::
  "(execution_request \<Rightarrow> ('z sched_world_scheme, pyval) action) \<Rightarrow> execution_request \<Rightarrow>
   ('z sched_world_scheme, execution_result) action" where
  "execution_execute behavior rq =
     bindA (require_running_task rq) (\<lambda>t.
     bindA (attempt (behavior rq)) (\<lambda>r.
     case r of Inl e \<Rightarrow> execution_fail t e | Inr out \<Rightarrow> execution_complete t out))"

section \<open>Facts\<close>

definition request_refusal :: "'z sched_world_scheme \<Rightarrow> execution_request \<Rightarrow> exn option" where
  "request_refusal s rq =
     (case map_of (tasks s) (rq_task_id rq) of
        None \<Rightarrow> Some (rejected_error ''Unknown task.'')
      | Some t \<Rightarrow>
          (if tk_agent_id t \<noteq> rq_agent_id rq
           then Some (rejected_error ''Task agent_id does not match request.'')
           else if tk_status t \<noteq> TaskRunning
           then Some (rejected_error (''Only running tasks may be executed. ''
                 @ ''Scheduler.start() must succeed before execute().''))
           else if tk_resource_units t \<noteq> rq_resource_units rq
           then Some (rejected_error ''Request resource_units does not match the admitted task.'')
           else None))"

lemma require_running_task_cases:
  assumes "rq_task_id rq \<noteq> []"
  shows "require_running_task rq s =
    (case request_refusal s rq of
       Some e \<Rightarrow> (Inl e, s)
     | None \<Rightarrow> (Inr (the (map_of (tasks s) (rq_task_id rq))), s))"
  using assms
  by (simp add: require_running_task_def request_refusal_def scheduler_get_def action_simps
      split: option.split)

lemma request_accepted:
  "request_refusal s rq = None \<Longrightarrow> \<exists>t. map_of (tasks s) (rq_task_id rq) = Some t \<and> tk_status t = TaskRunning"
  by (auto simp: request_refusal_def split: option.splits if_splits)

lemma execution_finish_runs:
  "obeys sched_contract (execution_complete t out)"
  "obeys sched_contract (execution_fail t e)"
  unfolding execution_complete_def execution_fail_def scheduler_complete_def scheduler_fail_def
  by (intro sched_runs.closure_rules obeysI scheduler_finish_runs; simp)+

lemma execution_execute_runs:
  assumes "obeys sched_contract (behavior rq)"
  shows "obeys sched_contract (execution_execute behavior rq)"
proof -
  have "obeys sched_contract (require_running_task rq)"
    unfolding require_running_task_def scheduler_get_def by (intro sched_runs.closure_rules)
  then show ?thesis
    unfolding execution_execute_def
    by (intro sched_runs.closure_rules execution_finish_runs assms)
qed

text \<open>What the engine does with the outcome of the behaviour.\<close>

definition settled :: "agent_task \<Rightarrow> exn + pyval \<Rightarrow> execution_result \<times> task_status" where
  "settled t r = (case r of
     Inl e \<Rightarrow> (\<lparr>er_task_id = tk_task_id t, er_agent_id = tk_agent_id t, er_status = ExecFailed,
                er_error = Some (exn_type_name e @ '': '' @ exn_str e),
                er_metadata = [(''exception_type'', PStr (exn_type_name e))]\<rparr>, TaskFailed)
   | Inr out \<Rightarrow> (\<lparr>er_task_id = tk_task_id t, er_agent_id = tk_agent_id t, er_status = ExecCompleted,
                er_error = None, er_metadata = [(''output'', out)]\<rparr>, TaskCompleted))"

lemma execution_execute_cases:
  assumes rq: "rq_task_id rq \<noteq> []" and acc: "request_refusal s rq = None"
    and t: "map_of (tasks s) (rq_task_id rq) = Some t" and beh: "behavior rq s = (r, s')"
    and ok: "sched_ok s'" and still: "map_of (tasks s') (rq_task_id rq) = Some t'"
    and same: "t' = t\<lparr>tk_status := tk_status t'\<rparr>" and id: "tk_task_id t = rq_task_id rq"
  shows "execution_execute behavior rq s =
    (case r of
       Inl (Interrupt m) \<Rightarrow> (Inl (Interrupt m), s')
     | _ \<Rightarrow> (if tk_status t' \<noteq> TaskRunning
         then (Inl (value_error ''Only running tasks may finish.''),
               task_logged AuditFailed AuditFailure t' s')
         else (Inr (fst (settled t r)), snd (scheduler_finish (rq_task_id rq) (snd (settled t r)) s'))))"
proof -
  have ids: "tk_task_id t' = rq_task_id rq" "tk_agent_id t' = tk_agent_id t"
    using same id by (cases t; cases t'; simp)+
  have "tk_agent_id t \<noteq> []" using sched_ok_task(2) [OF ok still] ids by (simp add: valid_task_def)
  then show ?thesis
    using rq t id ids still
    by (auto simp: execution_execute_def bindA_def require_running_task_cases acc beh
        attempt_cases execution_complete_def execution_fail_def scheduler_complete_def scheduler_fail_def
        scheduler_finish_cases [OF ok] Let_def lift_res_def new_execution_result_def settled_def
        split: sum.split exn.split)
qed

section \<open>Properties\<close>

definition exec_demo :: sched_world where
  "exec_demo = sched_demo [(demo_task ''t'' PriorityHigh 2)\<lparr>tk_status := TaskRunning\<rparr>]
     \<lparr>resources := \<lparr>rs_capacity = 4, rs_available = 2\<rparr>\<rparr>"

definition demo_request :: execution_request where
  "demo_request = \<lparr>rq_task_id = ''t'', rq_agent_id = ''a'', rq_resource_units = 2\<rparr>"

definition crashing :: "execution_request \<Rightarrow> (sched_world, pyval) action" where
  "crashing rq = raise (value_error ''boom'')"

lemma exec_demo_ok: "sched_ok exec_demo"
  by (simp add: exec_demo_def sched_demo_simps sched_ok_def keyed_def valid_task_def ledger_def
      units_in_use_def dict_total_def held_units_def)

lemma demo_request_ok: "new_execution_request ''t'' ''a'' 2 = Inr demo_request"
  by (simp add: new_execution_request_def demo_request_def)

lemma new_execution_request_valid:
  "new_execution_request tid aid u = Inr rq \<Longrightarrow> rq_task_id rq \<noteq> []"
  by (auto simp: new_execution_request_def split: if_splits)

text \<open>
  C7. An execution always settles its task. For any behaviour that reaches the scheduler only
  through its operations, whatever it returns or raises: a refused request raises the rejection
  error and changes nothing; an accepted one ends with its task completed, failed or cancelled,
  unless the behaviour was interrupted by a \<^verbatim>\<open>BaseException\<close>, which propagates. In every case no
  resource unit is lost or gained.
\<close>

theorem execution_settles_task:
  assumes "sched_ok s" and "new_execution_request tid aid u = Inr rq"
    and "obeys sched_contract (behavior rq)"
    and "execution_execute behavior rq s = (r, t)"
  shows "ledger t = ledger s \<and>
    (case request_refusal s rq of
       Some e \<Rightarrow> r = Inl e \<and> t = s
     | None \<Rightarrow> (\<exists>m. r = Inl (Interrupt m))
         \<or> (\<exists>x. map_of (tasks t) (rq_task_id rq) = Some x
              \<and> tk_status x \<in> {TaskCompleted, TaskFailed, TaskCancelled}))"
proof -
  have ne: "rq_task_id rq \<noteq> []" by (rule new_execution_request_valid [OF assms(2)])
  have led: "ledger t = ledger s"
    using obeysD [OF execution_execute_runs [of behavior rq, OF assms(3)], of s] assms(1,4)
    by (simp add: sched_contract_def)
  show ?thesis
  proof (cases "request_refusal s rq")
    case (Some e)
    then show ?thesis
      using assms(4) led
      by (simp add: execution_execute_def bindA_def require_running_task_cases [OF ne])
  next
    case acc: None
    obtain x where x: "map_of (tasks s) (rq_task_id rq) = Some x" "tk_status x = TaskRunning"
      using request_accepted [OF acc] by blast
    obtain b s' where b: "behavior rq s = (b, s')" by (cases "behavior rq s")
    have c: "sched_contract s s'" using obeysD [OF assms(3), of s] b by simp
    with assms(1) x obtain y where ok: "sched_ok s'" and y: "map_of (tasks s') (rq_task_id rq) = Some y"
      "y = x\<lparr>tk_status := tk_status y\<rparr>" "reaches task_steps TaskRunning (tk_status y)"
      by (force simp: sched_contract_def tasks_evolve_def)
    have id: "tk_task_id x = rq_task_id rq" by (rule sched_ok_task(1) [OF assms(1) x(1)])
    note run = execution_execute_cases [of rq s _ behavior, OF ne acc x(1) b ok y(1,2) id]
    have st: "tk_status y \<in> {TaskRunning, TaskCompleted, TaskFailed, TaskCancelled}"
      by (rule reaches_closed [OF y(3)]) auto
    have "(\<exists>m. r = Inl (Interrupt m)) \<or> (\<exists>z. map_of (tasks t) (rq_task_id rq) = Some z
        \<and> tk_status z \<in> {TaskCompleted, TaskFailed, TaskCancelled})"
      using assms(4) run st y(1) ne sched_ok_task(1) [OF ok y(1)]
      by (auto simp: scheduler_finish_cases [OF ok] settled_def Let_def
          split: sum.splits exn.splits if_splits)
    with acc led show ?thesis by simp
  qed
qed

lemma crashing_obeys: "obeys sched_contract (crashing demo_request)"
  unfolding crashing_def by (rule sched_runs.raise_in)

theorem execution_settles_task_witness:
  "ledger (snd (execution_execute crashing demo_request exec_demo)) = ledger exec_demo"
  using execution_settles_task [of _ _ _ _ _ crashing, OF exec_demo_ok demo_request_ok crashing_obeys
      prod.collapse [symmetric]] by blast

text \<open>
  The verdict. When the behaviour leaves the scheduler alone, an accepted request returns a
  result that mirrors its outcome: a value makes the result and the task completed, with the value
  as the output; an \<^verbatim>\<open>Exception\<close> makes both failed, with \<^verbatim>\<open>Type: message\<close> as the error; and the
  task's units are free again. An interrupt propagates and leaves the task running.
\<close>

theorem execution_verdict:
  assumes "sched_ok s" and "new_execution_request tid aid u = Inr rq"
    and "request_refusal s rq = None" and "behavior rq s = (b, s')"
    and "tasks s' = tasks s" and "resources s' = resources s"
    and "execution_execute behavior rq s = (r, t)"
  shows "case b of
      Inl (Interrupt m) \<Rightarrow> r = Inl (Interrupt m) \<and> tasks t = tasks s \<and> resources t = resources s
    | _ \<Rightarrow> (\<exists>x. map_of (tasks s) (rq_task_id rq) = Some x \<and> r = Inr (fst (settled x b))
        \<and> map_of (tasks t) = (map_of (tasks s))(rq_task_id rq \<mapsto> x\<lparr>tk_status := snd (settled x b)\<rparr>)
        \<and> rs_available (resources t) = rs_available (resources s) + tk_resource_units x)"
proof -
  have ne: "rq_task_id rq \<noteq> []" by (rule new_execution_request_valid [OF assms(2)])
  have ok: "sched_ok s'"
    using assms(1,5,6) by (simp add: sched_ok_def ledger_def units_in_use_def)
  obtain x where x: "map_of (tasks s) (rq_task_id rq) = Some x" "tk_status x = TaskRunning"
    using request_accepted [OF assms(3)] by blast
  have x': "map_of (tasks s') (rq_task_id rq) = Some x" using x assms(5) by simp
  have id: "tk_task_id x = rq_task_id rq" by (rule sched_ok_task(1) [OF assms(1) x(1)])
  have "x = x\<lparr>tk_status := tk_status x\<rparr>" by simp
  note run = execution_execute_cases [of rq s _ behavior, OF ne assms(3) x(1) assms(4) ok x' this id]
  show ?thesis
    using assms(5-7) run x ne id
    by (auto simp: scheduler_finish_cases [OF ok] settled_def Let_def
        split: sum.splits exn.splits)
qed

lemma exec_demo_accepts: "request_refusal exec_demo demo_request = None"
  by (simp add: request_refusal_def demo_request_def exec_demo_def sched_demo_simps)

lemma crashing_step: "crashing demo_request exec_demo = (Inl (value_error ''boom''), exec_demo)"
  by (simp add: crashing_def raise_def)

theorem execution_verdict_witness:
  "\<exists>x. fst (execution_execute crashing demo_request exec_demo)
     = Inr (fst (settled x (Inl (value_error ''boom''))))"
  using execution_verdict [of _ _ _ _ _ crashing, OF exec_demo_ok demo_request_ok exec_demo_accepts crashing_step refl refl
      prod.collapse [symmetric]] by auto

end
