(* ===== verification/Memory.thy ===== *)
theory Memory
  imports Runtime_State
begin

text \<open>
  The memory system's core: records (\<^verbatim>\<open>models/memory_record.py\<close>), the validator
  (\<^verbatim>\<open>memory_validation/validator.py\<close>), the storage interface (\<^verbatim>\<open>storage/interface.py\<close>) as a
  record of operations with two contracts as locales, the kernel
  (\<^verbatim>\<open>memory_kernel/kernel.py\<close>), the typed stores, the retrieval engine and the consolidation
  engine. The dictionary storage the lifecycle tests run against is the reliable instance of the
  interface; the database storage is the theory \<open>Memory_Database\<close>.
\<close>

section \<open>Records\<close>

datatype memory_type = WorkingMemory | EpisodicMemory | SemanticMemory | ProceduralMemory

datatype validation_status = ValidationPending | ValidationValidated | ValidationRejected

fun memory_type_value :: "memory_type \<Rightarrow> string" where
  "memory_type_value WorkingMemory = ''working''"
| "memory_type_value EpisodicMemory = ''episodic''"
| "memory_type_value SemanticMemory = ''semantic''"
| "memory_type_value ProceduralMemory = ''procedural''"

fun validation_status_value :: "validation_status \<Rightarrow> string" where
  "validation_status_value ValidationPending = ''pending''"
| "validation_status_value ValidationValidated = ''validated''"
| "validation_status_value ValidationRejected = ''rejected''"

record memory_record =
  mr_memory_id :: string
  mr_memory_type :: memory_type
  mr_created_at :: datetime
  mr_content :: pyval
  mr_metadata :: pydict
  mr_validation_status :: validation_status
  mr_operation_id :: string
  mr_agent_id :: string

definition new_memory_record ::
  "string \<Rightarrow> memory_type \<Rightarrow> datetime \<Rightarrow> pyval \<Rightarrow> pydict \<Rightarrow> validation_status \<Rightarrow> string \<Rightarrow> string \<Rightarrow>
   exn + memory_record" where
  "new_memory_record mid ty t c md vs opid ag =
     (if mid = [] \<or> opid = [] \<or> ag = [] then Inl validation_error
      else Inr \<lparr>mr_memory_id = mid, mr_memory_type = ty, mr_created_at = t, mr_content = c,
                mr_metadata = md, mr_validation_status = vs, mr_operation_id = opid,
                mr_agent_id = ag\<rparr>)"

definition memory_validate :: "memory_record \<Rightarrow> exn + memory_record" where
  "memory_validate r =
     (if mr_memory_id r = [] then Inl (value_error ''memory_id must not be empty.'')
      else if mr_operation_id r = [] then Inl (value_error ''operation_id must not be empty.'')
      else if mr_agent_id r = [] then Inl (value_error ''agent_id must not be empty.'')
      else if mr_validation_status r = ValidationRejected
      then Inl (value_error ''Rejected memory cannot be persisted.'')
      else Inr r)"

text \<open>The records a kernel hands to its storage: validated and traceable.\<close>

definition record_ok :: "memory_record \<Rightarrow> bool" where
  "record_ok r \<longleftrightarrow> mr_memory_id r \<noteq> [] \<and> mr_operation_id r \<noteq> [] \<and> mr_agent_id r \<noteq> []
     \<and> mr_validation_status r = ValidationValidated"

section \<open>The storage interface\<close>

text \<open>An implementation of the abstract class over its own state \<open>'m\<close>.\<close>

record 'm storage =
  sto_store :: "memory_record \<Rightarrow> ('m, unit) action"
  sto_retrieve :: "string \<Rightarrow> ('m, memory_record option) action"
  sto_delete :: "string \<Rightarrow> ('m, bool) action"

text \<open>
  What a client may rely on whatever the implementation does with failures: \<open>content\<close> is the
  persisted map; storing a good record writes it or nothing; retrieving writes nothing and never
  invents a record; deleting removes the record or nothing, and answers \<^const>\<open>True\<close> only when the
  record is gone.
\<close>

locale memory_storage =
  fixes st :: "'m storage"
    and content :: "'m \<Rightarrow> string \<Rightarrow> memory_record option"
  assumes store_effect: "record_ok r \<Longrightarrow>
      content (snd (sto_store st r m)) \<in> {content m, (content m)(mr_memory_id r \<mapsto> r)}"
    and retrieve_pure: "content (snd (sto_retrieve st k m)) = content m"
    and retrieve_sound: "fst (sto_retrieve st k m) = Inr (Some r) \<Longrightarrow> content m k = Some r"
    and delete_effect: "content (snd (sto_delete st k m)) \<in> {content m, (content m)(k := None)}"
    and delete_sound: "fst (sto_delete st k m) = Inr True \<Longrightarrow>
      content (snd (sto_delete st k m)) = (content m)(k := None)"

text \<open>A storage that never fails.\<close>

locale reliable_storage = memory_storage st content
  for st :: "'m storage" and content :: "'m \<Rightarrow> string \<Rightarrow> memory_record option" +
  assumes store_ok: "record_ok r \<Longrightarrow> fst (sto_store st r m) = Inr ()"
    and store_done: "record_ok r \<Longrightarrow> content (snd (sto_store st r m)) = (content m)(mr_memory_id r \<mapsto> r)"
    and retrieve_ok: "fst (sto_retrieve st k m) = Inr (content m k)"
    and delete_ok: "fst (sto_delete st k m) = Inr (content m k \<noteq> None)"
    and delete_done: "content (snd (sto_delete st k m)) = (content m)(k := None)"

section \<open>The kernel\<close>

record 'm mem_world = rt_world +
  mem :: 'm

definition on_storage :: "('m, 'a) action \<Rightarrow> (('m, 'z) mem_world_scheme, 'a) action" where
  "on_storage a s = (case a (mem s) of (r, m') \<Rightarrow> (r, s\<lparr>mem := m'\<rparr>))"

definition kernel_store :: "'m storage \<Rightarrow> memory_record \<Rightarrow> (('m, 'z) mem_world_scheme, unit) action" where
  "kernel_store st r =
     bindA (lift_res (memory_validate r)) (\<lambda>r.
     if mr_validation_status r \<noteq> ValidationValidated
     then raise (value_error ''Only validated memory may be stored.'')
     else on_storage (sto_store st r))"

definition kernel_retrieve ::
  "'m storage \<Rightarrow> string \<Rightarrow> (('m, 'z) mem_world_scheme, memory_record option) action" where
  "kernel_retrieve st mid =
     (if mid = [] then raise (value_error ''memory_id must not be empty.'')
      else on_storage (sto_retrieve st mid))"

definition kernel_delete :: "'m storage \<Rightarrow> string \<Rightarrow> (('m, 'z) mem_world_scheme, bool) action" where
  "kernel_delete st mid =
     (if mid = [] then raise (value_error ''memory_id must not be empty.'')
      else on_storage (sto_delete st mid))"

definition kernel_validate_type :: "memory_record \<Rightarrow> memory_type \<Rightarrow> bool" where
  "kernel_validate_type r ty \<longleftrightarrow> mr_memory_type r = ty"

section \<open>Typed stores, retrieval and consolidation\<close>

definition working_store :: "'m storage \<Rightarrow> memory_record \<Rightarrow> (('m, 'z) mem_world_scheme, unit) action" where
  "working_store st r =
     (if mr_memory_type r \<noteq> WorkingMemory
      then raise (value_error ''Working memory requires memory_type=working.'')
      else kernel_store st r)"

definition working_retrieve ::
  "'m storage \<Rightarrow> string \<Rightarrow> (('m, 'z) mem_world_scheme, memory_record option) action" where
  "working_retrieve st mid = kernel_retrieve st mid"

definition episodic_store :: "'m storage \<Rightarrow> memory_record \<Rightarrow> (('m, 'z) mem_world_scheme, unit) action" where
  "episodic_store st r =
     (if mr_memory_type r \<noteq> EpisodicMemory
      then raise (value_error ''Episodic memory requires memory_type=episodic.'')
      else kernel_store st r)"

definition episodic_retrieve ::
  "'m storage \<Rightarrow> string \<Rightarrow> (('m, 'z) mem_world_scheme, memory_record option) action" where
  "episodic_retrieve st mid = kernel_retrieve st mid"

definition semantic_store :: "'m storage \<Rightarrow> memory_record \<Rightarrow> (('m, 'z) mem_world_scheme, unit) action" where
  "semantic_store st r =
     (if mr_memory_type r \<noteq> SemanticMemory
      then raise (value_error ''Semantic memory requires memory_type=semantic.'')
      else kernel_store st r)"

definition semantic_retrieve ::
  "'m storage \<Rightarrow> string \<Rightarrow> (('m, 'z) mem_world_scheme, memory_record option) action" where
  "semantic_retrieve st mid = kernel_retrieve st mid"

definition procedural_store :: "'m storage \<Rightarrow> memory_record \<Rightarrow> (('m, 'z) mem_world_scheme, unit) action" where
  "procedural_store st r =
     (if mr_memory_type r \<noteq> ProceduralMemory
      then raise (value_error ''Procedural memory requires memory_type=procedural.'')
      else kernel_store st r)"

definition procedural_retrieve ::
  "'m storage \<Rightarrow> string \<Rightarrow> (('m, 'z) mem_world_scheme, memory_record option) action" where
  "procedural_retrieve st mid = kernel_retrieve st mid"

definition retrieval_retrieve ::
  "'m storage \<Rightarrow> string \<Rightarrow> (('m, 'z) mem_world_scheme, memory_record option) action" where
  "retrieval_retrieve st mid =
     (if mid = [] then raise (value_error ''memory_id must not be empty.'')
      else bindA (on_storage (sto_retrieve st mid)) (\<lambda>found.
        case found of
          None \<Rightarrow> ret None
        | Some r \<Rightarrow>
            (if mr_memory_type r \<notin>
                  {WorkingMemory, EpisodicMemory, SemanticMemory, ProceduralMemory}
             then raise (value_error ''Unsupported memory type.'')
             else ret (Some r))))"

definition consolidated_id :: "string \<Rightarrow> string" where
  "consolidated_id mid = ''semantic:'' @ mid"

definition consolidate ::
  "'m storage \<Rightarrow> memory_record \<Rightarrow> string \<Rightarrow> string \<Rightarrow> (('m, 'z) mem_world_scheme, memory_record) action" where
  "consolidate st source opid ag =
     (if mr_memory_type source \<noteq> EpisodicMemory
      then raise (value_error ''Consolidation requires episodic source memory.'')
      else if mr_validation_status source \<noteq> ValidationValidated
      then raise (value_error ''Only validated episodic memory may be consolidated.'')
      else if opid = [] then raise (value_error ''operation_id must not be empty.'')
      else if ag = [] then raise (value_error ''agent_id must not be empty.'')
      else bindA now (\<lambda>t.
        bindA (lift_res (new_memory_record (consolidated_id (mr_memory_id source)) SemanticMemory t
          (PDict [(''source_memory_id'', PStr (mr_memory_id source)),
                  (''knowledge'', mr_content source)])
          [(''consolidated_from'', PStr (mr_memory_id source)),
           (''source_memory_type'', PStr (memory_type_value (mr_memory_type source)))]
          ValidationValidated opid ag)) (\<lambda>c.
        bindA (kernel_store st c) (\<lambda>_. ret c))))"

section \<open>Facts every storage gives\<close>

lemma on_storage_mem [simp]: "mem (snd (on_storage a s)) = snd (a (mem s))"
  by (simp add: on_storage_def split: prod.split)

lemma on_storage_fst [simp]: "fst (on_storage a s) = fst (a (mem s))"
  by (simp add: on_storage_def split: prod.split)

lemma on_storage_audit_log [simp]: "audit_log (snd (on_storage a s)) = audit_log s"
  by (simp add: on_storage_def split: prod.split)

text \<open>Everything a storage call leaves alone.\<close>

definition outside_memory :: "('m, 'z) mem_world_scheme \<Rightarrow>
    (string, agent_identity) dict \<times> (string, permission_set) dict \<times> (string, agent_task) dict
    \<times> scheduler_resources \<times> (string, agent_message) dict \<times> (string, agent_runtime_state) dict" where
  "outside_memory s = (agents s, perms s, tasks s, resources s, messages s, runtime_states s)"

lemma on_storage_outside [simp]: "outside_memory (snd (on_storage a s)) = outside_memory s"
  by (simp add: on_storage_def outside_memory_def split: prod.split)

text \<open>What is persisted through a kernel: good records, filed under their own identifier.\<close>

definition contents_ok :: "(string \<Rightarrow> memory_record option) \<Rightarrow> bool" where
  "contents_ok c \<longleftrightarrow> (\<forall>k r. c k = Some r \<longrightarrow> record_ok r \<and> mr_memory_id r = k)"

lemma contents_ok_update: "contents_ok c \<Longrightarrow> record_ok r \<Longrightarrow> contents_ok (c(mr_memory_id r \<mapsto> r))"
  by (simp add: contents_ok_def)

lemma contents_ok_delete: "contents_ok c \<Longrightarrow> contents_ok (c(k := None))"
  by (simp add: contents_ok_def)

text \<open>Why the kernel refuses a record; \<^const>\<open>None\<close> means it is handed to the storage.\<close>

definition store_refusal :: "memory_record \<Rightarrow> exn option" where
  "store_refusal r =
     (case memory_validate r of
        Inl e \<Rightarrow> Some e
      | Inr r \<Rightarrow> (if mr_validation_status r \<noteq> ValidationValidated
                 then Some (value_error ''Only validated memory may be stored.'') else None))"

lemma store_accepted: "store_refusal r = None \<longleftrightarrow> record_ok r"
  by (auto simp: store_refusal_def memory_validate_def record_ok_def)

lemma store_refusal_exception: "store_refusal r = Some e \<Longrightarrow> is_exception e"
  by (auto simp: store_refusal_def memory_validate_def split: if_splits)

lemma kernel_store_cases:
  "kernel_store st r s =
    (case store_refusal r of Some e \<Rightarrow> (Inl e, s) | None \<Rightarrow> on_storage (sto_store st r) s)"
  by (auto simp: kernel_store_def store_refusal_def memory_validate_def action_simps)

lemma kernel_retrieve_nonempty: "mid \<noteq> [] \<Longrightarrow> kernel_retrieve st mid = on_storage (sto_retrieve st mid)"
  by (simp add: kernel_retrieve_def)

lemma kernel_delete_nonempty: "mid \<noteq> [] \<Longrightarrow> kernel_delete st mid = on_storage (sto_delete st mid)"
  by (simp add: kernel_delete_def)

lemma retrieval_is_kernel: "retrieval_retrieve st mid s = kernel_retrieve st mid s"
proof -
  have "ty \<in> {WorkingMemory, EpisodicMemory, SemanticMemory, ProceduralMemory}" for ty
    by (cases ty) auto
  then show ?thesis
    by (auto simp: retrieval_retrieve_def kernel_retrieve_def bindA_def ret_def
        split: prod.split sum.split option.split)
qed

context memory_storage
begin

lemma kernel_store_keeps:
  "contents_ok (content (mem s)) \<Longrightarrow> contents_ok (content (mem (snd (kernel_store st r s))))"
  using store_effect [of r "mem s"]
  by (auto simp: kernel_store_cases store_accepted contents_ok_update split: option.split)

lemma kernel_retrieve_keeps: "content (mem (snd (kernel_retrieve st k s))) = content (mem s)"
  by (simp add: kernel_retrieve_def raise_def retrieve_pure)

lemma kernel_delete_keeps:
  "contents_ok (content (mem s)) \<Longrightarrow> contents_ok (content (mem (snd (kernel_delete st k s))))"
  using delete_effect [of k "mem s"]
  by (auto simp: kernel_delete_def raise_def contents_ok_delete)

lemma kernel_retrieve_sound:
  "contents_ok (content (mem s)) \<Longrightarrow> fst (kernel_retrieve st k s) = Inr (Some r) \<Longrightarrow>
   content (mem s) k = Some r \<and> record_ok r \<and> mr_memory_id r = k"
  using retrieve_sound [of k "mem s" r]
  by (auto simp: kernel_retrieve_def raise_def contents_ok_def split: if_splits)

end

context reliable_storage
begin

lemma kernel_store_then_retrieve:
  assumes "fst (kernel_store st r s) = Inr ()"
  shows "fst (kernel_retrieve st k (snd (kernel_store st r s)))
    = (if k = [] then Inl (value_error ''memory_id must not be empty.'')
       else if k = mr_memory_id r then Inr (Some r) else fst (kernel_retrieve st k s))"
  using assms store_accepted [of r]
  by (cases "store_refusal r")
    (auto simp: kernel_store_cases kernel_retrieve_def raise_def retrieve_ok store_done)

lemma kernel_delete_then_retrieve:
  "k \<noteq> [] \<Longrightarrow> fst (kernel_retrieve st k (snd (kernel_delete st k s))) = Inr None"
  by (simp add: kernel_retrieve_def kernel_delete_def retrieve_ok delete_done)

end

section \<open>The dictionary storage\<close>

record dict_storage =
  ds_records :: "(string, memory_record) dict"
  ds_store_calls :: "string list"
  ds_delete_calls :: "string list"

definition dict_storage_store :: "memory_record \<Rightarrow> (dict_storage, unit) action" where
  "dict_storage_store r = modify (\<lambda>m. m\<lparr>ds_store_calls := ds_store_calls m @ [mr_memory_id r],
     ds_records := dict_set (mr_memory_id r) r (ds_records m)\<rparr>)"

definition dict_storage_retrieve :: "string \<Rightarrow> (dict_storage, memory_record option) action" where
  "dict_storage_retrieve k = gets (\<lambda>m. map_of (ds_records m) k)"

definition dict_storage_delete :: "string \<Rightarrow> (dict_storage, bool) action" where
  "dict_storage_delete k m =
     (Inr (map_of (ds_records m) k \<noteq> None),
      m\<lparr>ds_delete_calls := ds_delete_calls m @ [k], ds_records := dict_del k (ds_records m)\<rparr>)"

definition dict_storage_ops :: "dict_storage storage" where
  "dict_storage_ops = \<lparr>sto_store = dict_storage_store, sto_retrieve = dict_storage_retrieve,
     sto_delete = dict_storage_delete\<rparr>"

definition dict_content :: "dict_storage \<Rightarrow> string \<Rightarrow> memory_record option" where
  "dict_content m = map_of (ds_records m)"

interpretation dict_storage: reliable_storage dict_storage_ops dict_content
  by unfold_locales
    (auto simp: dict_storage_ops_def dict_content_def dict_storage_store_def
      dict_storage_retrieve_def dict_storage_delete_def action_simps)

section \<open>Consolidation\<close>

definition consolidation_refusal :: "memory_record \<Rightarrow> string \<Rightarrow> string \<Rightarrow> exn option" where
  "consolidation_refusal source opid ag =
     (if mr_memory_type source \<noteq> EpisodicMemory
      then Some (value_error ''Consolidation requires episodic source memory.'')
      else if mr_validation_status source \<noteq> ValidationValidated
      then Some (value_error ''Only validated episodic memory may be consolidated.'')
      else if opid = [] then Some (value_error ''operation_id must not be empty.'')
      else if ag = [] then Some (value_error ''agent_id must not be empty.'')
      else None)"

definition consolidated_record :: "memory_record \<Rightarrow> string \<Rightarrow> string \<Rightarrow> datetime \<Rightarrow> memory_record" where
  "consolidated_record source opid ag t =
     \<lparr>mr_memory_id = consolidated_id (mr_memory_id source), mr_memory_type = SemanticMemory,
      mr_created_at = t,
      mr_content = PDict [(''source_memory_id'', PStr (mr_memory_id source)),
                          (''knowledge'', mr_content source)],
      mr_metadata = [(''consolidated_from'', PStr (mr_memory_id source)),
                     (''source_memory_type'', PStr ''episodic'')],
      mr_validation_status = ValidationValidated, mr_operation_id = opid, mr_agent_id = ag\<rparr>"

lemma consolidated_id_nonempty [simp]: "consolidated_id mid \<noteq> []"
  by (simp add: consolidated_id_def)

lemma consolidated_id_fresh [simp]: "consolidated_id mid \<noteq> mid" "mid \<noteq> consolidated_id mid"
  by (auto simp: consolidated_id_def dest: arg_cong [where f = length])

lemma consolidated_record_ok: "opid \<noteq> [] \<Longrightarrow> ag \<noteq> [] \<Longrightarrow> record_ok (consolidated_record source opid ag t)"
  by (simp add: record_ok_def consolidated_record_def)

definition ticked :: "'z env_world_scheme \<Rightarrow> 'z env_world_scheme" where
  "ticked s = s\<lparr>clock_pos := Suc (clock_pos s)\<rparr>"

lemma consolidate_cases:
  "consolidate st source opid ag s =
    (case consolidation_refusal source opid ag of
       Some e \<Rightarrow> (Inl e, s)
     | None \<Rightarrow> (let c = consolidated_record source opid ag (clock_src s (clock_pos s)) in
         case on_storage (sto_store st c) (ticked s) of
           (Inl e, t) \<Rightarrow> (Inl e, t) | (Inr u, t) \<Rightarrow> (Inr c, t)))"
proof (cases "consolidation_refusal source opid ag")
  case (Some e)
  then show ?thesis
    by (auto simp: consolidate_def consolidation_refusal_def raise_def split: if_splits)
next
  case None
  then have c: "mr_memory_type source = EpisodicMemory" "mr_validation_status source = ValidationValidated"
    "opid \<noteq> []" "ag \<noteq> []"
    by (auto simp: consolidation_refusal_def split: if_splits)
  then have "store_refusal (consolidated_record source opid ag t) = None" for t
    by (simp add: store_accepted consolidated_record_ok)
  with None c show ?thesis
    by (auto simp: consolidate_def action_simps new_memory_record_def kernel_store_cases
        consolidated_record_def ticked_def Let_def split: prod.splits sum.splits)
qed

section \<open>Properties\<close>

definition mem_demo :: "memory_record list \<Rightarrow> dict_storage mem_world" where
  "mem_demo rs = rt_world.extend rt_demo (mem_world.fields
     \<lparr>ds_records = map (\<lambda>r. (mr_memory_id r, r)) rs, ds_store_calls = [], ds_delete_calls = []\<rparr>)"

definition demo_record :: "string \<Rightarrow> memory_type \<Rightarrow> memory_record" where
  "demo_record mid ty = \<lparr>mr_memory_id = mid, mr_memory_type = ty, mr_created_at = demo_clock 0,
     mr_content = PStr ''x'', mr_metadata = [], mr_validation_status = ValidationValidated,
     mr_operation_id = ''op'', mr_agent_id = ''a''\<rparr>"

lemma mem_demo_fields [simp]:
  "ds_records (mem (mem_demo rs)) = map (\<lambda>r. (mr_memory_id r, r)) rs"
  "agents (mem_demo rs) = agents comm_demo"
  by (simp_all add: mem_demo_def rt_demo_def comm_demo_def comm_world.defs rt_world.defs mem_world.defs)

lemma demo_record_ok: "mid \<noteq> [] \<Longrightarrow> record_ok (demo_record mid ty)"
  by (simp add: demo_record_def record_ok_def)

text \<open>
  What reaches the storage. Whatever the storage does, the kernel passes a record on exactly
  when its three identifiers are not empty and it is validated, and then it is passed unchanged;
  every other record is refused with an error and the storage is not called.
\<close>

theorem kernel_store_admits_validated_only:
  "kernel_store st r s =
    (if mr_memory_id r \<noteq> [] \<and> mr_operation_id r \<noteq> [] \<and> mr_agent_id r \<noteq> []
        \<and> mr_validation_status r = ValidationValidated
     then on_storage (sto_store st r) s
     else (Inl (value_error
       (if mr_memory_id r = [] then ''memory_id must not be empty.''
        else if mr_operation_id r = [] then ''operation_id must not be empty.''
        else if mr_agent_id r = [] then ''agent_id must not be empty.''
        else if mr_validation_status r = ValidationRejected
        then ''Rejected memory cannot be persisted.''
        else ''Only validated memory may be stored.'')), s))"
  by (auto simp: kernel_store_def memory_validate_def action_simps)

text \<open>
  Round trip over a storage that does not fail: after a successful store, retrieving the
  record's identifier returns exactly that record, and retrieving any other identifier returns
  what it returned before.
\<close>

theorem kernel_store_retrieve_roundtrip:
  assumes "reliable_storage st content" and "fst (kernel_store st r s) = Inr ()"
  shows "fst (kernel_retrieve st k (snd (kernel_store st r s)))
    = (if k = [] then Inl (value_error ''memory_id must not be empty.'')
       else if k = mr_memory_id r then Inr (Some r) else fst (kernel_retrieve st k s))"
  by (rule reliable_storage.kernel_store_then_retrieve [OF assms])

lemma demo_store_ok:
  "fst (kernel_store dict_storage_ops (demo_record ''m'' WorkingMemory) (mem_demo [])) = Inr ()"
  by (simp add: kernel_store_cases store_accepted [THEN iffD2] demo_record_ok dict_storage.store_ok)

theorem kernel_store_retrieve_roundtrip_witness:
  "fst (kernel_retrieve dict_storage_ops ''m''
     (snd (kernel_store dict_storage_ops (demo_record ''m'' WorkingMemory) (mem_demo []))))
   = Inr (Some (demo_record ''m'' WorkingMemory))"
  using kernel_store_retrieve_roundtrip
    [OF dict_storage.reliable_storage_axioms demo_store_ok, of "''m''"]
  by (simp add: demo_record_def)

text \<open>
  Consolidation. Only a validated episodic record is consolidated, and only with an operation
  and an agent; a refusal writes nothing. Otherwise a validated semantic record is stored under
  \<^verbatim>\<open>semantic:\<close> and the source's identifier, carrying the source's identifier and content; it is
  returned, retrievable, and the source record and every other record are left as they were.
\<close>

theorem consolidate_spec:
  assumes "reliable_storage st content" and "consolidate st source opid ag s = (r, t)"
  shows "case consolidation_refusal source opid ag of
      Some e \<Rightarrow> r = Inl e \<and> t = s
    | None \<Rightarrow> (let c = consolidated_record source opid ag (clock_src s (clock_pos s)) in
        r = Inr c \<and> content (mem t) = (content (mem s))(consolidated_id (mr_memory_id source) \<mapsto> c)
        \<and> content (mem t) (mr_memory_id source) = content (mem s) (mr_memory_id source)
        \<and> fst (kernel_retrieve st (consolidated_id (mr_memory_id source)) t) = Inr (Some c)
        \<and> audit_log t = audit_log s)"
proof (cases "consolidation_refusal source opid ag")
  case (Some e)
  with assms(2) show ?thesis by (simp add: consolidate_cases)
next
  case None
  let ?c = "consolidated_record source opid ag (clock_src s (clock_pos s))"
  let ?st = "on_storage (sto_store st ?c) (ticked s)"
  have id: "mr_memory_id ?c = consolidated_id (mr_memory_id source)"
    by (simp add: consolidated_record_def)
  have ok: "record_ok ?c"
    using None by (intro consolidated_record_ok) (auto simp: consolidation_refusal_def split: if_splits)
  have mem: "mem (ticked s) = mem s" "audit_log (ticked s) = audit_log s"
    by (simp_all add: ticked_def)
  obtain u where u: "?st = (Inr (), u)"
    using reliable_storage.store_ok [OF assms(1) ok, of "mem (ticked s)"]
    by (metis on_storage_fst prod.collapse)
  then have "r = Inr ?c" "t = u"
    using assms(2) None by (simp_all add: consolidate_cases Let_def)
  with u have rt: "r = Inr ?c" "t = snd ?st" by simp_all
  have "content (mem t) = (content (mem s))(consolidated_id (mr_memory_id source) \<mapsto> ?c)"
    by (simp add: rt mem id reliable_storage.store_done [OF assms(1) ok])
  moreover from this have
    "fst (kernel_retrieve st (consolidated_id (mr_memory_id source)) t) = Inr (Some ?c)"
    by (simp add: kernel_retrieve_def reliable_storage.retrieve_ok [OF assms(1)])
  ultimately show ?thesis
    using None rt mem by (simp add: Let_def)
qed

theorem consolidate_spec_witness:
  "fst (consolidate dict_storage_ops (demo_record ''m'' EpisodicMemory) ''op'' ''a''
     (mem_demo [demo_record ''m'' EpisodicMemory])) =
   Inr (consolidated_record (demo_record ''m'' EpisodicMemory) ''op'' ''a'' (demo_clock 0))"
  using consolidate_spec [OF dict_storage.reliable_storage_axioms prod.collapse [symmetric],
      of "demo_record ''m'' EpisodicMemory" "''op''" "''a''" "mem_demo [demo_record ''m'' EpisodicMemory]"]
  by (simp add: consolidation_refusal_def demo_record_def Let_def mem_demo_def rt_demo_def
      comm_demo_def comm_world.defs rt_world.defs mem_world.defs)

end
