(* ===== verification/Text.thy ===== *)
theory Text
  imports Environment
begin

text \<open>
  The parts of Python's text that the components share: decimal numbers, white space,
  \<^verbatim>\<open>str.strip\<close>, \<^verbatim>\<open>str.join\<close>, \<^verbatim>\<open>str.replace\<close>, and \<^verbatim>\<open>repr\<close>. A character is one of the first 256 code
  points.
\<close>

section \<open>Numbers\<close>

definition is_digit :: "char \<Rightarrow> bool" where
  "is_digit c \<longleftrightarrow> 48 \<le> (of_char c :: nat) \<and> (of_char c :: nat) \<le> 57"

definition digit_value :: "char \<Rightarrow> int" where
  "digit_value c = int (of_char c) - 48"

definition digits_value :: "string \<Rightarrow> int" where
  "digits_value s = foldl (\<lambda>n c. 10 * n + digit_value c) 0 s"

fun show_nat :: "nat \<Rightarrow> string" where
  "show_nat n = (if n < 10 then [hex_digit n] else show_nat (n div 10) @ [hex_digit (n mod 10)])"

declare show_nat.simps [simp del]

text \<open>\<^verbatim>\<open>str\<close> of an integer.\<close>

definition show_int :: "int \<Rightarrow> string" where
  "show_int i = (if i < 0 then CHR 0x2D # show_nat (nat (- i)) else show_nat (nat i))"

lemma foldl_digits:
  "foldl (\<lambda>n c. 10 * n + digit_value c) a t
     = a * 10 ^ length t + foldl (\<lambda>n c. 10 * n + digit_value c) 0 t"
proof (induction t arbitrary: a)
  case (Cons c t)
  show ?case
    using Cons.IH [of "10 * a + digit_value c"] Cons.IH [of "digit_value c"] by (simp add: algebra_simps)
qed simp

lemma digits_value_append: "digits_value (s @ t) = digits_value s * 10 ^ length t + digits_value t"
  unfolding digits_value_def foldl_append by (rule foldl_digits)

lemma hex_digit_decimal:
  assumes "n < 10" shows "is_digit (hex_digit n)" "digit_value (hex_digit n) = int n"
proof -
  have "n \<in> {0, 1, 2, 3, 4, 5, 6, 7, 8, 9}" using assms by auto
  then show "is_digit (hex_digit n)" "digit_value (hex_digit n) = int n"
    by (auto simp: is_digit_def digit_value_def hex_digit_def)
qed

lemma show_nat_digits: "show_nat n \<noteq> [] \<and> list_all is_digit (show_nat n)"
proof (induction n rule: show_nat.induct)
  case (1 n)
  then show ?case by (cases "n < 10") (simp_all add: show_nat.simps [of n] hex_digit_decimal)
qed

lemma show_nat_value: "digits_value (show_nat n) = int n"
proof (induction n rule: show_nat.induct)
  case (1 n)
  show ?case
  proof (cases "n < 10")
    case True
    then show ?thesis by (subst show_nat.simps) (simp add: digits_value_def hex_digit_decimal)
  next
    case False
    with 1 show ?thesis
      by (subst show_nat.simps)
        (simp add: digits_value_append digits_value_def [of "[_]"] hex_digit_decimal zdiv_int zmod_int)
  qed
qed

lemma length_padded [simp]: "length (padded w n) = w"
  by (induction w n rule: padded.induct) auto

lemma padded_digits [simp]: "list_all is_digit (padded w n)"
  by (induction w n rule: padded.induct) (auto simp: hex_digit_decimal nat_less_iff)

lemma digits_value_snoc [simp]: "digits_value (s @ [c]) = 10 * digits_value s + digit_value c"
  by (simp add: digits_value_def)

lemma digits_value_padded: "0 \<le> n \<Longrightarrow> digits_value (padded w n) = n mod 10 ^ w"
proof (induction w n rule: padded.induct)
  case (2 w n)
  have "digit_value (hex_digit (nat (n mod 10))) = n mod 10"
    using hex_digit_decimal [of "nat (n mod 10)"] by (simp add: nat_less_iff)
  moreover have "n mod 10 ^ Suc w = 10 * (n div 10 mod 10 ^ w) + n mod 10"
    by (simp add: zmod_zmult2_eq)
  ultimately show ?case using 2 by (simp add: pos_imp_zdiv_nonneg_iff)
qed (simp add: digits_value_def)

section \<open>White space, joining and replacing\<close>

text \<open>\<^verbatim>\<open>str.replace\<close> of one character by a text, and \<^verbatim>\<open>str.strip\<close> as a test for a blank text.\<close>

definition replace_char :: "char \<Rightarrow> string \<Rightarrow> string \<Rightarrow> string" where
  "replace_char c r s = concat (map (\<lambda>x. if x = c then r else [x]) s)"

definition is_space :: "char \<Rightarrow> bool" where
  "is_space c \<longleftrightarrow> (let n = of_char c :: nat in n = 32 \<or> 9 \<le> n \<and> n \<le> 13 \<or> 28 \<le> n \<and> n \<le> 31
     \<or> n = 133 \<or> n = 160)"

definition blank :: "string \<Rightarrow> bool" where
  "blank s \<longleftrightarrow> list_all is_space s"

definition strip :: "string \<Rightarrow> string" where
  "strip s = rev (dropWhile is_space (rev (dropWhile is_space s)))"

definition rstrip :: "string \<Rightarrow> string" where
  "rstrip s = rev (dropWhile is_space (rev s))"

text \<open>\<^verbatim>\<open>sep.join(parts)\<close>.\<close>

fun join :: "string \<Rightarrow> string list \<Rightarrow> string" where
  "join sep [] = []"
| "join sep [s] = s"
| "join sep (s # ss) = s @ sep @ join sep ss"

lemma blank_iff_strip: "blank s \<longleftrightarrow> strip s = []"
proof -
  have "list_all is_space (dropWhile is_space s) \<longleftrightarrow> dropWhile is_space s = []"
    by (metis hd_dropWhile hd_in_set list_all_iff list.pred_inject(1))
  moreover have "blank s \<longleftrightarrow> dropWhile is_space s = []"
    by (simp only: blank_def list_all_iff dropWhile_eq_Nil_conv)
  moreover have "strip s = [] \<longleftrightarrow> list_all is_space (dropWhile is_space s)"
    by (simp only: strip_def rev_is_Nil_conv dropWhile_eq_Nil_conv list_all_iff set_rev)
  ultimately show ?thesis by simp
qed

section \<open>\<^verbatim>\<open>repr\<close>\<close>

text \<open>\<^verbatim>\<open>s.split(c)\<close>.\<close>

fun split_at :: "char \<Rightarrow> string \<Rightarrow> string list" where
  "split_at c [] = [[]]"
| "split_at c (x # s) = (if x = c then [] # split_at c s
     else case split_at c s of p # ps \<Rightarrow> (x # p) # ps | [] \<Rightarrow> [[x]])"

lemma split_at_nonempty [simp]: "split_at c s \<noteq> []"
  by (induction s) (auto split: list.split)

lemma split_at_append: "c \<notin> set a \<Longrightarrow> split_at c (a @ c # b) = a # split_at c b"
  by (induction a) (auto split: list.split)

text \<open>\<^verbatim>\<open>repr\<close> of a string of eight-bit characters: double quotes only when there is a single quote
  and no double one; the quote, the backslash and unprintable characters escaped.\<close>

definition unprintable :: "char \<Rightarrow> bool" where
  "unprintable c \<longleftrightarrow> (let n = of_char c :: nat in n < 32 \<or> 127 \<le> n \<and> n \<le> 160 \<or> n = 173)"

definition repr_char :: "char \<Rightarrow> char \<Rightarrow> string" where
  "repr_char q c =
     (if c = q \<or> c = CHR 0x5C then [CHR 0x5C, c]
      else if c = CHR 0x0A then [CHR 0x5C, CHR ''n'']
      else if c = CHR 0x0D then [CHR 0x5C, CHR ''r'']
      else if c = CHR 0x09 then [CHR 0x5C, CHR ''t'']
      else if unprintable c
      then [CHR 0x5C, CHR ''x'', hex_digit (of_char c div 16), hex_digit (of_char c)]
      else [c])"

definition py_repr :: "string \<Rightarrow> string" where
  "py_repr s =
     (let q = (if CHR 0x27 \<in> set s \<and> CHR 0x22 \<notin> set s then CHR 0x22 else CHR 0x27)
      in q # concat (map (repr_char q) s) @ [q])"

end
