(* ===== verification/Iso_Time.thy ===== *)
theory Iso_Time
  imports Text
begin

text \<open>
  \<^verbatim>\<open>datetime.fromisoformat\<close>, as the standard library's reference implementation
  (\<^verbatim>\<open>Lib/datetime.py\<close>, Python 3.11 and 3.12) splits and reads the text, with each number read as
  exactly so many ASCII digits and a separator with nothing after it refused, as the compiled
  implementation does. \<^const>\<open>None\<close> is the \<^verbatim>\<open>ValueError\<close> it raises. A result is a point in
  time, in microseconds since the epoch; a text without an offset gives a naive time, which the
  caller reads as UTC.
\<close>

section \<open>Numbers\<close>

text \<open>Exactly \<open>n\<close> digits from the front.\<close>

definition read_digits :: "nat \<Rightarrow> string \<Rightarrow> (int \<times> string) option" where
  "read_digits n s =
     (if n \<le> length s \<and> list_all is_digit (take n s)
      then Some (digits_value (take n s), drop n s) else None)"

section \<open>Calendar\<close>

definition is_leap :: "int \<Rightarrow> bool" where
  "is_leap y \<longleftrightarrow> y mod 4 = 0 \<and> (y mod 100 \<noteq> 0 \<or> y mod 400 = 0)"

definition days_in_month :: "int \<Rightarrow> int \<Rightarrow> int" where
  "days_in_month y m =
     (if m = 2 then (if is_leap y then 29 else 28)
      else if m \<in> {4, 6, 9, 11} then 30 else 31)"

text \<open>Days since the epoch of a civil date.\<close>

definition days_of_civil :: "int \<Rightarrow> int \<Rightarrow> int \<Rightarrow> int" where
  "days_of_civil y m d =
     (let y' = (if m \<le> 2 then y - 1 else y); era = y' div 400; yoe = y' mod 400;
          mp = (m + 9) mod 12; doy = (153 * mp + 2) div 5 + d - 1;
          doe = yoe * 365 + yoe div 4 - yoe div 100 + doy
      in era * 146097 + doe - 719468)"

definition checked_date :: "int \<Rightarrow> int \<Rightarrow> int \<Rightarrow> int option" where
  "checked_date y m d =
     (if 1 \<le> y \<and> y \<le> 9999 \<and> 1 \<le> m \<and> m \<le> 12 \<and> 1 \<le> d \<and> d \<le> days_in_month y m
      then Some (days_of_civil y m d) else None)"

text \<open>\<^verbatim>\<open>_isoweek_to_gregorian\<close>: the Monday of week 1 is the one on or before January 4th. Monday
  is day 0 of a week; the epoch was a Thursday.\<close>

definition weekday :: "int \<Rightarrow> int" where
  "weekday days = (days + 3) mod 7"

definition checked_week :: "int \<Rightarrow> int \<Rightarrow> int \<Rightarrow> int option" where
  "checked_week y w d =
     (let jan1 = days_of_civil y 1 1; jan4 = jan1 + 3; monday1 = jan4 - weekday jan4;
          long = (weekday jan1 = 3 \<or> weekday jan1 = 2 \<and> is_leap y);
          day = monday1 + (w - 1) * 7 + (d - 1)
      in if 1 \<le> y \<and> y \<le> 9999 \<and> (1 \<le> w \<and> w \<le> 52 \<or> w = 53 \<and> long) \<and> 1 \<le> d \<and> d \<le> 7
            \<and> day \<le> days_of_civil 9999 12 31
         then Some day else None)"

section \<open>The date part\<close>

definition char_at :: "string \<Rightarrow> nat \<Rightarrow> char option" where
  "char_at s i = (if i < length s then Some (s ! i) else None)"

definition week_separator :: "string \<Rightarrow> nat" where
  "week_separator s =
     (let idx = 7 + length (takeWhile is_digit (drop 7 s))
      in if idx < 9 then idx else if even idx then 7 else 8)"

text \<open>\<^verbatim>\<open>_find_isoformat_datetime_separator\<close>, for a text of at least seven characters.\<close>

definition find_separator :: "string \<Rightarrow> nat option" where
  "find_separator s =
     (if length s = 7 then Some 7
      else if char_at s 4 = Some CHR ''-''
      then if char_at s 5 = Some CHR ''W''
           then if char_at s 8 = Some CHR ''-''
                then if length s = 9 then None
                     else if 10 < length s \<and> is_digit (s ! 10) then Some 8 else Some 10
                else Some 8
           else Some 10
      else if char_at s 4 = Some CHR ''W'' then Some (week_separator s)
      else Some 8)"

text \<open>An optional dash, which must be there exactly when the first one is.\<close>

definition read_dash :: "bool \<Rightarrow> string \<Rightarrow> string option" where
  "read_dash has_sep s =
     (if (s \<noteq> [] \<and> hd s = CHR ''-'') \<noteq> has_sep then None
      else Some (if has_sep then tl s else s))"

definition read_date :: "string \<Rightarrow> int option" where
  "read_date s =
     (case read_digits 4 s of
        None \<Rightarrow> None
      | Some (y, s1) \<Rightarrow>
          (let has_sep = (s1 \<noteq> [] \<and> hd s1 = CHR ''-''); s2 = (if has_sep then tl s1 else s1) in
           if s2 \<noteq> [] \<and> hd s2 = CHR ''W''
           then (case read_digits 2 (tl s2) of
                   None \<Rightarrow> None
                 | Some (w, s3) \<Rightarrow>
                     (if s3 = [] then checked_week y w 1
                      else case read_dash has_sep s3 of
                        None \<Rightarrow> None
                      | Some s4 \<Rightarrow>
                          (case read_digits 1 s4 of
                             Some (d, []) \<Rightarrow> checked_week y w d
                           | _ \<Rightarrow> None)))
           else (case read_digits 2 s2 of
                   None \<Rightarrow> None
                 | Some (m, s3) \<Rightarrow>
                     (case read_dash has_sep s3 of
                        None \<Rightarrow> None
                      | Some s4 \<Rightarrow>
                          (case read_digits 2 s4 of
                             Some (d, []) \<Rightarrow> checked_date y m d
                           | _ \<Rightarrow> None)))))"

section \<open>The time part\<close>

text \<open>A fraction: up to six digits count, further ones are skipped; its value in microseconds.\<close>

definition read_fraction :: "string \<Rightarrow> int option" where
  "read_fraction s =
     (if s \<noteq> [] \<and> list_all is_digit s
      then Some (digits_value (take 6 s) * 10 ^ (6 - min 6 (length s))) else None)"

fun read_rest :: "string \<Rightarrow> int option" where
  "read_rest [] = Some 0"
| "read_rest (c # s) = (if c = CHR ''.'' \<or> c = CHR '','' then read_fraction s else None)"

text \<open>\<open>read_comps k sep s\<close> reads the \<open>k\<close> remaining components after the hour; \<open>sep\<close> tells whether
  they are separated by colons. The result is in microseconds.\<close>

fun read_comps :: "nat \<Rightarrow> bool \<Rightarrow> string \<Rightarrow> (int list \<times> int) option" where
  "read_comps 0 sep s = map_option (\<lambda>us. ([], us)) (read_rest s)"
| "read_comps (Suc k) sep s =
     (if s = [] then Some ([], 0)
      else if sep \<and> hd s \<noteq> CHR '':'' then None
      else case read_digits 2 (if sep then tl s else s) of
        None \<Rightarrow> None
      | Some (n, s') \<Rightarrow> map_option (\<lambda>(ns, us). (n # ns, us)) (read_comps k sep s'))"

text \<open>\<^verbatim>\<open>_parse_hh_mm_ss_ff\<close>: hour, minute, second and microsecond.\<close>

definition read_clock :: "string \<Rightarrow> (int \<times> int \<times> int \<times> int) option" where
  "read_clock s =
     (case read_digits 2 s of
        None \<Rightarrow> None
      | Some (h, s1) \<Rightarrow>
          (case read_comps 2 (s1 \<noteq> [] \<and> hd s1 = CHR '':'') s1 of
             None \<Rightarrow> None
           | Some (ns, us) \<Rightarrow>
               Some (h, (if 1 \<le> length ns then ns ! 0 else 0),
                     (if 2 \<le> length ns then ns ! 1 else 0), us)))"

definition micros :: "int \<times> int \<times> int \<times> int \<Rightarrow> int" where
  "micros = (\<lambda>(h, m, s, us). ((h * 60 + m) * 60 + s) * 1000000 + us)"

definition checked_clock :: "int \<times> int \<times> int \<times> int \<Rightarrow> int option" where
  "checked_clock = (\<lambda>(h, m, s, us).
     if h \<le> 23 \<and> m \<le> 59 \<and> s \<le> 59 then Some (micros (h, m, s, us)) else None)"

text \<open>The position of the offset: at the first dash, else the first plus, else the first Z.\<close>

definition split_at :: "char \<Rightarrow> string \<Rightarrow> (string \<times> string) option" where
  "split_at c s = (if c \<in> set s then Some (takeWhile (\<lambda>x. x \<noteq> c) s, tl (dropWhile (\<lambda>x. x \<noteq> c) s))
     else None)"

definition read_offset :: "int \<Rightarrow> string \<Rightarrow> int option" where
  "read_offset sign s =
     (if length s \<in> {0, 1, 3} then None
      else case read_clock s of
        None \<Rightarrow> None
      | Some c \<Rightarrow> (if micros c < 86400000000 then Some (sign * micros c) else None))"

text \<open>The time of day and the offset from UTC, both in microseconds.\<close>

definition read_time :: "string \<Rightarrow> (int \<times> int option) option" where
  "read_time s =
     (let clock = (\<lambda>t. Option.bind (read_clock t) checked_clock);
          zoned = (\<lambda>t z. case (clock t, z) of (Some us, Some off) \<Rightarrow> Some (us, Some off) | _ \<Rightarrow> None)
      in if length s < 2 then None
         else case split_at CHR ''-'' s of
           Some (t, z) \<Rightarrow> zoned t (read_offset (-1) z)
         | None \<Rightarrow>
             (case split_at CHR ''+'' s of
                Some (t, z) \<Rightarrow> zoned t (read_offset 1 z)
              | None \<Rightarrow>
                  (case split_at CHR ''Z'' s of
                     Some (t, z) \<Rightarrow> zoned t (if z = [] then Some 0 else read_offset 1 z)
                   | None \<Rightarrow> map_option (\<lambda>us. (us, None)) (clock s))))"

section \<open>The whole text\<close>

text \<open>The point in time with a missing offset read as UTC, as the caller does.\<close>

definition from_isoformat_utc :: "string \<Rightarrow> int option" where
  "from_isoformat_utc s =
     (if length s < 7 then None
      else case find_separator s of
        None \<Rightarrow> None
      | Some i \<Rightarrow>
          (case read_date (take i s) of
             None \<Rightarrow> None
           | Some days \<Rightarrow>
               (if length s \<le> i then Some (days * 86400000000)
                else case read_time (drop (Suc i) s) of
                  None \<Rightarrow> None
                | Some (us, off) \<Rightarrow>
                    Some (days * 86400000000 + us - (case off of None \<Rightarrow> 0 | Some z \<Rightarrow> z)))))"

end
