(* ===== verification/Forgetting.thy ===== *)
theory Forgetting
  imports Memory Iso_Time
begin

text \<open>
  The forgetting engine (\<^verbatim>\<open>memory_system/forgetting/engine.py\<close>): the only component that
  deletes memory, under the lifecycle policy.
\<close>

section \<open>The engine\<close>

definition forgetting_policy_id :: string where
  "forgetting_policy_id = ''memory-lifecycle-policy:v1''"

text \<open>\<^verbatim>\<open>not explicit_policy_id\<close>: absent or empty.\<close>

definition no_policy :: "string option \<Rightarrow> bool" where
  "no_policy p \<longleftrightarrow> p = None \<or> p = Some []"

definition forgetting_allowed :: "memory_record \<Rightarrow> string option \<Rightarrow> bool \<Rightarrow> bool \<times> string" where
  "forgetting_allowed r policy automatic =
     (case mr_memory_type r of
        WorkingMemory \<Rightarrow> (True, ''working_memory_forgetting_allowed'')
      | EpisodicMemory \<Rightarrow>
          (if automatic \<and> no_policy policy
           then (False, ''episodic_automatic_forgetting_requires_policy'')
           else (True, ''episodic_policy_controlled_forgetting_allowed''))
      | SemanticMemory \<Rightarrow>
          (if no_policy policy then (False, ''semantic_forgetting_requires_explicit_policy'')
           else (True, ''semantic_explicit_policy_forgetting_allowed''))
      | ProceduralMemory \<Rightarrow>
          (if automatic then (False, ''procedural_automatic_forgetting_forbidden'')
           else if no_policy policy
           then (False, ''procedural_forgetting_requires_explicit_policy'')
           else (True, ''procedural_explicit_policy_forgetting_allowed'')))"

definition forgetting_validate_required :: "string \<Rightarrow> string \<Rightarrow> string \<Rightarrow> exn + unit" where
  "forgetting_validate_required mid opid ag =
     (if mid = [] then Inl (value_error ''memory_id must not be empty.'')
      else if opid = [] then Inl (value_error ''operation_id must not be empty.'')
      else if ag = [] then Inl (value_error ''agent_id must not be empty.'')
      else Inr ())"

definition forgetting_audit ::
  "string \<Rightarrow> string \<Rightarrow> string \<Rightarrow> audit_result \<Rightarrow> pydict \<Rightarrow> ('z audit_world_scheme, unit) action" where
  "forgetting_audit mid opid ag rs md = audit_event MemoryForget opid ag AuditRequested mid rs md"

definition policy_value :: "string option \<Rightarrow> pyval" where
  "policy_value p = (case p of None \<Rightarrow> PNone | Some s \<Rightarrow> PStr s)"

definition forget ::
  "'m storage \<Rightarrow> string \<Rightarrow> string \<Rightarrow> string \<Rightarrow> string option \<Rightarrow> bool \<Rightarrow>
   (('m, 'z) mem_world_scheme, bool) action" where
  "forget st mid opid ag policy automatic =
     bindA (lift_res (forgetting_validate_required mid opid ag)) (\<lambda>_.
     bindA (kernel_retrieve st mid) (\<lambda>found.
     case found of
       None \<Rightarrow>
         bindA (forgetting_audit mid opid ag AuditFailure
           [(''reason'', PStr ''memory_not_found''), (''automatic'', PBool automatic),
            (''explicit_policy_id'', policy_value policy)]) (\<lambda>_. ret False)
     | Some r \<Rightarrow>
         (case forgetting_allowed r policy automatic of (allowed, reason) \<Rightarrow>
          if \<not> allowed
          then bindA (forgetting_audit mid opid ag AuditFailure
             [(''reason'', PStr reason),
              (''memory_type'', PStr (memory_type_value (mr_memory_type r))),
              (''automatic'', PBool automatic), (''explicit_policy_id'', policy_value policy)])
             (\<lambda>_. ret False)
          else bindA (attempt (kernel_delete st mid)) (\<lambda>d.
            case d of
              Inl e \<Rightarrow>
                bindA (forgetting_audit mid opid ag AuditFailure
                  [(''reason'', PStr ''storage_delete_exception''), (''error'', PStr (exn_str e)),
                   (''memory_type'', PStr (memory_type_value (mr_memory_type r))),
                   (''automatic'', PBool automatic), (''explicit_policy_id'', policy_value policy)])
                  (\<lambda>_. ret False)
            | Inr deleted \<Rightarrow>
                bindA (forgetting_audit mid opid ag (if deleted then AuditSuccess else AuditFailure)
                  [(''reason'', PStr (if deleted then ''deleted'' else ''storage_delete_returned_false'')),
                   (''memory_type'', PStr (memory_type_value (mr_memory_type r))),
                   (''automatic'', PBool automatic), (''explicit_policy_id'', policy_value policy)])
                  (\<lambda>_. ret deleted)))))"

definition forget_if_expired_working_memory ::
  "'m storage \<Rightarrow> string \<Rightarrow> string \<Rightarrow> string \<Rightarrow> (('m, 'z) mem_world_scheme, bool) action" where
  "forget_if_expired_working_memory st mid opid ag =
     bindA (lift_res (forgetting_validate_required mid opid ag)) (\<lambda>_.
     bindA (kernel_retrieve st mid) (\<lambda>found.
     case found of
       None \<Rightarrow> ret False
     | Some r \<Rightarrow>
         (if mr_memory_type r \<noteq> WorkingMemory then ret False
          else case map_of (mr_metadata r) ''expires_at'' of
            Some (PStr raw) \<Rightarrow>
              (if blank raw then ret False
               else case from_isoformat_utc (replace_char CHR ''Z'' ''+00:00'' raw) of
                 None \<Rightarrow>
                   bindA (forgetting_audit mid opid ag AuditFailure
                     [(''reason'', PStr ''invalid_expires_at''), (''expires_at'', PStr raw),
                      (''memory_type'', PStr (memory_type_value (mr_memory_type r))),
                      (''automatic'', PBool True),
                      (''explicit_policy_id'', PStr forgetting_policy_id)])
                     (\<lambda>_. ret False)
               | Some expires \<Rightarrow>
                   bindA now (\<lambda>t.
                   if expires > micros_of t then ret False
                   else forget st mid opid ag (Some forgetting_policy_id) True))
          | _ \<Rightarrow> ret False)))"

section \<open>Facts\<close>

definition forget_logged ::
  "string \<Rightarrow> string \<Rightarrow> string \<Rightarrow> audit_result \<Rightarrow> pydict \<Rightarrow> 'z audit_world_scheme \<Rightarrow> 'z audit_world_scheme" where
  "forget_logged mid opid ag rs md s =
     (drawn s)\<lparr>audit_log := audit_log s @ [stamped MemoryForget opid ag AuditRequested mid rs md s]\<rparr>"

lemma forgetting_audit_ok:
  "forgetting_validate_required mid opid ag = Inr () \<Longrightarrow>
   forgetting_audit mid opid ag rs md s = (Inr (), forget_logged mid opid ag rs md s)"
  by (auto simp: forgetting_audit_def forgetting_validate_required_def audit_event_ok
      forget_logged_def split: if_splits)

lemma forget_logged_fields [simp]:
  "mem (forget_logged mid opid ag rs md s) = mem s"
  "agents (forget_logged mid opid ag rs md s) = agents s"
  "perms (forget_logged mid opid ag rs md s) = perms s"
  "outside_memory (forget_logged mid opid ag rs md s) = outside_memory s"
  by (simp_all add: forget_logged_def drawn_def outside_memory_def)

lemma forget_logged_trail [simp]:
  "trail (forget_logged mid opid ag rs md s) =
     trail s @ [(MemoryForget, opid, ag, AuditRequested, mid, rs)]"
  by (simp add: forget_logged_def trail_def)

lemma on_storage_trail [simp]: "trail (snd (on_storage a s)) = trail s"
  by (simp add: trail_def)

lemma on_storageD:
  "on_storage a s = (r, t) \<Longrightarrow> r = fst (a (mem s)) \<and> mem t = snd (a (mem s))
    \<and> trail t = trail s \<and> outside_memory t = outside_memory s
    \<and> clock_pos t = clock_pos s \<and> clock_src t = clock_src s"
  by (auto simp: on_storage_def trail_def outside_memory_def split: prod.splits)

definition permitted :: "memory_record \<Rightarrow> string option \<Rightarrow> bool \<Rightarrow> bool" where
  "permitted r policy automatic = fst (forgetting_allowed r policy automatic)"

lemma permitted_iff:
  "permitted r policy automatic \<longleftrightarrow>
    (case mr_memory_type r of
       WorkingMemory \<Rightarrow> True
     | EpisodicMemory \<Rightarrow> \<not> (automatic \<and> no_policy policy)
     | SemanticMemory \<Rightarrow> \<not> no_policy policy
     | ProceduralMemory \<Rightarrow> \<not> automatic \<and> \<not> no_policy policy)"
  by (auto simp: permitted_def forgetting_allowed_def split: memory_type.split)

text \<open>A call with its identifiers present, by the answers of the storage.\<close>

definition deletion_reason :: "exn + bool \<Rightarrow> pydict" where
  "deletion_reason d = (case d of
     Inl e \<Rightarrow> [(''reason'', PStr ''storage_delete_exception''), (''error'', PStr (exn_str e))]
   | Inr True \<Rightarrow> [(''reason'', PStr ''deleted'')]
   | Inr False \<Rightarrow> [(''reason'', PStr ''storage_delete_returned_false'')])"

definition refusal_metadata :: "memory_record option \<Rightarrow> string option \<Rightarrow> bool \<Rightarrow> pydict" where
  "refusal_metadata found policy automatic = (case found of
     None \<Rightarrow> [(''reason'', PStr ''memory_not_found'')]
   | Some r \<Rightarrow> [(''reason'', PStr (snd (forgetting_allowed r policy automatic))),
                (''memory_type'', PStr (memory_type_value (mr_memory_type r)))])
   @ [(''automatic'', PBool automatic), (''explicit_policy_id'', policy_value policy)]"

lemma forgetting_required:
  "forgetting_validate_required mid opid ag = Inr () \<longleftrightarrow> mid \<noteq> [] \<and> opid \<noteq> [] \<and> ag \<noteq> []"
  by (simp add: forgetting_validate_required_def)

lemma mid_nonempty: "forgetting_validate_required mid opid ag = Inr () \<Longrightarrow> mid \<noteq> []"
  by (simp add: forgetting_required)

lemmas forget_unfold = forget_def kernel_retrieve_nonempty
  kernel_delete_nonempty bindA_def lift_res_def ret_def attempt_cases forgetting_audit_ok
  permitted_def

lemma forget_unreadable:
  assumes "forgetting_validate_required mid opid ag = Inr ()"
    and "on_storage (sto_retrieve st mid) s = (Inl e, t)"
  shows "forget st mid opid ag policy automatic s = (Inl e, t)"
  using assms mid_nonempty [OF assms(1)] by (simp add: forget_unfold)

lemma forget_refused:
  assumes "forgetting_validate_required mid opid ag = Inr ()"
    and "on_storage (sto_retrieve st mid) s = (Inr found, t)"
    and "\<And>r. found = Some r \<Longrightarrow> \<not> permitted r policy automatic"
  shows "forget st mid opid ag policy automatic s =
    (Inr False, forget_logged mid opid ag AuditFailure (refusal_metadata found policy automatic) t)"
  using assms mid_nonempty [OF assms(1)]
  by (cases found) (auto simp: forget_unfold refusal_metadata_def split: prod.splits)

lemma forget_permitted:
  assumes "forgetting_validate_required mid opid ag = Inr ()"
    and "on_storage (sto_retrieve st mid) s = (Inr (Some r), t)"
    and "permitted r policy automatic" and "on_storage (sto_delete st mid) t = (d, u)"
  shows "forget st mid opid ag policy automatic s =
    (case d of
       Inl (Interrupt m) \<Rightarrow> (Inl (Interrupt m), u)
     | _ \<Rightarrow> (Inr (d = Inr True), forget_logged mid opid ag
              (if d = Inr True then AuditSuccess else AuditFailure)
              (deletion_reason d @ [(''memory_type'', PStr (memory_type_value (mr_memory_type r))),
                 (''automatic'', PBool automatic), (''explicit_policy_id'', policy_value policy)]) u))"
  using assms mid_nonempty [OF assms(1)]
  by (cases "forgetting_allowed r policy automatic")
    (auto simp: forget_unfold deletion_reason_def split: sum.split exn.split bool.split)

text \<open>What a call leaves behind, for any storage: this is all the properties need.\<close>

definition forget_outcome ::
  "('m \<Rightarrow> string \<Rightarrow> memory_record option) \<Rightarrow> string \<Rightarrow> string \<Rightarrow> string \<Rightarrow> (memory_record \<Rightarrow> bool) \<Rightarrow>
   ('m, 'z) mem_world_scheme \<Rightarrow> exn + bool \<Rightarrow> ('m, 'z) mem_world_scheme \<Rightarrow> bool" where
  "forget_outcome content mid opid ag allowed s r t \<longleftrightarrow>
     (content (mem t) = content (mem s) \<or>
      content (mem t) = (content (mem s))(mid := None)
        \<and> (\<exists>x. content (mem s) mid = Some x \<and> allowed x))
     \<and> (r = Inr True \<longrightarrow> content (mem s) mid \<noteq> None \<and> content (mem t) mid = None)
     \<and> (case r of Inl e \<Rightarrow> trail t = trail s
        | Inr b \<Rightarrow> trail t = trail s @
            [(MemoryForget, opid, ag, AuditRequested, mid, if b then AuditSuccess else AuditFailure)])
     \<and> outside_memory t = outside_memory s"

lemma forget_has_outcome:
  assumes sto: "memory_storage st content" and call: "forget st mid opid ag policy automatic s = (r, t)"
  shows "if forgetting_validate_required mid opid ag = Inr ()
    then forget_outcome content mid opid ag (\<lambda>x. permitted x policy automatic) s r t
    else t = s \<and> (\<exists>e. r = Inl e)"
proof (cases "forgetting_validate_required mid opid ag")
  case (Inl e)
  then show ?thesis using call by (auto simp: forget_def bindA_def lift_res_def)
next
  case (Inr u)
  then have req: "forgetting_validate_required mid opid ag = Inr ()" by simp
  obtain f v where f: "on_storage (sto_retrieve st mid) s = (f, v)"
    by (cases "on_storage (sto_retrieve st mid) s")
  have v: "content (mem v) = content (mem s)" "trail v = trail s" "outside_memory v = outside_memory s"
    "mem v = snd (sto_retrieve st mid (mem s))" "f = fst (sto_retrieve st mid (mem s))"
    using memory_storage.retrieve_pure [OF sto, of mid "mem s"] on_storageD [OF f] by simp_all
  have "forget_outcome content mid opid ag (\<lambda>x. permitted x policy automatic) s r t"
  proof (cases "\<exists>x. f = Inr (Some x) \<and> permitted x policy automatic")
    case True
    then obtain x where x: "f = Inr (Some x)" "permitted x policy automatic" by blast
    then have found: "content (mem s) mid = Some x"
      using memory_storage.retrieve_sound [OF sto, of mid "mem s" x] v(5) by simp
    obtain d w where d: "on_storage (sto_delete st mid) v = (d, w)"
      by (cases "on_storage (sto_delete st mid) v")
    have w: "mem w = snd (sto_delete st mid (mem v))" "d = fst (sto_delete st mid (mem v))"
      "trail w = trail s" "outside_memory w = outside_memory s"
      using v(2,3) on_storageD [OF d] by simp_all
    have eff: "content (mem w) = content (mem s) \<or> content (mem w) = (content (mem s))(mid := None)"
      unfolding w(1) v(1) [symmetric]
      using memory_storage.delete_effect [OF sto, of mid "mem v"] by simp
    moreover have "d = Inr True \<Longrightarrow> content (mem w) mid = None"
      using memory_storage.delete_sound [OF sto, of mid "mem v"] by (simp add: w(1,2))
    moreover note forget_permitted [OF req f [unfolded x] x(2) d]
    ultimately show ?thesis
      using call found x(2) w(3,4)
      by (auto simp: forget_outcome_def split: sum.splits exn.splits if_splits)
  next
    case no: False
    show ?thesis
    proof (cases f)
      case (Inl e)
      have "forget st mid opid ag policy automatic s = (Inl e, v)"
        by (rule forget_unreadable [OF req]) (use f Inl in simp)
      with call v(1-3) show ?thesis by (auto simp: forget_outcome_def)
    next
      case (Inr found)
      have "forget st mid opid ag policy automatic s = (Inr False,
          forget_logged mid opid ag AuditFailure (refusal_metadata found policy automatic) v)"
        by (rule forget_refused [OF req]) (use f Inr no in auto)
      with call v(1-3) show ?thesis by (auto simp: forget_outcome_def)
    qed
  qed
  with req show ?thesis by simp
qed

section \<open>Expiry\<close>

definition expiry :: "memory_record \<Rightarrow> int option" where
  "expiry r = (case map_of (mr_metadata r) ''expires_at'' of
     Some (PStr raw) \<Rightarrow>
       (if blank raw then None else from_isoformat_utc (replace_char CHR ''Z'' ''+00:00'' raw))
   | _ \<Rightarrow> None)"

lemma expiry_cases:
  assumes "forgetting_validate_required mid opid ag = Inr ()"
    and "on_storage (sto_retrieve st mid) s = (Inr (Some r), v)"
    and "mr_memory_type r = WorkingMemory" and "expiry r = Some e"
  shows "forget_if_expired_working_memory st mid opid ag s =
    (if e > micros_of (clock_src v (clock_pos v)) then (Inr False, ticked v)
     else forget st mid opid ag (Some forgetting_policy_id) True (ticked v))"
  using assms mid_nonempty [OF assms(1)]
  by (auto simp: forget_if_expired_working_memory_def bindA_def lift_res_def kernel_retrieve_nonempty
      expiry_def now_def ticked_def ret_def split: option.splits pyval.splits if_splits)

text \<open>The branch for an \<^verbatim>\<open>expires_at\<close> that is not a time.\<close>

definition forgetting_unreadable ::
  "string \<Rightarrow> string \<Rightarrow> string \<Rightarrow> string \<Rightarrow> memory_record \<Rightarrow> ('z audit_world_scheme, bool) action" where
  "forgetting_unreadable mid opid ag raw r =
     bindA (forgetting_audit mid opid ag AuditFailure
       [(''reason'', PStr ''invalid_expires_at''), (''expires_at'', PStr raw),
        (''memory_type'', PStr (memory_type_value (mr_memory_type r))), (''automatic'', PBool True),
        (''explicit_policy_id'', PStr forgetting_policy_id)]) (\<lambda>_. ret False)"

lemma not_expiring_cases:
  assumes "forgetting_validate_required mid opid ag = Inr ()"
    and "on_storage (sto_retrieve st mid) s = (f, v)"
    and "\<And>r. f = Inr (Some r) \<Longrightarrow> mr_memory_type r \<noteq> WorkingMemory \<or> expiry r = None"
  shows "mem (snd (forget_if_expired_working_memory st mid opid ag s)) = mem v
    \<and> fst (forget_if_expired_working_memory st mid opid ag s) \<noteq> Inr True"
proof -
  note unfold = forget_if_expired_working_memory_def bindA_def lift_res_def kernel_retrieve_nonempty
    ret_def forgetting_audit_ok
  show ?thesis
  proof (cases f)
    case (Inl e)
    with assms(1,2) mid_nonempty [OF assms(1)] show ?thesis by (simp add: unfold)
  next
    case (Inr found)
    show ?thesis
    proof (cases found)
      case None
      with Inr assms(1,2) mid_nonempty [OF assms(1)] show ?thesis by (simp add: unfold)
    next
      case (Some r)
      have r: "mr_memory_type r \<noteq> WorkingMemory \<or> expiry r = None"
        using assms(3) [of r] Inr Some by simp
      have step: "forget_if_expired_working_memory st mid opid ag s =
          (if mr_memory_type r \<noteq> WorkingMemory then ret False
           else case map_of (mr_metadata r) ''expires_at'' of
             Some (PStr raw) \<Rightarrow>
               if blank raw then ret False
               else forgetting_unreadable mid opid ag raw r
           | _ \<Rightarrow> ret False) v"
      proof (cases "map_of (mr_metadata r) ''expires_at''")
        case None
        with Inr Some assms(1,2) mid_nonempty [OF assms(1)] show ?thesis by (simp add: unfold)
      next
        case (Some x)
        with Inr \<open>found = Some r\<close> assms(1,2) mid_nonempty [OF assms(1)] r show ?thesis
          by (cases x) (auto simp: unfold expiry_def forgetting_unreadable_def split: if_splits)
      qed
      show ?thesis
        unfolding step
        by (simp add: forgetting_unreadable_def bindA_def ret_def forgetting_audit_ok [OF assms(1)]
            split: option.split pyval.split)
    qed
  qed
qed

section \<open>Properties\<close>

text \<open>
  C8. Deletion is governed. For any storage, whatever it raises or loses: a call of \<^verbatim>\<open>forget\<close> with
  its identifiers present leaves every stored record as it was, except that the named one may be
  gone, and then only when the lifecycle table permits it: a working record always, an episodic
  one unless the call is automatic without a policy, a semantic one with an explicit policy, a
  procedural one with an explicit policy and not automatically. The answer is true only when the
  record was stored and is gone; a call that returns has written exactly one audit entry, whose
  result is a success exactly when the answer is true; a call that raises has written none.
\<close>

theorem forget_only_permitted:
  assumes "memory_storage st content"
    and "mid \<noteq> []" and "opid \<noteq> []" and "ag \<noteq> []"
    and "forget st mid opid ag policy automatic s = (r, t)"
  shows "(content (mem t) = content (mem s) \<or>
      content (mem t) = (content (mem s))(mid := None) \<and>
      (\<exists>x. content (mem s) mid = Some x \<and>
        (case mr_memory_type x of
           WorkingMemory \<Rightarrow> True
         | EpisodicMemory \<Rightarrow> \<not> (automatic \<and> no_policy policy)
         | SemanticMemory \<Rightarrow> \<not> no_policy policy
         | ProceduralMemory \<Rightarrow> \<not> automatic \<and> \<not> no_policy policy)))
    \<and> (r = Inr True \<longrightarrow> content (mem s) mid \<noteq> None \<and> content (mem t) mid = None)
    \<and> (case r of Inl e \<Rightarrow> trail t = trail s
       | Inr b \<Rightarrow> trail t = trail s @
           [(MemoryForget, opid, ag, AuditRequested, mid, if b then AuditSuccess else AuditFailure)])"
  using forget_has_outcome [OF assms(1,5)] assms(2-4)
  by (simp add: forgetting_required forget_outcome_def permitted_iff)

lemma demo_forget:
  "forget dict_storage_ops ''m'' ''op'' ''a'' None False (mem_demo [demo_record ''m'' SemanticMemory])
   = (Inr False, snd (forget dict_storage_ops ''m'' ''op'' ''a'' None False
       (mem_demo [demo_record ''m'' SemanticMemory])))"
proof -
  have "on_storage (sto_retrieve dict_storage_ops ''m'') (mem_demo [demo_record ''m'' SemanticMemory])
      = (Inr (Some (demo_record ''m'' SemanticMemory)),
         snd (on_storage (sto_retrieve dict_storage_ops ''m'') (mem_demo [demo_record ''m'' SemanticMemory])))"
    by (rule prod_eqI)
      (simp_all add: dict_storage.retrieve_ok dict_content_def demo_record_def)
  from forget_refused [OF _ this, of "''op''" "''a''" None False] show ?thesis
    by (simp add: forgetting_required permitted_iff demo_record_def no_policy_def)
qed

theorem forget_only_permitted_witness:
  "trail (snd (forget dict_storage_ops ''m'' ''op'' ''a'' None False
      (mem_demo [demo_record ''m'' SemanticMemory])))
   = trail (mem_demo [demo_record ''m'' SemanticMemory])
     @ [(MemoryForget, ''op'', ''a'', AuditRequested, ''m'', AuditFailure)]"
  using forget_only_permitted [OF dict_storage.memory_storage_axioms _ _ _ demo_forget] by simp

text \<open>
  Expiry deletes only what has expired. For any storage, the automatic removal of working
  memory leaves the stored records alone except that the named one may be gone, and then it was a
  working record whose \<^verbatim>\<open>expires_at\<close> is a readable time not later than the clock.
\<close>

theorem expired_working_memory_only:
  assumes "memory_storage st content" and "mid \<noteq> []" and "opid \<noteq> []" and "ag \<noteq> []"
    and "forget_if_expired_working_memory st mid opid ag s = (r, t)"
  shows "(content (mem t) = content (mem s) \<or>
      content (mem t) = (content (mem s))(mid := None) \<and>
      (\<exists>x e. content (mem s) mid = Some x \<and> mr_memory_type x = WorkingMemory
        \<and> expiry x = Some e \<and> e \<le> micros_of (clock_src s (clock_pos s))))
    \<and> (r = Inr True \<longrightarrow> content (mem s) mid \<noteq> None \<and> content (mem t) mid = None)"
proof -
  have req: "forgetting_validate_required mid opid ag = Inr ()"
    using assms(2-4) by (simp add: forgetting_required)
  obtain f v where f: "on_storage (sto_retrieve st mid) s = (f, v)"
    by (cases "on_storage (sto_retrieve st mid) s")
  have fv: "f = fst (sto_retrieve st mid (mem s))" "mem v = snd (sto_retrieve st mid (mem s))"
    "clock_pos v = clock_pos s" "clock_src v = clock_src s"
    using on_storageD [OF f] by simp_all
  have v: "content (mem v) = content (mem s)"
    using memory_storage.retrieve_pure [OF assms(1), of mid "mem s"] fv by simp
  show ?thesis
  proof (cases "\<exists>x e. f = Inr (Some x) \<and> mr_memory_type x = WorkingMemory \<and> expiry x = Some e")
    case False
    then show ?thesis
      using not_expiring_cases [OF req f] assms(5) v by (metis fst_conv not_Some_eq snd_conv)
  next
    case True
    then obtain x e where x: "f = Inr (Some x)" "mr_memory_type x = WorkingMemory" "expiry x = Some e"
      by blast
    note run = expiry_cases [OF req f [unfolded x(1)] x(2,3)]
    have mem: "mem (ticked v) = mem v" by (simp add: ticked_def)
    show ?thesis
    proof (cases "e > micros_of (clock_src s (clock_pos s))")
      case True
      then show ?thesis using run assms(5) v mem fv by auto
    next
      case False
      with run assms(5) fv have
        "forget st mid opid ag (Some forgetting_policy_id) True (ticked v) = (r, t)" by simp
      from forget_has_outcome [OF assms(1) this] req
      have out: "content (mem t) = content (mem s) \<or> content (mem t) = (content (mem s))(mid := None)
          \<and> content (mem s) mid \<noteq> None"
        "r = Inr True \<longrightarrow> content (mem s) mid \<noteq> None \<and> content (mem t) mid = None"
        by (auto simp: forget_outcome_def mem v)
      moreover have "content (mem s) mid = Some x"
        using memory_storage.retrieve_sound [OF assms(1), of mid "mem s" x] fv x by simp
      ultimately show ?thesis using x False by auto
    qed
  qed
qed

definition demo_expiring :: memory_record where
  "demo_expiring = (demo_record ''m'' WorkingMemory)
     \<lparr>mr_metadata := [(''expires_at'', PStr ''1970-01-01T00:00:00Z'')]\<rparr>"

theorem expired_working_memory_only_witness:
  "dict_content (mem (snd (forget_if_expired_working_memory dict_storage_ops ''n'' ''op'' ''a''
      (mem_demo [demo_expiring])))) = dict_content (mem (mem_demo [demo_expiring]))"
  using expired_working_memory_only [OF dict_storage.memory_storage_axioms _ _ _ prod.collapse [symmetric],
      of "''n''" "''op''" "''a''" "mem_demo [demo_expiring]"]
  by (auto simp: dict_content_def demo_expiring_def demo_record_def)

text \<open>
  Expired working memory does get removed. Over a storage that does not fail, a stored working
  record whose \<^verbatim>\<open>expires_at\<close> is a readable time not later than the clock is gone after the call,
  which answers true and has written one successful audit entry.
\<close>

theorem expired_working_memory_removed:
  assumes "reliable_storage st content" and "mid \<noteq> []" and "opid \<noteq> []" and "ag \<noteq> []"
    and "content (mem s) mid = Some x" and "mr_memory_type x = WorkingMemory"
    and "expiry x = Some e" and "e \<le> micros_of (clock_src s (clock_pos s))"
    and "forget_if_expired_working_memory st mid opid ag s = (r, t)"
  shows "r = Inr True \<and> content (mem t) = (content (mem s))(mid := None)
    \<and> trail t = trail s @ [(MemoryForget, opid, ag, AuditRequested, mid, AuditSuccess)]"
proof -
  have sto: "memory_storage st content" using assms(1) by (simp add: reliable_storage_def)
  have req: "forgetting_validate_required mid opid ag = Inr ()"
    using assms(2-4) by (simp add: forgetting_required)
  have reads: "\<exists>v. on_storage (sto_retrieve st mid) u = (Inr (Some x), v)
      \<and> content (mem v) = content (mem s)" if "content (mem u) = content (mem s)"
    for u :: "('a, 'b) mem_world_scheme"
    using that reliable_storage.retrieve_ok [OF assms(1), of mid "mem u"] assms(5)
      memory_storage.retrieve_pure [OF sto, of mid "mem u"]
    by (metis on_storage_fst on_storage_mem prod.collapse)
  then obtain v where v: "on_storage (sto_retrieve st mid) s = (Inr (Some x), v)"
    "content (mem v) = content (mem s)" by blast
  have tick: "content (mem (ticked v)) = content (mem s)" "trail (ticked v) = trail s"
    using v(2) on_storageD [OF v(1)] by (simp_all add: ticked_def trail_def)
  obtain w where w: "on_storage (sto_retrieve st mid) (ticked v) = (Inr (Some x), w)"
    "content (mem w) = content (mem s)" using reads [OF tick(1)] by blast
  obtain d z where z: "on_storage (sto_delete st mid) w = (d, z)"
    by (cases "on_storage (sto_delete st mid) w")
  have d: "d = Inr True" "content (mem z) = (content (mem s))(mid := None)" "trail z = trail s"
    using on_storageD [OF z] reliable_storage.delete_ok [OF assms(1), of mid "mem w"]
      reliable_storage.delete_done [OF assms(1), of mid "mem w"] w assms(5) tick(2)
      on_storageD [OF w(1)] by simp_all
  have ok: "permitted x (Some forgetting_policy_id) True"
    using assms(6) by (simp add: permitted_iff)
  show ?thesis
    using assms(8,9) expiry_cases [OF req v(1) assms(6,7)] on_storageD [OF v(1)]
      forget_permitted [OF req w(1) ok z] d by auto
qed

theorem expired_working_memory_removed_witness:
  "fst (forget_if_expired_working_memory dict_storage_ops ''m'' ''op'' ''a'' (mem_demo [demo_expiring]))
    = Inr True"
proof -
  have found: "dict_content (mem (mem_demo [demo_expiring])) ''m'' = Some demo_expiring"
    by (simp add: dict_content_def demo_expiring_def demo_record_def)
  have type: "mr_memory_type demo_expiring = WorkingMemory"
    by (simp add: demo_expiring_def demo_record_def)
  have exp: "expiry demo_expiring = Some 0"
    by code_simp
  have time: "0 \<le> micros_of (clock_src (mem_demo [demo_expiring]) (clock_pos (mem_demo [demo_expiring])))"
    by (simp add: mem_demo_def rt_demo_def comm_demo_def comm_world.defs rt_world.defs
        mem_world.defs demo_clock.rep_eq)
  show ?thesis
    using expired_working_memory_removed [OF dict_storage.reliable_storage_axioms _ _ _ found type
        exp time prod.collapse [symmetric]] by simp
qed

end
