(* ===== verification/Experience.thy ===== *)
theory Experience
  imports Memory Text
begin

text \<open>
  The experience engine (\<^verbatim>\<open>experience_engine/engine.py\<close>), which turns outcomes into episodic
  memory, and the event classification of its subscriber
  (\<^verbatim>\<open>experience_engine/subscriber.py\<close>).
\<close>

section \<open>Arguments\<close>

text \<open>A float argument together with its text, which only error messages use.\<close>

type_synonym shown_float = "pyfloat \<times> string"

section \<open>The engine\<close>

definition experience_metadata :: "pydict option \<Rightarrow> pydict" where
  "experience_metadata md = (case md of None \<Rightarrow> [] | Some d \<Rightarrow> d)"

definition store_and_audit ::
  "'m storage \<Rightarrow> memory_record \<Rightarrow> string \<Rightarrow> string \<Rightarrow> (('m, 'z) mem_world_scheme, memory_record) action" where
  "store_and_audit st r opid ag =
     catchA
       (bindA (kernel_store st r) (\<lambda>_.
        bindA (audit_event MemoryStore opid ag AuditCompleted (mr_memory_id r) AuditSuccess
          [(''source'', PStr ''experience_engine''), (''memory_type'', PStr ''episodic'')]) (\<lambda>_.
        ret r)))
       (\<lambda>e.
        bindA (audit_event MemoryStore opid ag AuditFailed (mr_memory_id r) AuditFailure
          [(''source'', PStr ''experience_engine''), (''error'', PStr (exn_str e))]) (\<lambda>_.
        raise e))"

text \<open>The constructor call the three methods share, with a fresh identifier and the time.\<close>

definition capture_record ::
  "'m storage \<Rightarrow> pydict \<Rightarrow> string \<Rightarrow> string \<Rightarrow> pydict option \<Rightarrow>
   (('m, 'z) mem_world_scheme, memory_record) action" where
  "capture_record st content ag opid md =
     bindA fresh_uuid (\<lambda>mid.
     bindA now (\<lambda>t.
     bindA (lift_res (new_memory_record mid EpisodicMemory t (PDict content) (experience_metadata md)
         ValidationValidated opid ag)) (\<lambda>r.
     store_and_audit st r opid ag)))"

definition capture_execution_outcome ::
  "'m storage \<Rightarrow> string \<Rightarrow> string \<Rightarrow> string \<Rightarrow> pyval \<Rightarrow> pyval \<Rightarrow> string \<Rightarrow> string \<Rightarrow> string \<Rightarrow>
   pydict option \<Rightarrow> (('m, 'z) mem_world_scheme, memory_record) action" where
  "capture_execution_outcome st order_id symbol side quantity pnl status ag opid md =
     (if order_id = [] then raise (value_error ''order_id must not be empty'')
      else if symbol = [] then raise (value_error ''symbol must not be empty'')
      else if side \<notin> {''buy'', ''sell''}
      then raise (value_error (''side must be buy or sell, got '' @ py_repr side))
      else if status \<notin> {''filled'', ''rejected'', ''cancelled'', ''halted_by_circuit_breaker''}
      then raise (value_error (''invalid status: '' @ py_repr status))
      else capture_record st
        [(''event_type'', PStr ''execution_outcome''), (''order_id'', PStr order_id),
         (''symbol'', PStr symbol), (''side'', PStr side), (''quantity'', quantity),
         (''pnl'', pnl), (''status'', PStr status)] ag opid md)"

definition capture_risk_assessment ::
  "'m storage \<Rightarrow> string \<Rightarrow> string \<Rightarrow> string \<Rightarrow> shown_float \<Rightarrow> string \<Rightarrow> string \<Rightarrow>
   pydict option \<Rightarrow> (('m, 'z) mem_world_scheme, memory_record) action" where
  "capture_risk_assessment st assessment_type result circuit_breaker_state risk_score ag opid md =
     (if assessment_type = [] then raise (value_error ''assessment_type must not be empty'')
      else if result \<notin> {''pass'', ''warn'', ''block''}
      then raise (value_error (''result must be pass/warn/block, got '' @ py_repr result))
      else if circuit_breaker_state \<notin> {''normal'', ''tripped'', ''cooldown''}
      then raise (value_error (''invalid circuit_breaker_state: '' @ py_repr circuit_breaker_state))
      else if \<not> (float_le (Fin 0) (fst risk_score) \<and> float_le (fst risk_score) (Fin 100))
      then raise (value_error (''risk_score must be 0-100, got '' @ snd risk_score))
      else capture_record st
        [(''event_type'', PStr ''risk_assessment''), (''assessment_type'', PStr assessment_type),
         (''result'', PStr result), (''circuit_breaker_state'', PStr circuit_breaker_state),
         (''risk_score'', PFloat (fst risk_score))] ag opid md)"

definition capture_agent_decision ::
  "'m storage \<Rightarrow> string \<Rightarrow> string \<Rightarrow> string \<Rightarrow> shown_float \<Rightarrow> string \<Rightarrow> string \<Rightarrow>
   pydict option \<Rightarrow> (('m, 'z) mem_world_scheme, memory_record) action" where
  "capture_agent_decision st decision_type input_summary output_action confidence ag opid md =
     (if decision_type = [] then raise (value_error ''decision_type must not be empty'')
      else if input_summary = [] then raise (value_error ''input_summary must not be empty'')
      else if output_action = [] then raise (value_error ''output_action must not be empty'')
      else if \<not> (float_le (Fin 0) (fst confidence) \<and> float_le (fst confidence) (Fin 1))
      then raise (value_error (''confidence must be 0-1, got '' @ snd confidence))
      else capture_record st
        [(''event_type'', PStr ''agent_decision''), (''decision_type'', PStr decision_type),
         (''input_summary'', PStr input_summary), (''output_action'', PStr output_action),
         (''confidence'', PFloat (fst confidence))] ag opid md)"

text \<open>\<^verbatim>\<open>ExperienceSubscriber._detect_event_type\<close>: the class of an event by the keys it has.\<close>

definition detect_event_type :: "pydict \<Rightarrow> string" where
  "detect_event_type payload =
     (if map_of payload ''order_id'' \<noteq> None then ''execution_outcome''
      else if map_of payload ''assessment_type'' \<noteq> None then ''risk_assessment''
      else if map_of payload ''decision_type'' \<noteq> None then ''agent_decision''
      else ''unknown'')"

section \<open>Calls\<close>

datatype capture_call =
    ExecutionOutcome string string string pyval pyval string string string "pydict option"
  | RiskAssessed string string string shown_float string string "pydict option"
  | AgentDecision string string string shown_float string string "pydict option"

fun capture_exec :: "'m storage \<Rightarrow> capture_call \<Rightarrow> (('m, 'z) mem_world_scheme, memory_record) action" where
  "capture_exec st (ExecutionOutcome oid sy side q pnl status ag opid md) =
     capture_execution_outcome st oid sy side q pnl status ag opid md"
| "capture_exec st (RiskAssessed ty res cb score ag opid md) =
     capture_risk_assessment st ty res cb score ag opid md"
| "capture_exec st (AgentDecision ty inp act conf ag opid md) =
     capture_agent_decision st ty inp act conf ag opid md"

fun capture_agent :: "capture_call \<Rightarrow> string" where
  "capture_agent (ExecutionOutcome oid sy side q pnl status ag opid md) = ag"
| "capture_agent (RiskAssessed ty res cb score ag opid md) = ag"
| "capture_agent (AgentDecision ty inp act conf ag opid md) = ag"

fun capture_operation :: "capture_call \<Rightarrow> string" where
  "capture_operation (ExecutionOutcome oid sy side q pnl status ag opid md) = opid"
| "capture_operation (RiskAssessed ty res cb score ag opid md) = opid"
| "capture_operation (AgentDecision ty inp act conf ag opid md) = opid"

text \<open>What the three methods accept.\<close>

fun capture_valid :: "capture_call \<Rightarrow> bool" where
  "capture_valid (ExecutionOutcome oid sy side q pnl status ag opid md) \<longleftrightarrow>
     oid \<noteq> [] \<and> sy \<noteq> [] \<and> side \<in> {''buy'', ''sell''}
     \<and> status \<in> {''filled'', ''rejected'', ''cancelled'', ''halted_by_circuit_breaker''}"
| "capture_valid (RiskAssessed ty res cb score ag opid md) \<longleftrightarrow>
     ty \<noteq> [] \<and> res \<in> {''pass'', ''warn'', ''block''} \<and> cb \<in> {''normal'', ''tripped'', ''cooldown''}
     \<and> float_le (Fin 0) (fst score) \<and> float_le (fst score) (Fin 100)"
| "capture_valid (AgentDecision ty inp act conf ag opid md) \<longleftrightarrow>
     ty \<noteq> [] \<and> inp \<noteq> [] \<and> act \<noteq> []
     \<and> float_le (Fin 0) (fst conf) \<and> float_le (fst conf) (Fin 1)"

fun capture_content :: "capture_call \<Rightarrow> pydict" where
  "capture_content (ExecutionOutcome oid sy side q pnl status ag opid md) =
     [(''event_type'', PStr ''execution_outcome''), (''order_id'', PStr oid), (''symbol'', PStr sy),
      (''side'', PStr side), (''quantity'', q), (''pnl'', pnl), (''status'', PStr status)]"
| "capture_content (RiskAssessed ty res cb score ag opid md) =
     [(''event_type'', PStr ''risk_assessment''), (''assessment_type'', PStr ty),
      (''result'', PStr res), (''circuit_breaker_state'', PStr cb), (''risk_score'', PFloat (fst score))]"
| "capture_content (AgentDecision ty inp act conf ag opid md) =
     [(''event_type'', PStr ''agent_decision''), (''decision_type'', PStr ty),
      (''input_summary'', PStr inp), (''output_action'', PStr act), (''confidence'', PFloat (fst conf))]"

fun capture_metadata :: "capture_call \<Rightarrow> pydict" where
  "capture_metadata (ExecutionOutcome oid sy side q pnl status ag opid md) = experience_metadata md"
| "capture_metadata (RiskAssessed ty res cb score ag opid md) = experience_metadata md"
| "capture_metadata (AgentDecision ty inp act conf ag opid md) = experience_metadata md"

text \<open>The record a valid call makes from the next identifier and the time.\<close>

definition captured :: "capture_call \<Rightarrow> 'z env_world_scheme \<Rightarrow> memory_record" where
  "captured c s =
     \<lparr>mr_memory_id = uuid_str (uuid4_bits (uuid_src s (uuid_pos s))),
      mr_memory_type = EpisodicMemory, mr_created_at = clock_src s (clock_pos s),
      mr_content = PDict (capture_content c), mr_metadata = capture_metadata c,
      mr_validation_status = ValidationValidated, mr_operation_id = capture_operation c,
      mr_agent_id = capture_agent c\<rparr>"

lemma captured_ok:
  "capture_operation c \<noteq> [] \<Longrightarrow> capture_agent c \<noteq> [] \<Longrightarrow> record_ok (captured c s)"
  by (simp add: captured_def record_ok_def)

lemma capture_invalid:
  "\<not> capture_valid c \<Longrightarrow> \<exists>m. capture_exec st c s = (Inl (value_error m), s)"
  by (cases c) (auto simp: capture_execution_outcome_def capture_risk_assessment_def
      capture_agent_decision_def raise_def)

lemma capture_is_record:
  "capture_valid c \<Longrightarrow> capture_exec st c =
     bindA fresh_uuid (\<lambda>mid. bindA now (\<lambda>t.
     bindA (lift_res (new_memory_record mid EpisodicMemory t (PDict (capture_content c))
         (capture_metadata c) ValidationValidated (capture_operation c) (capture_agent c)))
       (\<lambda>r. store_and_audit st r (capture_operation c) (capture_agent c))))"
  by (cases c) (auto simp: capture_execution_outcome_def capture_risk_assessment_def
      capture_agent_decision_def capture_record_def)

lemma store_and_audit_cases:
  assumes "opid \<noteq> []" and "ag \<noteq> []" and "record_ok r" and "on_storage (sto_store st r) s = (k, t)"
  shows "store_and_audit st r opid ag s =
    (case k of
       Inr u \<Rightarrow> (Inr r, (drawn t)\<lparr>audit_log := audit_log t @
          [stamped MemoryStore opid ag AuditCompleted (mr_memory_id r) AuditSuccess
             [(''source'', PStr ''experience_engine''), (''memory_type'', PStr ''episodic'')] t]\<rparr>)
     | Inl e \<Rightarrow> (Inl e, if is_exception e
          then (drawn t)\<lparr>audit_log := audit_log t @
            [stamped MemoryStore opid ag AuditFailed (mr_memory_id r) AuditFailure
             [(''source'', PStr ''experience_engine''), (''error'', PStr (exn_str e))] t]\<rparr>
          else t))"
  using assms
  by (auto simp: store_and_audit_def catchA_def bindA_def kernel_store_cases
      store_accepted [THEN iffD2] audit_event_cases record_ok_def ret_def raise_def split: sum.split)

lemma capture_cases:
  assumes "capture_valid c"
  shows "capture_exec st c s =
    (if capture_operation c = [] \<or> capture_agent c = [] then (Inl validation_error, drawn s)
     else store_and_audit st (captured c s) (capture_operation c) (capture_agent c) (drawn s))"
  by (simp add: capture_is_record [OF assms] bindA_def fresh_uuid_def now_def lift_res_def
      new_memory_record_def captured_def drawn_def)

lemma drawn_mem [simp]: "mem (drawn s) = mem s"
  by (simp add: drawn_def)

lemma capture_outcome:
  assumes "memory_storage st content" and "capture_exec st c s = (r, t)"
    and "capture_operation c \<noteq> []" and "capture_agent c \<noteq> []" and "capture_valid c"
  shows "content (mem t) \<in> {content (mem s), (content (mem s))(mr_memory_id (captured c s) \<mapsto> captured c s)}
      \<and> (case r of
           Inr x \<Rightarrow> x = captured c s \<and> trail t = trail s @ [(MemoryStore, capture_operation c,
              capture_agent c, AuditCompleted, mr_memory_id (captured c s), AuditSuccess)]
         | Inl e \<Rightarrow> trail t = trail s @ (if is_exception e then [(MemoryStore, capture_operation c,
              capture_agent c, AuditFailed, mr_memory_id (captured c s), AuditFailure)] else []))"
proof -
  obtain k v where kv: "on_storage (sto_store st (captured c s)) (drawn s) = (k, v)"
    by (cases "on_storage (sto_store st (captured c s)) (drawn s)")
  have mem: "mem (drawn s) = mem s" by simp
  have "content (mem v) \<in> {content (mem s), (content (mem s))(mr_memory_id (captured c s) \<mapsto> captured c s)}"
    using memory_storage.store_effect [OF assms(1) captured_ok [OF assms(3,4)], of s "mem s"] kv mem
    by (auto simp: on_storage_def split: prod.splits)
  moreover have "audit_log v = audit_log s"
    using kv by (auto simp: on_storage_def split: prod.splits)
  ultimately show ?thesis
    using assms(2) capture_cases [OF assms(5), of st s] assms(3,4)
      store_and_audit_cases [OF assms(3,4) captured_ok [OF assms(3,4)] kv]
    by (auto simp: trail_def split: sum.splits if_splits)
qed

lemma capture_produces_content:
  assumes "memory_storage st content" and "capture_exec st c s = (r, t)"
    and "capture_valid c \<and> capture_operation c \<noteq> [] \<and> capture_agent c \<noteq> []"
  shows "content (mem t) \<in> {content (mem s), (content (mem s))(mr_memory_id (captured c s) \<mapsto> captured c s)}"
  using capture_outcome [OF assms(1,2)] assms(3) by blast

section \<open>Properties\<close>

text \<open>
  What a capture does, for any storage. A call whose arguments are out of range (a score that
  is not a number included) raises and changes nothing. Otherwise what is persisted is unchanged or
  has one more record: episodic, validated, with the call's operation, agent and content, under a
  fresh identifier. The call returns exactly when the storage did, with that record and one
  COMPLETED/SUCCESS entry; when the storage raises an \<^verbatim>\<open>Exception\<close> there is one FAILED/FAILURE entry.
\<close>

theorem capture_produces_episodic_only:
  assumes "memory_storage st content" and "capture_exec st c s = (r, t)"
    and "capture_operation c \<noteq> []" and "capture_agent c \<noteq> []"
  shows "if \<not> capture_valid c then t = s \<and> (\<exists>m. r = Inl (value_error m))
    else content (mem t) \<in> {content (mem s), (content (mem s))(mr_memory_id (captured c s) \<mapsto> captured c s)}
      \<and> (case r of
           Inr x \<Rightarrow> x = captured c s \<and> trail t = trail s @ [(MemoryStore, capture_operation c,
              capture_agent c, AuditCompleted, mr_memory_id (captured c s), AuditSuccess)]
         | Inl e \<Rightarrow> trail t = trail s @ (if is_exception e then [(MemoryStore, capture_operation c,
              capture_agent c, AuditFailed, mr_memory_id (captured c s), AuditFailure)] else []))"
  using capture_outcome [OF assms] capture_invalid [of c st s] assms(2) by (cases "capture_valid c") auto

definition demo_capture :: capture_call where
  "demo_capture = RiskAssessed ''var'' ''warn'' ''normal'' (Fin 50, ''50.0'') ''a'' ''op'' None"

lemma demo_capture_ok: "capture_valid demo_capture"
    "capture_operation demo_capture \<noteq> []" "capture_agent demo_capture \<noteq> []"
  by (simp_all add: demo_capture_def)

theorem capture_produces_episodic_only_witness:
  "dict_content (mem (snd (capture_exec dict_storage_ops demo_capture (mem_demo [])))) \<in>
     {dict_content (mem (mem_demo [])), (dict_content (mem (mem_demo [])))
        (mr_memory_id (captured demo_capture (mem_demo [])) \<mapsto> captured demo_capture (mem_demo []))}"
  using capture_produces_episodic_only [OF dict_storage.memory_storage_axioms
      prod.collapse [symmetric] demo_capture_ok(2,3), of "mem_demo []"] demo_capture_ok(1)
  by simp

text \<open>
  The subscriber classifies what the engine produces: the event type it detects from the keys
  of a captured content is the one the engine wrote into it.
\<close>

theorem detect_event_type_roundtrip:
  "map_of (capture_content c) ''event_type'' = Some (PStr (detect_event_type (capture_content c)))"
  by (cases c) (simp_all add: detect_event_type_def)

end
