(* ===== verification/Gateway.thy ===== *)
theory Gateway
  imports Forgetting Experience
begin

text \<open>
  The agent gateway (\<^verbatim>\<open>gateway/gateway.py\<close>): the entry point through which an agent reaches the
  memory system, checking the registry, the policy and the agent's capabilities first and auditing
  every step. This theory also drives the whole memory system by sequences of calls.
\<close>

section \<open>The gateway\<close>

definition gateway_audit ::
  "audit_event_type \<Rightarrow> audit_action \<Rightarrow> audit_result \<Rightarrow> string \<Rightarrow> string \<Rightarrow> string \<Rightarrow>
   ('z audit_world_scheme, unit) action" where
  "gateway_audit et ac rs opid ag res = audit_event et opid ag ac res rs []"

definition gateway_authorize ::
  "string \<Rightarrow> capability \<Rightarrow> audit_event_type \<Rightarrow> string \<Rightarrow> string \<Rightarrow> ('z perm_world_scheme, unit) action" where
  "gateway_authorize aid c et opid res =
     on_error
       (bindA (registry_get aid) (\<lambda>found.
        case found of
          None \<Rightarrow> raise (permission_error ''Unknown Agent.'')
        | Some identity \<Rightarrow>
            (if id_status identity \<notin> {AgentValidated, AgentReady, AgentRunning}
             then raise (permission_error ''Agent is not authorized for execution.'')
             else bindA (policy_validate c) (\<lambda>_. permissions_require aid c))))
       (gateway_audit et AuditFailed AuditFailure opid aid res)"

definition gateway_retrieve ::
  "'m storage \<Rightarrow> string \<Rightarrow> string \<Rightarrow> string \<Rightarrow> (('m, 'z) mem_world_scheme, memory_record option) action" where
  "gateway_retrieve st aid mid opid =
     bindA (gateway_authorize aid CapMemoryRetrieve MemoryRetrieve opid mid) (\<lambda>_.
     bindA (gateway_audit MemoryRetrieve AuditRequested AuditSuccess opid aid mid) (\<lambda>_.
     bindA (on_error (retrieval_retrieve st mid)
        (gateway_audit MemoryRetrieve AuditFailed AuditFailure opid aid mid)) (\<lambda>result.
     bindA (gateway_audit MemoryRetrieve AuditCompleted AuditSuccess opid aid mid) (\<lambda>_.
     ret result))))"

definition gateway_store ::
  "'m storage \<Rightarrow> string \<Rightarrow> memory_record \<Rightarrow> string \<Rightarrow> (('m, 'z) mem_world_scheme, unit) action" where
  "gateway_store st aid r opid =
     bindA (gateway_authorize aid CapMemoryStore MemoryStore opid (mr_memory_id r)) (\<lambda>_.
     bindA (gateway_audit MemoryStore AuditRequested AuditSuccess opid aid (mr_memory_id r)) (\<lambda>_.
     bindA (on_error (kernel_store st r)
        (gateway_audit MemoryStore AuditFailed AuditFailure opid aid (mr_memory_id r))) (\<lambda>_.
     gateway_audit MemoryStore AuditCompleted AuditSuccess opid aid (mr_memory_id r))))"

definition gateway_forget ::
  "'m storage \<Rightarrow> string \<Rightarrow> string \<Rightarrow> string \<Rightarrow> string option \<Rightarrow> (('m, 'z) mem_world_scheme, bool) action" where
  "gateway_forget st aid mid opid policy =
     bindA (gateway_authorize aid CapMemoryForget MemoryForget opid mid) (\<lambda>_.
     bindA (gateway_audit MemoryForget AuditRequested AuditSuccess opid aid mid) (\<lambda>_.
     bindA (forget st mid opid aid policy False) (\<lambda>result.
     bindA (gateway_audit MemoryForget AuditCompleted (if result then AuditSuccess else AuditFailure)
        opid aid mid) (\<lambda>_.
     ret result))))"

section \<open>Authorization\<close>

definition authorized :: "'z perm_world_scheme \<Rightarrow> string \<Rightarrow> capability \<Rightarrow> bool" where
  "authorized s aid c \<longleftrightarrow> aid \<noteq> []
     \<and> (case map_of (agents s) aid of
          None \<Rightarrow> False | Some i \<Rightarrow> id_status i \<in> {AgentValidated, AgentReady, AgentRunning})
     \<and> holds_capability s aid c"

definition gateway_refusal :: "'z perm_world_scheme \<Rightarrow> string \<Rightarrow> capability \<Rightarrow> exn" where
  "gateway_refusal s aid c =
     (case map_of (agents s) aid of
        None \<Rightarrow> permission_error ''Unknown Agent.''
      | Some i \<Rightarrow>
          (if id_status i \<notin> {AgentValidated, AgentReady, AgentRunning}
           then permission_error ''Agent is not authorized for execution.''
           else if map_of (perms s) aid = None
           then permission_error ''Agent has no registered permissions.''
           else permission_error (''Agent lacks capability: '' @ capability_value c)))"

definition event_logged ::
  "audit_event_type \<Rightarrow> audit_action \<Rightarrow> audit_result \<Rightarrow> string \<Rightarrow> string \<Rightarrow> string \<Rightarrow>
   'z audit_world_scheme \<Rightarrow> 'z audit_world_scheme" where
  "event_logged et ac rs opid ag res s =
     (drawn s)\<lparr>audit_log := audit_log s @ [stamped et opid ag ac res rs [] s]\<rparr>"

lemma gateway_audit_cases:
  "gateway_audit et ac rs opid ag res s =
    (if opid \<noteq> [] \<and> ag \<noteq> [] \<and> res \<noteq> [] then (Inr (), event_logged et ac rs opid ag res s)
     else (Inl validation_error, drawn s))"
  by (simp add: gateway_audit_def audit_event_cases event_logged_def)

lemma event_logged_trail [simp]:
  "trail (event_logged et ac rs opid ag res s) = trail s @ [(et, opid, ag, ac, res, rs)]"
  by (simp add: event_logged_def trail_def)

lemma drawn_perms [simp]: "agents (drawn s) = agents s" "perms (drawn s) = perms s"
  "trail (drawn s) = trail s"
  by (simp_all add: drawn_def trail_def)

lemma event_logged_mem [simp]: "mem (event_logged et ac rs opid ag res s) = mem s"
  by (simp add: event_logged_def)

lemma event_logged_perms [simp]:
  "agents (event_logged et ac rs opid ag res s) = agents s"
  "perms (event_logged et ac rs opid ag res s) = perms s"
  by (simp_all add: event_logged_def)

lemma authorized_logged [simp]:
  "authorized (event_logged et ac rs opid ag res s) aid c = authorized s aid c"
  by (simp add: authorized_def holds_capability_def)

lemma gateway_authorize_cases:
  "gateway_authorize aid c et opid res s =
    (if authorized s aid c then (Inr (), s)
     else if aid \<noteq> [] \<and> opid \<noteq> [] \<and> res \<noteq> []
     then (Inl (gateway_refusal s aid c), event_logged et AuditFailed AuditFailure opid aid res s)
     else (Inl validation_error, drawn s))"
  by (auto simp: gateway_authorize_def on_error_def action_simps registry_get_def authorized_def
      gateway_refusal_def gateway_audit_cases permissions_require_def holds_capability_def
      split: option.splits)

text \<open>An operation behind the gateway that is not authorized.\<close>

lemma gateway_denied:
  assumes "\<not> authorized s aid c"
  shows "bindA (gateway_authorize aid c et opid res) f s =
    (if aid \<noteq> [] \<and> opid \<noteq> [] \<and> res \<noteq> []
     then (Inl (gateway_refusal s aid c), event_logged et AuditFailed AuditFailure opid aid res s)
     else (Inl validation_error, drawn s))"
  using assms by (simp add: bindA_def gateway_authorize_cases)

section \<open>Authorized operations\<close>

lemma authorized_nonempty: "authorized s aid c \<Longrightarrow> aid \<noteq> []"
  by (simp add: authorized_def)

lemma gateway_store_cases:
  assumes "authorized s aid CapMemoryStore" and "opid \<noteq> []" and "mr_memory_id r \<noteq> []"
    and "q = event_logged MemoryStore AuditRequested AuditSuccess opid aid (mr_memory_id r) s"
  shows "gateway_store st aid r opid s =
    (case kernel_store st r q of
       (Inl e, t) \<Rightarrow> (Inl e, if is_exception e
          then event_logged MemoryStore AuditFailed AuditFailure opid aid (mr_memory_id r) t else t)
     | (Inr u, t) \<Rightarrow>
         (Inr (), event_logged MemoryStore AuditCompleted AuditSuccess opid aid (mr_memory_id r) t))"
  using assms authorized_nonempty [OF assms(1)]
  by (auto simp: gateway_store_def bindA_def gateway_authorize_cases gateway_audit_cases
      on_error_def catchA_def raise_def split: prod.splits sum.splits)

lemma gateway_retrieve_cases:
  assumes "authorized s aid CapMemoryRetrieve" and "opid \<noteq> []" and "mid \<noteq> []"
    and "q = event_logged MemoryRetrieve AuditRequested AuditSuccess opid aid mid s"
  shows "gateway_retrieve st aid mid opid s =
    (case on_storage (sto_retrieve st mid) q of
       (Inl e, t) \<Rightarrow> (Inl e, if is_exception e
          then event_logged MemoryRetrieve AuditFailed AuditFailure opid aid mid t else t)
     | (Inr u, t) \<Rightarrow>
         (Inr u, event_logged MemoryRetrieve AuditCompleted AuditSuccess opid aid mid t))"
  using assms authorized_nonempty [OF assms(1)]
  by (auto simp: gateway_retrieve_def bindA_def gateway_authorize_cases gateway_audit_cases
      retrieval_is_kernel kernel_retrieve_nonempty on_error_def catchA_def raise_def ret_def
      split: prod.splits sum.splits)

lemma gateway_forget_cases:
  assumes "authorized s aid CapMemoryForget" and "opid \<noteq> []" and "mid \<noteq> []"
    and "q = event_logged MemoryForget AuditRequested AuditSuccess opid aid mid s"
  shows "gateway_forget st aid mid opid policy s =
    (case forget st mid opid aid policy False q of
       (Inl e, t) \<Rightarrow> (Inl e, t)
     | (Inr b, t) \<Rightarrow>
         (Inr b, event_logged MemoryForget AuditCompleted (if b then AuditSuccess else AuditFailure)
                   opid aid mid t))"
  using assms authorized_nonempty [OF assms(1)]
  by (auto simp: gateway_forget_def bindA_def gateway_authorize_cases gateway_audit_cases ret_def
      split: prod.splits sum.splits)

section \<open>Invariants of the persisted contents\<close>

text \<open>
  An invariant of what is persisted, kept by an operation. Everything but storing and forgetting
  leaves the contents alone; a store must be allowed to add its record, a forget to remove one the
  lifecycle table permits.
\<close>

definition content_inv ::
  "('m \<Rightarrow> string \<Rightarrow> memory_record option) \<Rightarrow> ((string \<Rightarrow> memory_record option) \<Rightarrow> bool) \<Rightarrow>
   ('m, 'z) mem_world_scheme \<Rightarrow> bool" where
  "content_inv content I s \<longleftrightarrow> I (content (mem s))"

definition may_store ::
  "((string \<Rightarrow> memory_record option) \<Rightarrow> bool) \<Rightarrow> memory_record \<Rightarrow> bool" where
  "may_store I r \<longleftrightarrow> (record_ok r \<longrightarrow> (\<forall>c. I c \<longrightarrow> I (c(mr_memory_id r \<mapsto> r))))"

definition may_forget ::
  "((string \<Rightarrow> memory_record option) \<Rightarrow> bool) \<Rightarrow> string \<Rightarrow> (memory_record \<Rightarrow> bool) \<Rightarrow> bool" where
  "may_forget I mid allowed \<longleftrightarrow>
     (\<forall>c x. I c \<longrightarrow> c mid = Some x \<longrightarrow> allowed x \<longrightarrow> I (c(mid := None)))"

lemma same_mem_keeps:
  "(\<And>s. mem (snd (m s)) = mem s) \<Longrightarrow> keeps (content_inv content I) m"
  by (simp add: obeys_def content_inv_def)

lemma gateway_audit_keeps: "keeps (content_inv content I) (gateway_audit et ac rs opid ag res)"
  by (rule same_mem_keeps) (simp add: gateway_audit_cases)

lemma gateway_authorize_keeps: "keeps (content_inv content I) (gateway_authorize aid c et opid res)"
  by (rule same_mem_keeps) (simp add: gateway_authorize_cases)

lemma now_keeps: "keeps (content_inv content I) now"
  by (rule same_mem_keeps) (simp add: now_def)

lemma lifecycle_exec_keeps: "keeps (content_inv content I) (lifecycle_exec c)"
proof (rule same_mem_keeps)
  fix s :: "('a, 'b) mem_world_scheme"
  let ?t = "snd (lifecycle_exec c s)"
  have "outside_registry ?t = outside_registry s"
    using obeysD [OF lifecycle_exec_runs [of c], of s] by (simp add: lifecycle_contract_def)
  then have "reg_world.more ?t = reg_world.more s"
    by (simp add: outside_registry_def)
  then show "mem ?t = mem s"
    by (cases ?t; cases s; simp)
qed

lemma kernel_store_keeps_inv:
  assumes "memory_storage st content" and "may_store I r"
  shows "keeps (content_inv content I) (kernel_store st r)"
proof (rule obeysI, rule impI)
  fix s :: "('a, 'b) mem_world_scheme"
  assume "content_inv content I s"
  then show "content_inv content I (snd (kernel_store st r s))"
    using memory_storage.store_effect [OF assms(1), of r "mem s"] assms(2)
    by (auto simp: content_inv_def may_store_def kernel_store_cases store_accepted
        split: option.split)
qed

lemma kernel_retrieve_keeps_inv:
  assumes "memory_storage st content"
  shows "keeps (content_inv content I) (kernel_retrieve st mid)"
  by (rule obeysI) (simp add: content_inv_def memory_storage.kernel_retrieve_keeps [OF assms])

lemma retrieval_keeps_inv:
  assumes "memory_storage st content"
  shows "keeps (content_inv content I) (retrieval_retrieve st mid)"
  by (rule obeysI)
    (simp add: content_inv_def retrieval_is_kernel memory_storage.kernel_retrieve_keeps [OF assms])

lemma forget_keeps_inv:
  assumes "memory_storage st content"
    and "may_forget I mid (\<lambda>x. permitted x policy automatic)"
  shows "keeps (content_inv content I) (forget st mid opid ag policy automatic)"
proof (rule obeysI, rule impI)
  fix s :: "('a, 'b) mem_world_scheme"
  assume I: "content_inv content I s"
  obtain r t where call: "forget st mid opid ag policy automatic s = (r, t)"
    by (cases "forget st mid opid ag policy automatic s")
  show "content_inv content I (snd (forget st mid opid ag policy automatic s))"
    using forget_has_outcome [OF assms(1) call] assms(2) I call
    by (auto simp: content_inv_def may_forget_def forget_outcome_def split: if_splits)
qed

text \<open>The automatic removal is the same forgetting, by policy, of a working record only.\<close>

lemma expired_content:
  assumes "memory_storage st content"
    and "forget_if_expired_working_memory st mid opid ag s = (r, t)"
  shows "content (mem t) = content (mem s) \<or>
    content (mem t) = (content (mem s))(mid := None)
      \<and> (\<exists>x. content (mem s) mid = Some x \<and> mr_memory_type x = WorkingMemory)"
proof (cases "forgetting_validate_required mid opid ag")
  case (Inl e)
  then show ?thesis
    using assms(2) by (auto simp: forget_if_expired_working_memory_def bindA_def lift_res_def)
next
  case (Inr u)
  then have req: "forgetting_validate_required mid opid ag = Inr ()" by simp
  obtain f v where f: "on_storage (sto_retrieve st mid) s = (f, v)"
    by (cases "on_storage (sto_retrieve st mid) s")
  have v: "content (mem v) = content (mem s)"
    using memory_storage.retrieve_pure [OF assms(1), of mid "mem s"] on_storageD [OF f] by simp
  show ?thesis
  proof (cases "\<exists>x e. f = Inr (Some x) \<and> mr_memory_type x = WorkingMemory \<and> expiry x = Some e")
    case False
    then show ?thesis
      using not_expiring_cases [OF req f] assms(2) v by (metis not_Some_eq snd_conv)
  next
    case True
    then obtain x e where x: "f = Inr (Some x)" "mr_memory_type x = WorkingMemory" "expiry x = Some e"
      by blast
    have found: "content (mem s) mid = Some x"
      using memory_storage.retrieve_sound [OF assms(1), of mid "mem s" x] on_storageD [OF f] x by simp
    have mem: "mem (ticked v) = mem v" by (simp add: ticked_def)
    show ?thesis
    proof (cases "e > micros_of (clock_src v (clock_pos v))")
      case True
      then show ?thesis
        using expiry_cases [OF req f [unfolded x(1)] x(2,3)] assms(2) v mem by auto
    next
      case False
      then have "forget st mid opid ag (Some forgetting_policy_id) True (ticked v) = (r, t)"
        using expiry_cases [OF req f [unfolded x(1)] x(2,3)] assms(2) by simp
      from forget_has_outcome [OF assms(1) this] req x(2) found show ?thesis
        by (auto simp: forget_outcome_def mem v)
    qed
  qed
qed

lemma expired_keeps_inv:
  assumes "memory_storage st content"
    and "may_forget I mid (\<lambda>x. mr_memory_type x = WorkingMemory)"
  shows "keeps (content_inv content I) (forget_if_expired_working_memory st mid opid ag)"
proof (rule obeysI, rule impI)
  fix s :: "('a, 'b) mem_world_scheme"
  assume I: "content_inv content I s"
  obtain r t where call: "forget_if_expired_working_memory st mid opid ag s = (r, t)"
    by (cases "forget_if_expired_working_memory st mid opid ag s")
  show "content_inv content I (snd (forget_if_expired_working_memory st mid opid ag s))"
    using expired_content [OF assms(1) call] assms(2) I call
    by (auto simp: content_inv_def may_forget_def)
qed

section \<open>Runs of the memory system\<close>

datatype mem_call =
    GwStore string memory_record string
  | GwRetrieve string string string
  | GwForget string string string "string option"
  | TypedStore memory_type memory_record
  | Consolidate memory_record string string
  | Forget string string string "string option" bool
  | ForgetExpired string string string
  | Capture capture_call
  | Grant permission_set
  | MemAgents lifecycle_call

fun typed_store :: "'m storage \<Rightarrow> memory_type \<Rightarrow> memory_record \<Rightarrow> (('m, 'z) mem_world_scheme, unit) action" where
  "typed_store st WorkingMemory r = working_store st r"
| "typed_store st EpisodicMemory r = episodic_store st r"
| "typed_store st SemanticMemory r = semantic_store st r"
| "typed_store st ProceduralMemory r = procedural_store st r"

fun mem_exec :: "'m storage \<Rightarrow> mem_call \<Rightarrow> (('m, 'z) mem_world_scheme, unit) action" where
  "mem_exec st (GwStore aid r opid) = gateway_store st aid r opid"
| "mem_exec st (GwRetrieve aid mid opid) = bindA (gateway_retrieve st aid mid opid) (\<lambda>_. ret ())"
| "mem_exec st (GwForget aid mid opid policy) = bindA (gateway_forget st aid mid opid policy) (\<lambda>_. ret ())"
| "mem_exec st (TypedStore ty r) = typed_store st ty r"
| "mem_exec st (Consolidate source opid ag) = bindA (consolidate st source opid ag) (\<lambda>_. ret ())"
| "mem_exec st (Forget mid opid ag policy automatic) =
     bindA (forget st mid opid ag policy automatic) (\<lambda>_. ret ())"
| "mem_exec st (ForgetExpired mid opid ag) =
     bindA (forget_if_expired_working_memory st mid opid ag) (\<lambda>_. ret ())"
| "mem_exec st (Capture c) = bindA (capture_exec st c) (\<lambda>_. ret ())"
| "mem_exec st (Grant p) = permissions_grant p"
| "mem_exec st (MemAgents c) = bindA (lifecycle_exec c) (\<lambda>_. ret ())"

text \<open>When a call may keep an invariant of the contents.\<close>

fun admits :: "((string \<Rightarrow> memory_record option) \<Rightarrow> bool) \<Rightarrow> mem_call \<Rightarrow> bool" where
  "admits I (GwStore aid r opid) = may_store I r"
| "admits I (GwRetrieve aid mid opid) = True"
| "admits I (GwForget aid mid opid policy) = may_forget I mid (\<lambda>x. permitted x policy False)"
| "admits I (TypedStore ty r) = may_store I r"
| "admits I (Consolidate source opid ag) =
     (\<forall>t. may_store I (consolidated_record source opid ag t))"
| "admits I (Forget mid opid ag policy automatic) = may_forget I mid (\<lambda>x. permitted x policy automatic)"
| "admits I (ForgetExpired mid opid ag) = may_forget I mid (\<lambda>x. mr_memory_type x = WorkingMemory)"
| "admits I (Capture c) = (\<forall>s. may_store I (captured c (s :: env_world)))"
| "admits I (Grant p) = True"
| "admits I (MemAgents c) = True"

lemma consolidate_keeps_inv:
  assumes "memory_storage st content" and "\<forall>t. may_store I (consolidated_record source opid ag t)"
  shows "keeps (content_inv content I) (consolidate st source opid ag)"
proof (rule obeysI, rule impI)
  fix s :: "('a, 'b) mem_world_scheme"
  assume I: "content_inv content I s"
  let ?c = "consolidated_record source opid ag (clock_src s (clock_pos s))"
  have "record_ok ?c" if "consolidation_refusal source opid ag = None"
    using that
    by (intro consolidated_record_ok) (auto simp: consolidation_refusal_def split: if_splits)
  moreover have "mem (ticked s) = mem s" by (simp add: ticked_def)
  moreover have "snd (consolidate st source opid ag s)
      = snd (on_storage (sto_store st ?c) (ticked s))" if "consolidation_refusal source opid ag = None"
    using that by (simp add: consolidate_cases Let_def split: prod.split sum.split)
  moreover have "snd (consolidate st source opid ag s) = s" if "consolidation_refusal source opid ag = Some e" for e
    using that by (simp add: consolidate_cases)
  ultimately show "content_inv content I (snd (consolidate st source opid ag s))"
    using memory_storage.store_effect [OF assms(1), of ?c "mem s"] assms(2) I
    by (cases "consolidation_refusal source opid ag") (auto simp: content_inv_def may_store_def)
qed

lemma captured_truncate: "captured c (env_world.truncate s) = captured c s"
  by (simp add: captured_def env_world.defs)

lemma capture_keeps_inv:
  assumes "memory_storage st content" and "\<forall>s. may_store I (captured c (s :: env_world))"
  shows "keeps (content_inv content I) (capture_exec st c)"
proof (rule obeysI, rule impI)
  fix s :: "('a, 'b) mem_world_scheme"
  assume I: "content_inv content I s"
  have store: "may_store I (captured c s)"
    using assms(2) captured_truncate [of c s] by metis
  obtain k t where call: "capture_exec st c s = (k, t)" by (cases "capture_exec st c s")
  show "content_inv content I (snd (capture_exec st c s))"
  proof (cases "capture_valid c \<and> capture_operation c \<noteq> [] \<and> capture_agent c \<noteq> []")
    case True
    then show ?thesis
      using capture_produces_content [OF assms(1) call] captured_ok [of c s] store I call
      by (auto simp: content_inv_def may_store_def)
  next
    case False
    then have "mem t = mem s"
      using call capture_invalid [of c st s] capture_cases [of c st s]
      by (cases "capture_valid c") auto
    with I call show ?thesis by (simp add: content_inv_def)
  qed
qed

lemmas mem_rules = keep.closure_rules gateway_audit_keeps gateway_authorize_keeps now_keeps
  lifecycle_exec_keeps kernel_store_keeps_inv kernel_retrieve_keeps_inv retrieval_keeps_inv
  forget_keeps_inv expired_keeps_inv consolidate_keeps_inv capture_keeps_inv

lemma mem_exec_keeps:
  assumes "memory_storage st content" and "admits I c"
  shows "keeps (content_inv content I) (mem_exec st c)"
proof (cases c)
  case (TypedStore ty r)
  then show ?thesis
    using assms
    by (cases ty) (auto simp: working_store_def episodic_store_def semantic_store_def
        procedural_store_def intro!: mem_rules)
next
  case (Grant p)
  then show ?thesis
    by (simp add: same_mem_keeps permissions_grant_def modify_def)
qed (use assms in \<open>auto simp: gateway_store_def gateway_retrieve_def gateway_forget_def intro!: mem_rules\<close>)

lemma mem_run_keeps:
  assumes "memory_storage st content" and "list_all (admits I) cs" and "content_inv content I s"
  shows "content_inv content I (run (mem_exec st) s cs)"
  using assms(2,3)
proof (induction cs arbitrary: s)
  case (Cons c cs)
  have "content_inv content I (snd (mem_exec st c s))"
    using obeysD [OF mem_exec_keeps [OF assms(1), of I c], of s] Cons.prems by simp
  with Cons show ?case by simp
qed simp

section \<open>Properties\<close>

lemma contents_ok_admits: "admits contents_ok c"
  by (cases c) (auto simp: may_store_def may_forget_def contents_ok_update contents_ok_delete)

text \<open>
  C1. The memory invariant. For any storage, whatever its calls raise or lose, and any sequence of
  calls to the gateway, the typed stores, the consolidation, experience and forgetting engines, with grants and
  lifecycle calls in between: if every persisted record is validated, has its three identifiers and
  is filed under its own, then so is every record persisted afterwards.
\<close>

theorem memory_contents_stay_valid:
  assumes "memory_storage st content"
    and "\<forall>k r. content (mem s) k = Some r \<longrightarrow> record_ok r \<and> mr_memory_id r = k"
    and "content (mem (run (mem_exec st) s cs)) k = Some r"
  shows "mr_memory_id r = k \<and> k \<noteq> [] \<and> mr_operation_id r \<noteq> [] \<and> mr_agent_id r \<noteq> []
    \<and> mr_validation_status r = ValidationValidated"
proof -
  have "content_inv content contents_ok (run (mem_exec st) s cs)"
    by (rule mem_run_keeps [OF assms(1)])
      (use assms(2) in \<open>simp_all add: contents_ok_admits list_all_iff content_inv_def contents_ok_def\<close>)
  with assms(3) show ?thesis
    by (auto simp: content_inv_def contents_ok_def record_ok_def)
qed

fun spares :: "string \<Rightarrow> mem_call \<Rightarrow> bool" where
  "spares k (GwStore aid r opid) = (mr_memory_id r \<noteq> k)"
| "spares k (GwForget aid mid opid policy) = (mid \<noteq> k \<or> no_policy policy)"
| "spares k (TypedStore ty r) = (mr_memory_id r \<noteq> k)"
| "spares k (Consolidate source opid ag) = (consolidated_id (mr_memory_id source) \<noteq> k)"
| "spares k (Forget mid opid ag policy automatic) = (mid \<noteq> k \<or> no_policy policy)"
| "spares k (Capture c) = (length k \<noteq> 36)"
| "spares k c = True"

lemma spares_admits:
  assumes "spares k c" and "mr_memory_type x \<in> {SemanticMemory, ProceduralMemory}"
  shows "admits (\<lambda>c. c k = Some x) c"
  using assms
  by (cases c) (auto simp: may_store_def may_forget_def permitted_iff consolidated_record_def
      captured_def length_uuid_str)

text \<open>
  C2. Long-term memory is protected. A semantic or procedural record that is persisted under \<open>k\<close>
  is still there, unchanged, after any sequence of calls in which nothing is stored or consolidated
  under \<open>k\<close>, no forgetting of \<open>k\<close> names an explicit policy, and experience is captured only
  if \<open>k\<close> does not have the 36 characters of a random identifier: neither an agent's \<^verbatim>\<open>forget\<close> without
  a policy, nor automatic forgetting without one, nor the expiry of working memory, removes it.
\<close>

theorem long_term_memory_protected:
  assumes "memory_storage st content" and "content (mem s) k = Some x"
    and "mr_memory_type x \<in> {SemanticMemory, ProceduralMemory}" and "list_all (spares k) cs"
  shows "content (mem (run (mem_exec st) s cs)) k = Some x"
proof -
  have "content_inv content (\<lambda>c. c k = Some x) (run (mem_exec st) s cs)"
    by (rule mem_run_keeps [OF assms(1)])
      (use assms in \<open>simp_all add: content_inv_def list_all_iff spares_admits\<close>)
  then show ?thesis by (simp add: content_inv_def)
qed

lemma demo_protected:
  "dict_content (mem (mem_demo [demo_record ''m'' SemanticMemory])) ''m''
     = Some (demo_record ''m'' SemanticMemory)"
  "mr_memory_type (demo_record ''m'' SemanticMemory) \<in> {SemanticMemory, ProceduralMemory}"
  "list_all (spares ''m'') [Forget ''m'' ''op'' ''a'' None False, ForgetExpired ''m'' ''op'' ''a'',
     GwForget ''a'' ''m'' ''op'' None]"
  by (simp_all add: dict_content_def demo_record_def no_policy_def)

theorem long_term_memory_protected_witness:
  "dict_content (mem (run (mem_exec dict_storage_ops) (mem_demo [demo_record ''m'' SemanticMemory])
     [Forget ''m'' ''op'' ''a'' None False, ForgetExpired ''m'' ''op'' ''a'',
      GwForget ''a'' ''m'' ''op'' None])) ''m'' = Some (demo_record ''m'' SemanticMemory)"
  by (rule long_term_memory_protected [OF dict_storage.memory_storage_axioms demo_protected])

definition gateway_denial ::
  "'z perm_world_scheme \<Rightarrow> string \<Rightarrow> capability \<Rightarrow> audit_event_type \<Rightarrow> string \<Rightarrow> string \<Rightarrow>
   (exn + 'a) \<times> 'z perm_world_scheme" where
  "gateway_denial s aid c et opid res =
    (if aid \<noteq> [] \<and> opid \<noteq> [] \<and> res \<noteq> []
     then (Inl (gateway_refusal s aid c), event_logged et AuditFailed AuditFailure opid aid res s)
     else (Inl validation_error, drawn s))"

text \<open>
  C9. No access without authority. For an agent that is unknown, not validated, ready or running,
  or without the capability, each gateway operation raises without calling the storage: the
  persistent state is untouched, and (with the identifiers present) exactly one FAILED/FAILURE entry
  is appended to the audit trail.
\<close>

theorem gateway_denies_unauthorized:
  "(\<not> authorized s aid CapMemoryRetrieve \<longrightarrow>
      gateway_retrieve st aid mid opid s = gateway_denial s aid CapMemoryRetrieve MemoryRetrieve opid mid)
   \<and> (\<not> authorized s aid CapMemoryStore \<longrightarrow>
      gateway_store st aid r opid s
        = gateway_denial s aid CapMemoryStore MemoryStore opid (mr_memory_id r))
   \<and> (\<not> authorized s aid CapMemoryForget \<longrightarrow>
      gateway_forget st aid mid opid policy s
        = gateway_denial s aid CapMemoryForget MemoryForget opid mid)
   \<and> mem (snd (gateway_denial s aid c et opid mid :: (exn + bool) \<times> _)) = mem s"
  by (simp add: gateway_retrieve_def gateway_store_def gateway_forget_def gateway_denied
      gateway_denial_def)

theorem gateway_denies_unauthorized_witness:
  "mem (snd (gateway_forget dict_storage_ops ''a'' ''m'' ''op'' None (mem_demo []))) = mem (mem_demo [])"
proof -
  have "\<not> authorized (mem_demo []) ''a'' CapMemoryForget"
    by (simp add: authorized_def holds_capability_def mem_demo_def rt_demo_def comm_demo_def
        comm_world.defs rt_world.defs mem_world.defs)
  then show ?thesis
    using gateway_denies_unauthorized [of "mem_demo []" "''a''" dict_storage_ops "''m''" "''op''"
        "demo_record ''m'' WorkingMemory" None CapMemoryForget MemoryForget] by simp
qed

text \<open>
  C15. The trail of an authorized store. For any storage, the operation appends a REQUESTED entry
  and then a COMPLETED/SUCCESS one if the kernel returns, a FAILED/FAILURE one if it raises an
  \<^verbatim>\<open>Exception\<close>; a record that is not validated or lacks an identifier is refused without calling
  the storage; and what is persisted is either unchanged or has exactly this record added.
\<close>

theorem gateway_store_audited:
  assumes "memory_storage st content" and "authorized s aid CapMemoryStore"
    and "opid \<noteq> []" and "mr_memory_id r \<noteq> []" and "gateway_store st aid r opid s = (res, t)"
  shows "trail t = trail s @ (MemoryStore, opid, aid, AuditRequested, mr_memory_id r, AuditSuccess) #
      (case res of
         Inr u \<Rightarrow> [(MemoryStore, opid, aid, AuditCompleted, mr_memory_id r, AuditSuccess)]
       | Inl e \<Rightarrow> (if is_exception e
           then [(MemoryStore, opid, aid, AuditFailed, mr_memory_id r, AuditFailure)] else []))
    \<and> content (mem t) \<in> {content (mem s), (content (mem s))(mr_memory_id r \<mapsto> r)}
    \<and> (\<not> record_ok r \<longrightarrow> mem t = mem s \<and> (\<exists>e. res = Inl e \<and> is_exception e))"
proof -
  let ?q = "event_logged MemoryStore AuditRequested AuditSuccess opid aid (mr_memory_id r) s"
  note run = gateway_store_cases [OF assms(2-4) refl, of st]
  show ?thesis
  proof (cases "store_refusal r")
    case (Some e)
    moreover have "is_exception e" by (rule store_refusal_exception [OF Some])
    ultimately show ?thesis
      using run assms(5) by (auto simp: kernel_store_cases)
  next
    case None
    obtain k v where kv: "on_storage (sto_store st r) ?q = (k, v)"
      by (cases "on_storage (sto_store st r) ?q")
    have ok: "record_ok r" using None by (simp add: store_accepted)
    have "content (mem v) \<in> {content (mem s), (content (mem s))(mr_memory_id r \<mapsto> r)}"
      using memory_storage.store_effect [OF assms(1) ok, of "mem ?q"] on_storageD [OF kv] by simp
    moreover have "trail v = trail ?q" using on_storageD [OF kv] by simp
    ultimately show ?thesis
      using run assms(5) None kv ok by (auto simp: kernel_store_cases split: sum.splits if_splits)
  qed
qed

definition gw_demo :: "memory_record list \<Rightarrow> dict_storage mem_world" where
  "gw_demo rs = (mem_demo rs)\<lparr>perms := [(''a'', \<lparr>ps_agent_id = ''a'',
     ps_capabilities = {CapMemoryRetrieve, CapMemoryStore, CapMemoryForget}\<rparr>)]\<rparr>"

lemma gw_demo_authorized: "authorized (gw_demo rs) ''a'' c"
proof -
  have "agents (gw_demo rs) = agents comm_demo" by (simp add: gw_demo_def)
  then show ?thesis
    by (cases c) (simp_all add: authorized_def holds_capability_def gw_demo_def comm_demo_simps)
qed

definition demo_calls :: "mem_call list" where
  "demo_calls =
     [GwStore ''a'' (demo_record ''m'' WorkingMemory) ''op'',
      GwStore ''a'' ((demo_record ''p'' WorkingMemory)\<lparr>mr_validation_status := ValidationPending\<rparr>) ''op'',
      Consolidate (demo_record ''e'' EpisodicMemory) ''op'' ''a'',
      GwForget ''a'' ''m'' ''op'' None]"

lemma demo_calls_keep:
  "dict_content (mem (run (mem_exec dict_storage_ops) (gw_demo [])
     (TypedStore SemanticMemory (demo_record ''n'' SemanticMemory) # demo_calls))) ''n''
   = Some (demo_record ''n'' SemanticMemory)"
proof -
  let ?n = "demo_record ''n'' SemanticMemory"
  let ?t = "snd (mem_exec dict_storage_ops (TypedStore SemanticMemory ?n) (gw_demo []))"
  have n: "mr_memory_type ?n = SemanticMemory" "mr_memory_id ?n = ''n''" by (simp_all add: demo_record_def)
  have "store_refusal ?n = None" by (simp add: store_accepted demo_record_ok)
  then have "content_inv dict_content (\<lambda>c. c ''n'' = Some ?n) ?t"
    using dict_storage.store_ok [OF demo_record_ok] dict_storage.store_done [OF demo_record_ok] n
    by (simp add: semantic_store_def kernel_store_cases content_inv_def)
  moreover have "list_all (admits (\<lambda>c. c ''n'' = Some ?n)) demo_calls"
    unfolding demo_calls_def list.pred_inject
    by (intro conjI spares_admits) (simp_all add: n, simp_all add: consolidated_id_def demo_record_def no_policy_def)
  ultimately have "content_inv dict_content (\<lambda>c. c ''n'' = Some ?n) (run (mem_exec dict_storage_ops) ?t demo_calls)"
    by (intro mem_run_keeps [OF dict_storage.memory_storage_axioms])
  then show ?thesis by (simp add: content_inv_def)
qed

lemma demo_empty: "\<forall>k r. dict_content (mem (gw_demo [])) k = Some r \<longrightarrow> record_ok r \<and> mr_memory_id r = k"
  by (simp add: dict_content_def gw_demo_def)

theorem memory_contents_stay_valid_witness:
  "\<exists>r. dict_content (mem (run (mem_exec dict_storage_ops) (gw_demo [])
       (TypedStore SemanticMemory (demo_record ''n'' SemanticMemory) # demo_calls))) ''n'' = Some r
     \<and> mr_memory_id r = ''n'' \<and> mr_validation_status r = ValidationValidated"
  using memory_contents_stay_valid [OF dict_storage.memory_storage_axioms demo_empty demo_calls_keep] demo_calls_keep
  by blast

theorem gateway_store_audited_witness:
  "dict_content (mem (snd (gateway_store dict_storage_ops ''a'' (demo_record ''m'' WorkingMemory)
     ''op'' (gw_demo [])))) \<in>
   {dict_content (mem (gw_demo [])),
    (dict_content (mem (gw_demo [])))(mr_memory_id (demo_record ''m'' WorkingMemory)
      \<mapsto> demo_record ''m'' WorkingMemory)}"
  using gateway_store_audited [OF dict_storage.memory_storage_axioms gw_demo_authorized _ _
      prod.collapse [symmetric], of "''op''" "demo_record ''m'' WorkingMemory" "[]"]
  by (simp add: demo_record_def)

lemma authorized_on_storage:
  "on_storage a s = (r, t) \<Longrightarrow> authorized t aid c = authorized s aid c"
  using on_storageD [of a s r t] by (simp add: authorized_def holds_capability_def outside_memory_def)

lemma reliable_forget_working:
  assumes "reliable_storage st content" and "authorized s aid CapMemoryForget"
    and "opid \<noteq> []" and "k \<noteq> []" and "content (mem s) k = Some w"
    and "mr_memory_type w = WorkingMemory"
  shows "content (mem (snd (gateway_forget st aid k opid policy s))) k = None"
proof -
  let ?q = "event_logged MemoryForget AuditRequested AuditSuccess opid aid k s"
  have sto: "memory_storage st content" using assms(1) by (simp add: reliable_storage_def)
  have req: "forgetting_validate_required k opid aid = Inr ()"
    using assms authorized_nonempty by (auto simp: forgetting_required)
  obtain v where v: "on_storage (sto_retrieve st k) ?q = (Inr (Some w), v)"
    "content (mem v) = content (mem s)"
    using reliable_storage.retrieve_ok [OF assms(1), of k "mem ?q"] assms(5)
      memory_storage.retrieve_pure [OF sto, of k "mem ?q"]
    by (metis event_logged_mem on_storage_fst on_storage_mem prod.collapse)
  obtain d u where d: "on_storage (sto_delete st k) v = (d, u)"
    by (cases "on_storage (sto_delete st k) v")
  have "d = Inr True" "content (mem u) k = None"
    using on_storageD [OF d] reliable_storage.delete_ok [OF assms(1), of k "mem v"]
      reliable_storage.delete_done [OF assms(1), of k "mem v"] v(2) assms(5) by simp_all
  moreover have "permitted w policy False" using assms(6) by (simp add: permitted_iff)
  ultimately show ?thesis
    using forget_permitted [OF req v(1) _ d] gateway_forget_cases [OF assms(2-4) refl, of st policy]
    by simp
qed

text \<open>
  C18. The way around the policy. \<^verbatim>\<open>store\<close> writes over whatever is persisted under its
  identifier, without asking for the type of the record it replaces. So an agent that may store and
  forget can remove a procedural record with no explicit policy: it stores a working
  record under the same identifier and then forgets it.
\<close>

theorem store_then_forget_bypasses_policy:
  assumes "reliable_storage st content"
    and "authorized s aid CapMemoryStore" and "authorized s aid CapMemoryForget" and "opid \<noteq> []"
    and "content (mem s) k = Some x" and "mr_memory_type x = ProceduralMemory"
    and "record_ok w" and "mr_memory_id w = k" and "mr_memory_type w = WorkingMemory"
  shows "content (mem (run (mem_exec st) s [GwStore aid w opid, GwForget aid k opid None])) k = None"
proof -
  let ?q = "event_logged MemoryStore AuditRequested AuditSuccess opid aid (mr_memory_id w) s"
  have k: "mr_memory_id w \<noteq> []" using assms(7) by (simp add: record_ok_def)
  obtain v where v: "on_storage (sto_store st w) ?q = (Inr (), v)"
    using reliable_storage.store_ok [OF assms(1,7), of "mem ?q"]
    by (metis on_storage_fst prod.collapse)
  have c: "content (mem v) = (content (mem s))(mr_memory_id w \<mapsto> w)"
    using on_storageD [OF v] reliable_storage.store_done [OF assms(1,7), of "mem ?q"] by simp
  define t where "t = snd (gateway_store st aid w opid s)"
  have t: "t = event_logged MemoryStore AuditCompleted AuditSuccess opid aid (mr_memory_id w) v"
    using gateway_store_cases [OF assms(2,4) k refl, of st] v assms(7)
    by (simp add: t_def kernel_store_cases store_accepted [THEN iffD2])
  have "authorized t aid CapMemoryForget"
    using assms(3) authorized_on_storage [OF v] by (simp add: t)
  then have "content (mem (snd (gateway_forget st aid k opid None t))) k = None"
    by (rule reliable_forget_working [OF assms(1) _ assms(4)]) (use k assms c in \<open>simp_all add: t\<close>)
  then show ?thesis by (simp add: t_def)
qed

lemma gw_demo_procedural:
  "dict_content (mem (gw_demo [demo_record ''m'' ProceduralMemory])) ''m''
     = Some (demo_record ''m'' ProceduralMemory)"
  by (simp add: gw_demo_def dict_content_def demo_record_def)

theorem store_then_forget_bypasses_policy_witness:
  "dict_content (mem (run (mem_exec dict_storage_ops) (gw_demo [demo_record ''m'' ProceduralMemory])
     [GwStore ''a'' (demo_record ''m'' WorkingMemory) ''op'', GwForget ''a'' ''m'' ''op'' None])) ''m''
   = None"
  by (rule store_then_forget_bypasses_policy [OF dict_storage.reliable_storage_axioms
        gw_demo_authorized gw_demo_authorized _ gw_demo_procedural])
    (simp_all add: demo_record_def record_ok_def)

end
