(* ===== verification/Iso_Roundtrip.thy ===== *)
theory Iso_Roundtrip
  imports Iso_Time
begin

text \<open>
  \<^verbatim>\<open>fromisoformat\<close> reads back what \<^verbatim>\<open>isoformat\<close> writes, for every point in time a \<^verbatim>\<open>datetime\<close> can
  hold. The calendar part rests on the year formula, which is checked at both ends of each of the
  400 years of an era and is monotone in between.
\<close>

section \<open>Years and months\<close>

definition year_start :: "int \<Rightarrow> int" where
  "year_start y = 365 * y + y div 4 - y div 100"

definition year_of :: "int \<Rightarrow> int" where
  "year_of doe = (doe - doe div 1460 + doe div 36524 - doe div 146096) div 365"

definition year_end :: "int \<Rightarrow> int" where
  "year_end y = (if y = 399 then 146097 else year_start (y + 1))"

lemma years_checked:
  "list_all (\<lambda>y. year_of (year_start y) = y \<and> year_of (year_end y - 1) = y
     \<and> year_start y < year_end y \<and> year_end y - year_start y = (if is_leap (y + 1) then 366 else 365))
     (map int [0..<400])"
  by code_simp

lemma div_step: "x \<le> y \<Longrightarrow> 0 < k \<Longrightarrow> y div k - x div k \<le> y - (x::int)"
proof -
  assume "x \<le> y" "0 < k"
  have "y div k \<le> (x + k * (y - x)) div k"
    using \<open>x \<le> y\<close> \<open>0 < k\<close> mult_right_mono [of 1 k "y - x"] by (intro zdiv_mono1) auto
  also have "\<dots> = x div k + (y - x)"
    using \<open>0 < k\<close> by simp
  finally show ?thesis by simp
qed

lemma year_of_mono:
  assumes "0 \<le> x" and "x \<le> y" and "y < 146096"
  shows "year_of x \<le> year_of y"
proof -
  have "x div 146096 = 0" "y div 146096 = 0" using assms by auto
  moreover have "x div 36524 \<le> y div 36524" using assms by (intro zdiv_mono1) auto
  moreover have "y div 1460 - x div 1460 \<le> y - x" using assms by (intro div_step) auto
  ultimately have "x - x div 1460 + x div 36524 - x div 146096 \<le> y - y div 1460 + y div 36524 - y div 146096"
    by linarith
  then show ?thesis unfolding year_of_def by (rule zdiv_mono1) simp
qed

lemma year_cover:
  assumes "0 \<le> doe" and "doe < year_end (int n)" and "n < 400"
  shows "\<exists>y\<ge>0. y \<le> int n \<and> year_start y \<le> doe \<and> doe < year_end y"
  using assms(2,3)
proof (induction n)
  case 0
  then show ?case using assms(1) by (auto simp: year_start_def)
next
  case (Suc n)
  show ?case
  proof (cases "doe < year_end (int n)")
    case True
    with Suc show ?thesis by force
  next
    case False
    then have "year_start (int (Suc n)) \<le> doe"
      using Suc.prems by (simp add: year_end_def algebra_simps)
    with Suc.prems show ?thesis by (intro exI [of _ "int (Suc n)"]) auto
  qed
qed

lemma year_start_le: "y \<le> 399 \<Longrightarrow> 0 \<le> y \<Longrightarrow> year_start y \<le> 145734"
  using zdiv_mono1 [of y 399 4] by (auto simp: year_start_def)

lemma year_of_bounds:
  assumes "0 \<le> doe" and "doe < 146097"
  shows "0 \<le> year_of doe \<and> year_of doe < 400 \<and> 0 \<le> doe - year_start (year_of doe)
    \<and> doe - year_start (year_of doe) < (if is_leap (year_of doe + 1) then 366 else 365)"
proof -
  obtain y where y: "0 \<le> y" "y \<le> 399" "year_start y \<le> doe" "doe < year_end y"
    using year_cover [of doe 399] assms by (auto simp: year_end_def)
  have "y = int (nat y)" using y by simp
  moreover have "nat y \<in> set [0..<400]" using y by auto
  ultimately have "y \<in> set (map int [0..<400])" by (metis image_eqI list.set_map)
  then have c: "year_of (year_start y) = y" "year_of (year_end y - 1) = y"
    "year_end y - year_start y = (if is_leap (y + 1) then 366 else 365)"
    using years_checked unfolding list_all_iff by blast+
  have start: "0 \<le> year_start y" using y by (simp add: year_start_def)
  have "year_of doe = y"
  proof (cases "doe = 146096")
    case True
    have "y = 399"
      using y True year_start_le [of "y + 1"] by (cases "y = 399") (auto simp: year_end_def)
    with True show ?thesis by (simp add: year_of_def)
  next
    case False
    then have le: "doe < 146096" using assms by simp
    have "y \<le> year_of doe"
      using year_of_mono [OF start y(3) le] c by simp
    moreover have "year_of doe \<le> y"
    proof (cases "y = 399")
      case True
      have "year_of doe \<le> year_of 146095" using assms le by (intro year_of_mono) auto
      then show ?thesis by (simp add: True year_of_def)
    next
      case False
      then have "year_end y - 1 < 146096"
        using y year_start_le [of "y + 1"] by (auto simp: year_end_def)
      then show ?thesis using year_of_mono [of doe "year_end y - 1"] y assms c by simp
    qed
    ultimately show ?thesis by simp
  qed
  with y c show ?thesis by (auto split: if_splits)
qed

lemma month_checked:
  "list_all (\<lambda>doy. let mp = (5 * doy + 2) div 153; m = (if mp < 10 then mp + 3 else mp - 9);
       d = doy - (153 * mp + 2) div 5 + 1 in
     0 \<le> mp \<and> mp \<le> 11 \<and> (m + 9) mod 12 = mp \<and> 1 \<le> m \<and> m \<le> 12 \<and> (m \<le> 2 \<longleftrightarrow> 10 \<le> mp)
     \<and> 1 \<le> d \<and> d \<le> (if m = 2 then (if doy = 365 then 29 else 28)
                    else if m \<in> {4, 6, 9, 11} then 30 else 31))
   (map int [0..<366])"
  by code_simp

lemma month_bounds:
  assumes "0 \<le> (doy :: int)" and "doy < 366" and "mp = (5 * doy + 2) div 153"
    and "m = (if mp < 10 then mp + 3 else mp - 9)" and "d = doy - (153 * mp + 2) div 5 + 1"
  shows "0 \<le> mp \<and> mp \<le> 11 \<and> (m + 9) mod 12 = mp \<and> 1 \<le> m \<and> m \<le> 12 \<and> (m \<le> 2 \<longleftrightarrow> 10 \<le> mp)
     \<and> 1 \<le> d \<and> d \<le> (if m = 2 then (if doy = 365 then 29 else 28)
                    else if m \<in> {4, 6, 9, 11} then 30 else 31)"
proof -
  have "doy = int (nat doy)" using assms by simp
  moreover have "nat doy \<in> set [0..<366]" using assms by auto
  ultimately have "doy \<in> set (map int [0..<366])" by (metis image_eqI list.set_map)
  then show ?thesis
    using month_checked unfolding list_all_iff Let_def assms(3-5) by blast
qed

lemma is_leap_era: "is_leap (y + era * 400) = is_leap y"
proof -
  have "(y + era * 100 * 4) mod 4 = y mod 4" "(y + era * 4 * 100) mod 100 = y mod 100"
    "(y + era * 400) mod 400 = y mod 400"
    by (rule mod_mult_self1)+
  then show ?thesis by (simp add: is_leap_def mult.assoc)
qed

text \<open>The civil date of a day is a real date, and determines the day.\<close>

lemma civil_parts:
  assumes "civil day = (y, m, d)"
  obtains era yoe doy where "day = era * 146097 + year_start yoe + doy - 719468"
    and "0 \<le> yoe" and "yoe < 400" and "0 \<le> doy"
    and "doy < (if is_leap (yoe + 1) then 366 else 365)"
    and "year_start yoe + doy < 146097"
    and "m = (if (5 * doy + 2) div 153 < 10 then (5 * doy + 2) div 153 + 3 else (5 * doy + 2) div 153 - 9)"
    and "d = doy - (153 * ((5 * doy + 2) div 153) + 2) div 5 + 1"
    and "y = yoe + era * 400 + (if m \<le> 2 then 1 else 0)"
proof -
  define z where "z = day + 719468"
  define era doe where "era = z div 146097" and "doe = z mod 146097"
  define yoe where "yoe = year_of doe"
  define doy where "doy = doe - year_start yoe"
  define mp where "mp = (5 * doy + 2) div 153"
  have "civil day = (yoe + era * 400 + (if (if mp < 10 then mp + 3 else mp - 9) \<le> 2 then 1 else 0),
      if mp < 10 then mp + 3 else mp - 9, doy - (153 * mp + 2) div 5 + 1)"
    by (simp only: civil_def Let_def mp_def doy_def yoe_def era_def doe_def z_def
        year_of_def year_start_def)
  then have e: "m = (if mp < 10 then mp + 3 else mp - 9)" "d = doy - (153 * mp + 2) div 5 + 1"
    "y = yoe + era * 400 + (if m \<le> 2 then 1 else 0)"
    unfolding assms by (simp_all only: prod.inject)
  have doe: "0 \<le> doe" "doe < 146097" by (simp_all add: doe_def)
  have "era * 146097 + doe = z" by (simp add: era_def doe_def)
  then have "day = era * 146097 + year_start yoe + doy - 719468" by (simp add: doy_def z_def)
  with year_of_bounds [OF doe] e doe show ?thesis
    by (intro that [of era yoe doy]) (simp_all add: yoe_def doy_def mp_def)
qed

lemma civil_date:
  assumes "civil day = (y, m, d)"
  shows "days_of_civil y m d = day \<and> 1 \<le> m \<and> m \<le> 12 \<and> 1 \<le> d \<and> d \<le> days_in_month y m"
proof -
  obtain era yoe doy where day: "day = era * 146097 + year_start yoe + doy - 719468"
    and yb: "0 \<le> yoe" "yoe < 400" "0 \<le> doy" "doy < (if is_leap (yoe + 1) then 366 else 365)"
    and m: "m = (if (5 * doy + 2) div 153 < 10 then (5 * doy + 2) div 153 + 3 else (5 * doy + 2) div 153 - 9)"
    and d: "d = doy - (153 * ((5 * doy + 2) div 153) + 2) div 5 + 1"
    and y: "y = yoe + era * 400 + (if m \<le> 2 then 1 else 0)"
    by (rule civil_parts [OF assms])
  have "doy < 366" using yb(4) by (simp split: if_splits)
  from month_bounds [OF yb(3) this refl m d] have mb:
    "(m + 9) mod 12 = (5 * doy + 2) div 153" "1 \<le> m" "m \<le> 12" "1 \<le> d"
    "d \<le> (if m = 2 then (if doy = 365 then 29 else 28) else if m \<in> {4, 6, 9, 11} then 30 else 31)"
    by (simp_all only: simp_thms)
  have y': "(if m \<le> 2 then y - 1 else y) = yoe + era * 400" using y by simp
  have "(yoe + era * 400) div 400 = era" "(yoe + era * 400) mod 400 = yoe"
    using yb by simp_all
  then have "days_of_civil y m d = day"
    unfolding days_of_civil_def Let_def y' mb(1) using d by (simp add: day year_start_def)
  moreover have "d \<le> days_in_month y m"
  proof (cases "m = 2 \<and> doy = 365")
    case True
    then have "is_leap (yoe + 1)" using yb(4) by (simp split: if_splits)
    then have "is_leap (yoe + 1 + era * 400)" by (simp only: is_leap_era)
    moreover have "yoe + 1 + era * 400 = y" using y True by simp
    ultimately show ?thesis using True mb(5) by (simp add: days_in_month_def)
  next
    case False
    with mb(5) show ?thesis by (auto simp: days_in_month_def split: if_splits)
  qed
  ultimately show ?thesis using mb by simp
qed

lemma civil_year:
  assumes "civil day = (y, m, d)" and "-719162 \<le> day" and "day \<le> 2932896"
  shows "1 \<le> y \<and> y \<le> 9999"
proof -
  obtain era yoe doy where day: "day = era * 146097 + year_start yoe + doy - 719468"
    and yb: "0 \<le> yoe" "yoe < 400" "0 \<le> doy" "doy < (if is_leap (yoe + 1) then 366 else 365)"
      "year_start yoe + doy < 146097"
    and m: "m = (if (5 * doy + 2) div 153 < 10 then (5 * doy + 2) div 153 + 3 else (5 * doy + 2) div 153 - 9)"
    and y: "y = yoe + era * 400 + (if m \<le> 2 then 1 else 0)"
    by (rule civil_parts [OF assms(1)]) blast
  have start: "0 \<le> year_start yoe" using yb by (simp add: year_start_def)
  have "0 \<le> era" using day assms(2) yb start by linarith
  have "era \<le> 24" using day assms(3) yb start by linarith
  have "doy < 366" using yb(4) by (simp split: if_splits)
  then have mp: "(5 * doy + 2) div 153 \<le> 11" using zdiv_mono1 [of "5 * doy + 2" 1830 153] by simp
  have "1 \<le> y"
  proof (cases "era = 0 \<and> yoe = 0")
    case True
    then have "306 \<le> doy" using day assms(2) by (simp add: year_start_def)
    then have "10 \<le> (5 * doy + 2) div 153" using zdiv_mono1 [of 1530 "5 * doy + 2" 153] by simp
    then have "m \<le> 2" using mp m by simp
    then show ?thesis using y True by simp
  next
    case False
    then show ?thesis using y yb \<open>0 \<le> era\<close> by auto
  qed
  moreover have "y \<le> 9999"
  proof (cases "era = 24 \<and> yoe = 399")
    case True
    then have "doy \<le> 305" using day assms(3) by (simp add: year_start_def)
    then have "(5 * doy + 2) div 153 < 10" using zdiv_mono1 [of "5 * doy + 2" 1527 153] by simp
    moreover have "0 \<le> (5 * doy + 2) div 153" using yb(3) by (intro pos_imp_zdiv_nonneg_iff [THEN iffD2]) auto
    ultimately have "\<not> m \<le> 2" using m by simp
    then show ?thesis using y True by simp
  next
    case False
    then have "yoe + era * 400 \<le> 9998" using yb(2) \<open>era \<le> 24\<close> by auto
    then show ?thesis using y by simp
  qed
  ultimately show ?thesis by simp
qed

section \<open>Digits\<close>

lemma read_padded:
  "0 \<le> n \<Longrightarrow> n < 10 ^ w \<Longrightarrow> read_digits w (padded w n @ rest) = Some (n, rest)"
  by (simp add: read_digits_def digits_value_padded)

section \<open>Round trip\<close>

lemma digit_not:
  "is_digit c \<Longrightarrow> c \<noteq> CHR ''-'' \<and> c \<noteq> CHR ''+'' \<and> c \<noteq> CHR ''W'' \<and> c \<noteq> CHR '':'' \<and> c \<noteq> CHR ''.''"
  by (auto simp: is_digit_def)

lemma padded_chars: "c \<in> set (padded w n) \<Longrightarrow> is_digit c"
  using padded_digits [of w n] by (simp add: list_all_iff)

lemma hd_padded: "0 < w \<Longrightarrow> padded w n \<noteq> [] \<and> is_digit (hd (padded w n))"
  using length_padded [of w n] padded_chars [of "hd (padded w n)" w n]
  by (metis hd_in_set length_greater_0_conv)

lemma find_separator_iso:
  assumes "length a = 4" and "x \<noteq> []" and "hd x \<noteq> CHR ''W''" and "2 < length x"
  shows "find_separator (a @ CHR ''-'' # x) = Some 10"
  using assms
  by (cases x) (auto simp: find_separator_def char_at_def nth_append)

lemma read_date_iso:
  assumes "0 \<le> y" "y < 10 ^ 4" "0 \<le> m" "m < 10 ^ 2" "0 \<le> d" "d < 10 ^ 2"
  shows "read_date (padded 4 y @ CHR ''-'' # padded 2 m @ CHR ''-'' # padded 2 d) = checked_date y m d"
proof -
  have d': "read_digits 2 (padded 2 d) = Some (d, [])"
    using read_padded [of d 2 "[]"] assms by simp
  have "hd (padded 2 m) \<noteq> CHR ''W''" using hd_padded [of 2 m] digit_not by auto
  moreover have "padded 2 m \<noteq> []" using hd_padded [of 2 m] by auto
  ultimately show ?thesis
    using assms by (simp add: read_date_def read_padded read_dash_def d' Let_def)
qed

definition clock_text :: "int \<Rightarrow> int \<Rightarrow> int \<Rightarrow> int \<Rightarrow> string" where
  "clock_text h mi sec us = padded 2 h @ CHR '':'' # padded 2 mi @ CHR '':'' # padded 2 sec
     @ (if us = 0 then [] else CHR ''.'' # padded 6 us)"

lemma read_comps_two: "read_comps 2 = read_comps (Suc (Suc 0))"
  by (simp add: numeral_2_eq_2)

lemma read_clock_iso:
  assumes "0 \<le> h" "h < 10 ^ 2" "0 \<le> mi" "mi < 10 ^ 2" "0 \<le> sec" "sec < 10 ^ 2"
    and "0 \<le> us" "us < 10 ^ 6"
  shows "read_clock (clock_text h mi sec us) = Some (h, mi, sec, us)"
proof -
  have "padded 6 us \<noteq> []" using hd_padded [of 6 us] by simp
  then have "read_rest (if us = 0 then [] else CHR ''.'' # padded 6 us) = Some us"
    using assms digits_value_padded [of us 6] by (auto simp: read_fraction_def)
  then show ?thesis
    using assms by (simp add: read_clock_def clock_text_def read_padded read_comps_two)
qed

lemma clock_text_chars:
  "CHR ''-'' \<notin> set (clock_text h mi sec us)" "CHR ''+'' \<notin> set (clock_text h mi sec us)"
  using padded_chars digit_not by (auto simp: clock_text_def split: if_splits)

lemma read_time_iso:
  assumes "0 \<le> h" "h \<le> 23" "0 \<le> mi" "mi < 60" "0 \<le> sec" "sec < 60"
    and "0 \<le> us" "us < 10 ^ 6"
  shows "read_time (clock_text h mi sec us @ ''+00:00'') = Some (micros (h, mi, sec, us), Some 0)"
proof -
  let ?c = "clock_text h mi sec us"
  have minus: "split_at CHR ''-'' (?c @ ''+00:00'') = None"
    using clock_text_chars(1) [of h mi sec us] by (simp add: split_at_def)
  have "\<forall>x \<in> set ?c. x \<noteq> CHR ''+''" using clock_text_chars(2) [of h mi sec us] by auto
  then have "takeWhile (\<lambda>x. x \<noteq> CHR ''+'') (?c @ ''+00:00'') = ?c"
    "dropWhile (\<lambda>x. x \<noteq> CHR ''+'') (?c @ ''+00:00'') = ''+00:00''"
    by (simp_all add: takeWhile_append2 dropWhile_append2)
  then have plus: "split_at CHR ''+'' (?c @ ''+00:00'') = Some (?c, ''00:00'')"
    by (simp add: split_at_def)
  have "read_offset 1 ''00:00'' = Some 0" by code_simp
  moreover have "Option.bind (read_clock ?c) checked_clock = Some (micros (h, mi, sec, us))"
    using assms by (simp add: read_clock_iso checked_clock_def)
  ultimately show ?thesis
    by (simp add: read_time_def Let_def minus plus)
qed

lemma isoformat_shape:
  assumes "civil (micros_of t div 86400000000) = (y, m, d)"
  shows "isoformat t = padded 4 y @ CHR ''-'' # padded 2 m @ CHR ''-'' # padded 2 d @ CHR ''T''
    # clock_text (micros_of t mod 86400000000 div 1000000 div 3600)
        (micros_of t mod 86400000000 div 1000000 div 60 mod 60)
        (micros_of t mod 86400000000 div 1000000 mod 60) (micros_of t mod 86400000000 mod 1000000)
    @ ''+00:00''"
  using assms by (simp add: isoformat_def clock_text_def Let_def)

lemma micros_of_parts:
  "micros (n div 1000000 div 3600, n div 1000000 div 60 mod 60, n div 1000000 mod 60, n mod 1000000) = n"
proof -
  have "n div 1000000 div 3600 = n div 1000000 div 60 div 60"
    by (simp add: zdiv_zmult2_eq [symmetric])
  then show ?thesis
    unfolding micros_def prod.case by (simp only: div_mult_mod_eq)
qed

text \<open>What \<^verbatim>\<open>isoformat\<close> writes, \<^verbatim>\<open>fromisoformat\<close> reads back.\<close>

lemma from_isoformat_isoformat: "from_isoformat_utc (isoformat t) = Some (micros_of t)"
proof -
  define day where "day = micros_of t div 86400000000"
  define tod where "tod = micros_of t mod 86400000000"
  obtain y m d where c: "civil day = (y, m, d)" by (cases "civil day")
  have day: "-719162 \<le> day" "day \<le> 2932896"
    using zdiv_mono1 [OF micros_of_range(1) [of t], of 86400000000]
      zdiv_mono1 [OF micros_of_range(2) [of t], of 86400000000]
    by (simp_all add: day_def first_micro_def last_micro_def)
  note date = civil_date [OF c] civil_year [OF c day]
  have m31: "days_in_month y m \<le> 31" by (simp add: days_in_month_def)
  have checked: "checked_date y m d = Some day"
    using date by (simp add: checked_date_def)
  let ?date = "padded 4 y @ CHR ''-'' # padded 2 m @ CHR ''-'' # padded 2 d"
  let ?clock = "clock_text (tod div 1000000 div 3600) (tod div 1000000 div 60 mod 60)
    (tod div 1000000 mod 60) (tod mod 1000000)"
  have tod: "0 \<le> tod" "tod < 86400000000" by (simp_all add: tod_def)
  then have "tod div 1000000 \<le> 86399" using zdiv_mono1 [of tod 86399999999 1000000] by simp
  then have h: "tod div 1000000 div 3600 \<le> 23" "0 \<le> tod div 1000000"
    using zdiv_mono1 [of "tod div 1000000" 86399 3600] tod by (simp_all add: pos_imp_zdiv_nonneg_iff)
  have iso: "isoformat t = ?date @ CHR ''T'' # ?clock @ ''+00:00''"
    using isoformat_shape [of t y m d] c by (simp add: day_def tod_def)
  have len: "length ?date = 10" by simp
  have find: "find_separator (isoformat t) = Some 10"
  proof -
    have "hd (padded 2 m @ CHR ''-'' # padded 2 d @ CHR ''T'' # ?clock @ ''+00:00'') \<noteq> CHR ''W''"
      using hd_padded [of 2 m] digit_not by (auto simp: hd_append)
    then show ?thesis unfolding iso by (simp add: find_separator_iso)
  qed
  have "take 10 (isoformat t) = ?date" "drop (Suc 10) (isoformat t) = ?clock @ ''+00:00''"
    unfolding iso using len by (simp_all del: length_append)
  moreover have "read_date ?date = Some day"
    using date m31 checked by (subst read_date_iso) auto
  moreover have "read_time (?clock @ ''+00:00'') = Some (tod, Some 0)"
  proof -
    have "micros (tod div 1000000 div 3600, tod div 1000000 div 60 mod 60,
        tod div 1000000 mod 60, tod mod 1000000) = tod"
      by (rule micros_of_parts)
    moreover have "0 \<le> tod div 1000000 div 3600" using h(2) by (simp add: pos_imp_zdiv_nonneg_iff)
    ultimately show ?thesis using h by (subst read_time_iso) auto
  qed
  moreover have "10 < length (isoformat t)" unfolding iso by simp
  moreover have "day * 86400000000 + tod = micros_of t" by (simp add: day_def tod_def)
  ultimately show ?thesis
    by (simp add: from_isoformat_utc_def find)
qed

end
