(* ===== verification/Float64.thy ===== *)
theory Float64
  imports Text
begin

text \<open>
  IEEE 754 double arithmetic, exactly: a finite double is the rational it denotes, and an operation
  is the rational operation followed by rounding to the nearest double, ties to even, with
  subnormals and overflow. The two zeros are one value.
\<close>

fun bitlen :: "nat \<Rightarrow> nat" where
  "bitlen n = (if n = 0 then 0 else Suc (bitlen (n div 2)))"

declare bitlen.simps [simp del]

definition pow2 :: "int \<Rightarrow> rat" where
  "pow2 e = (if 0 \<le> e then 2 ^ nat e else 1 / 2 ^ nat (- e))"

text \<open>The exponent of a positive rational: \<open>2^e \<le> q < 2^(e+1)\<close>.\<close>

definition binade :: "rat \<Rightarrow> int" where
  "binade q =
     (let (n, d) = quotient_of q; e = int (bitlen (nat n)) - int (bitlen (nat d))
      in if q < pow2 e then e - 1 else e)"

definition round_even :: "rat \<Rightarrow> int" where
  "round_even q =
     (let (n, d) = quotient_of q; f = n div d; r = 2 * (n mod d)
      in if r < d then f else if r > d then f + 1 else if even f then f else f + 1)"

definition to_double :: "rat \<Rightarrow> pyfloat" where
  "to_double q =
     (if q = 0 then Fin 0
      else let u = pow2 (max (binade \<bar>q\<bar>) (-1022) - 52); r = of_int (round_even (\<bar>q\<bar> / u)) * u
        in if pow2 1024 \<le> r then (if q < 0 then NegInf else PosInf)
           else Fin (if q < 0 then - r else r))"

definition is_double :: "rat \<Rightarrow> bool" where
  "is_double q \<longleftrightarrow> to_double q = Fin q"

text \<open>Sum and product of finite floats; the components compute with no others.\<close>

fun float_add :: "pyfloat \<Rightarrow> pyfloat \<Rightarrow> pyfloat" where
  "float_add NaN y = NaN"
| "float_add x NaN = NaN"
| "float_add (Fin a) (Fin b) = to_double (a + b)"
| "float_add PosInf NegInf = NaN"
| "float_add NegInf PosInf = NaN"
| "float_add PosInf y = PosInf"
| "float_add x PosInf = PosInf"
| "float_add NegInf y = NegInf"
| "float_add x NegInf = NegInf"

definition fsgn :: "pyfloat \<Rightarrow> int" where
  "fsgn x = (case x of Fin a \<Rightarrow> (if a < 0 then -1 else if a = 0 then 0 else 1)
     | PosInf \<Rightarrow> 1 | NegInf \<Rightarrow> -1 | NaN \<Rightarrow> 0)"

definition float_mult :: "pyfloat \<Rightarrow> pyfloat \<Rightarrow> pyfloat" where
  "float_mult x y =
     (case (x, y) of
        (Fin a, Fin b) \<Rightarrow> to_double (a * b)
      | _ \<Rightarrow> (if fsgn x * fsgn y = 0 then NaN else if fsgn x * fsgn y < 0 then NegInf else PosInf))"

text \<open>A double is a dyadic rational.\<close>

lemma pow2_dyadic: "\<exists>k. pow2 e * 2 ^ k \<in> \<int>"
proof (cases "0 \<le> e")
  case True
  then show ?thesis by (intro exI [of _ 0]) (simp add: pow2_def)
next
  case False
  then show ?thesis by (intro exI [of _ "nat (- e)"]) (simp add: pow2_def)
qed

lemma double_dyadic: "is_double q \<Longrightarrow> \<exists>k. q * 2 ^ k \<in> \<int>"
proof -
  assume "is_double q"
  show ?thesis
  proof (cases "q = 0")
    case False
    define u where "u = pow2 (max (binade \<bar>q\<bar>) (-1022) - 52)"
    define m where "m = round_even (\<bar>q\<bar> / u)"
    have "q = (if q < 0 then - (of_int m * u) else of_int m * u)"
      using False \<open>is_double q\<close> unfolding is_double_def to_double_def
      by (simp only: Let_def if_False flip: u_def m_def split: if_splits) auto
    moreover obtain k where "u * 2 ^ k \<in> \<int>" using pow2_dyadic u_def by blast
    then have "of_int m * u * 2 ^ k \<in> \<int>" by (metis Ints_mult Ints_of_int mult.assoc)
    ultimately have "q * 2 ^ k \<in> \<int>" by (metis Ints_minus mult_minus_left)
    then show ?thesis by blast
  qed simp
qed

section \<open>Results from scaled integers\<close>

lemma pow2_powi: "pow2 e = 2 powi e"
  by (simp add: pow2_def power_int_def field_simps)

lemma bitlen_bounds: "0 < n \<Longrightarrow> 2 ^ (bitlen n - 1) \<le> n \<and> n < 2 ^ bitlen n \<and> 0 < bitlen n"
proof (induction n rule: bitlen.induct)
  case (1 n)
  show ?case
  proof (cases "n div 2 = 0")
    case True
    with 1(2) have "n = 1" by linarith
    moreover have "bitlen 1 = 1" by code_simp
    ultimately show ?thesis by simp
  next
    case False
    then have "2 ^ (bitlen (n div 2) - 1) \<le> n div 2" "n div 2 < 2 ^ bitlen (n div 2)" "0 < bitlen (n div 2)"
      using 1 by auto
    moreover obtain k where "bitlen (n div 2) = Suc k" using calculation(3) by (cases "bitlen (n div 2)") auto
    moreover have "bitlen n = Suc (bitlen (n div 2))" using 1(2) by (subst bitlen.simps) simp
    ultimately show ?thesis by auto
  qed
qed

lemma powi_less: "(2 :: rat) powi a < 2 powi b \<Longrightarrow> a < b"
  by (meson linorder_not_less one_le_numeral power_int_increasing)

lemma binade_unique:
  assumes "0 < q" and "2 powi e \<le> q" and "q < 2 powi (e + 1)"
  shows "binade q = e"
proof -
  obtain n d where nd: "quotient_of q = (n, d)" by fastforce
  have d: "0 < d" and q: "q = of_int n / of_int d"
    using nd by (auto dest: quotient_of_denom_pos quotient_of_div)
  then have n: "0 < n" using assms(1) by (simp add: zero_less_divide_iff)
  define B D where "B = bitlen (nat n)" and "D = bitlen (nat d)"
  define e0 where "e0 = int B - int D"
  have bounds: "2 powi (int B - 1) \<le> (of_int n :: rat) \<and> (of_int n :: rat) < 2 powi int B"
    if "0 < n" "B = bitlen (nat n)" for n B
  proof -
    have "2 ^ (B - 1) \<le> nat n" "nat n < 2 ^ B" "0 < B" using bitlen_bounds [of "nat n"] that by auto
    then have "2 ^ (B - 1) \<le> n" "n < 2 ^ B" using that(1) by (simp_all add: nat_le_iff le_nat_iff nat_less_iff)
    then have "(of_int (2 ^ (B - 1)) :: rat) \<le> of_int n" "(of_int n :: rat) < of_int (2 ^ B)"
      unfolding of_int_le_iff of_int_less_iff by simp_all
    moreover have "int B - 1 = int (B - 1)" using \<open>0 < B\<close> by simp
    ultimately show ?thesis by (simp only: power_int_of_nat of_int_power of_int_numeral)
  qed
  note bn = bounds [OF n B_def] and bd = bounds [OF d D_def]
  have dpos: "0 < (of_int d :: rat)" using d by simp
  have "q < 2 powi int B / 2 powi (int D - 1)"
    unfolding q using bn bd n by (intro frac_less) auto
  then have up: "q < 2 powi (e0 + 1)" by (simp add: e0_def power_int_diff power_int_add)
  have "2 powi (int B - 1) / 2 powi int D < q"
    unfolding q using bn bd dpos n by (intro frac_less2) auto
  then have lo: "2 powi (e0 - 1) < q" by (simp add: e0_def power_int_diff power_int_add)
  have b: "binade q = (if q < 2 powi e0 then e0 - 1 else e0)"
    by (simp add: binade_def nd B_def [symmetric] D_def [symmetric] e0_def [symmetric] pow2_powi Let_def)
  show ?thesis
  proof (cases "q < 2 powi e0")
    case True
    then have "e < e0" "e0 - 1 < e + 1" using powi_less assms(2,3) lo by (meson le_less_trans less_trans)+
    then show ?thesis using b True by simp
  next
    case False
    then have "e0 < e + 1" "e < e0 + 1" using powi_less assms(2,3) up by (meson le_less_trans not_less)+
    then show ?thesis using b False by simp
  qed
qed

text \<open>\<open>m\<close> is nearest to \<open>q\<close>, or the even one of two.\<close>

definition near :: "rat \<Rightarrow> int \<Rightarrow> bool" where
  "near q m \<longleftrightarrow> \<bar>q - of_int m\<bar> < 1 / 2 \<or> \<bar>q - of_int m\<bar> = 1 / 2 \<and> even m"

lemma round_even_near:
  assumes "near q m"
  shows "round_even q = m"
proof -
  obtain n d where nd: "quotient_of q = (n, d)" by fastforce
  have d: "0 < d" and q: "q = of_int n / of_int d"
    using nd by (auto dest: quotient_of_denom_pos quotient_of_div)
  have fl: "n div d = floor q" unfolding q by (simp add: floor_divide_of_int_eq)
  have "of_int n = of_int (n div d) * of_int d + (of_int (n mod d) :: rat)"
    by (metis div_mult_mod_eq of_int_add of_int_mult)
  then have fr: "of_int (n mod d) = (q - of_int (n div d)) * of_int d"
    using d unfolding q by (simp add: field_simps)
  have lt: "2 * (n mod d) < d \<longleftrightarrow> q - of_int (n div d) < 1 / 2"
  proof -
    have "2 * (n mod d) < d \<longleftrightarrow> (of_int (2 * (n mod d)) :: rat) < of_int d" by (rule of_int_less_iff [symmetric])
    also have "... \<longleftrightarrow> 2 * ((q - of_int (n div d)) * of_int d) < of_int d" by (simp add: fr)
    also have "... \<longleftrightarrow> (2 * (q - of_int (n div d))) * of_int d < 1 * of_int d" by (simp only: mult.assoc mult_1)
    also have "... \<longleftrightarrow> 2 * (q - of_int (n div d)) < 1" using d by (subst mult_less_cancel_right_pos) simp_all
    also have "... \<longleftrightarrow> q - of_int (n div d) < 1 / 2" by (simp add: field_simps)
    finally show ?thesis .
  qed
  have ne: "2 * (n mod d) = d \<longleftrightarrow> q - of_int (n div d) = 1 / 2"
  proof -
    have "2 * (n mod d) = d \<longleftrightarrow> (of_int (2 * (n mod d)) :: rat) = of_int d" by (rule of_int_eq_iff [symmetric])
    also have "... \<longleftrightarrow> 2 * ((q - of_int (n div d)) * of_int d) = of_int d" by (simp add: fr)
    also have "... \<longleftrightarrow> (2 * (q - of_int (n div d))) * of_int d = 1 * of_int d" by (simp only: mult.assoc mult_1)
    also have "... \<longleftrightarrow> 2 * (q - of_int (n div d)) = 1" using d by (subst mult_cancel_right) simp
    also have "... \<longleftrightarrow> q - of_int (n div d) = 1 / 2" by (simp add: field_simps)
    finally show ?thesis .
  qed
  show ?thesis
  proof (cases "of_int m \<le> q")
    case True
    then have f: "floor q = m" and h: "q - of_int m < 1 / 2 \<or> q - of_int m = 1 / 2 \<and> even m"
      using assms by (auto simp: near_def abs_if floor_eq_iff split: if_splits)
    then show ?thesis using lt ne unfolding fl f by (auto simp: round_even_def nd fl f Let_def)
  next
    case False
    then have f: "floor q = m - 1" and h: "1 / 2 < q - of_int (m - 1) \<or> q - of_int (m - 1) = 1 / 2 \<and> odd (m - 1)"
      using assms by (auto simp: near_def abs_if floor_eq_iff split: if_splits)
    then show ?thesis using lt ne unfolding fl f by (auto simp: round_even_def nd fl f Let_def)
  qed
qed

lemma to_double_scaled:
  assumes "2 ^ 52 \<le> q * 2 ^ k" and "q * 2 ^ k < 2 ^ 53" and "near (q * 2 ^ k) m" and "k \<le> 1074"
  shows "to_double q = Fin (of_int m / 2 ^ k)"
proof -
  have q: "0 < q" using assms(1) by (metis less_le_trans zero_less_numeral zero_less_power zero_less_mult_pos2)
  have "2 powi (52 - int k) \<le> q" "q < 2 powi (52 - int k + 1)"
    using assms(1,2) by (simp_all add: power_int_diff power_int_add divide_le_eq less_divide_eq)
  then have b: "binade q = 52 - int k" by (rule binade_unique [OF q])
  have u: "pow2 (max (binade \<bar>q\<bar>) (-1022) - 52) = 1 / 2 ^ k"
    using q assms(4) by (simp add: b pow2_def)
  have m: "round_even (q * 2 ^ k) = m" by (rule round_even_near [OF assms(3)])
  have "of_int m < q * 2 ^ k + 1" using assms(3) by (auto simp: near_def abs_if split: if_splits)
  also have "... < 2 ^ 53 + 1" using assms(2) by simp
  finally have "(of_int m :: rat) < 2 ^ 1024" by (rule less_le_trans) simp
  moreover have "(of_int m :: rat) / 2 ^ k \<le> of_int m"
  proof -
    have "0 \<le> (of_int m :: rat)" using assms(1,3) by (auto simp: near_def abs_if split: if_splits)
    moreover have "(1 :: rat) \<le> 2 ^ k" by simp
    ultimately show ?thesis by (simp add: divide_le_eq mult_left_le_one_le mult_le_cancel_left1)
  qed
  ultimately have "\<not> pow2 1024 \<le> of_int m / 2 ^ k" by (simp add: pow2_def)
  moreover have "\<bar>q\<bar> / (1 / 2 ^ k) = q * 2 ^ k" using q by simp
  ultimately show ?thesis using q by (simp only: to_double_def u m Let_def) simp
qed

end
