(* ===== verification/Json.thy ===== *)
theory Json
  imports Float64
begin

text \<open>
  \<^verbatim>\<open>json.dumps\<close> and \<^verbatim>\<open>json.loads\<close> on the values of the model. The printer follows
  \<^verbatim>\<open>json.encoder\<close> (escapes, separators, \<^verbatim>\<open>sort_keys\<close>, \<^verbatim>\<open>ensure_ascii\<close>), the parser \<^verbatim>\<open>json.scanner\<close> and
  \<^verbatim>\<open>json.decoder\<close>. Only \<^verbatim>\<open>float.__repr__\<close>, which searches for the shortest text, is left as a
  parameter \<open>shown\<close>, with the law that its text is a float literal that reads back as the same
  double. An escape for a code point above 255 is not read.
\<close>

section \<open>Printing\<close>

definition json_char :: "bool \<Rightarrow> char \<Rightarrow> string" where
  "json_char ascii c =
     (let n = of_char c :: nat in
      if c = CHR 0x22 \<or> c = CHR 0x5C then [CHR 0x5C, c]
      else if n = 10 then [CHR 0x5C, CHR ''n'']
      else if n = 13 then [CHR 0x5C, CHR ''r'']
      else if n = 9 then [CHR 0x5C, CHR ''t'']
      else if n = 12 then [CHR 0x5C, CHR ''f'']
      else if n = 8 then [CHR 0x5C, CHR ''b'']
      else if n < 32 \<or> ascii \<and> 126 < n
      then [CHR 0x5C, CHR ''u'', CHR ''0'', CHR ''0'', hex_digit (n div 16), hex_digit n]
      else [c])"

definition json_string :: "bool \<Rightarrow> string \<Rightarrow> string" where
  "json_string ascii s = CHR 0x22 # concat (map (json_char ascii) s) @ [CHR 0x22]"

fun json_float :: "(rat \<Rightarrow> string) \<Rightarrow> pyfloat \<Rightarrow> string" where
  "json_float shown (Fin q) = shown q"
| "json_float shown NaN = ''NaN''"
| "json_float shown PosInf = ''Infinity''"
| "json_float shown NegInf = ''-Infinity''"

text \<open>\<open>gap\<close> is what follows a comma and a colon: nothing for \<^verbatim>\<open>separators=(",", ":")\<close>, a space by
  default.\<close>

fun json_text :: "(rat \<Rightarrow> string) \<Rightarrow> bool \<Rightarrow> string \<Rightarrow> pyval \<Rightarrow> string" where
  "json_text shown ascii gap PNone = ''null''"
| "json_text shown ascii gap (PBool b) = (if b then ''true'' else ''false'')"
| "json_text shown ascii gap (PInt i) = show_int i"
| "json_text shown ascii gap (PFloat x) = json_float shown x"
| "json_text shown ascii gap (PStr s) = json_string ascii s"
| "json_text shown ascii gap (PList vs) =
     ''['' @ join (CHR '','' # gap) (map (json_text shown ascii gap) vs) @ '']''"
| "json_text shown ascii gap (PDict d) =
     ''{'' @ join (CHR '','' # gap)
       (map (\<lambda>p. json_string ascii (fst p) @ CHR '':'' # gap @ json_text shown ascii gap (snd p)) d) @ ''}''"

text \<open>\<^verbatim>\<open>sort_keys=True\<close>.\<close>

fun sort_keys :: "pyval \<Rightarrow> pyval" where
  "sort_keys (PList vs) = PList (map sort_keys vs)"
| "sort_keys (PDict d) = PDict (sort_key fst (map (\<lambda>p. (fst p, sort_keys (snd p))) d))"
| "sort_keys v = v"

section \<open>Parsing\<close>

definition json_space :: "char \<Rightarrow> bool" where
  "json_space c \<longleftrightarrow> (let n = of_char c :: nat in n = 32 \<or> n = 9 \<or> n = 10 \<or> n = 13)"

definition skip :: "string \<Rightarrow> string" where
  "skip s = dropWhile json_space s"

definition hex_value :: "char \<Rightarrow> nat option" where
  "hex_value c = (let n = of_char c :: nat in
     if 48 \<le> n \<and> n \<le> 57 then Some (n - 48)
     else if 97 \<le> n \<and> n \<le> 102 then Some (n - 87)
     else if 65 \<le> n \<and> n \<le> 70 then Some (n - 55) else None)"

fun read_hex4 :: "string \<Rightarrow> (char \<times> string) option" where
  "read_hex4 (a # b # c # d # s) =
     (case (hex_value a, hex_value b, hex_value c, hex_value d) of
        (Some 0, Some 0, Some h, Some l) \<Rightarrow> Some (char_of (16 * h + l), s)
      | _ \<Rightarrow> None)"
| "read_hex4 s = None"

definition simple_escape :: "char \<Rightarrow> char option" where
  "simple_escape c =
     (if c = CHR 0x22 \<or> c = CHR 0x5C \<or> c = CHR ''/'' then Some c
      else if c = CHR ''b'' then Some (CHR 0x08) else if c = CHR ''f'' then Some (CHR 0x0C)
      else if c = CHR ''n'' then Some (CHR 0x0A) else if c = CHR ''r'' then Some (CHR 0x0D)
      else if c = CHR ''t'' then Some (CHR 0x09) else None)"

lemma read_hex4_length: "read_hex4 s = Some (c, r) \<Longrightarrow> length s = length r + 4"
  by (induction s rule: read_hex4.induct) (auto split: option.splits nat.splits)

text \<open>The rest of a string, after its opening quote.\<close>

function (sequential) scan_string :: "string \<Rightarrow> (string \<times> string) option" where
  "scan_string [] = None"
| "scan_string (c # s) =
     (if c = CHR 0x22 then Some ([], s)
      else if (of_char c :: nat) < 32 then None
      else if c \<noteq> CHR 0x5C then map_option (apfst (Cons c)) (scan_string s)
      else
        (case s of
           [] \<Rightarrow> None
         | e # s' \<Rightarrow>
             (if e = CHR ''u'' then
                (case read_hex4 s' of
                   None \<Rightarrow> None
                 | Some (x, r) \<Rightarrow> map_option (apfst (Cons x)) (scan_string r))
              else
                (case simple_escape e of
                   None \<Rightarrow> None
                 | Some x \<Rightarrow> map_option (apfst (Cons x)) (scan_string s')))))"
  by pat_completeness auto
termination by (relation "measure length") (auto dest: read_hex4_length)

definition span_digits :: "string \<Rightarrow> string \<times> string" where
  "span_digits s = (takeWhile is_digit s, dropWhile is_digit s)"

text \<open>The three groups of \<^verbatim>\<open>NUMBER_RE\<close>: integer, fraction and exponent.\<close>

definition scan_integer :: "string \<Rightarrow> (string \<times> string) option" where
  "scan_integer s =
     (case span_digits s of
        ([], r) \<Rightarrow> None
      | (d # ds, r) \<Rightarrow> if d = CHR ''0'' then Some ([d], ds @ r) else Some (d # ds, r))"

definition scan_fraction :: "string \<Rightarrow> string option \<times> string" where
  "scan_fraction s =
     (case s of
        c # r \<Rightarrow> (case span_digits r of
            ([], _) \<Rightarrow> (None, s)
          | (ds, r') \<Rightarrow> if c = CHR ''.'' then (Some ds, r') else (None, s))
      | [] \<Rightarrow> (None, s))"

definition scan_exponent :: "string \<Rightarrow> int option \<times> string" where
  "scan_exponent s =
     (case s of
        c # r \<Rightarrow>
          (let (neg, r1) = (case r of x # r1 \<Rightarrow> if x = CHR 0x2D then (True, r1)
               else if x = CHR ''+'' then (False, r1) else (False, r) | [] \<Rightarrow> (False, r))
           in case span_digits r1 of
                ([], _) \<Rightarrow> (None, s)
              | (ds, r') \<Rightarrow> if c = CHR ''e'' \<or> c = CHR ''E''
                  then (Some (if neg then - digits_value ds else digits_value ds), r') else (None, s))
      | [] \<Rightarrow> (None, s))"

definition decimal_value :: "string \<Rightarrow> string \<Rightarrow> int \<Rightarrow> rat" where
  "decimal_value ip fp e =
     of_int (digits_value (ip @ fp)) / 10 ^ length fp * (if 0 \<le> e then 10 ^ nat e else 1 / 10 ^ nat (- e))"

definition negate_if :: "bool \<Rightarrow> rat \<Rightarrow> rat" where
  "negate_if neg q = (if neg then - q else q)"

definition scan_number :: "string \<Rightarrow> (pyval \<times> string) option" where
  "scan_number s =
     (let (neg, s1) = (case s of c # r \<Rightarrow> if c = CHR 0x2D then (True, r) else (False, s) | [] \<Rightarrow> (False, s))
      in case scan_integer s1 of
           None \<Rightarrow> None
         | Some (ip, s2) \<Rightarrow>
             (let (fp, s3) = scan_fraction s2; (ep, s4) = scan_exponent s3
              in if fp = None \<and> ep = None
                 then Some (PInt (if neg then - digits_value ip else digits_value ip), s2)
                 else Some (PFloat (to_double (negate_if neg
                        (decimal_value ip (case fp of None \<Rightarrow> [] | Some f \<Rightarrow> f)
                           (case ep of None \<Rightarrow> 0 | Some e \<Rightarrow> e)))), s4)))"

fun strip_prefix :: "string \<Rightarrow> string \<Rightarrow> string option" where
  "strip_prefix [] s = Some s"
| "strip_prefix (p # ps) [] = None"
| "strip_prefix (p # ps) (c # s) = (if c = p then strip_prefix ps s else None)"

definition scan_words :: "(string \<times> pyval) list" where
  "scan_words = [(''null'', PNone), (''true'', PBool True), (''false'', PBool False),
     (''NaN'', PFloat NaN), (''Infinity'', PFloat PosInf), (''-Infinity'', PFloat NegInf)]"

fun scan_word :: "(string \<times> pyval) list \<Rightarrow> string \<Rightarrow> (pyval \<times> string) option" where
  "scan_word [] s = None"
| "scan_word ((w, v) # ws) s =
     (case strip_prefix w s of Some r \<Rightarrow> Some (v, r) | None \<Rightarrow> scan_word ws s)"

text \<open>\<open>scan_members\<close> starts after the opening quote of a key. The first argument is fuel.\<close>

fun scan_value :: "nat \<Rightarrow> string \<Rightarrow> (pyval \<times> string) option"
and scan_elements :: "nat \<Rightarrow> string \<Rightarrow> (pyval list \<times> string) option"
and scan_members :: "nat \<Rightarrow> string \<Rightarrow> ((string \<times> pyval) list \<times> string) option"
where
  "scan_value 0 s = None"
| "scan_value (Suc n) s =
     (case s of
        [] \<Rightarrow> None
      | c # r \<Rightarrow>
          if c = CHR 0x22 then map_option (apfst PStr) (scan_string r)
          else if c = CHR ''['' then
            (case skip r of
               [] \<Rightarrow> None
             | x # r' \<Rightarrow> if x = CHR '']'' then Some (PList [], r')
                 else map_option (apfst PList) (scan_elements n (x # r')))
          else if c = CHR ''{'' then
            (case skip r of
               [] \<Rightarrow> None
             | x # r' \<Rightarrow> if x = CHR ''}'' then Some (PDict [], r')
                 else if x = CHR 0x22
                 then map_option (apfst (\<lambda>ms. PDict (fold (\<lambda>(k, v) d. dict_set k v d) ms []))) (scan_members n r')
                 else None)
          else (case scan_word scan_words s of Some x \<Rightarrow> Some x | None \<Rightarrow> scan_number s))"
| "scan_elements 0 s = None"
| "scan_elements (Suc n) s =
     (case scan_value n s of
        None \<Rightarrow> None
      | Some (v, r) \<Rightarrow>
          (case skip r of
             [] \<Rightarrow> None
           | x # r' \<Rightarrow> if x = CHR '']'' then Some ([v], r')
               else if x = CHR '','' then map_option (apfst (Cons v)) (scan_elements n (skip r'))
               else None))"
| "scan_members 0 s = None"
| "scan_members (Suc n) s =
     (case scan_string s of
        None \<Rightarrow> None
      | Some (k, r) \<Rightarrow>
          (case skip r of
             [] \<Rightarrow> None
           | x # r1 \<Rightarrow>
               if x \<noteq> CHR '':'' then None
               else
                 (case scan_value n (skip r1) of
                    None \<Rightarrow> None
                  | Some (v, r2) \<Rightarrow>
                      (case skip r2 of
                         [] \<Rightarrow> None
                       | y # r3 \<Rightarrow>
                           if y = CHR ''}'' then Some ([(k, v)], r3)
                           else if y = CHR '','' then
                             (case skip r3 of
                                [] \<Rightarrow> None
                              | z # r4 \<Rightarrow> if z = CHR 0x22
                                  then map_option (apfst (Cons (k, v))) (scan_members n r4) else None)
                           else None))))"

definition json_error :: exn where
  "json_error = Raised (OtherError ''JSONDecodeError'') ''invalid JSON''"

definition json_loads :: "string \<Rightarrow> exn + pyval" where
  "json_loads s =
     (case scan_value (2 * length s) (skip s) of
        Some (v, r) \<Rightarrow> if skip r = [] then Inr v else Inl json_error
      | None \<Rightarrow> Inl json_error)"

section \<open>Enough fuel\<close>

lemma scan_string_length: "scan_string s = Some (x, r) \<Longrightarrow> length r < length s"
proof (induction s arbitrary: x r rule: scan_string.induct)
  case (2 c s)
  then show ?case
    by (auto split: if_splits list.splits option.splits prod.splits dest!: read_hex4_length) fastforce+
qed simp

lemma span_digits_length: "span_digits s = (ds, r) \<Longrightarrow> length s = length ds + length r"
  unfolding span_digits_def by (metis Pair_inject length_append takeWhile_dropWhile_id)

lemma scan_integer_length: "scan_integer s = Some (ip, r) \<Longrightarrow> length r < length s"
  by (auto simp: scan_integer_def split: prod.splits list.splits if_splits dest!: span_digits_length)

lemma scan_fraction_length: "scan_fraction s = (fp, r) \<Longrightarrow> length r \<le> length s"
  by (auto simp: scan_fraction_def split: prod.splits list.splits if_splits dest!: span_digits_length)

lemma scan_exponent_length: "scan_exponent s = (ep, r) \<Longrightarrow> length r \<le> length s"
  by (auto simp: scan_exponent_def Let_def split: prod.splits list.splits if_splits dest!: span_digits_length)

lemma scan_number_length: "scan_number s = Some (v, r) \<Longrightarrow> length r < length s"
  by (auto simp: scan_number_def Let_def split: prod.splits list.splits if_splits option.splits
      dest!: scan_integer_length scan_fraction_length scan_exponent_length)

lemma strip_prefix_length: "strip_prefix p s = Some r \<Longrightarrow> length s = length p + length r"
  by (induction p s rule: strip_prefix.induct) (auto split: if_splits)

lemma scan_word_length:
  "scan_word ws s = Some (v, r) \<Longrightarrow> \<forall>w \<in> set ws. fst w \<noteq> [] \<Longrightarrow> length r < length s"
  by (induction ws s rule: scan_word.induct) (auto split: option.splits dest!: strip_prefix_length)

lemma skip_length: "skip s = t \<Longrightarrow> length t \<le> length s"
  using length_dropWhile_le [of json_space s] by (auto simp: skip_def)

lemmas scan_lengths = scan_string_length scan_number_length skip_length

lemma scan_length:
  "scan_value n s = Some (v, r) \<Longrightarrow> length r < length s"
  "scan_elements n s = Some (vs, r) \<Longrightarrow> length r < length s"
  "scan_members n s = Some (ps, r) \<Longrightarrow> length r < length s"
proof (induction n s and n s and n s arbitrary: v r and vs r and ps r
    rule: scan_value_scan_elements_scan_members.induct)
  case (2 n s)
  show ?case
  proof (cases s)
    case (Cons c t)
    then show ?thesis
      using 2 scan_word_length [of scan_words s v r]
      by (fastforce simp: scan_words_def split: if_splits list.splits option.splits dest!: scan_lengths)
  qed (use 2 in simp)
next
  case (4 n s)
  obtain v0 a y r1 where e: "scan_value n s = Some (v0, a)" "skip a = y # r1"
    and rest: "r = r1 \<or> y = CHR '','' \<and> (\<exists>ws. scan_elements n (skip r1) = Some (ws, r))"
    using "4.prems" by (auto split: option.splits list.splits if_splits prod.splits)
  have "length a < length s" using "4.IH"(1) [OF e(1)] .
  moreover have "length r < length (skip r1)" if "scan_elements n (skip r1) = Some (ws, r)" "y = CHR '',''" for ws
    using "4.IH"(2) [OF e(1) refl e(2) _ _ that(1)] that(2) by simp
  ultimately show ?case
    using rest skip_length [OF e(2)] skip_length [OF refl, of r1] by fastforce
next
  case (6 n s)
  obtain k a r1 v r2 y r3 where e: "scan_string s = Some (k, a)" "skip a = CHR '':'' # r1"
      "scan_value n (skip r1) = Some (v, r2)" "skip r2 = y # r3"
    and rest: "r = r3 \<or> y = CHR '','' \<and> y \<noteq> CHR ''}'' \<and>
      (\<exists>r4 qs. skip r3 = CHR 0x22 # r4 \<and> scan_members n r4 = Some (qs, r))"
    using "6.prems" by (auto split: option.splits list.splits if_splits prod.splits)
  have "length r2 < length (skip r1)" using "6.IH"(1) [OF e(1) refl e(2) _ e(3)] by simp
  moreover have "length r < length r4" if "skip r3 = CHR 0x22 # r4" "scan_members n r4 = Some (qs, r)"
      "y = CHR '',''" for r4 qs
    using "6.IH"(2) [OF e(1) refl e(2) _ e(3) refl e(4) _ _ that(1) _ that(2)] that(3) by simp
  ultimately show ?case
    using rest scan_string_length [OF e(1)] skip_length [OF e(2)] skip_length [OF refl, of r1]
      skip_length [OF e(4)] skip_length [OF refl, of r3]
    by fastforce
qed simp_all

lemma scan_fuel:
  "(2 * length s \<le> n \<longrightarrow> scan_value (Suc n) s = scan_value n s)
   \<and> (2 * length s < n \<longrightarrow> scan_elements (Suc n) s = scan_elements n s)
   \<and> (2 * length s \<le> n \<longrightarrow> scan_members (Suc n) s = scan_members n s)"
proof (induction n arbitrary: s)
  case 0
  show ?case by (simp add: scan_value.simps scan_members.simps)
next
  case (Suc n)
  have skip: "length (skip r) \<le> length r" for r using skip_length by blast
  have "scan_value (Suc (Suc n)) s = scan_value (Suc n) s" if "2 * length s \<le> Suc n"
  proof (cases s)
    case (Cons c r)
    have "skip r = x # t \<Longrightarrow> scan_elements (Suc n) (x # t) = scan_elements n (x # t)
        \<and> scan_members (Suc n) t = scan_members n t" for x t
      using Suc.IH [of "x # t"] Suc.IH [of t] skip [of r] that Cons by simp
    then show ?thesis unfolding Cons scan_value.simps by (auto split: list.split)
  qed simp
  moreover have "scan_elements (Suc (Suc n)) s = scan_elements (Suc n) s" if "2 * length s < Suc n"
  proof -
    have "scan_value (Suc n) s = scan_value n s" using Suc.IH [of s] that by simp
    moreover have "scan_elements (Suc n) (skip t) = scan_elements n (skip t)"
      if "scan_value n s = Some (v, r)" "skip r = x # t" for v r x t
      using Suc.IH [of "skip t"] skip [of t] scan_length(1) [OF that(1)] skip_length [OF that(2)]
        \<open>2 * length s < Suc n\<close> by simp
    ultimately show ?thesis
      unfolding scan_elements.simps(2) [of "Suc n"] scan_elements.simps(2) [of n]
      by (auto split: option.split list.split)
  qed
  moreover have "scan_members (Suc (Suc n)) s = scan_members (Suc n) s" if "2 * length s \<le> Suc n"
  proof -
    have v: "scan_value (Suc n) (skip t) = scan_value n (skip t)"
      if "scan_string s = Some (k, r)" "skip r = x # t" for k r x t
      using Suc.IH [of "skip t"] skip [of t] scan_string_length [OF that(1)] skip_length [OF that(2)]
        \<open>2 * length s \<le> Suc n\<close> by simp
    have m: "scan_members (Suc n) q = scan_members n q"
      if "scan_string s = Some (k, r)" "skip r = x # t" "scan_value n (skip t) = Some (w, p)"
        "skip p = y # u" "skip u = z # q" for k r x t w p y u z q
      using Suc.IH [of q] skip [of t] scan_string_length [OF that(1)] skip_length [OF that(2)]
        scan_length(1) [OF that(3)] skip_length [OF that(4)] skip_length [OF that(5)]
        \<open>2 * length s \<le> Suc n\<close> by simp
    show ?thesis
      unfolding scan_members.simps(2) [of "Suc n"] scan_members.simps(2) [of n]
      using v m by (auto split: option.split list.split)
  qed
  ultimately show ?case by blast
qed

text \<open>So the fuel of \<^const>\<open>json_loads\<close>, twice the length, is enough: more of it changes nothing.\<close>

lemma scan_value_fuel:
  assumes "2 * length s \<le> n"
  shows "scan_value n s = scan_value (2 * length s) s"
  using assms scan_fuel by (induction n rule: dec_induct) (simp, metis)

end
