(* ===== verification/Memory_Database.thy ===== *)
theory Memory_Database
  imports Memory Iso_Roundtrip Json
begin

text \<open>
  The database storage (\<^verbatim>\<open>infrastructure/database/memory_storage.py\<close>): an implementation of the
  storage interface over a table client, in which every error is logged and swallowed. The client
  library is a parameter with the laws of a keyed table, whose columns of JSON and of time stamps give back an equal
  value, not the very text; reading a row back is the record model's validation, in which the reader of time
  stamps is pydantic's and a parameter too.
\<close>

section \<open>Rows\<close>

definition memory_payload :: "memory_record \<Rightarrow> pydict" where
  "memory_payload r =
     [(''memory_id'', PStr (mr_memory_id r)),
      (''memory_type'', PStr (memory_type_value (mr_memory_type r))),
      (''created_at'', PStr (isoformat (mr_created_at r))),
      (''content'', mr_content r),
      (''metadata'', PDict (mr_metadata r)),
      (''validation_status'', PStr (validation_status_value (mr_validation_status r))),
      (''operation_id'', PStr (mr_operation_id r)),
      (''agent_id'', PStr (mr_agent_id r))]"

fun memory_type_of :: "pyval \<Rightarrow> memory_type option" where
  "memory_type_of (PStr v) =
     (if v = ''working'' then Some WorkingMemory
      else if v = ''episodic'' then Some EpisodicMemory
      else if v = ''semantic'' then Some SemanticMemory
      else if v = ''procedural'' then Some ProceduralMemory else None)"
| "memory_type_of v = None"

fun validation_status_of :: "pyval \<Rightarrow> validation_status option" where
  "validation_status_of (PStr v) =
     (if v = ''pending'' then Some ValidationPending
      else if v = ''validated'' then Some ValidationValidated
      else if v = ''rejected'' then Some ValidationRejected else None)"
| "validation_status_of v = None"

fun str_of :: "pyval \<Rightarrow> string option" where
  "str_of (PStr v) = Some v"
| "str_of v = None"

fun dict_of :: "pyval \<Rightarrow> pydict option" where
  "dict_of (PDict d) = Some d"
| "dict_of v = None"

definition record_fields :: "string list" where
  "record_fields = [''memory_id'', ''memory_type'', ''created_at'', ''content'', ''metadata'',
     ''validation_status'', ''operation_id'', ''agent_id'']"

text \<open>\<^verbatim>\<open>MemoryRecord.model_validate(row)\<close>: every field present and of its type, no other field
  (\<^verbatim>\<open>extra="forbid"\<close>), the identifiers not empty. \<open>parse\<close> reads a time stamp.\<close>

definition field :: "(pyval \<Rightarrow> 'a option) \<Rightarrow> pydict \<Rightarrow> string \<Rightarrow> 'a option" where
  "field f row k = Option.bind (map_of row k) f"

definition record_model_validate :: "(string \<Rightarrow> datetime option) \<Rightarrow> pydict \<Rightarrow> exn + memory_record" where
  "record_model_validate parse row =
     (case (field str_of row ''memory_id'', field memory_type_of row ''memory_type'',
            field (\<lambda>v. Option.bind (str_of v) parse) row ''created_at'', field Some row ''content'',
            field dict_of row ''metadata'', field validation_status_of row ''validation_status'',
            field str_of row ''operation_id'', field str_of row ''agent_id'') of
        (Some mid, Some ty, Some t, Some c, Some md, Some vs, Some opid, Some ag) \<Rightarrow>
          (if list_all (\<lambda>(k, v). k \<in> set record_fields) row
           then new_memory_record mid ty t c md vs opid ag else Inl validation_error)
      | _ \<Rightarrow> Inl validation_error)"

lemma record_model_validate_error:
  "record_model_validate parse row = Inl e \<Longrightarrow> e = validation_error"
  by (auto simp: record_model_validate_def new_memory_record_def split: option.splits if_splits)

section \<open>The storage\<close>

text \<open>The three calls the storage makes on its client, over the client's state \<open>'c\<close>:
  \<^verbatim>\<open>upsert(payload, on_conflict="memory_id")\<close>, \<^verbatim>\<open>select(...).eq("memory_id", k).limit(1)\<close> and
  \<^verbatim>\<open>delete().eq("memory_id", k)\<close>, the last two with the rows of the response.\<close>

record 'c table_client =
  tc_upsert :: "pydict \<Rightarrow> ('c, unit) action"
  tc_select :: "string \<Rightarrow> ('c, pydict list) action"
  tc_delete :: "string \<Rightarrow> ('c, pydict list) action"

definition database_store :: "'c table_client \<Rightarrow> memory_record \<Rightarrow> ('c, unit) action" where
  "database_store cl r = catchA (tc_upsert cl (memory_payload r)) (\<lambda>_. ret ())"

definition database_retrieve ::
  "(string \<Rightarrow> datetime option) \<Rightarrow> 'c table_client \<Rightarrow> string \<Rightarrow> ('c, memory_record option) action" where
  "database_retrieve parse cl mid =
     catchA
       (bindA (tc_select cl mid) (\<lambda>rows.
        if rows = [] then ret None
        else bindA (lift_res (record_model_validate parse (hd rows))) (\<lambda>r. ret (Some r))))
       (\<lambda>_. ret None)"

definition database_delete :: "'c table_client \<Rightarrow> string \<Rightarrow> ('c, bool) action" where
  "database_delete cl mid =
     catchA (bindA (tc_delete cl mid) (\<lambda>rows. ret (rows \<noteq> []))) (\<lambda>_. ret False)"

definition database_ops :: "(string \<Rightarrow> datetime option) \<Rightarrow> 'c table_client \<Rightarrow> 'c storage" where
  "database_ops parse cl = \<lparr>sto_store = database_store cl, sto_retrieve = database_retrieve parse cl,
     sto_delete = database_delete cl\<rparr>"

section \<open>What the storage relies on\<close>

definition payload_id :: "pydict \<Rightarrow> string" where
  "payload_id p = (case map_of p ''memory_id'' of Some (PStr k) \<Rightarrow> k | _ \<Rightarrow> [])"

text \<open>
  How a row is kept. The columns of the \<^verbatim>\<open>memory_records\<close> table (002_create_memory_records.sql) are texts,
  which come back as they are, one time stamp, which comes back as some text of the same instant, and two JSON
  columns, which come back as an equal JSON value: \<open>nf\<close> is a normal form of JSON values, for
  \<^verbatim>\<open>jsonb\<close> one that forgets the order of the keys.
\<close>

definition text_columns :: "string list" where
  "text_columns = [''memory_id'', ''memory_type'', ''validation_status'', ''operation_id'', ''agent_id'']"

definition row_kept :: "(pyval \<Rightarrow> pyval) \<Rightarrow> (string \<Rightarrow> datetime option) \<Rightarrow> pydict \<Rightarrow> pydict \<Rightarrow> bool" where
  "row_kept nf parse p q \<longleftrightarrow> set (map fst q) = set (map fst p)
     \<and> list_all (\<lambda>k. map_of q k = map_of p k) text_columns
     \<and> field (\<lambda>v. Option.bind (str_of v) parse) q ''created_at'' = field (\<lambda>v. Option.bind (str_of v) parse) p ''created_at''
     \<and> map_option nf (map_of q ''content'') = map_option nf (map_of p ''content'')
     \<and> map_option nf (map_of q ''metadata'') = map_option nf (map_of p ''metadata'')"

text \<open>
  A keyed table behind a client that may fail at any call with an \<^verbatim>\<open>Exception\<close>: a call that returns
  has been carried out; one that raises has been carried out or not.
\<close>

locale keyed_table =
  fixes cl :: "'c table_client"
    and rows :: "'c \<Rightarrow> string \<Rightarrow> pydict option"
    and nf :: "pyval \<Rightarrow> pyval"
    and parse :: "string \<Rightarrow> datetime option"
  assumes upsert_ok: "fst (tc_upsert cl p c) = Inr () \<Longrightarrow>
      \<exists>q. row_kept nf parse p q \<and> rows (snd (tc_upsert cl p c)) = (rows c)(payload_id p \<mapsto> q)"
    and upsert_err: "fst (tc_upsert cl p c) = Inl e \<Longrightarrow> is_exception e \<and>
      (rows (snd (tc_upsert cl p c)) = rows c
       \<or> (\<exists>q. row_kept nf parse p q \<and> rows (snd (tc_upsert cl p c)) = (rows c)(payload_id p \<mapsto> q)))"
    and select_pure: "rows (snd (tc_select cl k c)) = rows c"
    and select_ok: "fst (tc_select cl k c) = Inr rs \<Longrightarrow>
      rs = (case rows c k of None \<Rightarrow> [] | Some p \<Rightarrow> [p])"
    and select_err: "fst (tc_select cl k c) = Inl e \<Longrightarrow> is_exception e"
    and delete_ok: "fst (tc_delete cl k c) = Inr rs \<Longrightarrow>
      (rs \<noteq> [] \<longleftrightarrow> rows c k \<noteq> None) \<and> rows (snd (tc_delete cl k c)) = (rows c)(k := None)"
    and delete_err: "fst (tc_delete cl k c) = Inl e \<Longrightarrow> is_exception e \<and>
      rows (snd (tc_delete cl k c)) \<in> {rows c, (rows c)(k := None)}"

text \<open>A record up to the normal form of its JSON parts.\<close>

definition normal_record :: "(pyval \<Rightarrow> pyval) \<Rightarrow> memory_record \<Rightarrow> memory_record" where
  "normal_record nf r = r\<lparr>mr_content := nf (mr_content r),
     mr_metadata := (case nf (PDict (mr_metadata r)) of PDict d \<Rightarrow> d | _ \<Rightarrow> mr_metadata r)\<rparr>"

text \<open>
  The contract of the storage interface for a storage that keeps records up to a normal form \<open>normal\<close>. With
  \<open>normal\<close> the identity it is \<^const>\<open>memory_storage\<close>.
\<close>

locale storage_up_to =
  fixes st :: "'m storage"
    and content :: "'m \<Rightarrow> string \<Rightarrow> memory_record option"
    and normal :: "memory_record \<Rightarrow> memory_record"
  assumes store_effect: "record_ok r \<Longrightarrow>
      content (snd (sto_store st r m)) \<in> {content m, (content m)(mr_memory_id r \<mapsto> normal r)}"
    and retrieve_pure: "content (snd (sto_retrieve st k m)) = content m"
    and retrieve_sound: "fst (sto_retrieve st k m) = Inr (Some r) \<Longrightarrow> content m k = Some (normal r)"
    and delete_effect: "content (snd (sto_delete st k m)) \<in> {content m, (content m)(k := None)}"
    and delete_sound: "fst (sto_delete st k m) = Inr True \<Longrightarrow>
      content (snd (sto_delete st k m)) = (content m)(k := None)"
begin

text \<open>A record that was written and not touched again is read back as itself, up to its normal form.\<close>

lemma stored_read_back:
  assumes "record_ok r" and "content (snd (sto_store st r m)) \<noteq> content m"
    and "fst (sto_retrieve st (mr_memory_id r) (snd (sto_store st r m))) = Inr (Some q)"
  shows "normal q = normal r"
  using store_effect [OF assms(1), of m] assms(2) retrieve_sound [OF assms(3)] by auto

end

sublocale memory_storage \<subseteq> exact: storage_up_to st content "\<lambda>r. r"
  by unfold_locales (fact store_effect retrieve_pure retrieve_sound delete_effect delete_sound)+

text \<open>The records a table holds: its rows, as the model reads them, in normal form.\<close>

definition table_records ::
  "(pyval \<Rightarrow> pyval) \<Rightarrow> (string \<Rightarrow> datetime option) \<Rightarrow> ('c \<Rightarrow> string \<Rightarrow> pydict option) \<Rightarrow> 'c \<Rightarrow> string \<Rightarrow> memory_record option" where
  "table_records nf parse rows c k =
     (case rows c k of None \<Rightarrow> None
      | Some p \<Rightarrow> (case record_model_validate parse p of Inl e \<Rightarrow> None | Inr r \<Rightarrow> Some (normal_record nf r)))"

locale memory_table = keyed_table cl rows nf parse
  for cl :: "'c table_client" and rows :: "'c \<Rightarrow> string \<Rightarrow> pydict option" and nf parse +
  assumes parse_iso: "parse (isoformat t) = Some t"
    and nf_dict: "dict_of (nf v) = None \<longleftrightarrow> dict_of v = None"
begin

lemma payload_id_memory [simp]: "payload_id (memory_payload r) = mr_memory_id r"
  by (simp add: payload_id_def memory_payload_def)

lemma metadata_kept:
  assumes "map_option nf (map_of q ''metadata'') = Some (nf (PDict d))"
  shows "\<exists>e. map_of q ''metadata'' = Some (PDict e) \<and> nf (PDict e) = nf (PDict d)"
proof -
  obtain v where v: "map_of q ''metadata'' = Some v" "nf v = nf (PDict d)" using assms by auto
  have "dict_of v \<noteq> None" using nf_dict [of v] nf_dict [of "PDict d"] v(2) by simp
  then show ?thesis using v by (cases v) auto
qed

lemma payload_roundtrip:
  assumes "record_ok r" and "row_kept nf parse (memory_payload r) q"
  shows "\<exists>q'. record_model_validate parse q = Inr q' \<and> normal_record nf q' = normal_record nf r"
proof -
  have ty: "memory_type_of (PStr (memory_type_value (mr_memory_type r))) = Some (mr_memory_type r)"
    by (cases "mr_memory_type r") simp_all
  have vs: "validation_status_of (PStr (validation_status_value (mr_validation_status r)))
      = Some (mr_validation_status r)"
    by (cases "mr_validation_status r") simp_all
  note kept = assms(2) [unfolded row_kept_def text_columns_def memory_payload_def field_def, simplified]
  obtain c where c: "map_of q ''content'' = Some c" "nf c = nf (mr_content r)" using kept by auto
  obtain d where d: "map_of q ''metadata'' = Some (PDict d)" "nf (PDict d) = nf (PDict (mr_metadata r))"
    using metadata_kept [of q "mr_metadata r"] kept by auto
  have keys: "list_all (\<lambda>(k, v). k \<in> set record_fields) q"
  proof -
    have "set (map fst q) = set record_fields"
      using assms(2) by (simp add: row_kept_def memory_payload_def record_fields_def)
    then show ?thesis by (force simp: list_all_iff)
  qed
  have "record_model_validate parse q = Inr (r\<lparr>mr_content := c, mr_metadata := d\<rparr>)"
    using kept assms(1) c(1) d(1) keys ty vs
    by (simp add: record_model_validate_def field_def parse_iso new_memory_record_def record_ok_def)
  moreover obtain e where "nf (PDict d) = PDict e"
    using nf_dict [of "PDict d"] by (cases "nf (PDict d)") auto
  ultimately show ?thesis using c(2) d(2) by (auto simp: normal_record_def)
qed

lemma database_store_quiet: "fst (database_store cl r c) = Inr ()"
  using upsert_err [of "memory_payload r" c]
  by (auto simp: database_store_def catchA_def ret_def split: prod.splits sum.splits)

lemma database_store_rows:
  "rows (snd (database_store cl r c)) = rows c
   \<or> (\<exists>q. row_kept nf parse (memory_payload r) q \<and> rows (snd (database_store cl r c)) = (rows c)(mr_memory_id r \<mapsto> q))"
  using upsert_err [of "memory_payload r" c] upsert_ok [of "memory_payload r" c]
  by (auto simp: database_store_def catchA_def ret_def split: prod.splits sum.splits)

lemma database_store_effect:
  assumes "record_ok r"
  shows "table_records nf parse rows (snd (database_store cl r c))
    \<in> {table_records nf parse rows c, (table_records nf parse rows c)(mr_memory_id r \<mapsto> normal_record nf r)}"
proof -
  have "table_records nf parse rows d = (table_records nf parse rows c)(mr_memory_id r \<mapsto> normal_record nf r)"
    if "rows d = (rows c)(mr_memory_id r \<mapsto> q)" "row_kept nf parse (memory_payload r) q" for d q
    using that(1) payload_roundtrip [OF assms that(2)] by (auto simp: table_records_def)
  moreover have "table_records nf parse rows d = table_records nf parse rows c" if "rows d = rows c" for d
    using that by (auto simp: table_records_def)
  ultimately show ?thesis using database_store_rows [of r c] by blast
qed

lemma database_retrieve_rows: "rows (snd (database_retrieve parse cl k c)) = rows c"
  using select_pure [of k c]
  by (auto simp: database_retrieve_def catchA_def bindA_def ret_def lift_res_def
      split: prod.splits sum.splits)

lemma database_retrieve_value:
  "fst (database_retrieve parse cl k c) = Inr None
   \<or> (\<exists>r. fst (database_retrieve parse cl k c) = Inr (Some r) \<and> table_records nf parse rows c k = Some (normal_record nf r))"
proof (cases "tc_select cl k c")
  case (Pair r d)
  show ?thesis
  proof (cases r)
    case (Inl e)
    with Pair select_err [of k c e] show ?thesis
      by (simp add: database_retrieve_def catchA_def bindA_def ret_def)
  next
    case (Inr rs)
    with Pair select_ok [of k c rs] have "rs = (case rows c k of None \<Rightarrow> [] | Some p \<Rightarrow> [p])" by simp
    with Pair Inr show ?thesis
      by (auto simp: database_retrieve_def catchA_def bindA_def ret_def lift_res_def
          table_records_def dest!: record_model_validate_error split: option.splits sum.splits)
  qed
qed

lemma database_delete_rows:
  "rows (snd (database_delete cl k c)) \<in> {rows c, (rows c)(k := None)}"
  "fst (database_delete cl k c) = Inr True \<Longrightarrow>
     rows c k \<noteq> None \<and> rows (snd (database_delete cl k c)) = (rows c)(k := None)"
  "\<exists>b. fst (database_delete cl k c) = Inr b"
  using delete_ok [of k c] delete_err [of k c]
  by (auto simp: database_delete_def catchA_def bindA_def ret_def split: prod.splits sum.splits)

lemma table_records_delete:
  "rows d = (rows c)(k := None) \<Longrightarrow> table_records nf parse rows d = (table_records nf parse rows c)(k := None)"
  by (auto simp: table_records_def)

lemma table_records_same: "rows d = rows c \<Longrightarrow> table_records nf parse rows d = table_records nf parse rows c"
  by (auto simp: table_records_def)

end

sublocale memory_table \<subseteq> database: storage_up_to "database_ops parse cl" "table_records nf parse rows" "normal_record nf"
proof
  fix r c k
  let ?records = "table_records nf parse rows"
  show "?records (snd (sto_store (database_ops parse cl) r c)) \<in> {?records c, (?records c)(mr_memory_id r \<mapsto> normal_record nf r)}"
    if "record_ok r"
    using database_store_effect [OF that] by (simp add: database_ops_def)
  show "?records (snd (sto_retrieve (database_ops parse cl) k c)) = ?records c"
    using table_records_same [OF database_retrieve_rows [of k c]] by (simp add: database_ops_def)
  show "?records c k = Some (normal_record nf r)"
    if "fst (sto_retrieve (database_ops parse cl) k c) = Inr (Some r)"
    using that database_retrieve_value [of k c] by (auto simp: database_ops_def)
  show "?records (snd (sto_delete (database_ops parse cl) k c)) \<in> {?records c, (?records c)(k := None)}"
    using database_delete_rows(1) [of k c] table_records_delete [of "snd (database_delete cl k c)" c k]
      table_records_same [of "snd (database_delete cl k c)" c]
    unfolding database_ops_def storage.simps by blast
  show "?records (snd (sto_delete (database_ops parse cl) k c)) = (?records c)(k := None)"
    if "fst (sto_delete (database_ops parse cl) k c) = Inr True"
    using that database_delete_rows(2) [of k c]
      table_records_delete [of "snd (database_delete cl k c)" c k]
    unfolding database_ops_def storage.simps by blast
qed

context memory_table
begin

lemma is_storage_up_to: "storage_up_to (database_ops parse cl) (table_records nf parse rows) (normal_record nf)"
  by (rule database.storage_up_to_axioms)

end

section \<open>The \<^verbatim>\<open>memory_records\<close> table\<close>

text \<open>
  The table of the SQL migrations, keyed by \<^verbatim>\<open>memory_id\<close>, over a network that may lose a request
  or the response to it. The JSON columns keep their dictionaries with sorted keys. Time stamps are read by
  \<^const>\<open>from_isoformat_utc\<close>.
\<close>

definition kept_column :: "string \<times> pyval \<Rightarrow> string \<times> pyval" where
  "kept_column c = (fst c, if fst c = ''content'' \<or> fst c = ''metadata'' then sort_keys (snd c) else snd c)"

definition kept_row :: "pydict \<Rightarrow> pydict" where
  "kept_row p = map kept_column p"

datatype fault = NoFault | LostRequest | LostResponse

record memory_records =
  mt_rows :: "(string, pydict) dict"
  mt_fault :: "nat \<Rightarrow> fault"
  mt_calls :: nat

text \<open>One call: the effect takes place unless the request is lost, the answer arrives unless either
  is.\<close>

definition table_call ::
  "(memory_records \<Rightarrow> 'a) \<Rightarrow> (memory_records \<Rightarrow> memory_records) \<Rightarrow> (memory_records, 'a) action" where
  "table_call answer effect c =
     (let d = c\<lparr>mt_calls := Suc (mt_calls c)\<rparr>;
          lost = Inl (Raised (OtherError ''ConnectError'') [])
      in case mt_fault c (mt_calls c) of
           NoFault \<Rightarrow> (Inr (answer d), effect d)
         | LostRequest \<Rightarrow> (lost, d)
         | LostResponse \<Rightarrow> (lost, effect d))"

definition memory_records_client :: "memory_records table_client" where
  "memory_records_client =
     \<lparr>tc_upsert = (\<lambda>p. table_call (\<lambda>_. ()) (\<lambda>d. d\<lparr>mt_rows := dict_set (payload_id p) (kept_row p) (mt_rows d)\<rparr>)),
      tc_select = (\<lambda>k. table_call (\<lambda>d. case map_of (mt_rows d) k of None \<Rightarrow> [] | Some p \<Rightarrow> [p]) (\<lambda>d. d)),
      tc_delete = (\<lambda>k. table_call (\<lambda>d. case map_of (mt_rows d) k of None \<Rightarrow> [] | Some p \<Rightarrow> [p])
        (\<lambda>d. d\<lparr>mt_rows := dict_del k (mt_rows d)\<rparr>))\<rparr>"

definition memory_rows :: "memory_records \<Rightarrow> string \<Rightarrow> pydict option" where
  "memory_rows c = map_of (mt_rows c)"

definition read_timestamp :: "string \<Rightarrow> datetime option" where
  "read_timestamp s = (case from_isoformat_utc s of
     None \<Rightarrow> None
   | Some t \<Rightarrow> (if first_micro \<le> t \<and> t \<le> last_micro then Some (at_micros t) else None))"

lemma read_timestamp_isoformat: "read_timestamp (isoformat t) = Some t"
  by (simp add: read_timestamp_def from_isoformat_isoformat micros_of_range)

lemma map_insort_key: "(\<And>x. fst (g x) = fst x) \<Longrightarrow> map g (insort_key fst x xs) = insort_key fst (g x) (map g xs)"
  by (induction xs) simp_all

lemma map_sort_key: "(\<And>x. fst (g x) = fst x) \<Longrightarrow> map g (sort_key fst xs) = sort_key fst (map g xs)"
  by (induction xs) (simp_all add: map_insort_key)

lemma sort_keys_idem: "sort_keys (sort_keys v) = sort_keys v"
proof (induction v rule: sort_keys.induct)
  case (2 d)
  have "map (\<lambda>p. (fst p, sort_keys (snd p))) (sort_key fst (map (\<lambda>p. (fst p, sort_keys (snd p))) d))
      = sort_key fst (map (\<lambda>p. (fst p, sort_keys (snd p))) d)"
    using 2 by (subst map_sort_key) (auto simp: comp_def intro!: arg_cong [where f = "sort_key fst"])
  then show ?case by (simp only: sort_keys.simps sort_key_id_if_sorted sorted_sort_key)
qed simp_all

lemma kept_row_lookup: "map_of (kept_row p) k = map_option (\<lambda>v. snd (kept_column (k, v))) (map_of p k)"
  by (induction p) (auto simp: kept_row_def kept_column_def)

lemma kept_row: "row_kept sort_keys read_timestamp p (kept_row p)"
proof -
  have "set (map fst (kept_row p)) = set (map fst p)" by (simp add: kept_row_def kept_column_def image_image)
  then show ?thesis
    by (simp add: row_kept_def text_columns_def field_def kept_row_lookup kept_column_def option.map_comp comp_def sort_keys_idem
        option.map_ident)
qed

interpretation memory_records: memory_table memory_records_client memory_rows sort_keys read_timestamp
proof
  show "read_timestamp (isoformat t) = Some t" for t by (rule read_timestamp_isoformat)
  show "dict_of (sort_keys v) = None \<longleftrightarrow> dict_of v = None" for v by (cases v) simp_all
qed (auto simp: memory_records_client_def table_call_def memory_rows_def Let_def intro: kept_row
      split: fault.splits option.splits)

section \<open>Properties\<close>

text \<open>
  C10. The database storage keeps the contract of the storage interface, up to what its columns forget. Over any
  client that is a keyed table which may fail at any call, before or after carrying it out, whose JSON columns
  give back equal JSON (\<open>nf\<close> is the normal form) and whose time stamps the same instant: storing a good record writes
  it or nothing, and what is read back has the same fields, instant and JSON values; reading never invents a record
  and writes nothing; deleting answers true only when the record is gone. No operation raises: a store always
  returns, a lookup that fails answers nothing, a deletion that fails answers false.
\<close>

theorem database_storage_refines_interface:
  assumes "keyed_table cl rows nf parse" and "\<forall>t. parse (isoformat t) = Some t"
    and "\<forall>v. dict_of (nf v) = None \<longleftrightarrow> dict_of v = None"
  shows "storage_up_to (database_ops parse cl) (table_records nf parse rows) (normal_record nf)
    \<and> fst (database_store cl r c) = Inr ()
    \<and> (\<exists>found. fst (database_retrieve parse cl k c) = Inr found)
    \<and> (\<exists>b. fst (database_delete cl k c) = Inr b)"
proof -
  have t: "memory_table cl rows nf parse"
    using assms by (simp add: memory_table_def memory_table_axioms_def)
  show ?thesis
    using memory_table.is_storage_up_to [OF t] memory_table.database_store_quiet [OF t]
      memory_table.database_retrieve_value [OF t] memory_table.database_delete_rows(3) [OF t] by blast
qed

definition broken_network :: memory_records where
  "broken_network = \<lparr>mt_rows = [], mt_fault = (\<lambda>_. LostRequest), mt_calls = 0\<rparr>"

theorem database_storage_refines_interface_witness:
  "storage_up_to (database_ops read_timestamp memory_records_client)
     (table_records sort_keys read_timestamp memory_rows) (normal_record sort_keys)
   \<and> fst (database_store memory_records_client (demo_record ''m'' WorkingMemory) broken_network) = Inr ()"
proof -
  have table: "keyed_table memory_records_client memory_rows sort_keys read_timestamp"
    using memory_records.memory_table_axioms by (simp add: memory_table_def)
  have stamps: "\<forall>t. read_timestamp (isoformat t) = Some t" by (simp add: read_timestamp_isoformat)
  have dicts: "\<forall>v. dict_of (sort_keys v) = None \<longleftrightarrow> dict_of v = None" using memory_records.nf_dict by blast
  note facts = database_storage_refines_interface [OF table stamps dicts]
  show ?thesis by (rule conjI [OF facts [THEN conjunct1] facts [THEN conjunct2, THEN conjunct1]])
qed

end
