(* ===== verification/Json_Roundtrip.thy ===== *)
theory Json_Roundtrip
  imports Json
begin

text \<open>
  Reading back what was printed: \<^verbatim>\<open>json.loads(json.dumps(v))\<close> is \<open>v\<close> for every value whose floats are
  doubles and whose dictionaries have distinct keys, whatever \<^verbatim>\<open>float.__repr__\<close> prints as long as it
  reads back (the locale), and in particular for the exact decimal expansion (its interpretation).
\<close>

section \<open>Reading back what was printed\<close>

lemma hex_value_digit: "hex_value (hex_digit n) = Some (n mod 16)"
proof -
  have "\<forall>m \<in> set [0..<16]. hex_value (hex_digit m) = Some m" by code_simp
  then have "hex_value (hex_digit (n mod 16)) = Some (n mod 16)" by (rule bspec) simp
  then show ?thesis by (simp add: hex_digit_def)
qed

lemma code_point_less: "(of_char c :: nat) < 256"
  by (metis nat_of_char_less_256)

lemma code_point_eq: "(of_char c :: nat) = n \<Longrightarrow> c = char_of n"
  by auto

lemma control_chars:
  "char_of (8 :: nat) = CHR 0x08" "char_of (9 :: nat) = CHR 0x09" "char_of (10 :: nat) = CHR 0x0A"
  "char_of (12 :: nat) = CHR 0x0C" "char_of (13 :: nat) = CHR 0x0D"
  by code_simp+

lemma simple_escapes [simp]:
  "simple_escape CHR 0x22 = Some CHR 0x22" "simple_escape CHR 0x5C = Some CHR 0x5C"
  "simple_escape CHR ''n'' = Some CHR 0x0A" "simple_escape CHR ''r'' = Some CHR 0x0D"
  "simple_escape CHR ''t'' = Some CHR 0x09" "simple_escape CHR ''f'' = Some CHR 0x0C"
  "simple_escape CHR ''b'' = Some CHR 0x08"
  by (simp_all add: simple_escape_def)

lemma scan_hex_escape:
  "scan_string ([CHR 0x5C, CHR ''u'', CHR ''0'', CHR ''0'',
       hex_digit (of_char c div 16), hex_digit (of_char c)] @ t)
     = map_option (apfst (Cons c)) (scan_string t)"
proof -
  have "(of_char c :: nat) div 16 < 16"
    using code_point_less [of c] by (simp add: less_mult_imp_div_less)
  then have "(of_char c :: nat) div 16 mod 16 = of_char c div 16" by simp
  then show ?thesis
    by (simp add: hex_value_digit hex_value_def [of "CHR ''0''"] apfst_def)
qed

lemma scan_json_char: "scan_string (json_char a c @ t) = map_option (apfst (Cons c)) (scan_string t)"
proof -
  let ?n = "of_char c :: nat"
  consider "c = CHR 0x22 \<or> c = CHR 0x5C" | "?n = 10" | "?n = 13" | "?n = 9" | "?n = 12" | "?n = 8"
    | "c \<noteq> CHR 0x22" "c \<noteq> CHR 0x5C" "?n \<notin> {8, 9, 10, 12, 13}" "?n < 32 \<or> a \<and> 126 < ?n"
    | "c \<noteq> CHR 0x22" "c \<noteq> CHR 0x5C" "?n \<notin> {8, 9, 10, 12, 13}" "\<not> ?n < 32" "\<not> (a \<and> 126 < ?n)"
    by blast
  then show ?thesis
  proof cases
    case 7
    then have "json_char a c = [CHR 0x5C, CHR ''u'', CHR ''0'', CHR ''0'',
       hex_digit (of_char c div 16), hex_digit (of_char c)]"
      by (auto simp: json_char_def Let_def)
    then show ?thesis by (simp only: scan_hex_escape)
  qed (auto simp: json_char_def Let_def control_chars dest!: code_point_eq)
qed

lemma scan_json_string:
  "scan_string (concat (map (json_char a) s) @ CHR 0x22 # rest) = Some (s, rest)"
  by (induction s) (simp_all add: scan_json_char)

text \<open>What may follow a number.\<close>

definition number_end :: "string \<Rightarrow> bool" where
  "number_end r \<longleftrightarrow> (case r of [] \<Rightarrow> True
     | c # _ \<Rightarrow> \<not> is_digit c \<and> c \<noteq> CHR ''.'' \<and> c \<noteq> CHR ''e'' \<and> c \<noteq> CHR ''E'')"

lemma span_digits_extend:
  assumes "span_digits s = (ds, [])" and "number_end r"
  shows "span_digits (s @ r) = (ds, r)"
proof -
  have "list_all is_digit s" "ds = s"
    using assms(1) by (auto simp: span_digits_def dropWhile_eq_Nil_conv list_all_iff takeWhile_eq_all_conv)
  moreover have "takeWhile is_digit r = []" "dropWhile is_digit r = r"
    using assms(2) by (cases r; simp add: number_end_def)+
  ultimately show ?thesis by (simp add: span_digits_def list_all_iff)
qed

lemma span_digits_stop:
  "span_digits s = (ds, c # t) \<Longrightarrow> span_digits (s @ r) = (ds, c # t @ r)"
  unfolding span_digits_def prod.inject
  by (induction s arbitrary: ds) (auto split: if_splits)

lemma scan_integer_extend:
  assumes "scan_integer s = Some (ip, t)" and "number_end r"
  shows "scan_integer (s @ r) = Some (ip, t @ r)"
proof (cases "span_digits s")
  case (Pair ds u)
  with assms show ?thesis
    using span_digits_extend [of s ds r] span_digits_stop [of s ds _ _ r]
    by (cases u; cases ds) (auto simp: scan_integer_def split: if_splits)
qed

lemma span_digits_end: "number_end r \<Longrightarrow> span_digits r = ([], r)"
  by (cases r) (auto simp: number_end_def span_digits_def)

lemma scan_fraction_extend:
  assumes "scan_fraction s = (fp, t)" and "number_end r"
  shows "scan_fraction (s @ r) = (fp, t @ r)"
proof (cases s)
  case Nil
  with assms show ?thesis
    by (cases r) (auto simp: scan_fraction_def number_end_def split: list.splits prod.splits)
next
  case (Cons c u)
  obtain ds v where sp: "span_digits u = (ds, v)" by fastforce
  show ?thesis
  proof (cases v)
    case Nil
    with sp assms(2) have "span_digits (u @ r) = (ds, r)" by (simp add: span_digits_extend)
    then show ?thesis
      using assms(1) sp Nil Cons by (auto simp: scan_fraction_def split: list.splits if_splits)
  next
    case (Cons x w)
    with sp have "span_digits (u @ r) = (ds, x # w @ r)" by (simp add: span_digits_stop)
    then show ?thesis
      using assms(1) sp Cons \<open>s = c # u\<close>
      by (auto simp: scan_fraction_def split: list.splits if_splits)
  qed
qed

lemma scan_exponent_extend:
  assumes "scan_exponent s = (ep, [])" and "number_end r"
  shows "scan_exponent (s @ r) = (ep, r)"
proof (cases s)
  case Nil
  with assms show ?thesis
    by (cases r)
      (auto simp: scan_exponent_def number_end_def Let_def split: list.splits prod.splits if_splits)
next
  case (Cons c u)
  define w where "w = (case u of x # r1 \<Rightarrow> if x = CHR 0x2D then (True, r1)
               else if x = CHR ''+'' then (False, r1) else (False, u) | [] \<Rightarrow> (False, u))"
  obtain neg r1 where r1: "w = (neg, r1)" by fastforce
  obtain ds v where sp: "span_digits r1 = (ds, v)" by fastforce
  have e: "ds \<noteq> []" "v = []" "c = CHR ''e'' \<or> c = CHR ''E''"
    "ep = Some (if neg then - digits_value ds else digits_value ds)"
    using assms(1) Cons r1 sp
    by (auto simp: scan_exponent_def Let_def w_def [symmetric] split: list.splits if_splits)
  have "u \<noteq> []" using e(1) r1 sp by (auto simp: w_def span_digits_def)
  then have "(case u @ r of x # r1 \<Rightarrow> if x = CHR 0x2D then (True, r1)
               else if x = CHR ''+'' then (False, r1) else (False, u @ r) | [] \<Rightarrow> (False, u @ r)) = (neg, r1 @ r)"
    using r1 by (auto simp: w_def split: list.splits if_splits)
  moreover have "span_digits (r1 @ r) = (ds, r)"
    using sp e(2) assms(2) by (simp add: span_digits_extend)
  ultimately show ?thesis
    using e(1,3,4) Cons by (auto simp: scan_exponent_def Let_def split: list.splits)
qed

lemma scan_number_extend:
  assumes "scan_number s = Some (v, [])" and "number_end r"
  shows "scan_number (s @ r) = Some (v, r)"
proof -
  define w where "w = (case s of c # r \<Rightarrow> if c = CHR 0x2D then (True, r) else (False, s) | [] \<Rightarrow> (False, s))"
  obtain neg s1 where w: "w = (neg, s1)" by fastforce
  obtain ip s2 where ip: "scan_integer s1 = Some (ip, s2)"
    using assms(1) w by (auto simp: scan_number_def w_def [symmetric] split: option.splits)
  have "s1 \<noteq> []" using ip by (auto simp: scan_integer_def span_digits_def)
  then have w': "(case s @ r of c # q \<Rightarrow> if c = CHR 0x2D then (True, q) else (False, s @ r)
      | [] \<Rightarrow> (False, s @ r)) = (neg, s1 @ r)"
    using w by (auto simp: w_def split: list.splits if_splits)
  obtain fp s3 where fp: "scan_fraction s2 = (fp, s3)" by fastforce
  obtain ep s4 where ep: "scan_exponent s3 = (ep, s4)" by fastforce
  have v: "s4 = []" "if fp = None \<and> ep = None then s2 = [] else True"
    using assms(1) w ip fp ep
    by (auto simp: scan_number_def w_def [symmetric] scan_fraction_def scan_exponent_def Let_def
        split: if_splits list.splits prod.splits)
  show ?thesis
    using assms w w' ip fp ep v scan_integer_extend [OF ip assms(2)] scan_fraction_extend [OF fp assms(2)]
      scan_exponent_extend [of s3 ep r]
    by (auto simp: scan_number_def w_def [symmetric] split: if_splits)
qed


lemma show_nat_first: "n \<noteq> 0 \<Longrightarrow> hd (show_nat n) \<noteq> CHR ''0''"
proof (induction n rule: show_nat.induct)
  case (1 n)
  show ?case
  proof (cases "n < 10")
    case True
    then have "n \<in> {1, 2, 3, 4, 5, 6, 7, 8, 9}" using 1 by auto
    then show ?thesis using True by (subst show_nat.simps) (auto simp: hex_digit_def)
  next
    case False
    then have "n div 10 \<noteq> 0" by (simp add: div_eq_0_iff)
    then show ?thesis
      using 1(1) [OF False] False show_nat_digits [of "n div 10"] by (subst show_nat.simps) simp
  qed
qed

lemma span_digits_all: "list_all is_digit s \<Longrightarrow> span_digits s = (s, [])"
  by (simp add: span_digits_def list_all_iff)

lemma scan_integer_show: "scan_integer (show_nat n) = Some (show_nat n, [])"
proof (cases "n = 0")
  case True
  then show ?thesis
    by (simp add: show_nat.simps [of 0] scan_integer_def span_digits_def hex_digit_def is_digit_def)
next
  case False
  then show ?thesis
    using show_nat_first [OF False] show_nat_digits [of n] span_digits_all [of "show_nat n"]
    by (auto simp: scan_integer_def split: list.splits)
qed

lemma show_nat_no_sign: "show_nat n = c # s \<Longrightarrow> is_digit c"
  using show_nat_digits [of n] by simp

lemma not_digit_chars [simp]:
  "\<not> is_digit CHR 0x2D" "\<not> is_digit CHR 0x22" "\<not> is_digit CHR ''[''" "\<not> is_digit CHR ''{''"
  "\<not> is_digit CHR '']''" "\<not> is_digit CHR ''}''" "\<not> is_digit CHR '',''" "\<not> is_digit CHR '':''"
  "\<not> is_digit CHR ''n''" "\<not> is_digit CHR ''t''" "\<not> is_digit CHR ''f''" "\<not> is_digit CHR ''N''"
  "\<not> is_digit CHR ''I''"
  by (simp_all add: is_digit_def)

lemma scan_number_show: "scan_number (show_int i) = Some (PInt i, [])"
proof -
  obtain c s where c: "show_nat (nat \<bar>i\<bar>) = c # s"
    using show_nat_digits [of "nat \<bar>i\<bar>"] by (cases "show_nat (nat \<bar>i\<bar>)") auto
  then have "c \<noteq> CHR 0x2D" using show_nat_no_sign not_digit_chars(1) by blast
  moreover have "digits_value (c # s) = \<bar>i\<bar>" using show_nat_value [of "nat \<bar>i\<bar>"] c by simp
  moreover have "scan_integer (c # s) = Some (c # s, [])" using scan_integer_show [of "nat \<bar>i\<bar>"] c by simp
  ultimately show ?thesis
    using c by (auto simp: scan_number_def show_int_def scan_fraction_def scan_exponent_def Let_def)
qed

text \<open>Where a number is read no other value can start.\<close>

definition number_start :: "string \<Rightarrow> bool" where
  "number_start s \<longleftrightarrow> (case s of c # r \<Rightarrow> is_digit c
     \<or> c = CHR 0x2D \<and> (case r of d # _ \<Rightarrow> is_digit d | [] \<Rightarrow> False) | [] \<Rightarrow> False)"

lemma scan_integer_start: "scan_integer s = Some x \<Longrightarrow> \<exists>c r. s = c # r \<and> is_digit c"
  by (cases s) (auto simp: scan_integer_def span_digits_def split: if_splits)

lemma scan_number_start: "scan_number s = Some x \<Longrightarrow> number_start s"
  by (auto simp: scan_number_def number_start_def split: list.splits if_splits option.splits prod.splits
      dest!: scan_integer_start)

lemma number_start_append: "number_start s \<Longrightarrow> number_start (s @ r)"
  by (auto simp: number_start_def split: list.splits)

lemma json_digit_not:
  "is_digit c \<Longrightarrow> c \<notin> {CHR 0x2D, CHR 0x22, CHR ''['', CHR ''{'', CHR ''n'', CHR ''t'', CHR ''f'', CHR ''N'', CHR ''I''}"
  using not_digit_chars by blast

lemma scan_word_number:
  assumes "number_start s" shows "scan_word scan_words s = None"
proof -
  from assms obtain c r where s: "s = c # r" and "is_digit c \<or> c = CHR 0x2D \<and> r \<noteq> [] \<and> is_digit (hd r)"
    by (auto simp: number_start_def split: list.splits)
  then consider "is_digit c" | d t where "c = CHR 0x2D" "r = d # t" "is_digit d"
    by (cases r) auto
  then show ?thesis
  proof cases
    case 1
    then show ?thesis using s json_digit_not [of c] by (simp add: scan_words_def)
  next
    case 2
    then show ?thesis using s json_digit_not [of d] by (simp add: scan_words_def)
  qed
qed

lemma number_start_first:
  "number_start (c # t) \<Longrightarrow> c \<notin> {CHR 0x22, CHR ''['', CHR ''{''}"
  using json_digit_not [of c] by (auto simp: number_start_def)

lemma scan_value_number:
  assumes "scan_number s = Some (v, [])" and "number_end r"
  shows "scan_value (Suc n) (s @ r) = Some (v, r)"
proof -
  have st: "number_start (s @ r)" using assms(1) by (intro number_start_append scan_number_start)
  then obtain c t where ct: "s @ r = c # t" by (cases "s @ r") (auto simp: number_start_def)
  have "number_start (c # t)" using st by (simp only: ct)
  then have "c \<notin> {CHR 0x22, CHR ''['', CHR ''{''}" by (rule number_start_first)
  then show ?thesis
    using scan_number_extend [OF assms] scan_word_number [OF st] by (simp add: ct)
qed


section \<open>The round trip\<close>

fun json_good :: "pyval \<Rightarrow> bool" where
  "json_good (PFloat (Fin q)) \<longleftrightarrow> is_double q"
| "json_good (PList vs) \<longleftrightarrow> list_all json_good vs"
| "json_good (PDict d) \<longleftrightarrow> distinct (map fst d) \<and> list_all (\<lambda>p. json_good (snd p)) d"
| "json_good v \<longleftrightarrow> True"

text \<open>What is relied on of \<^verbatim>\<open>float.__repr__\<close>.\<close>

locale float_repr =
  fixes shown :: "rat \<Rightarrow> string"
  assumes show_reads: "is_double q \<Longrightarrow> scan_number (shown q) = Some (PFloat (Fin q), [])"
begin

text \<open>The first character of a printed value.\<close>

lemma json_text_first:
  assumes "json_good v"
  shows "\<exists>c t. json_text shown a gap v = c # t \<and> c \<noteq> CHR '']'' \<and> \<not> json_space c"
proof -
  have num: "\<exists>c t. s = c # t \<and> c \<noteq> CHR '']'' \<and> \<not> json_space c" if "scan_number s = Some x" for s x
    using scan_number_start [OF that]
    by (auto simp: number_start_def json_space_def is_digit_def Let_def split: list.splits)
  show ?thesis
    using assms
  proof (cases v)
    case (PInt i)
    then show ?thesis using num [OF scan_number_show] by simp
  next
    case (PFloat x)
    then show ?thesis using assms num [OF show_reads] by (cases x) (auto simp: json_space_def)
  qed (auto simp: json_space_def json_string_def)
qed

lemma skip_json_text: "json_good v \<Longrightarrow> skip (json_text shown a gap v @ r) = json_text shown a gap v @ r"
  using json_text_first [of v a gap] by (auto simp: skip_def)

lemma skip_gap: "list_all json_space gap \<Longrightarrow> skip (gap @ s) = skip s"
  by (simp add: skip_def list_all_iff dropWhile_append2)

text \<open>A list of printed values, each of which reads back.\<close>

lemma scan_elements_text:
  assumes gap: "list_all json_space gap"
    and vs: "\<forall>v \<in> set vs. json_good v \<and> (\<forall>n rest. number_end rest \<longrightarrow>
      2 * length (json_text shown a gap v) \<le> n \<longrightarrow>
      scan_value n (json_text shown a gap v @ rest) = Some (v, rest))"
    and "vs \<noteq> []" and "2 * length (join (CHR '','' # gap) (map (json_text shown a gap) vs)) < n"
  shows "scan_elements n (join (CHR '','' # gap) (map (json_text shown a gap) vs) @ CHR '']'' # rest) = Some (vs, rest)"
  using vs assms(3,4)
proof (induction vs arbitrary: n)
  case (Cons v vs)
  obtain m where n: "n = Suc m" using Cons.prems(3) by (cases n) auto
  show ?case
  proof (cases vs)
    case Nil
    have "scan_value m (json_text shown a gap v @ CHR '']'' # rest) = Some (v, CHR '']'' # rest)"
      using Cons.prems n Nil by (simp add: number_end_def)
    then show ?thesis using Nil n by (simp add: skip_def json_space_def)
  next
    case (Cons w ws)
    let ?ws = "join (CHR '','' # gap) (map (json_text shown a gap) vs)"
    have "scan_value m (json_text shown a gap v @ CHR '','' # gap @ ?ws @ CHR '']'' # rest)
      = Some (v, CHR '','' # gap @ ?ws @ CHR '']'' # rest)"
      using Cons.prems n Cons by (simp add: number_end_def)
    moreover have "skip (gap @ ?ws @ CHR '']'' # rest) = ?ws @ CHR '']'' # rest"
      using gap Cons Cons.prems(1) skip_json_text [of w a gap]
      by (cases ws) (simp_all add: skip_gap)
    moreover have "scan_elements m (?ws @ CHR '']'' # rest) = Some (vs, rest)"
      using Cons.prems n Cons by (intro Cons.IH) auto
    ultimately show ?thesis using n Cons by (simp add: skip_def json_space_def)
  qed
qed simp


definition member_text :: "bool \<Rightarrow> string \<Rightarrow> string \<times> pyval \<Rightarrow> string" where
  "member_text a gap p = json_string a (fst p) @ CHR '':'' # gap @ json_text shown a gap (snd p)"

lemma scan_members_text:
  assumes gap: "list_all json_space gap"
    and ps: "\<forall>p \<in> set ps. json_good (snd p) \<and> (\<forall>n rest. number_end rest \<longrightarrow>
      2 * length (json_text shown a gap (snd p)) \<le> n \<longrightarrow>
      scan_value n (json_text shown a gap (snd p) @ rest) = Some (snd p, rest))"
    and "ps \<noteq> []" and "2 * length (join (CHR '','' # gap) (map (member_text a gap) ps)) \<le> n"
  shows "scan_members n (tl (join (CHR '','' # gap) (map (member_text a gap) ps)) @ CHR ''}'' # rest) = Some (ps, rest)"
  using ps assms(3,4)
proof (induction ps arbitrary: n)
  case (Cons p ps)
  obtain k v where p: "p = (k, v)" by fastforce
  obtain m where n: "n = Suc m"
    using Cons.prems(3) by (cases n; cases ps) (auto simp: member_text_def json_string_def)
  let ?k = "concat (map (json_char a) k)"
  have key: "scan_string (?k @ CHR 0x22 # t) = Some (k, t)" for t by (rule scan_json_string)
  have val: "skip (gap @ json_text shown a gap v @ t) = json_text shown a gap v @ t" for t
    using Cons.prems(1) p by (simp add: skip_gap [OF gap] skip_json_text)
  have colon: "skip (CHR '':'' # t) = CHR '':'' # t" "skip (CHR '','' # t) = CHR '','' # t"
    "skip (CHR ''}'' # t) = CHR ''}'' # t" "skip (CHR 0x22 # t) = CHR 0x22 # t" for t
    by (simp_all add: skip_def json_space_def)
  show ?case
  proof (cases ps)
    case Nil
    have "scan_value m (json_text shown a gap v @ CHR ''}'' # rest) = Some (v, CHR ''}'' # rest)"
      using Cons.prems n Nil p by (simp add: number_end_def member_text_def)
    then show ?thesis using Nil n p by (simp add: member_text_def json_string_def key val colon)
  next
    case (Cons q qs)
    let ?ps = "join (CHR '','' # gap) (map (member_text a gap) ps)"
    have ps: "?ps = CHR 0x22 # tl ?ps"
      using Cons by (cases qs) (simp_all add: member_text_def json_string_def)
    have all: "join (CHR '','' # gap) (map (member_text a gap) (p # ps))
        = CHR 0x22 # ?k @ CHR 0x22 # CHR '':'' # gap @ json_text shown a gap v @ CHR '','' # gap @ ?ps"
      using Cons p by (simp add: member_text_def [of a gap "(k, v)"] json_string_def)
    define J where "J = ?ps"
    have "scan_value m (json_text shown a gap v @ CHR '','' # gap @ ?ps @ CHR ''}'' # rest)
      = Some (v, CHR '','' # gap @ ?ps @ CHR ''}'' # rest)"
      using Cons.prems(1,3) n p unfolding all by (simp add: number_end_def)
    moreover have "skip (gap @ ?ps @ CHR ''}'' # rest) = CHR 0x22 # tl ?ps @ CHR ''}'' # rest"
      by (simp only: skip_gap [OF gap]) (metis append_Cons colon(4) ps)
    moreover have "scan_members m (tl ?ps @ CHR ''}'' # rest) = Some (ps, rest)"
      using Cons.prems(1,3) n Cons unfolding all by (intro Cons.IH) simp_all
    ultimately show ?thesis
      unfolding n all J_def [symmetric] by (simp add: key val colon p)
  qed
qed simp

lemma fold_dict_set: "distinct (map fst ps) \<Longrightarrow> set (map fst d) \<inter> set (map fst ps) = {} \<Longrightarrow>
  fold (\<lambda>(k, v) d. dict_set k v d) ps d = d @ ps"
proof (induction ps arbitrary: d)
  case (Cons p ps)
  have "dict_set (fst p) (snd p) d = d @ [p]"
    using Cons.prems(2) by (induction d) auto
  then show ?case using Cons by (auto simp: split_beta)
qed simp

lemma scan_words_text:
  "scan_value (Suc n) (''null'' @ r) = Some (PNone, r)"
  "scan_value (Suc n) (''true'' @ r) = Some (PBool True, r)"
  "scan_value (Suc n) (''false'' @ r) = Some (PBool False, r)"
  "scan_value (Suc n) (''NaN'' @ r) = Some (PFloat NaN, r)"
  "scan_value (Suc n) (''Infinity'' @ r) = Some (PFloat PosInf, r)"
  "scan_value (Suc n) (''-Infinity'' @ r) = Some (PFloat NegInf, r)"
  by (simp_all add: scan_words_def)

theorem scan_json_text:
  assumes "list_all json_space gap"
  shows "json_good v \<Longrightarrow> number_end rest \<Longrightarrow> 2 * length (json_text shown a gap v) \<le> n \<Longrightarrow>
    scan_value n (json_text shown a gap v @ rest) = Some (v, rest)"
proof (induction v arbitrary: n rest)
  case PNone
  then obtain m where "n = Suc m" by (cases n) auto
  then show ?case using scan_words_text(1) by simp
next
  case (PBool b)
  then obtain m where "n = Suc m" by (cases n) (auto split: if_splits)
  then show ?case using scan_words_text(2,3) [of m rest] by (cases b) (simp_all only: json_text.simps if_True if_False)
next
  case (PInt i)
  moreover have "show_int i \<noteq> []" using scan_number_start [OF scan_number_show, of i] by (auto simp: number_start_def)
  ultimately show ?case using scan_value_number [OF scan_number_show] by (cases n) simp_all
next
  case (PFloat x)
  show ?case
  proof (cases x)
    case (Fin q)
    then have "scan_number (shown q) = Some (PFloat (Fin q), [])" using PFloat show_reads by simp
    moreover from scan_number_start [OF this] have "shown q \<noteq> []" by (auto simp: number_start_def)
    ultimately show ?thesis using PFloat Fin scan_value_number by (cases n) simp_all
  next
    case NaN
    then obtain m where "n = Suc m" using PFloat by (cases n) auto
    then show ?thesis using scan_words_text(4) NaN by simp
  next
    case PosInf
    then obtain m where "n = Suc m" using PFloat by (cases n) auto
    then show ?thesis using scan_words_text(5) PosInf by simp
  next
    case NegInf
    then obtain m where "n = Suc m" using PFloat by (cases n) auto
    then show ?thesis using scan_words_text(6) NegInf by simp
  qed
next
  case (PStr s)
  then show ?case by (cases n) (simp_all add: json_string_def scan_json_string)
next
  case (PList vs)
  obtain m where n: "n = Suc m" using PList.prems by (cases n) auto
  show ?case
  proof (cases vs)
    case Nil
    then show ?thesis using n by (simp add: skip_def json_space_def)
  next
    case (Cons w ws)
    let ?t = "join (CHR '','' # gap) (map (json_text shown a gap) vs)"
    have "scan_elements m (?t @ CHR '']'' # rest) = Some (vs, rest)"
      using PList n Cons by (intro scan_elements_text assms) (auto simp: list_all_iff)
    moreover obtain c t where "?t = c # t" "c \<noteq> CHR '']''" "\<not> json_space c"
      using json_text_first [of w a gap] PList.prems(1) Cons by (cases ws) auto
    ultimately show ?thesis using n by (simp add: skip_def)
  qed
next
  case (PDict d)
  obtain m where n: "n = Suc m" using PDict.prems by (cases n) auto
  show ?case
  proof (cases d)
    case Nil
    then show ?thesis using n by (simp add: skip_def json_space_def)
  next
    case (Cons p ps)
    let ?t = "join (CHR '','' # gap) (map (member_text a gap) d)"
    have dtext: "json_text shown a gap (PDict d) = ''{'' @ ?t @ ''}''"
      by (simp add: member_text_def [abs_def])
    have len: "2 * length ?t \<le> m"
      using PDict.prems(3) unfolding dtext n by simp
    have "scan_members m (tl ?t @ CHR ''}'' # rest) = Some (d, rest)"
    proof (intro scan_members_text assms)
      show "\<forall>p\<in>set d. json_good (snd p) \<and> (\<forall>n rest. number_end rest \<longrightarrow>
        2 * length (json_text shown a gap (snd p)) \<le> n \<longrightarrow>
        scan_value n (json_text shown a gap (snd p) @ rest) = Some (snd p, rest))"
        using PDict.IH PDict.prems(1) by (fastforce simp: list_all_iff)
    qed (use len Cons in simp_all)
    moreover obtain J where "?t = CHR 0x22 # J"
      using Cons by (cases ps) (simp_all add: member_text_def json_string_def)
    moreover have "fold (\<lambda>(k, v) d. dict_set k v d) d [] = d"
      using fold_dict_set [of d "[]"] PDict.prems(1) by simp
    ultimately show ?thesis
      unfolding n dtext by (simp add: skip_def json_space_def)
  qed
qed

theorem json_loads_text:
  assumes "list_all json_space gap" and "json_good v"
  shows "json_loads (json_text shown a gap v) = Inr v"
  using scan_json_text [OF assms, of "[]" a] skip_json_text [OF assms(2), of a gap "[]"]
  by (simp add: json_loads_def number_end_def skip_def)

end

lemma json_good_sort_keys: "json_good v \<Longrightarrow> json_good (sort_keys v)"
proof (induction v)
  case (PDict d)
  have "json_good (sort_keys (snd p))" if "p \<in> set d" for p
    using PDict that by (cases p) (auto simp: list_all_iff)
  moreover have "distinct (map fst (map (\<lambda>p. (fst p, sort_keys (snd p))) d))"
    using PDict.prems by (simp add: comp_def)
  then have "distinct (map fst (sort_key fst (map (\<lambda>p. (fst p, sort_keys (snd p))) d)))"
    by (simp only: distinct_map distinct_sort set_sort)
  ultimately show ?case by (simp add: list_all_iff)
qed (auto simp: list_all_iff)


section \<open>A float printer\<close>

text \<open>Every double has a finite decimal expansion, which is a text that reads back. (\<^verbatim>\<open>repr\<close> prints a
  shorter one.)\<close>

definition exact_decimal :: "rat \<Rightarrow> string" where
  "exact_decimal q =
     (let (n, d) = quotient_of \<bar>q\<bar>; k = Suc (bitlen (nat d)); m = nat n * (10 ^ k div nat d)
      in (if q < 0 then ''-'' else []) @ show_nat (m div 10 ^ k) @ ''.'' @ padded k (int m mod 10 ^ k))"

lemma odd_dvd_power: "odd d \<Longrightarrow> d dvd 2 ^ j \<Longrightarrow> d = (1 :: nat)"
proof -
  assume "odd d" "d dvd 2 ^ j"
  then have "coprime d (2 ^ j)" by simp
  with \<open>d dvd 2 ^ j\<close> show "d = 1" by (metis coprime_absorb_left is_unit_gcd nat_dvd_1_iff_1 coprime_common_divisor dvd_refl)
qed

lemma dvd_power_bitlen: "0 < d \<Longrightarrow> d dvd 2 ^ j \<Longrightarrow> d dvd 2 ^ bitlen d" for d :: nat
proof (induction d arbitrary: j rule: less_induct)
  case (less d)
  show ?case
  proof (cases "even d")
    case True
    then obtain e where e: "d = 2 * e" by blast
    with less.prems obtain i where "j = Suc i" by (cases j) auto
    with e less have "e dvd 2 ^ bitlen e" by auto
    moreover have "bitlen d = Suc (bitlen e)" using e less.prems by (subst bitlen.simps) simp
    ultimately show ?thesis using e by simp
  next
    case False
    with less.prems have "d = 1" using odd_dvd_power by blast
    then show ?thesis by simp
  qed
qed

lemma double_denominator:
  assumes "is_double q" and "quotient_of \<bar>q\<bar> = (n, d)"
  shows "nat d dvd 2 ^ bitlen (nat d)" "0 < d"
proof -
  show d: "0 < d" using assms(2) quotient_of_denom_pos by blast
  obtain k where k: "q * 2 ^ k \<in> \<int>" using double_dyadic [OF assms(1)] by blast
  then have "\<bar>q\<bar> * 2 ^ k \<in> \<int>" by (auto simp: abs_if)
  then obtain z where z: "\<bar>q\<bar> * 2 ^ k = of_int z" by (auto elim: Ints_cases)
  have "of_int n / of_int d = \<bar>q\<bar>" using assms(2) by (metis quotient_of_div)
  with z d have "of_int n * 2 ^ k = (of_int (z * d) :: rat)" by (auto simp: field_simps)
  then have "n * 2 ^ k = z * d" by (metis of_int_eq_iff of_int_mult of_int_numeral of_int_power)
  then have "d dvd n * 2 ^ k" by simp
  moreover have "coprime d n" using assms(2) quotient_of_coprime by (metis coprime_commute)
  ultimately have "d dvd 2 ^ k" by (simp add: coprime_dvd_mult_right_iff)
  then have "nat d dvd 2 ^ k" using d by (metis nat_dvd_iff less_imp_le nat_power_eq nat_numeral zero_le_numeral int_dvd_int_iff nat_0_le of_nat_numeral of_nat_power)
  then show "nat d dvd 2 ^ bitlen (nat d)" using d by (intro dvd_power_bitlen) auto
qed


lemma takeWhile_digits:
  "list_all is_digit ds \<Longrightarrow> \<not> is_digit c \<Longrightarrow> span_digits (ds @ c # r) = (ds, c # r)"
  by (simp add: span_digits_def list_all_iff takeWhile_append2 dropWhile_append2)

lemma scan_decimal:
  assumes "scan_integer ip = Some (ip, [])" and "list_all is_digit ip" "list_all is_digit fp" "fp \<noteq> []"
  shows "scan_number ((if neg then ''-'' else []) @ ip @ ''.'' @ fp)
    = Some (PFloat (to_double (negate_if neg (decimal_value ip fp 0))), [])"
proof -
  obtain c t where ip: "ip = c # t" "is_digit c"
    using assms(1,2) by (cases ip) (auto simp: scan_integer_def span_digits_def)
  have "scan_integer (ip @ CHR ''.'' # fp) = Some (ip, CHR ''.'' # fp)"
    using assms(1,2) takeWhile_digits [of ip "CHR ''.''" fp]
    by (auto simp: scan_integer_def is_digit_def [of "CHR ''.''"] span_digits_all split: list.splits if_splits)
  moreover have "scan_fraction (CHR ''.'' # fp) = (Some fp, [])"
    using assms(3,4) by (cases fp) (simp_all add: scan_fraction_def span_digits_all)
  moreover have "scan_exponent [] = (None, [])" by (simp add: scan_exponent_def)
  moreover have "c \<noteq> CHR ''-''" using ip(2) by (auto simp: is_digit_def)
  ultimately show ?thesis
    using ip(1) by (cases neg) (simp_all add: scan_number_def)
qed

lemma exact_decimal_reads:
  assumes "is_double q"
  shows "scan_number (exact_decimal q) = Some (PFloat (Fin q), [])"
proof -
  obtain n d where nd: "quotient_of \<bar>q\<bar> = (n, d)" by fastforce
  define k where "k = Suc (bitlen (nat d))"
  define m where "m = nat n * (10 ^ k div nat d)"
  have d: "nat d dvd 2 ^ bitlen (nat d)" "0 < d" using double_denominator [OF assms nd] by auto
  have q: "\<bar>q\<bar> = of_int n / of_int d" using nd by (metis quotient_of_div)
  have n: "0 \<le> n" using q d(2) by (metis abs_ge_zero of_int_0_le_iff of_int_0_less_iff zero_le_divide_iff not_less order.asym order_le_less)
  have "nat d dvd 10 ^ k"
    using d(1) by (metis dvd_trans dvd_power_le le_imp_power_dvd k_def le_SucI order_refl even_numeral dvd_def mult_2 numeral_Bit0 power_mult_distrib dvd_triv_left)
  then have "10 ^ k = nat d * (10 ^ k div nat d)" by simp
  then have "rat_of_nat (10 ^ k) = of_nat (nat d) * of_nat (10 ^ k div nat d)" by (metis of_nat_mult)
  then have "of_nat m = \<bar>q\<bar> * 10 ^ k" using d(2) n by (simp add: m_def q field_simps)
  moreover have "digits_value (show_nat (m div 10 ^ k) @ padded k (int m mod 10 ^ k)) = int m"
    using div_mult_mod_eq [of "int m" "10 ^ k"]
    by (simp only: digits_value_append show_nat_value digits_value_padded zdiv_int length_padded
        of_nat_power of_nat_numeral mod_mod_trivial Euclidean_Rings.pos_mod_sign zero_less_power zero_less_numeral)
  ultimately have "decimal_value (show_nat (m div 10 ^ k)) (padded k (int m mod 10 ^ k)) 0 = \<bar>q\<bar>"
    by (simp add: decimal_value_def)
  moreover have "exact_decimal q = (if q < 0 then ''-'' else []) @ show_nat (m div 10 ^ k) @ ''.'' @ padded k (int m mod 10 ^ k)"
    by (simp add: exact_decimal_def nd k_def m_def Let_def)
  moreover have "padded k (int m mod 10 ^ k) \<noteq> []"
    using length_padded [of k "int m mod 10 ^ k"] by (auto simp: k_def simp del: length_padded)
  moreover have "to_double (negate_if (q < 0) \<bar>q\<bar>) = Fin q"
    using assms by (simp add: is_double_def negate_if_def abs_if)
  ultimately show ?thesis
    using scan_decimal [OF scan_integer_show, of _ "padded k (int m mod 10 ^ k)" "q < 0"] show_nat_digits
    by (metis padded_digits)
qed

interpretation exact_decimal: float_repr exact_decimal
  by unfold_locales (rule exact_decimal_reads)

end
