(* ===== verification/Contract_Adapter.thy ===== *)
theory Contract_Adapter
  imports Json_Roundtrip
begin

text \<open>
  The strategy signal boundary (\<^verbatim>\<open>strategy_intelligence/contract_adapter.py\<close>): the event and its inner
  signal, their validation, and their JSON form. A dataclass does not check its annotations, and
  \<^verbatim>\<open>from_json\<close> hands over whatever JSON value a field has, so a field is a value of any type.
\<close>

section \<open>Python's checks\<close>

text \<open>\<^verbatim>\<open>s.replace(p, "")\<close>.\<close>

function remove_text :: "string \<Rightarrow> string \<Rightarrow> string" where
  "remove_text p s =
     (case s of
        [] \<Rightarrow> []
      | c # r \<Rightarrow> (case strip_prefix p s of
            Some t \<Rightarrow> if p = [] then s else remove_text p t
          | None \<Rightarrow> c # remove_text p r))"
  by pat_completeness auto
termination
  by (relation "measure (\<lambda>(p, s). length s)") (auto dest: strip_prefix_length)

declare remove_text.simps [simp del]

definition strip_chars :: "string \<Rightarrow> string \<Rightarrow> string" where
  "strip_chars cs s = rev (dropWhile (\<lambda>c. c \<in> set cs) (rev (dropWhile (\<lambda>c. c \<in> set cs) s)))"

text \<open>Digits with single underscores between them.\<close>

fun no_double_underscore :: "string \<Rightarrow> bool" where
  "no_double_underscore (a # b # s) \<longleftrightarrow>
     \<not> (a = CHR ''_'' \<and> b = CHR ''_'') \<and> no_double_underscore (b # s)"
| "no_double_underscore s \<longleftrightarrow> True"

definition grouped :: "(char \<Rightarrow> bool) \<Rightarrow> string \<Rightarrow> bool" where
  "grouped digit s \<longleftrightarrow> s \<noteq> [] \<and> digit (hd s) \<and> digit (last s)
     \<and> list_all (\<lambda>c. digit c \<or> c = CHR ''_'') s \<and> no_double_underscore s"

text \<open>Whether \<^verbatim>\<open>int(s, 16)\<close> accepts the text.\<close>

definition hex_int_ok :: "string \<Rightarrow> bool" where
  "hex_int_ok s =
     (let t = strip s;
          u = (case t of c # r \<Rightarrow> if c = CHR ''+'' \<or> c = CHR ''-'' then r else t | [] \<Rightarrow> t);
          v = (case u of a # b # r \<Rightarrow>
                   if a = CHR ''0'' \<and> (b = CHR ''x'' \<or> b = CHR ''X'')
                   then (case r of c # r' \<Rightarrow> if c = CHR ''_'' then r' else r | [] \<Rightarrow> r) else u
                 | _ \<Rightarrow> u)
      in grouped (\<lambda>c. hex_value c \<noteq> None) v)"

text \<open>\<^verbatim>\<open>uuid.UUID(v)\<close>, as the exception it raises.\<close>

definition uuid_error :: "pyval \<Rightarrow> exn option" where
  "uuid_error v =
     (case v of
        PStr s \<Rightarrow>
          (let hex = remove_text ''-'' (strip_chars ''{}''
                 (remove_text ''uuid:'' (remove_text ''urn:'' s)))
           in if length hex \<noteq> 32 then Some (value_error ''badly formed hexadecimal UUID string'')
              else if \<not> hex_int_ok hex
              then Some (value_error (''invalid literal for int() with base 16: '' @ py_repr hex))
              else None)
      | PNone \<Rightarrow> Some (type_error
          ''one of the hex, bytes, bytes_le, fields, or int arguments must be given'')
      | _ \<Rightarrow> Some (attribute_error ''object has no attribute replace''))"

text \<open>\<^verbatim>\<open>^[A-Z0-9]{2,20}$\<close> with \<^verbatim>\<open>match\<close>: the dollar also stands before a final newline.\<close>

definition symbol_char :: "char \<Rightarrow> bool" where
  "symbol_char c \<longleftrightarrow> is_digit c \<or> 65 \<le> (of_char c :: nat) \<and> (of_char c :: nat) \<le> 90"

definition symbol_matches :: "string \<Rightarrow> bool" where
  "symbol_matches s \<longleftrightarrow>
     (let t = takeWhile symbol_char s; r = dropWhile symbol_char s
      in 2 \<le> length t \<and> length t \<le> 20 \<and> (r = [] \<or> r = [CHR 0x0A]))"

text \<open>\<^verbatim>\<open>v not in frozenset(...)\<close> of strings; a list or a dictionary cannot be hashed.\<close>

definition among :: "pyval \<Rightarrow> string list \<Rightarrow> exn + bool" where
  "among v ws =
     (case v of
        PList _ \<Rightarrow> Inl (type_error (''unhashable type: '' @ quoted ''list''))
      | PDict _ \<Rightarrow> Inl (type_error (''unhashable type: '' @ quoted ''dict''))
      | PStr s \<Rightarrow> Inr (s \<in> set ws)
      | _ \<Rightarrow> Inr False)"

text \<open>\<^verbatim>\<open>float(s)\<close> of a text.\<close>

definition digit_part :: "string \<Rightarrow> (string \<times> string)" where
  "digit_part s =
     (let t = takeWhile (\<lambda>c. is_digit c \<or> c = CHR ''_'') s
      in if grouped is_digit t then (filter is_digit t, drop (length t) s) else ([], s))"

definition float_number :: "string \<Rightarrow> rat option" where
  "float_number s =
     (let (ip, r) = digit_part s;
          (fp, r1) = (case r of c # q \<Rightarrow> if c = CHR ''.'' then digit_part q else ([], r) | [] \<Rightarrow> ([], r));
          (neg, r2) = (case r1 of c # x # q \<Rightarrow>
               if (c = CHR ''e'' \<or> c = CHR ''E'') \<and> x = CHR ''-'' then (True, q)
               else if (c = CHR ''e'' \<or> c = CHR ''E'') \<and> x = CHR ''+'' then (False, q)
               else if c = CHR ''e'' \<or> c = CHR ''E'' then (False, x # q) else (False, [])
             | _ \<Rightarrow> (False, []));
          (ep, r3) = digit_part r2
      in if ip = [] \<and> fp = [] then None
         else if r1 = [] then Some (decimal_value ip fp 0)
         else if ep \<noteq> [] \<and> r3 = []
         then Some (decimal_value ip fp (if neg then - digits_value ep else digits_value ep))
         else None)"

definition float_of_text :: "string \<Rightarrow> pyfloat option" where
  "float_of_text s =
     (let t = strip s;
          (neg, u) = (case t of c # r \<Rightarrow> if c = CHR ''-'' then (True, r)
              else if c = CHR ''+'' then (False, r) else (False, t) | [] \<Rightarrow> (False, t))
      in if lower u = ''inf'' \<or> lower u = ''infinity'' then Some (if neg then NegInf else PosInf)
         else if lower u = ''nan'' then Some NaN
         else map_option (\<lambda>q. to_double (negate_if neg q)) (float_number u))"

definition float_of :: "pyval \<Rightarrow> exn + pyfloat" where
  "float_of v =
     (case v of
        PFloat x \<Rightarrow> Inr x
      | PBool b \<Rightarrow> Inr (Fin (if b then 1 else 0))
      | PInt i \<Rightarrow> (case to_double (of_int i) of
            Fin q \<Rightarrow> Inr (Fin q)
          | _ \<Rightarrow> Inl (Raised (OtherError ''OverflowError'') ''int too large to convert to float''))
      | PStr s \<Rightarrow> (case float_of_text s of
            Some x \<Rightarrow> Inr x
          | None \<Rightarrow> Inl (value_error (''could not convert string to float: '' @ py_repr s)))
      | _ \<Rightarrow> Inl (type_error ''float() argument must be a string or a real number''))"

section \<open>Events\<close>

text \<open>\<^verbatim>\<open>ContractValidationError\<close>, a subclass of \<^verbatim>\<open>ValueError\<close>. Where the message prints a set, whose
  order Python does not fix, the set is left out.\<close>

definition contract_error :: "string \<Rightarrow> exn" where
  "contract_error m = Raised (OtherError ''ContractValidationError'') m"

definition valid_directions :: "string list" where
  "valid_directions = [''LONG'', ''SHORT'', ''FLAT'']"

definition valid_regimes :: "string list" where
  "valid_regimes = [''TRENDING'', ''RANGING'', ''VOLATILE'', ''CALM'']"

definition required_version :: string where
  "required_version = ''1.0.0''"

record signal =
  sg_symbol :: pyval
  sg_direction :: pyval
  sg_confidence :: pyfloat
  sg_regime :: pyval
  sg_parameters :: pyval

record signal_event =
  se_version :: pyval
  se_event_id :: pyval
  se_timestamp_utc :: pyval
  se_source_agent :: pyval
  se_signal :: signal
  se_trace_id :: pyval
  se_metadata :: pyval

definition signal_validate :: "signal \<Rightarrow> exn + unit" where
  "signal_validate s =
     (case sg_symbol s of
        PStr x \<Rightarrow>
          (if \<not> symbol_matches x
           then Inl (contract_error (''symbol '' @ quoted x @ '' does not match ^[A-Z0-9]{2,20}$''))
           else case among (sg_direction s) valid_directions of
             Inl e \<Rightarrow> Inl e
           | Inr False \<Rightarrow> Inl (contract_error ''direction not in the valid directions'')
           | Inr True \<Rightarrow>
               (if \<not> (float_le (Fin 0) (sg_confidence s) \<and> float_le (sg_confidence s) (Fin 1))
                then Inl (contract_error ''confidence out of range [0.0, 1.0]'')
                else case among (sg_regime s) valid_regimes of
                  Inl e \<Rightarrow> Inl e
                | Inr False \<Rightarrow> Inl (contract_error ''regime not in the valid regimes'')
                | Inr True \<Rightarrow> Inr ()))
      | _ \<Rightarrow> Inl (type_error ''expected string or bytes-like object''))"

text \<open>\<^verbatim>\<open>except ValueError as exc: raise ContractValidationError(...)\<close>.\<close>

definition checked_uuid :: "string \<Rightarrow> pyval \<Rightarrow> exn + unit" where
  "checked_uuid field v =
     (case uuid_error v of
        None \<Rightarrow> Inr ()
      | Some (Raised ValueError m) \<Rightarrow> Inl (contract_error (field @ '' is not a valid UUID: '' @ m))
      | Some e \<Rightarrow> Inl e)"

definition event_validate :: "signal_event \<Rightarrow> exn + unit" where
  "event_validate e =
     (if se_version e \<noteq> PStr required_version
      then Inl (contract_error (''version must be '' @ quoted required_version))
      else if \<not> truthy (se_source_agent e) then Inl (contract_error ''source_agent must not be empty'')
      else case checked_uuid ''event_id'' (se_event_id e) of
        Inl x \<Rightarrow> Inl x
      | Inr _ \<Rightarrow>
          (case (if se_trace_id e \<noteq> PNone then checked_uuid ''trace_id'' (se_trace_id e) else Inr ()) of
             Inl x \<Rightarrow> Inl x
           | Inr _ \<Rightarrow> signal_validate (se_signal e)))"

text \<open>\<^verbatim>\<open>asdict(self)\<close> and the removal of the empty optional parts.\<close>

definition signal_dict :: "signal \<Rightarrow> pydict" where
  "signal_dict s =
     [(''symbol'', sg_symbol s), (''direction'', sg_direction s), (''confidence'', PFloat (sg_confidence s)),
      (''regime'', sg_regime s)]
     @ (if truthy (sg_parameters s) then [(''parameters'', sg_parameters s)] else [])"

definition event_dict :: "signal_event \<Rightarrow> pydict" where
  "event_dict e =
     [(''version'', se_version e), (''event_id'', se_event_id e), (''timestamp_utc'', se_timestamp_utc e),
      (''source_agent'', se_source_agent e), (''signal'', PDict (signal_dict (se_signal e)))]
     @ (if se_trace_id e = PNone then [] else [(''trace_id'', se_trace_id e)])
     @ (if truthy (se_metadata e) then [(''metadata'', se_metadata e)] else [])"

definition event_to_json :: "(rat \<Rightarrow> string) \<Rightarrow> signal_event \<Rightarrow> exn + string" where
  "event_to_json shown e =
     (case event_validate e of
        Inl x \<Rightarrow> Inl x
      | Inr _ \<Rightarrow> Inr (json_text shown True [] (sort_keys (PDict (event_dict e)))))"

definition known_fields :: "string list" where
  "known_fields = [''version'', ''event_id'', ''timestamp_utc'', ''trace_id'', ''source_agent'',
     ''signal'', ''metadata'']"

definition known_signal_fields :: "string list" where
  "known_signal_fields = [''symbol'', ''direction'', ''confidence'', ''regime'', ''parameters'']"

definition get_or :: "pydict \<Rightarrow> string \<Rightarrow> pyval \<Rightarrow> pyval" where
  "get_or d k v = (case map_of d k of Some x \<Rightarrow> x | None \<Rightarrow> v)"

definition signal_from_dict :: "pydict \<Rightarrow> exn + signal" where
  "signal_from_dict d =
     (case float_of (get_or d ''confidence'' (PInt (-1))) of
        Inl x \<Rightarrow> Inl x
      | Inr c \<Rightarrow> Inr \<lparr>sg_symbol = get_or d ''symbol'' (PStr []), sg_direction = get_or d ''direction'' (PStr []),
           sg_confidence = c, sg_regime = get_or d ''regime'' (PStr []),
           sg_parameters = get_or d ''parameters'' (PDict [])\<rparr>)"

definition event_from_dict :: "pydict \<Rightarrow> signal \<Rightarrow> signal_event" where
  "event_from_dict d s =
     \<lparr>se_version = get_or d ''version'' (PStr []), se_event_id = get_or d ''event_id'' (PStr []),
      se_timestamp_utc = get_or d ''timestamp_utc'' (PStr []),
      se_source_agent = get_or d ''source_agent'' (PStr []), se_signal = s,
      se_trace_id = get_or d ''trace_id'' PNone, se_metadata = get_or d ''metadata'' (PDict [])\<rparr>"

definition event_from_json :: "string \<Rightarrow> exn + signal_event" where
  "event_from_json raw =
     (case json_loads raw of
        Inl _ \<Rightarrow> Inl (contract_error ''invalid JSON'')
      | Inr (PDict d) \<Rightarrow>
          (if \<not> list_all (\<lambda>p. fst p \<in> set known_fields) d then Inl (contract_error ''unknown fields'')
           else case map_of d ''signal'' of
             Some (PDict sd) \<Rightarrow>
               (if \<not> list_all (\<lambda>p. fst p \<in> set known_signal_fields) sd
                then Inl (contract_error ''unknown signal fields'')
                else case signal_from_dict sd of
                  Inl x \<Rightarrow> Inl x
                | Inr s \<Rightarrow>
                    (let e = event_from_dict d s
                     in case event_validate e of Inl x \<Rightarrow> Inl x | Inr _ \<Rightarrow> Inr e))
           | _ \<Rightarrow> Inl (contract_error ''signal must be an object''))
      | Inr _ \<Rightarrow> Inl (contract_error ''expected JSON object''))"

text \<open>\<^verbatim>\<open>strftime("%Y-%m-%dT%H:%M:%SZ")\<close>.\<close>

definition utc_stamp :: "datetime \<Rightarrow> string" where
  "utc_stamp t =
     (let day = micros_of t div 86400000000; sec = micros_of t mod 86400000000 div 1000000
      in case civil day of (y, m, d) \<Rightarrow>
           show_int y @ ''-'' @ padded 2 m @ ''-'' @ padded 2 d @ ''T'' @ padded 2 (sec div 3600) @ '':''
             @ padded 2 (sec div 60 mod 60) @ '':'' @ padded 2 (sec mod 60) @ ''Z'')"

definition event_create ::
  "string \<Rightarrow> string \<Rightarrow> string \<Rightarrow> pyfloat \<Rightarrow> string \<Rightarrow> pydict option \<Rightarrow> pydict option \<Rightarrow>
   ('z env_world_scheme, signal_event) action" where
  "event_create source_agent symbol direction confidence regime parameters metadata =
     bindA fresh_uuid (\<lambda>u.
     bindA now (\<lambda>t.
       (let e = \<lparr>se_version = PStr required_version, se_event_id = PStr u,
              se_timestamp_utc = PStr (utc_stamp t), se_source_agent = PStr source_agent,
              se_signal = \<lparr>sg_symbol = PStr symbol, sg_direction = PStr direction,
                 sg_confidence = confidence, sg_regime = PStr regime,
                 sg_parameters = PDict (case parameters of None \<Rightarrow> [] | Some p \<Rightarrow> p)\<rparr>,
              se_trace_id = PNone, se_metadata = PDict (case metadata of None \<Rightarrow> [] | Some m \<Rightarrow> m)\<rparr>
        in bindA (lift_res (event_validate e)) (\<lambda>_. ret e))))"

section \<open>Facts\<close>

text \<open>What an accepted event satisfies.\<close>

definition signal_ok :: "signal \<Rightarrow> bool" where
  "signal_ok s \<longleftrightarrow>
     (case sg_symbol s of PStr x \<Rightarrow> symbol_matches x | _ \<Rightarrow> False)
     \<and> sg_direction s \<in> set (map PStr valid_directions)
     \<and> float_le (Fin 0) (sg_confidence s) \<and> float_le (sg_confidence s) (Fin 1)
     \<and> sg_regime s \<in> set (map PStr valid_regimes)"

definition event_ok :: "signal_event \<Rightarrow> bool" where
  "event_ok e \<longleftrightarrow>
     se_version e = PStr required_version \<and> truthy (se_source_agent e)
     \<and> uuid_error (se_event_id e) = None
     \<and> (se_trace_id e = PNone \<or> uuid_error (se_trace_id e) = None)
     \<and> signal_ok (se_signal e)"

lemma among_true: "among v ws = Inr True \<longleftrightarrow> v \<in> set (map PStr ws)"
  by (cases v) (auto simp: among_def)

lemma signal_validate_ok: "signal_validate s = Inr () \<longleftrightarrow> signal_ok s"
  unfolding signal_validate_def signal_ok_def among_true [symmetric]
  by (cases "sg_symbol s") (auto split: sum.splits bool.splits)

lemma checked_uuid_ok: "checked_uuid f v = Inr () \<longleftrightarrow> uuid_error v = None"
  by (auto simp: checked_uuid_def split: option.splits exn.splits exn_class.splits)

lemma checked_uuid_error: "uuid_error v = Some x \<Longrightarrow> \<exists>y. checked_uuid f v = Inl y"
  by (auto simp: checked_uuid_def split: exn.splits exn_class.splits)

lemma event_validate_ok: "event_validate e = Inr () \<longleftrightarrow> event_ok e"
proof (cases "uuid_error (se_event_id e)")
  case (Some x)
  obtain y where "checked_uuid ''event_id'' (se_event_id e) = Inl y"
    using checked_uuid_error [OF Some] by blast
  then show ?thesis using Some by (auto simp: event_validate_def event_ok_def)
next
  case None
  then have id: "checked_uuid ''event_id'' (se_event_id e) = Inr ()" by (simp add: checked_uuid_ok)
  show ?thesis
  proof (cases "se_trace_id e = PNone \<or> uuid_error (se_trace_id e) = None")
    case True
    then have "(if se_trace_id e \<noteq> PNone then checked_uuid ''trace_id'' (se_trace_id e) else Inr ()) = Inr ()"
      by (auto simp: checked_uuid_ok)
    then show ?thesis
      using None True by (auto simp: event_validate_def event_ok_def id signal_validate_ok)
  next
    case False
    then obtain y where "checked_uuid ''trace_id'' (se_trace_id e) = Inl y"
      using checked_uuid_error [of "se_trace_id e"] by blast
    then show ?thesis using False by (auto simp: event_validate_def event_ok_def id)
  qed
qed

lemma uuid_ok_text: "uuid_error v = None \<Longrightarrow> \<exists>s. v = PStr s"
  by (cases v) (auto simp: uuid_error_def)

lemma truthy_sort_keys [simp]: "truthy (sort_keys v) = truthy v"
  by (cases v) (auto simp flip: set_empty)

lemma map_of_sorted: "distinct (map fst xs) \<Longrightarrow> map_of (sort_key fst xs) = map_of xs"
  by (subst map_of_inject_set) (auto simp: distinct_map)

lemma map_of_values: "map_of (map (\<lambda>p. (fst p, f (snd p))) xs) k = map_option f (map_of xs k)"
  by (induction xs) auto

lemma get_or_sorted:
  assumes "distinct (map fst d)"
  shows "get_or (sort_key fst (map (\<lambda>p. (fst p, sort_keys (snd p))) d)) k v
    = (case map_of d k of Some x \<Rightarrow> sort_keys x | None \<Rightarrow> v)"
proof -
  have "distinct (map fst (map (\<lambda>p. (fst p, sort_keys (snd p))) d))" using assms by (simp add: comp_def)
  from map_of_sorted [OF this] show ?thesis
    by (simp add: get_or_def map_of_values split: option.split)
qed

text \<open>What a JSON round trip makes of an event: the order of the keys inside its free parts is lost,
  and an empty optional part becomes the empty dictionary.\<close>

definition optional_part :: "pyval \<Rightarrow> pyval" where
  "optional_part v = (if truthy v then sort_keys v else PDict [])"

definition canonical_event :: "signal_event \<Rightarrow> signal_event" where
  "canonical_event e = e\<lparr>se_timestamp_utc := sort_keys (se_timestamp_utc e),
     se_source_agent := sort_keys (se_source_agent e),
     se_signal := (se_signal e)\<lparr>sg_parameters := optional_part (sg_parameters (se_signal e))\<rparr>,
     se_metadata := optional_part (se_metadata e)\<rparr>"

definition event_json_good :: "signal_event \<Rightarrow> bool" where
  "event_json_good e \<longleftrightarrow>
     json_good (se_timestamp_utc e) \<and> json_good (se_source_agent e) \<and> json_good (se_metadata e)
     \<and> json_good (PFloat (sg_confidence (se_signal e))) \<and> json_good (sg_parameters (se_signal e))"

lemma event_ok_texts:
  assumes "event_ok e"
  shows "\<exists>x. sg_symbol (se_signal e) = PStr x" "\<exists>x. sg_direction (se_signal e) = PStr x"
    "\<exists>x. sg_regime (se_signal e) = PStr x" "\<exists>x. se_event_id e = PStr x"
    "se_trace_id e = PNone \<or> (\<exists>x. se_trace_id e = PStr x)" "se_version e = PStr required_version"
  using assms by (auto simp: event_ok_def signal_ok_def dest: uuid_ok_text split: pyval.splits)

lemma signal_dict_good:
  "event_ok e \<Longrightarrow> event_json_good e \<Longrightarrow> json_good (PDict (signal_dict (se_signal e)))"
  using event_ok_texts [of e] by (auto simp: signal_dict_def event_json_good_def)

lemma event_dict_good: "event_ok e \<Longrightarrow> event_json_good e \<Longrightarrow> json_good (PDict (event_dict e))"
  using event_ok_texts [of e] signal_dict_good [of e] by (auto simp: event_dict_def event_json_good_def)

lemma canonical_event_ok: "event_ok (canonical_event e) \<longleftrightarrow> event_ok e"
  by (simp add: canonical_event_def event_ok_def signal_ok_def)

lemma event_keys: "distinct (map fst (event_dict e))" "distinct (map fst (signal_dict s))"
  "list_all (\<lambda>p. fst p \<in> set known_fields) (event_dict e)"
  "list_all (\<lambda>p. fst p \<in> set known_signal_fields) (signal_dict s)"
  by (auto simp: event_dict_def signal_dict_def known_fields_def known_signal_fields_def)

lemma list_all_sorted:
  "list_all (\<lambda>p. fst p \<in> K) (sort_key fst (map (\<lambda>p. (fst p, f (snd p))) d))
    \<longleftrightarrow> list_all (\<lambda>p. fst p \<in> K) d"
  by (auto simp: list_all_iff)

lemma signal_from_sorted:
  assumes "event_ok e" and "s = se_signal e"
  shows "signal_from_dict (sort_key fst (map (\<lambda>p. (fst p, sort_keys (snd p))) (signal_dict s)))
    = Inr (s\<lparr>sg_parameters := optional_part (sg_parameters s)\<rparr>)"
  using event_ok_texts(1-3) [OF assms(1)] assms(2)
  unfolding signal_from_dict_def get_or_sorted [OF event_keys(2)]
  by (auto simp: signal_dict_def float_of_def optional_part_def)

lemma event_from_sorted:
  assumes "event_ok e"
  shows "event_from_dict (sort_key fst (map (\<lambda>p. (fst p, sort_keys (snd p))) (event_dict e)))
      ((se_signal e)\<lparr>sg_parameters := optional_part (sg_parameters (se_signal e))\<rparr>)
    = canonical_event e"
  using event_ok_texts(4-6) [OF assms]
  unfolding event_from_dict_def get_or_sorted [OF event_keys(1)]
  by (auto simp: event_dict_def optional_part_def canonical_event_def)

lemma event_json_back:
  assumes "float_repr shown" and "event_to_json shown e = Inr t" and "event_json_good e"
  shows "event_from_json t = Inr (canonical_event e)"
proof -
  have ok: "event_ok e" and t: "t = json_text shown True [] (sort_keys (PDict (event_dict e)))"
    using assms(2) event_validate_ok [of e] by (auto simp: event_to_json_def split: sum.splits)
  let ?d = "sort_key fst (map (\<lambda>p. (fst p, sort_keys (snd p))) (event_dict e))"
  let ?s = "sort_key fst (map (\<lambda>p. (fst p, sort_keys (snd p))) (signal_dict (se_signal e)))"
  have "json_good (sort_keys (PDict (event_dict e)))"
    by (rule json_good_sort_keys [OF event_dict_good [OF ok assms(3)]])
  then have "json_loads t = Inr (sort_keys (PDict (event_dict e)))"
    unfolding t by (intro float_repr.json_loads_text [OF assms(1)]) simp_all
  then have "json_loads t = Inr (PDict ?d)" by (simp only: sort_keys.simps)
  moreover have "map_of ?d ''signal'' = Some (PDict ?s)"
    using map_of_sorted [of "map (\<lambda>p. (fst p, sort_keys (snd p))) (event_dict e)"] event_keys(1) [of e]
    by (simp add: comp_def map_of_values) (simp add: event_dict_def)
  moreover have "event_validate (canonical_event e) = Inr ()"
    using ok by (simp add: event_validate_ok canonical_event_ok)
  ultimately show ?thesis
    using signal_from_sorted [OF ok refl] event_from_sorted [OF ok] event_keys(3) [of e]
      event_keys(4) [of "se_signal e"]
    by (simp add: event_from_json_def list_all_sorted)
qed


definition demo_event :: signal_event where
  "demo_event =
     \<lparr>se_version = PStr ''1.0.0'', se_event_id = PStr ''550e8400-e29b-41d4-a716-446655440000'',
      se_timestamp_utc = PStr ''2026-08-31T10:00:00Z'', se_source_agent = PStr ''selector'',
      se_signal = \<lparr>sg_symbol = PStr ''BTCUSDT'', sg_direction = PStr ''LONG'', sg_confidence = Fin (1/2),
        sg_regime = PStr ''TRENDING'', sg_parameters = PDict [(''b'', PInt 2), (''a'', PInt 1)]\<rparr>,
      se_trace_id = PNone, se_metadata = PDict []\<rparr>"

lemma demo_event_ok: "event_ok demo_event"
  by code_simp

lemma demo_event_good: "event_json_good demo_event"
  by code_simp

lemma demo_event_json:
  "event_to_json exact_decimal demo_event
     = Inr (json_text exact_decimal True [] (sort_keys (PDict (event_dict demo_event))))"
  unfolding event_to_json_def event_validate_ok [THEN iffD2, OF demo_event_ok] sum.case ..

lemma demo_event_back:
  "event_from_json (json_text exact_decimal True [] (sort_keys (PDict (event_dict demo_event))))
    = Inr (canonical_event demo_event)"
  by (rule event_json_back [OF exact_decimal.float_repr_axioms demo_event_json demo_event_good])

text \<open>
  C19. Round trip of the boundary. What \<^verbatim>\<open>to_json\<close> writes \<^verbatim>\<open>from_json\<close> accepts, and it reads the same
  event back, up to the order of the keys inside its free parts and to an empty optional part, which
  is read as the empty dictionary. The event's floats are doubles and its free parts JSON values;
  \<open>shown\<close> is \<^verbatim>\<open>float.__repr__\<close>, whose text reads back.
\<close>

theorem event_json_roundtrip:
  assumes "float_repr shown" and "event_to_json shown e = Inr t" and "event_json_good e"
  shows "event_from_json t = Inr (canonical_event e)"
  using assms by (rule event_json_back)

theorem event_json_roundtrip_witness:
  "event_from_json (json_text exact_decimal True [] (sort_keys (PDict (event_dict demo_event))))
    = Inr (canonical_event demo_event)"
  by (rule event_json_roundtrip [OF exact_decimal.float_repr_axioms demo_event_json demo_event_good])

lemma from_json_ok: "event_from_json raw = Inr e \<Longrightarrow> event_validate e = Inr ()"
  by (simp add: event_from_json_def Let_def split: sum.splits pyval.splits option.splits if_splits)

lemma create_ok:
  "event_create agent symb dir conf reg ps md s = (Inr e, t) \<Longrightarrow> event_validate e = Inr ()"
  unfolding event_create_def Let_def
  by (simp add: bindA_def ret_def lift_res_def split: sum.splits prod.splits)

lemma to_json_ok:
  "event_to_json shown ev = Inr t \<longleftrightarrow>
     event_validate ev = Inr () \<and> t = json_text shown True [] (sort_keys (PDict (event_dict ev)))"
  unfolding event_to_json_def by (cases "event_validate ev") (simp_all del: json_text.simps, blast)

section \<open>What the boundary checks\<close>

definition between :: "char \<Rightarrow> char \<Rightarrow> char \<Rightarrow> bool" where
  "between low high c \<longleftrightarrow> low \<le> c \<and> c \<le> high"

definition capital_or_digit :: "char \<Rightarrow> bool" where
  "capital_or_digit c \<longleftrightarrow> between (CHR ''A'') (CHR ''Z'') c \<or> between (CHR ''0'') (CHR ''9'') c"

definition hex_char :: "char \<Rightarrow> bool" where
  "hex_char c \<longleftrightarrow> between (CHR ''0'') (CHR ''9'') c \<or> between (CHR ''a'') (CHR ''f'') c \<or> between (CHR ''A'') (CHR ''F'') c"

definition dashed_hex :: "string \<Rightarrow> bool" where
  "dashed_hex s \<longleftrightarrow> (\<exists>a b c d e. s = a @ ''-'' @ b @ ''-'' @ c @ ''-'' @ d @ ''-'' @ e
     \<and> map length [a, b, c, d, e] = [8, 4, 4, 4, 12] \<and> list_all (list_all hex_char) [a, b, c, d, e])"

text \<open>
  The events that pass, without the code's own tests. \<^verbatim>\<open>uuid.UUID\<close> is the library's, and what it takes
  is its business; a text in the usual form passes it, and nothing shorter than 32 characters does.
\<close>

definition admitted :: "signal_event \<Rightarrow> bool" where
  "admitted e \<longleftrightarrow> se_version e = PStr ''1.0.0''
     \<and> se_source_agent e \<notin> {PNone, PBool False, PInt 0, PFloat (Fin 0), PStr [], PList [], PDict []}
     \<and> uuid_error (se_event_id e) = None \<and> (se_trace_id e = PNone \<or> uuid_error (se_trace_id e) = None)
     \<and> (\<exists>x line. sg_symbol (se_signal e) = PStr (x @ line) \<and> list_all capital_or_digit x \<and> 2 \<le> length x \<and> length x \<le> 20
          \<and> line \<in> {[], [CHR 0x0A]})
     \<and> sg_direction (se_signal e) \<in> {PStr ''LONG'', PStr ''SHORT'', PStr ''FLAT''}
     \<and> (\<exists>q. sg_confidence (se_signal e) = Fin q \<and> 0 \<le> q \<and> q \<le> 1)
     \<and> sg_regime (se_signal e) \<in> {PStr ''TRENDING'', PStr ''RANGING'', PStr ''VOLATILE'', PStr ''CALM''}"

lemma symbol_char_plain: "symbol_char c \<longleftrightarrow> capital_or_digit c"
  by (auto simp: symbol_char_def capital_or_digit_def between_def is_digit_def less_eq_char_def)

lemma symbol_matches_plain:
  "symbol_matches s \<longleftrightarrow> (\<exists>x line. s = x @ line \<and> list_all capital_or_digit x \<and> 2 \<le> length x \<and> length x \<le> 20
     \<and> line \<in> {[], [CHR 0x0A]})" (is "_ \<longleftrightarrow> ?R")
proof
  assume "symbol_matches s"
  then show ?R
    unfolding symbol_matches_def Let_def
    by (intro exI [of _ "takeWhile symbol_char s"] exI [of _ "dropWhile symbol_char s"])
      (auto simp: list_all_iff symbol_char_plain dest: set_takeWhileD)
next
  assume ?R
  then obtain x line where s: "s = x @ line" and x: "list_all symbol_char x" "2 \<le> length x" "length x \<le> 20"
    and line: "line \<in> {[], [CHR 0x0A]}" by (auto simp: list_all_iff symbol_char_plain)
  have "\<not> symbol_char (CHR 0x0A)" by (simp add: symbol_char_def is_digit_def)
  then have "takeWhile symbol_char s = x" "dropWhile symbol_char s = line"
    using x(1) line by (auto simp: s list_all_iff takeWhile_append2 dropWhile_append2)
  then show "symbol_matches s" using x line by (auto simp: symbol_matches_def)
qed

lemma truthy_plain: "truthy v \<longleftrightarrow> v \<notin> {PNone, PBool False, PInt 0, PFloat (Fin 0), PStr [], PList [], PDict []}"
  by (cases v) auto

lemma float_unit: "float_le (Fin 0) x \<and> float_le x (Fin 1) \<longleftrightarrow> (\<exists>q. x = Fin q \<and> 0 \<le> q \<and> q \<le> 1)"
  by (cases x) auto

lemma event_ok_admitted: "event_ok e \<longleftrightarrow> admitted e"
  unfolding event_ok_def admitted_def signal_ok_def truthy_plain required_version_def float_unit [symmetric]
  by (auto simp: symbol_matches_plain valid_directions_def valid_regimes_def split: pyval.splits)


lemmas validate_admitted = event_validate_ok [unfolded event_ok_admitted]

lemma hex_char_value: "hex_value c \<noteq> None \<longleftrightarrow> hex_char c"
  by (auto simp: hex_value_def hex_char_def between_def less_eq_char_def Let_def)

lemma hex_char_code: "hex_char c \<Longrightarrow> (of_char c :: nat) \<in> {48..57} \<union> {97..102} \<union> {65..70}"
  by (auto simp: hex_char_def between_def less_eq_char_def)

lemma hex_char_other: "hex_char c \<Longrightarrow> c \<notin> {CHR ''u'', CHR ''-'', CHR ''+'', CHR ''x'', CHR ''X'', CHR ''_'', CHR ''{'', CHR ''}''} \<and> \<not> is_space c"
  by (frule hex_char_code) (auto simp: is_space_def Let_def)

lemma remove_text_absent: "p \<noteq> [] \<Longrightarrow> hd p \<notin> set s \<Longrightarrow> remove_text p s = s"
proof (induction s)
  case (Cons c s)
  then have "strip_prefix p (c # s) = None" by (cases p) auto
  then show ?case using Cons by (simp add: remove_text.simps [of p "c # s"])
qed (simp add: remove_text.simps)

lemma remove_text_char: "remove_text [c] s = filter (\<lambda>d. d \<noteq> c) s"
proof (induction s)
  case (Cons d s)
  then show ?case by (simp add: remove_text.simps [of "[c]" "d # s"])
qed (simp add: remove_text.simps)

lemma trims_nothing: "list_all (\<lambda>c. \<not> P c) s \<Longrightarrow> rev (dropWhile P (rev (dropWhile P s))) = s"
  by (metis dropWhile_eq_self_iff list_all_iff list.set_sel(1) rev_rev_ident set_rev)

lemma no_double: "CHR ''_'' \<notin> set s \<Longrightarrow> no_double_underscore s"
  by (induction s rule: no_double_underscore.induct) auto

lemma hex_int_plain:
  assumes "list_all hex_char s" and "s \<noteq> []"
  shows "hex_int_ok s"
proof -
  have "\<not> is_space c" if "c \<in> set s" for c using assms hex_char_other that by (auto simp: list_all_iff)
  then have st: "strip s = s" unfolding strip_def by (intro trims_nothing) (simp add: list_all_iff)
  have grouped: "grouped (\<lambda>c. hex_value c \<noteq> None) s"
    using assms hex_char_other [of "CHR ''_''"] no_double [of s]
    unfolding grouped_def hex_char_value by (auto simp: list_all_iff)
  obtain c r where s: "s = c # r" using assms(2) by (cases s) auto
  have h: "hex_char c" "list_all hex_char r" using assms by (simp_all add: s)
  have sign: "c \<noteq> CHR ''+''" "c \<noteq> CHR ''-''" using hex_char_other [OF h(1)] by auto
  show ?thesis
  proof (cases r)
    case Nil
    then show ?thesis using grouped st sign by (simp add: hex_int_ok_def Let_def s)
  next
    case (Cons b q)
    then have "b \<noteq> CHR ''x''" "b \<noteq> CHR ''X''" using hex_char_other [of b] h(2) by auto
    then show ?thesis using grouped st sign Cons by (simp add: hex_int_ok_def Let_def s)
  qed
qed

lemma uuid_forms:
  "dashed_hex s \<Longrightarrow> uuid_error (PStr s) = None"
  "uuid_error v = None \<Longrightarrow> \<exists>s. v = PStr s \<and> 32 \<le> length s"
proof -
  assume "dashed_hex s"
  then obtain a b c d e where s: "s = a @ ''-'' @ b @ ''-'' @ c @ ''-'' @ d @ ''-'' @ e"
    and n: "map length [a, b, c, d, e] = [8, 4, 4, 4, 12]" and h: "list_all (list_all hex_char) [a, b, c, d, e]"
    unfolding dashed_hex_def by (elim exE conjE) (rule that)
  have hex: "list_all hex_char (a @ b @ c @ d @ e)" using h by simp
  have "hex_char x \<or> x = CHR ''-''" if "x \<in> set s" for x using h that by (auto simp: s list_all_iff)
  then have x: "x \<notin> {CHR ''u'', CHR ''{'', CHR ''}''}" if "x \<in> set s" for x using hex_char_other [of x] that by fastforce
  have keep: "filter (\<lambda>x. x \<noteq> CHR ''-'') xs = xs" if "list_all hex_char xs" for xs
    using that hex_char_other by (auto simp: list_all_iff intro!: filter_True)
  have "remove_text ''urn:'' s = s" "remove_text ''uuid:'' s = s"
    using x [of "CHR ''u''"] by (auto intro!: remove_text_absent)
  moreover have "strip_chars ''{}'' s = s"
    unfolding strip_chars_def using x by (intro trims_nothing) (auto simp: list_all_iff)
  moreover have "remove_text ''-'' s = a @ b @ c @ d @ e"
    using h by (simp add: remove_text_char s keep)
  moreover have "length (a @ b @ c @ d @ e) = 32" using n by simp
  moreover have "hex_int_ok (a @ b @ c @ d @ e)" using n by (intro hex_int_plain [OF hex]) auto
  ultimately show "uuid_error (PStr s) = None" by (simp add: uuid_error_def Let_def)
next
  have shorter: "length (remove_text p s) \<le> length s" for p s
  proof (induction p s rule: remove_text.induct)
    case (1 p s)
    then show ?case
      by (subst remove_text.simps) (fastforce dest: strip_prefix_length split: list.split option.split)
  qed
  have strip: "length (strip_chars cs s) \<le> length s" for cs s
    unfolding strip_chars_def by (metis length_dropWhile_le length_rev order_trans)
  assume "uuid_error v = None"
  then obtain s where v: "v = PStr s" and n: "length (remove_text ''-'' (strip_chars ''{}'' (remove_text ''uuid:'' (remove_text ''urn:'' s)))) = 32"
    by (auto simp: uuid_error_def Let_def split: pyval.splits if_splits)
  have "32 \<le> length s"
    unfolding n [symmetric] using shorter strip by (meson order_trans)
  then show "\<exists>s. v = PStr s \<and> 32 \<le> length s" using v by simp
qed

text \<open>What no check looks at.\<close>

definition free_parts :: "pyval \<Rightarrow> pyval \<Rightarrow> pyval \<Rightarrow> signal_event \<Rightarrow> signal_event" where
  "free_parts timestamp metadata parameters e = e\<lparr>se_timestamp_utc := timestamp, se_metadata := metadata,
     se_signal := (se_signal e)\<lparr>sg_parameters := parameters\<rparr>\<rparr>"

lemma admitted_free_parts: "admitted (free_parts ts md ps e) = admitted e"
  by (simp add: admitted_def free_parts_def)

text \<open>
  C20. What the boundary checks, exactly. An event that \<^verbatim>\<open>from_json\<close> accepts or \<^verbatim>\<open>create\<close> returns is
  \<open>admitted\<close>, and \<^verbatim>\<open>to_json\<close> writes the admitted events and no others: version 1.0.0, a source agent
  that is not falsy, identifiers that \<^verbatim>\<open>uuid.UUID\<close> takes, a symbol of two to twenty capitals and digits
  (a final newline is let through), a direction and a regime of the lists, and a confidence that is a number from 0
  to 1. An identifier in the usual form is taken; one that is not a text, or is shorter than 32
  characters, is not. Nothing else is checked: the time stamp, the metadata and the parameters may be any
  value, which the schema of the event does not allow (a finding).
\<close>

theorem boundary_admits_valid_events:
  "(\<forall>e. event_from_json raw = Inr e \<longrightarrow> admitted e)
   \<and> (\<forall>e s t. event_create agent symb dir conf reg ps md s = (Inr e, t) \<longrightarrow> admitted e)
   \<and> (\<forall>t. event_to_json shown ev = Inr t \<longleftrightarrow>
        admitted ev \<and> t = json_text shown True [] (sort_keys (PDict (event_dict ev))))
   \<and> (dashed_hex i \<longrightarrow> uuid_error (PStr i) = None)
   \<and> (uuid_error v = None \<longrightarrow> (\<exists>x. v = PStr x \<and> 32 \<le> length x))
   \<and> admitted (free_parts any_timestamp any_metadata any_parameters ev) = admitted ev"
  by (intro conjI allI impI)
    (erule from_json_ok [unfolded validate_admitted] create_ok [unfolded validate_admitted] uuid_forms
      | rule to_json_ok [unfolded validate_admitted] admitted_free_parts)+

lemma demo_identifier: "dashed_hex ''550e8400-e29b-41d4-a716-446655440000''"
proof -
  let ?parts = "[''550e8400'', ''e29b'', ''41d4'', ''a716'', ''446655440000'']"
  have "list_all (list_all hex_char) ?parts" by code_simp
  moreover have "map length ?parts = [8, 4, 4, 4, 12]" by simp
  moreover have "''550e8400-e29b-41d4-a716-446655440000''
      = ''550e8400'' @ ''-'' @ ''e29b'' @ ''-'' @ ''41d4'' @ ''-'' @ ''a716'' @ ''-'' @ ''446655440000''" by simp
  ultimately show ?thesis unfolding dashed_hex_def by (intro exI conjI)
qed

lemma demo_untimed: "event_to_json exact_decimal (free_parts PNone (PList []) (PInt 7) demo_event) = Inr
    (json_text exact_decimal True [] (sort_keys (PDict (event_dict (free_parts PNone (PList []) (PInt 7) demo_event)))))"
proof -
  have "event_validate (free_parts PNone (PList []) (PInt 7) demo_event) = Inr ()"
    unfolding event_validate_ok event_ok_admitted admitted_free_parts by (simp only: event_ok_admitted [symmetric] demo_event_ok)
  then show ?thesis by (simp only: to_json_ok simp_thms)
qed

theorem boundary_admits_valid_events_witness:
  "event_from_json (json_text exact_decimal True [] (sort_keys (PDict (event_dict demo_event))))
     = Inr (canonical_event demo_event) \<and> admitted (canonical_event demo_event)
   \<and> uuid_error (PStr ''550e8400-e29b-41d4-a716-446655440000'') = None
   \<and> admitted (free_parts PNone (PList []) (PInt 7) demo_event)"
  using boundary_admits_valid_events
    [of "json_text exact_decimal True [] (sort_keys (PDict (event_dict demo_event)))"]
    boundary_admits_valid_events [where i = "''550e8400-e29b-41d4-a716-446655440000''"]
    boundary_admits_valid_events [where ev = "free_parts PNone (PList []) (PInt 7) demo_event" and shown = exact_decimal]
    demo_event_back demo_identifier demo_untimed by blast

end
