(* ===== verification/Strategy_Audit.thy ===== *)
theory Strategy_Audit
  imports Contract_Adapter Audit_Database
begin

text \<open>
  The strategy signal audit logger (\<^verbatim>\<open>strategy_intelligence/strategy_audit_logger.py\<close>). Both functions
  obtain a sink, build one audit record and hand it over, and catch every exception. The sink they
  obtain is a parameter, because the tests replace \<^verbatim>\<open>_get_sink\<close>; the one the module defines imports
  a class that \<^verbatim>\<open>database_sink.py\<close> does not have.
\<close>

section \<open>The logger\<close>

text \<open>pydantic accepts only a text where a record field is declared \<^verbatim>\<open>str\<close>.\<close>

definition text_field :: "pyval \<Rightarrow> exn + string" where
  "text_field v = (case v of PStr s \<Rightarrow> Inr s | _ \<Rightarrow> Inl validation_error)"

definition strategy_get_sink :: "('s, audit_record \<Rightarrow> ('s, unit) action) action" where
  "strategy_get_sink = raise (Raised (OtherError ''ImportError'')
     (''cannot import name '' @ quoted ''SupabaseAuditSink''
        @ '' from '' @ quoted ''intelligence.agent_control_plane.audit.database_sink''))"

text \<open>\<^verbatim>\<open>operation_id or str(uuid.uuid4())\<close>.\<close>

definition operation_or_fresh :: "string \<Rightarrow> ('z env_world_scheme, string) action" where
  "operation_or_fresh opid = (if opid = [] then fresh_uuid else ret opid)"

text \<open>The text of a field in \<^verbatim>\<open>f"strategy_signal:{...}"\<close>; for what is not a text the record is refused
  anyway.\<close>

definition signal_resource :: "string \<Rightarrow> string" where
  "signal_resource eid = ''strategy_signal:'' @ eid"

text \<open>\<^verbatim>\<open>str\<close> of a float.\<close>

fun float_str :: "(rat \<Rightarrow> string) \<Rightarrow> pyfloat \<Rightarrow> string" where
  "float_str shown (Fin q) = shown q"
| "float_str shown NaN = ''nan''"
| "float_str shown PosInf = ''inf''"
| "float_str shown NegInf = ''-inf''"

definition log_signal_received ::
  "(rat \<Rightarrow> string) \<Rightarrow> ('z env_world_scheme, audit_record \<Rightarrow> ('z env_world_scheme, unit) action) action \<Rightarrow>
   string \<Rightarrow> signal_event \<Rightarrow> string \<Rightarrow> ('z env_world_scheme, unit) action" where
  "log_signal_received shown get_sink raw e opid =
     catchA
       (bindA get_sink (\<lambda>snk.
        bindA (operation_or_fresh opid) (\<lambda>op.
        bindA now (\<lambda>t.
        bindA (lift_res (text_field (se_version e))) (\<lambda>version.
        bindA (lift_res (text_field (se_event_id e))) (\<lambda>eid.
        bindA (lift_res (text_field (se_source_agent e))) (\<lambda>agent.
        bindA (lift_res (new_audit_record version eid StrategySignalReceived op agent t AuditCompleted
            (signal_resource eid) AuditSuccess
            [(''symbol'', sg_symbol (se_signal e)), (''direction'', sg_direction (se_signal e)),
             (''confidence'', PStr (float_str shown (sg_confidence (se_signal e)))),
             (''regime'', sg_regime (se_signal e)), (''raw_payload'', PStr raw)])) snk)))))))
       (\<lambda>_. ret ())"

text \<open>The identifier of a rejected event, if the raw text has one; a payload that is not an object
  makes \<^verbatim>\<open>parsed.get\<close> raise, which the inner handler does not catch.\<close>

definition rejected_event_id :: "string \<Rightarrow> exn + pyval" where
  "rejected_event_id raw =
     (case json_loads raw of
        Inl _ \<Rightarrow> Inr (PStr ''unknown'')
      | Inr (PDict d) \<Rightarrow> Inr (get_or d ''event_id'' (PStr ''unknown''))
      | Inr _ \<Rightarrow> Inl (attribute_error ''object has no attribute get''))"

definition log_signal_rejected ::
  "('z env_world_scheme, audit_record \<Rightarrow> ('z env_world_scheme, unit) action) action \<Rightarrow>
   string \<Rightarrow> string \<Rightarrow> string \<Rightarrow> string \<Rightarrow> ('z env_world_scheme, unit) action" where
  "log_signal_rejected get_sink raw err agent opid =
     catchA
       (bindA get_sink (\<lambda>snk.
        bindA (lift_res (rejected_event_id raw)) (\<lambda>v.
        bindA (operation_or_fresh opid) (\<lambda>op.
        bindA now (\<lambda>t.
        bindA (lift_res (text_field v)) (\<lambda>eid.
        bindA (lift_res (new_audit_record ''1.0.0'' eid StrategySignalReceived op agent t AuditFailed
            (signal_resource eid) AuditFailure
            [(''rejection_reason'', PStr err), (''raw_payload'', PStr (take 1000 raw))])) snk))))))
       (\<lambda>_. ret ())"

section \<open>Properties\<close>

lemma text_field_ok: "text_field v = Inr s \<longleftrightarrow> v = PStr s"
  by (cases v) (simp_all add: text_field_def)

text \<open>
  The strategy audit as it is deployed records nothing: whatever the event, the payload and the
  state, both functions return normally and leave the state as it was, because the sink they import
  does not exist and the import error is caught.
\<close>

theorem strategy_signals_never_audited:
  "log_signal_received shown strategy_get_sink raw e opid s = (Inr (), s)
   \<and> log_signal_rejected strategy_get_sink raw err agent opid s = (Inr (), s)"
  by (simp add: log_signal_received_def log_signal_rejected_def strategy_get_sink_def
      catchA_def raise_def ret_def)








end
