(* ===== verification/Secrets.thy ===== *)
theory Secrets
  imports Text
begin

text \<open>
  The secret provider (\<^verbatim>\<open>shared/secrets/provider.py\<close>): a registry loaded once from a YAML file, the
  lookup of one secret in the environment, and the validation of them all. The YAML loader is not
  the repository's: what it returns for the registry file is a field of the state, either the
  entries or the exception it raises. An entry's field is \<^const>\<open>None\<close> when the key is absent.
\<close>

section \<open>The registry\<close>

record secret_entry =
  sc_name :: "string option"
  sc_env_var :: "string option"
  sc_required :: "bool option"
  sc_min_length :: "int option"

record secrets_world =
  registry_file :: "exn + secret_entry list"
  registry_cache :: "secret_entry list option"
  environ :: "string \<Rightarrow> string option"

definition or_else :: "'a option \<Rightarrow> 'a \<Rightarrow> 'a" where
  "or_else x d = (case x of Some y \<Rightarrow> y | None \<Rightarrow> d)"

definition registry_path :: string where
  "registry_path = ''configs/secret-registry.yaml''"

definition load_registry :: "(secrets_world, secret_entry list) action" where
  "load_registry =
     bindA (gets registry_cache) (\<lambda>c.
     case c of
       Some es \<Rightarrow> ret es
     | None \<Rightarrow>
         bindA (catchA (bindA (gets registry_file) lift_res) (\<lambda>_. ret [])) (\<lambda>es.
         bindA (modify (\<lambda>s. s\<lparr>registry_cache := Some es\<rparr>)) (\<lambda>_. ret es)))"

section \<open>Lookup and validation\<close>

definition missing_secret :: "string \<Rightarrow> string \<Rightarrow> exn" where
  "missing_secret name env_var = value_error (''Required secret '' @ quoted name @ '' ('' @ env_var
     @ '') not set. Set via environment variable or secret manager.'')"

definition short_secret :: "string \<Rightarrow> int \<Rightarrow> int \<Rightarrow> exn" where
  "short_secret name len least = value_error (''Secret '' @ quoted name @ '' length '' @ show_int len
     @ '' < minimum '' @ show_int least)"

text \<open>\<^verbatim>\<open>str(KeyError(text))\<close> is the \<^verbatim>\<open>repr\<close> of the text.\<close>

definition unknown_secret :: "string \<Rightarrow> exn" where
  "unknown_secret name = Raised KeyError (py_repr (''Unknown secret name: '' @ quoted name
     @ ''. Register in '' @ registry_path))"

definition entry_secret :: "(string \<Rightarrow> string option) \<Rightarrow> string \<Rightarrow> secret_entry \<Rightarrow> exn + string option" where
  "entry_secret env name e =
     (let env_var = or_else (sc_env_var e) [] in
      case env env_var of
        None \<Rightarrow> if or_else (sc_required e) False then Inl (missing_secret name env_var) else Inr None
      | Some value \<Rightarrow>
          (let least = or_else (sc_min_length e) 0 in
           if int (length value) < least then Inl (short_secret name (int (length value)) least)
           else Inr (Some value)))"

fun find_secret ::
  "(string \<Rightarrow> string option) \<Rightarrow> string \<Rightarrow> secret_entry list \<Rightarrow> exn + string option" where
  "find_secret env name [] = Inl (unknown_secret name)"
| "find_secret env name (e # es) =
     (if sc_name e = Some name then entry_secret env name e else find_secret env name es)"

definition get_secret :: "string \<Rightarrow> (secrets_world, string option) action" where
  "get_secret name =
     bindA load_registry (\<lambda>es.
     bindA (gets environ) (\<lambda>env. lift_res (find_secret env name es)))"

text \<open>\<^verbatim>\<open>except (ValueError, KeyError)\<close>: the lookup raises no other \<^verbatim>\<open>Exception\<close>.\<close>

fun collect_errors :: "secret_entry list \<Rightarrow> (secrets_world, string list) action" where
  "collect_errors [] = ret []"
| "collect_errors (e # es) =
     bindA (attempt (get_secret (or_else (sc_name e) ''?''))) (\<lambda>r.
     bindA (collect_errors es) (\<lambda>errs.
     ret (case r of Inl x \<Rightarrow> exn_str x # errs | Inr _ \<Rightarrow> errs)))"

definition validate_secrets :: "(secrets_world, string list) action" where
  "validate_secrets = bindA load_registry collect_errors"

section \<open>Facts\<close>

definition loaded :: "secrets_world \<Rightarrow> secret_entry list" where
  "loaded s = (case registry_cache s of
     Some es \<Rightarrow> es
   | None \<Rightarrow> (case registry_file s of Inr es \<Rightarrow> es | Inl _ \<Rightarrow> []))"

definition with_registry :: "secrets_world \<Rightarrow> secrets_world" where
  "with_registry s = s\<lparr>registry_cache := Some (loaded s)\<rparr>"

definition loadable :: "secrets_world \<Rightarrow> bool" where
  "loadable s \<longleftrightarrow> registry_cache s \<noteq> None \<or> (\<forall>e. registry_file s = Inl e \<longrightarrow> is_exception e)"

lemma load_registry_loaded: "loadable s \<Longrightarrow> load_registry s = (Inr (loaded s), with_registry s)"
  by (cases "registry_cache s"; cases "registry_file s"; cases s)
    (auto simp: load_registry_def loaded_def with_registry_def loadable_def action_simps)

lemma with_registry_simps [simp]:
  "loadable (with_registry s)" "loaded (with_registry s) = loaded s"
  "with_registry (with_registry s) = with_registry s" "environ (with_registry s) = environ s"
  by (simp_all add: with_registry_def loaded_def loadable_def)

lemma get_secret_loaded:
  "loadable s \<Longrightarrow> get_secret name s = (find_secret (environ s) name (loaded s), with_registry s)"
  by (simp add: get_secret_def load_registry_loaded bindA_def gets_def lift_res_def)

lemma find_secret_exception: "find_secret env name es = Inl x \<Longrightarrow> is_exception x"
  by (induction es)
    (auto simp: unknown_secret_def entry_secret_def missing_secret_def short_secret_def Let_def
      split: if_splits option.splits)

text \<open>The errors, in the order of the registry.\<close>

definition secret_errors :: "(string \<Rightarrow> string option) \<Rightarrow> secret_entry list \<Rightarrow> secret_entry list \<Rightarrow> string list" where
  "secret_errors env all es = concat (map (\<lambda>e.
     case find_secret env (or_else (sc_name e) ''?'') all of Inl x \<Rightarrow> [exn_str x] | Inr _ \<Rightarrow> []) es)"

lemma collect_errors_loaded:
  "s = with_registry s \<Longrightarrow>
   collect_errors es s = (Inr (secret_errors (environ s) (loaded s) es), s)"
proof (induction es)
  case (Cons e es)
  have "loadable s" using Cons.prems with_registry_simps(1) by metis
  then have "attempt (get_secret (or_else (sc_name e) ''?'')) s
      = (Inr (find_secret (environ s) (or_else (sc_name e) ''?'') (loaded s)), s)"
    using Cons.prems find_secret_exception
    by (auto simp: attempt_cases get_secret_loaded split: sum.split)
  then show ?case
    using Cons by (auto simp: bindA_def ret_def secret_errors_def split: sum.split)
qed (simp add: ret_def secret_errors_def)

lemma validate_secrets_loaded:
  assumes "loadable s"
  shows "validate_secrets s = (Inr (secret_errors (environ s) (loaded s) (loaded s)), with_registry s)"
  using collect_errors_loaded [of "with_registry s"]
  by (simp add: validate_secrets_def bindA_def load_registry_loaded [OF assms])

text \<open>The entry that governs a name is the first one with it.\<close>

definition governing :: "secret_entry list \<Rightarrow> string \<Rightarrow> secret_entry option" where
  "governing es name = List.find (\<lambda>e. sc_name e = Some name) es"

lemma find_secret_governing:
  "find_secret env name es = (case governing es name of
     None \<Rightarrow> Inl (unknown_secret name) | Some e \<Rightarrow> entry_secret env name e)"
  by (induction es) (auto simp: governing_def)

text \<open>An entry is satisfied by the environment.\<close>

definition satisfied :: "(string \<Rightarrow> string option) \<Rightarrow> secret_entry \<Rightarrow> bool" where
  "satisfied env e \<longleftrightarrow>
     (case env (or_else (sc_env_var e) []) of
        None \<Rightarrow> \<not> or_else (sc_required e) False
      | Some v \<Rightarrow> or_else (sc_min_length e) 0 \<le> int (length v))"

lemma entry_secret_ok:
  "entry_secret env name e = (if satisfied env e then Inr (env (or_else (sc_env_var e) []))
     else Inl (case env (or_else (sc_env_var e) []) of
       None \<Rightarrow> missing_secret name (or_else (sc_env_var e) [])
     | Some v \<Rightarrow> short_secret name (int (length v)) (or_else (sc_min_length e) 0)))"
  by (auto simp: entry_secret_def satisfied_def Let_def split: option.split)

lemma governing_member:
  "e \<in> set es \<Longrightarrow> sc_name e = Some name \<Longrightarrow> \<exists>g. governing es name = Some g"
  unfolding governing_def by (induction es) auto

section \<open>Properties\<close>

text \<open>
  C22. A clean validation means that every lookup will work. The validation of a loadable registry
  never raises; it reports nothing exactly when each entry's name has a governing entry (the first
  with that name) which the environment satisfies: present if required, and long enough if present.
  From then on, in the state it leaves, looking up a registered name returns what the environment
  holds and an unregistered one raises \<^verbatim>\<open>KeyError\<close>. (A later entry with the same name is never
  looked at.)
\<close>

theorem validated_secrets_resolve:
  assumes "loadable s" and "validate_secrets s = (r, t)"
  shows "\<exists>errs. r = Inr errs \<and>
    (errs = [] \<longleftrightarrow> (\<forall>e \<in> set (loaded s). \<exists>g. governing (loaded s) (or_else (sc_name e) ''?'') = Some g
       \<and> satisfied (environ s) g))
    \<and> (errs = [] \<longrightarrow> (\<forall>name. get_secret name t =
         (case governing (loaded s) name of
            None \<Rightarrow> (Inl (unknown_secret name), t)
          | Some g \<Rightarrow> (Inr (environ s (or_else (sc_env_var g) [])), t))))"
proof -
  have r: "r = Inr (secret_errors (environ s) (loaded s) (loaded s))" and t: "t = with_registry s"
    using assms(2) validate_secrets_loaded [OF assms(1)] by simp_all
  let ?ok = "\<forall>e \<in> set (loaded s). \<exists>g. governing (loaded s) (or_else (sc_name e) ''?'') = Some g
       \<and> satisfied (environ s) g"
  have ok: "secret_errors (environ s) (loaded s) (loaded s) = [] \<longleftrightarrow> ?ok"
    by (auto simp: secret_errors_def find_secret_governing entry_secret_ok split: option.splits if_splits)
  moreover have "satisfied (environ s) g" if "?ok" "governing (loaded s) name = Some g" for name g
  proof -
    from that(2) have "g \<in> set (loaded s)" "sc_name g = Some name"
      unfolding governing_def by (auto simp: find_Some_iff)
    with that show ?thesis by (force simp: or_else_def)
  qed
  ultimately show ?thesis
    unfolding r t
    by (auto simp: get_secret_loaded find_secret_governing entry_secret_ok split: option.split)
qed

definition secrets_demo :: secrets_world where
  "secrets_demo = \<lparr>registry_file = Inr [\<lparr>sc_name = Some ''k'', sc_env_var = Some ''K'', sc_required = Some True,
       sc_min_length = Some 3\<rparr>], registry_cache = None, environ = (\<lambda>v. if v = ''K'' then Some ''abcd'' else None)\<rparr>"

lemma secrets_demo_runs:
  "loadable secrets_demo" "validate_secrets secrets_demo = (Inr [], with_registry secrets_demo)"
proof -
  show l: "loadable secrets_demo" by (simp add: secrets_demo_def loadable_def)
  show "validate_secrets secrets_demo = (Inr [], with_registry secrets_demo)"
    unfolding validate_secrets_loaded [OF l]
    by (simp add: secrets_demo_def secret_errors_def loaded_def find_secret_governing governing_def
        entry_secret_ok satisfied_def or_else_def)
qed

theorem validated_secrets_resolve_witness:
  "get_secret ''k'' (with_registry secrets_demo) = (Inr (Some ''abcd''), with_registry secrets_demo)"
proof -
  have g: "governing (loaded secrets_demo) ''k'' = Some \<lparr>sc_name = Some ''k'', sc_env_var = Some ''K'',
      sc_required = Some True, sc_min_length = Some 3\<rparr>" "environ secrets_demo ''K'' = Some ''abcd''"
    by (simp_all add: secrets_demo_def loaded_def governing_def)
  show ?thesis
    using validated_secrets_resolve [OF secrets_demo_runs] g by (auto simp: or_else_def)
qed

end
