(* ===== verification/Regex.thy ===== *)
theory Regex
  imports Text
begin

text \<open>
  The part of Python's \<^verbatim>\<open>re\<close> that the sources use, as backtracking matching: a pattern maps a place
  in a text to the places where a match can end, in the order in which the engine tries them. A
  place is the character before it and the text after it.
\<close>

section \<open>Patterns\<close>

datatype rx =
    Empty
  | One "char \<Rightarrow> bool"
  | Seq rx rx
  | Alt rx rx
  | Star rx
  | Boundary
  | LineStart
  | LineEnd

type_synonym place = "char option \<times> string"

text \<open>\<^verbatim>\<open>\w\<close> on the first 256 code points: letters, digits and the underscore.\<close>

definition word_char :: "char \<Rightarrow> bool" where
  "word_char c \<longleftrightarrow>
     (let n = of_char c :: nat in
      48 \<le> n \<and> n \<le> 57 \<or> 65 \<le> n \<and> n \<le> 90 \<or> n = 95 \<or> 97 \<le> n \<and> n \<le> 122
      \<or> n = 170 \<or> n = 178 \<or> n = 179 \<or> n = 181 \<or> n = 185 \<or> n = 186 \<or> 188 \<le> n \<and> n \<le> 190
      \<or> 192 \<le> n \<and> n \<noteq> 215 \<and> n \<noteq> 247)"

definition at_boundary :: "place \<Rightarrow> bool" where
  "at_boundary m \<longleftrightarrow>
     (case fst m of None \<Rightarrow> False | Some c \<Rightarrow> word_char c)
       \<noteq> (case snd m of [] \<Rightarrow> False | c # _ \<Rightarrow> word_char c)"

text \<open>Repetition stops at an iteration that consumes nothing; \<open>n\<close> is the length of what is left, so
  it never runs out before that.\<close>

fun star_ends :: "(place \<Rightarrow> place list) \<Rightarrow> nat \<Rightarrow> place \<Rightarrow> place list" where
  "star_ends f 0 m = [m]"
| "star_ends f (Suc n) m =
     concat (map (star_ends f n) (filter (\<lambda>m'. length (snd m') < length (snd m)) (f m))) @ [m]"

text \<open>\<^const>\<open>LineStart\<close> and \<^const>\<open>LineEnd\<close> are \<^verbatim>\<open>^\<close> and \<^verbatim>\<open>$\<close> under \<^verbatim>\<open>MULTILINE\<close>.\<close>

fun ends :: "rx \<Rightarrow> place \<Rightarrow> place list" where
  "ends Empty m = [m]"
| "ends (One p) m = (case snd m of [] \<Rightarrow> [] | c # t \<Rightarrow> if p c then [(Some c, t)] else [])"
| "ends (Seq a b) m = concat (map (ends b) (ends a m))"
| "ends (Alt a b) m = ends a m @ ends b m"
| "ends (Star a) m = star_ends (ends a) (length (snd m)) m"
| "ends Boundary m = (if at_boundary m then [m] else [])"
| "ends LineStart m = (if fst m = None \<or> fst m = Some (CHR 0x0A) then [m] else [])"
| "ends LineEnd m = (if snd m = [] \<or> hd (snd m) = CHR 0x0A then [m] else [])"

fun search_from :: "rx \<Rightarrow> char option \<Rightarrow> string \<Rightarrow> bool" where
  "search_from r p [] = (ends r (p, []) \<noteq> [])"
| "search_from r p (c # s) = (ends r (p, c # s) \<noteq> [] \<or> search_from r (Some c) s)"

text \<open>\<^verbatim>\<open>re.search(r, s) is not None\<close>.\<close>

definition re_search :: "rx \<Rightarrow> string \<Rightarrow> bool" where
  "re_search r s = search_from r None s"

section \<open>Writing patterns\<close>

fun lit :: "string \<Rightarrow> rx" where
  "lit [] = Empty"
| "lit (c # s) = Seq (One (\<lambda>x. x = c)) (lit s)"

fun sequence :: "rx list \<Rightarrow> rx" where
  "sequence [] = Empty"
| "sequence [r] = r"
| "sequence (r # rs) = Seq r (sequence rs)"

fun any_of :: "rx list \<Rightarrow> rx" where
  "any_of [] = Star (One (\<lambda>_. False))"
| "any_of [r] = r"
| "any_of (r # rs) = Alt r (any_of rs)"

definition plus :: "rx \<Rightarrow> rx" where
  "plus r = Seq r (Star r)"

definition maybe :: "rx \<Rightarrow> rx" where
  "maybe r = Alt r Empty"

fun at_least :: "nat \<Rightarrow> rx \<Rightarrow> rx" where
  "at_least 0 r = Star r"
| "at_least (Suc n) r = Seq r (at_least n r)"

definition space :: rx where "space = One is_space"
definition word :: rx where "word = One word_char"
definition not_in :: "string \<Rightarrow> rx" where "not_in cs = One (\<lambda>c. c \<notin> set cs)"

text \<open>The dot without and with \<^verbatim>\<open>DOTALL\<close>.\<close>

definition dot :: rx where "dot = One (\<lambda>c. c \<noteq> CHR 0x0A)"
definition dot_all :: rx where "dot_all = One (\<lambda>_. True)"

section \<open>Substitution\<close>

text \<open>
  \<^verbatim>\<open>re.sub(r, new, s)\<close>, left to right: at a match the replacement is written and the text it covers
  is dropped; an empty match writes the replacement before the next character. The patterns of the
  sources never match the empty text.
\<close>

definition first_end :: "rx \<Rightarrow> place \<Rightarrow> place option" where
  "first_end r m = (case ends r m of [] \<Rightarrow> None | e # _ \<Rightarrow> Some e)"

function (sequential) sub_from :: "rx \<Rightarrow> string \<Rightarrow> char option \<Rightarrow> string \<Rightarrow> string" where
  "sub_from r new p [] = (if first_end r (p, []) = None then [] else new)"
| "sub_from r new p (c # s) =
     (case first_end r (p, c # s) of
        None \<Rightarrow> c # sub_from r new (Some c) s
      | Some (p', t) \<Rightarrow>
          if length t < length (c # s) then new @ sub_from r new p' t
          else new @ c # sub_from r new (Some c) s)"
  by pat_completeness auto
termination by (relation "measure (\<lambda>(r, new, p, s). length s)") auto

definition re_sub :: "rx \<Rightarrow> string \<Rightarrow> string \<Rightarrow> string" where
  "re_sub r new s = sub_from r new None s"

section \<open>Facts\<close>

text \<open>A search looks at every split of the text.\<close>

definition last_char :: "char option \<Rightarrow> string \<Rightarrow> char option" where
  "last_char p s = (if s = [] then p else Some (last s))"

lemma search_from_split:
  "search_from r p s \<longleftrightarrow> (\<exists>a b. s = a @ b \<and> ends r (last_char p a, b) \<noteq> [])"
proof (induction s arbitrary: p)
  case (Cons c s)
  show ?case
  proof
    assume "search_from r p (c # s)"
    then consider "ends r (p, c # s) \<noteq> []" | "search_from r (Some c) s" by auto
    then show "\<exists>a b. c # s = a @ b \<and> ends r (last_char p a, b) \<noteq> []"
    proof cases
      case 1
      then show ?thesis by (intro exI [of _ "[]"] exI [of _ "c # s"]) (simp add: last_char_def)
    next
      case 2
      then obtain a b where "s = a @ b" "ends r (last_char (Some c) a, b) \<noteq> []" using Cons.IH by blast
      then show ?thesis
        by (intro exI [of _ "c # a"] exI [of _ b]) (auto simp: last_char_def split: if_splits)
    qed
  next
    assume "\<exists>a b. c # s = a @ b \<and> ends r (last_char p a, b) \<noteq> []"
    then obtain a b where ab: "c # s = a @ b" "ends r (last_char p a, b) \<noteq> []" by blast
    show "search_from r p (c # s)"
    proof (cases a)
      case Nil
      with ab show ?thesis by (auto simp: last_char_def)
    next
      case (Cons d a')
      with ab have "s = a' @ b" "ends r (last_char (Some c) a', b) \<noteq> []"
        by (auto simp: last_char_def split: if_splits)
      then show ?thesis using Cons.IH by auto
    qed
  qed
qed (simp add: last_char_def)

lemma re_search_split: "re_search r s \<longleftrightarrow> (\<exists>a b. s = a @ b \<and> ends r (last_char None a, b) \<noteq> [])"
  by (simp add: re_search_def search_from_split)

lemma ends_lit: "ends (lit w) (p, w @ t) = [(last_char p w, t)]"
  by (induction w arbitrary: p) (auto simp: last_char_def)

lemma ends_lit_iff: "ends (lit w) (p, s) \<noteq> [] \<longleftrightarrow> prefix w s"
proof (induction w arbitrary: p s)
  case (Cons c w)
  then show ?case by (cases s) auto
qed simp

lemma re_search_lit: "re_search (lit w) s \<longleftrightarrow> sublist w s"
  by (auto simp: re_search_split ends_lit_iff sublist_def prefix_def)

end
