(* ===== verification/Sha256.thy ===== *)
theory Sha256
  imports Text
begin

text \<open>
  \<^verbatim>\<open>hashlib.sha256(s.encode()).hexdigest()\<close>: UTF-8 and SHA-256 (FIPS 180-4), on 32-bit words.
\<close>

section \<open>UTF-8\<close>

definition utf8_char :: "char \<Rightarrow> nat list" where
  "utf8_char c = (let n = of_char c in
     if n < 128 then [n] else [192 + n div 64, 128 + n mod 64])"

definition utf8 :: "string \<Rightarrow> nat list" where
  "utf8 s = concat (map utf8_char s)"

section \<open>SHA-256\<close>

type_synonym word32 = "32 word"

text \<open>
  The constants: the first 32 bits of the fractional parts of the cube roots of the first 64 primes,
  and of the square roots of the first 8. \<open>root_floor e k n 0\<close> is the integer part of the
  \<open>e\<close>-th root of \<open>n\<close>, found bit by bit from \<open>2 ^ k\<close> down.
\<close>

fun root_floor :: "nat \<Rightarrow> nat \<Rightarrow> nat \<Rightarrow> nat \<Rightarrow> nat" where
  "root_floor e 0 n r = r"
| "root_floor e (Suc k) n r = root_floor e k n (if (r + 2 ^ k) ^ e \<le> n then r + 2 ^ k else r)"

definition sha_primes :: "nat list" where
  "sha_primes = filter (\<lambda>p. list_all (\<lambda>d. p mod d \<noteq> 0) [2..<min p 18]) [2..<312]"

definition sha_k :: "word32 list" where
  "sha_k = map (\<lambda>p. word_of_nat (root_floor 3 36 (p * 2 ^ 96) 0)) sha_primes"

definition sha_h :: "word32 list" where
  "sha_h = map (\<lambda>p. word_of_nat (root_floor 2 40 (p * 2 ^ 64) 0)) [2, 3, 5, 7, 11, 13, 17, 19]"

lemma root_floor_correct:
  assumes "r ^ e \<le> n" and "n < (r + 2 ^ k) ^ e"
  shows "root_floor e k n r ^ e \<le> n \<and> n < Suc (root_floor e k n r) ^ e"
  using assms by (induction e k n r rule: root_floor.induct) (simp_all add: add.assoc mult_2)

definition sha_pad :: "nat list \<Rightarrow> nat list" where
  "sha_pad bs =
     (let l = length bs; z = (119 - l mod 64) mod 64
      in bs @ [128] @ replicate z 0 @ map (\<lambda>i. 8 * l div 256 ^ (7 - i) mod 256) [0..<8])"

fun sha_words :: "nat list \<Rightarrow> word32 list" where
  "sha_words (a # b # c # d # bs) = word_of_nat (((a * 256 + b) * 256 + c) * 256 + d) # sha_words bs"
| "sha_words bs = []"

definition small_sigma0 :: "word32 \<Rightarrow> word32" where
  "small_sigma0 x = word_rotr 7 x XOR word_rotr 18 x XOR drop_bit 3 x"

definition small_sigma1 :: "word32 \<Rightarrow> word32" where
  "small_sigma1 x = word_rotr 17 x XOR word_rotr 19 x XOR drop_bit 10 x"

definition big_sigma0 :: "word32 \<Rightarrow> word32" where
  "big_sigma0 x = word_rotr 2 x XOR word_rotr 13 x XOR word_rotr 22 x"

definition big_sigma1 :: "word32 \<Rightarrow> word32" where
  "big_sigma1 x = word_rotr 6 x XOR word_rotr 11 x XOR word_rotr 25 x"

text \<open>The message schedule: 48 words after the 16 of the block.\<close>

fun sha_extend :: "nat \<Rightarrow> word32 list \<Rightarrow> word32 list" where
  "sha_extend 0 w = w"
| "sha_extend (Suc n) w =
     (let t = length w
      in sha_extend n (w @ [small_sigma1 (w ! (t - 2)) + w ! (t - 7) + small_sigma0 (w ! (t - 15)) + w ! (t - 16)]))"

fun sha_round :: "word32 \<times> word32 \<Rightarrow> word32 list \<Rightarrow> word32 list" where
  "sha_round (k, w) [a, b, c, d, e, f, g, h] =
     (let t1 = h + big_sigma1 e + ((e AND f) XOR (NOT e AND g)) + k + w;
          t2 = big_sigma0 a + ((a AND b) XOR (a AND c) XOR (b AND c))
      in [t1 + t2, a, b, c, d + t1, e, f, g])"
| "sha_round x v = v"

definition sha_block :: "word32 list \<Rightarrow> word32 list \<Rightarrow> word32 list" where
  "sha_block h m = map2 (+) h (fold sha_round (zip sha_k (sha_extend 48 m)) h)"

function sha_blocks :: "word32 list \<Rightarrow> word32 list \<Rightarrow> word32 list" where
  "sha_blocks h ws = (if length ws < 16 then h else sha_blocks (sha_block h (take 16 ws)) (drop 16 ws))"
  by pat_completeness auto
termination by (relation "measure (\<lambda>(h, ws). length ws)") auto

declare sha_blocks.simps [simp del]

definition hex_word :: "word32 \<Rightarrow> string" where
  "hex_word w = map (\<lambda>i. hex_digit (unat (take_bit 4 (drop_bit (4 * i) w)))) (rev [0..<8])"

definition sha256_hex :: "string \<Rightarrow> string" where
  "sha256_hex s = concat (map hex_word (sha_blocks sha_h (sha_words (sha_pad (utf8 s)))))"

lemma length_hex_word [simp]: "length (hex_word w) = 8"
  by (simp add: hex_word_def)

lemma length_sha_block: "length h = 8 \<Longrightarrow> length (sha_block h m) = 8"
proof -
  have "length (sha_round x v) = length v" for x v by (induction x v rule: sha_round.induct) (simp_all add: Let_def)
  then have "length (fold sha_round xs v) = length v" for xs v by (induction xs arbitrary: v) simp_all
  then show "length h = 8 \<Longrightarrow> length (sha_block h m) = 8" by (simp add: sha_block_def)
qed

lemma length_sha_blocks: "length h = 8 \<Longrightarrow> length (sha_blocks h ws) = 8"
  by (induction h ws rule: sha_blocks.induct) (subst sha_blocks.simps, simp add: length_sha_block)

text \<open>A digest has 64 hexadecimal digits.\<close>

lemma length_sha256_hex: "length (sha256_hex s) = 64"
proof -
  have "length (concat (map hex_word ws)) = 8 * length ws" for ws by (induction ws) simp_all
  moreover have "length sha_h = 8" by (simp add: sha_h_def)
  ultimately show ?thesis by (simp add: sha256_hex_def length_sha_blocks)
qed

end
