(* ===== verification/File_System.thy ===== *)
theory File_System
  imports Text
begin

text \<open>
  What the agent uses of \<^verbatim>\<open>os\<close>, \<^verbatim>\<open>os.path\<close>, \<^verbatim>\<open>shutil\<close> and \<^verbatim>\<open>open\<close>: POSIX path names, files with their
  text, directories, and the errors of the operating system. Every operation that can fail draws its
  outcome from an arbitrary sequence, so the properties hold for any failures of the disk. Symbolic
  links, permissions and the metadata of a file are not modelled; a file's text is what reading it
  returns.
\<close>

section \<open>Path names\<close>

abbreviation slash :: char where
  "slash \<equiv> CHR ''/''"

fun pieces :: "string \<Rightarrow> string list" where
  "pieces [] = [[]]"
| "pieces (c # s) = (if c = slash then [] # pieces s
     else case pieces s of p # ps \<Rightarrow> (c # p) # ps | [] \<Rightarrow> [[c]])"

definition basename :: "string \<Rightarrow> string" where
  "basename p = rev (takeWhile (\<lambda>c. c \<noteq> slash) (rev p))"

definition dirname :: "string \<Rightarrow> string" where
  "dirname p =
     (let h = rev (dropWhile (\<lambda>c. c \<noteq> slash) (rev p))
      in if list_all (\<lambda>c. c = slash) h then h else rev (dropWhile (\<lambda>c. c = slash) (rev h)))"

definition is_abs :: "string \<Rightarrow> bool" where
  "is_abs p \<longleftrightarrow> (case p of c # _ \<Rightarrow> c = slash | [] \<Rightarrow> False)"

definition path_join :: "string \<Rightarrow> string \<Rightarrow> string" where
  "path_join a b = (if is_abs b then b else if a = [] \<or> last a = slash then a @ b else a @ [slash] @ b)"

text \<open>\<^verbatim>\<open>normpath\<close> on the pieces of an absolute name; the pieces so far are in reverse.\<close>

definition norm_piece :: "string \<Rightarrow> string list \<Rightarrow> string list" where
  "norm_piece c acc = (if c = [] \<or> c = ''.'' then acc else if c = ''..'' then tl acc else c # acc)"

definition norm_pieces :: "string \<Rightarrow> string list" where
  "norm_pieces p = rev (fold norm_piece (pieces p) [])"

definition initial_slashes :: "string \<Rightarrow> nat" where
  "initial_slashes p =
     (case length (takeWhile (\<lambda>c. c = slash) p) of 0 \<Rightarrow> 0 | Suc 0 \<Rightarrow> 1 | Suc (Suc 0) \<Rightarrow> 2 | _ \<Rightarrow> 1)"

section \<open>The disk\<close>

text \<open>Writing succeeds, fails to open the file, or fails after some characters. For an operation that is not
  a write everything but \<open>Written\<close> is a failure.\<close>

datatype write_outcome = Written | NotOpened | Torn nat

text \<open>A file or directory is named by the pieces of its absolute name.\<close>

record disk_world = env_world +
  dk_files :: "string list \<Rightarrow> string option"
  dk_dirs :: "string list set"
  dk_cwd :: string
  dk_src :: "nat \<Rightarrow> write_outcome"
  dk_pos :: nat

definition abspath :: "string \<Rightarrow> string \<Rightarrow> string" where
  "abspath cwd p =
     (let q = path_join cwd p in replicate (initial_slashes q) slash @ join [slash] (norm_pieces q))"

definition place :: "'z disk_world_scheme \<Rightarrow> string \<Rightarrow> string list" where
  "place s p = norm_pieces (path_join (dk_cwd s) p)"

definition is_dir :: "string \<Rightarrow> 'z disk_world_scheme \<Rightarrow> bool" where
  "is_dir p s \<longleftrightarrow> p \<noteq> [] \<and> place s p \<in> dk_dirs s"

definition is_file :: "string \<Rightarrow> 'z disk_world_scheme \<Rightarrow> bool" where
  "is_file p s \<longleftrightarrow> p \<noteq> [] \<and> dk_files s (place s p) \<noteq> None"

definition path_exists :: "string \<Rightarrow> 'z disk_world_scheme \<Rightarrow> bool" where
  "path_exists p s \<longleftrightarrow> is_dir p s \<or> is_file p s"

section \<open>Operations\<close>

definition os_error :: "string \<Rightarrow> string \<Rightarrow> string \<Rightarrow> exn" where
  "os_error cls what p = Raised (OtherError cls) (what @ '': '' @ quoted p)"

definition os_errors :: "string list" where
  "os_errors = [''OSError'', ''FileNotFoundError'', ''FileExistsError'', ''IsADirectoryError'', ''NotADirectoryError'',
     ''SameFileError'']"

abbreviation missing :: "string \<Rightarrow> exn" where
  "missing p \<equiv> os_error ''FileNotFoundError'' ''[Errno 2] No such file or directory'' p"

abbreviation broken :: "string \<Rightarrow> exn" where
  "broken p \<equiv> os_error ''OSError'' ''[Errno 5] Input/output error'' p"

definition disk_outcome :: "('z disk_world_scheme, write_outcome) action" where
  "disk_outcome s = (Inr (dk_src s (dk_pos s)), s\<lparr>dk_pos := Suc (dk_pos s)\<rparr>)"

definition read_file :: "string \<Rightarrow> ('z disk_world_scheme, string) action" where
  "read_file p s =
     (if is_dir p s then raise (os_error ''IsADirectoryError'' ''[Errno 21] Is a directory'' p) s
      else if \<not> is_file p s then raise (missing p) s
      else bindA disk_outcome (\<lambda>r. if r = Written then ret (the (dk_files s (place s p))) else raise (broken p)) s)"

text \<open>Writing \<open>text\<close> after \<open>before\<close>; a write that fails part of the way leaves what it wrote.\<close>

definition put_text :: "(string option \<Rightarrow> string) \<Rightarrow> string \<Rightarrow> string \<Rightarrow> ('z disk_world_scheme, unit) action" where
  "put_text before p text s =
     (if is_dir p s then raise (os_error ''IsADirectoryError'' ''[Errno 21] Is a directory'' p) s
      else if p = [] \<or> butlast (place s p) \<notin> dk_dirs s then raise (missing p) s
      else bindA disk_outcome (\<lambda>r. case r of
          NotOpened \<Rightarrow> raise (broken p)
        | Torn n \<Rightarrow> bindA (modify (\<lambda>s. s\<lparr>dk_files := (dk_files s)(place s p \<mapsto>
            before (dk_files s (place s p)) @ take n text)\<rparr>)) (\<lambda>_. raise (broken p))
        | Written \<Rightarrow> modify (\<lambda>s. s\<lparr>dk_files := (dk_files s)(place s p \<mapsto>
            before (dk_files s (place s p)) @ text)\<rparr>)) s)"

definition write_file :: "string \<Rightarrow> string \<Rightarrow> ('z disk_world_scheme, unit) action" where
  "write_file = put_text (\<lambda>_. [])"

definition append_file :: "string \<Rightarrow> string \<Rightarrow> ('z disk_world_scheme, unit) action" where
  "append_file = put_text (\<lambda>old. case old of Some t \<Rightarrow> t | None \<Rightarrow> [])"

text \<open>\<^verbatim>\<open>os.makedirs(p, exist_ok=True)\<close>: the directories on the way, outermost first.\<close>

definition way :: "string list \<Rightarrow> string list list" where
  "way q = map (\<lambda>n. take n q) [0..<Suc (length q)]"

definition make_dirs :: "string \<Rightarrow> ('z disk_world_scheme, unit) action" where
  "make_dirs p s =
     (if p = [] then raise (missing p) s
      else if is_dir p s then ret () s
      else if is_file p s then raise (os_error ''FileExistsError'' ''[Errno 17] File exists'' p) s
      else if list_ex (\<lambda>d. dk_files s d \<noteq> None) (way (place s p))
      then raise (os_error ''NotADirectoryError'' ''[Errno 20] Not a directory'' p) s
      else bindA disk_outcome (\<lambda>r. case r of
          Written \<Rightarrow> modify (\<lambda>s. s\<lparr>dk_dirs := dk_dirs s \<union> set (way (place s p))\<rparr>)
        | NotOpened \<Rightarrow> raise (broken p)
        | Torn n \<Rightarrow> bindA (modify (\<lambda>s. s\<lparr>dk_dirs := dk_dirs s \<union> set (take n (way (place s p)))\<rparr>)) (\<lambda>_. raise (broken p))) s)"

definition remove_file :: "string \<Rightarrow> ('z disk_world_scheme, unit) action" where
  "remove_file p s =
     (if is_dir p s then raise (os_error ''IsADirectoryError'' ''[Errno 21] Is a directory'' p) s
      else if \<not> is_file p s then raise (missing p) s
      else bindA disk_outcome (\<lambda>r.
        if r = Written then modify (\<lambda>s. s\<lparr>dk_files := (dk_files s)(place s p := None)\<rparr>) else raise (broken p)) s)"

text \<open>\<^verbatim>\<open>shutil.copy2\<close>: into a directory under the same base name; the contents first, then the metadata,
  which can fail after them.\<close>

definition copy_file :: "string \<Rightarrow> string \<Rightarrow> ('z disk_world_scheme, unit) action" where
  "copy_file src dst s =
     (let dst = (if is_dir dst s then path_join dst (basename src) else dst) in
      if path_exists src s \<and> path_exists dst s \<and> place s src = place s dst
      then raise (Raised (OtherError ''SameFileError'') (quoted src @ '' and '' @ quoted dst @ '' are the same file'')) s
      else bindA (read_file src) (\<lambda>text.
        bindA (write_file dst text) (\<lambda>_.
        bindA disk_outcome (\<lambda>r. if r = Written then ret () else raise (broken dst)))) s)"

text \<open>No operation fails.\<close>

definition calm :: "'z disk_world_scheme \<Rightarrow> bool" where
  "calm s \<longleftrightarrow> (\<forall>n. dk_src s n = Written)"

text \<open>Reading in text mode turns every line end into a line feed.\<close>

fun universal :: "string \<Rightarrow> string" where
  "universal [] = []"
| "universal [c] = [if c = CHR 0x0D then CHR 0x0A else c]"
| "universal (c # d # s) =
     (if c = CHR 0x0D then CHR 0x0A # universal (if d = CHR 0x0A then s else d # s) else c # universal (d # s))"

definition read_text :: "string \<Rightarrow> ('z disk_world_scheme, string) action" where
  "read_text p = bindA (read_file p) (\<lambda>t. ret (universal t))"

lemma universal_id: "CHR 0x0D \<notin> set s \<Longrightarrow> universal s = s"
  by (induction s rule: universal.induct) auto

lemma universal_append: "CHR 0x0D \<notin> set a \<Longrightarrow> universal (a @ CHR 0x0A # b) = a @ CHR 0x0A # universal b"
proof (induction a rule: universal.induct)
  case 1
  then show ?case by (cases b) simp_all
next
  case (2 c)
  then show ?case by (cases b) simp_all
qed auto

section \<open>The wall clock\<close>

text \<open>\<^verbatim>\<open>time.time()\<close> reads seconds from an arbitrary source.\<close>

record sys_world = disk_world +
  wall_src :: "nat \<Rightarrow> rat"
  wall_pos :: nat

definition time_time :: "('z sys_world_scheme, rat) action" where
  [action_simps]: "time_time s = (Inr (wall_src s (wall_pos s)), s\<lparr>wall_pos := Suc (wall_pos s)\<rparr>)"

section \<open>Facts on path names\<close>

text \<open>A name that is one component.\<close>

definition plain :: "string \<Rightarrow> bool" where
  "plain b \<longleftrightarrow> b \<noteq> [] \<and> b \<noteq> ''.'' \<and> b \<noteq> ''..'' \<and> slash \<notin> set b"

lemma pieces_nonempty [simp]: "pieces s \<noteq> []"
  by (induction s) (auto split: list.split)

lemma pieces_append: "pieces (a @ slash # b) = pieces a @ pieces b"
proof (induction a)
  case (Cons c a)
  then show ?case
    using pieces_nonempty [of a] by (cases "pieces a") auto
qed simp

lemma pieces_plain: "slash \<notin> set b \<Longrightarrow> pieces b = [b]"
  by (induction b) auto

lemma norm_pieces_append:
  "norm_pieces (a @ slash # b) = rev (fold norm_piece (pieces b) (rev (norm_pieces a)))"
  by (simp add: norm_pieces_def pieces_append)

lemma norm_pieces_slash [simp]: "norm_pieces (a @ [slash]) = norm_pieces a"
  using norm_pieces_append [of a "[]"] by (simp add: norm_piece_def)

lemma norm_pieces_slashes: "list_all (\<lambda>c. c = slash) t \<Longrightarrow> norm_pieces (a @ t) = norm_pieces a"
proof (induction t arbitrary: a)
  case (Cons c t)
  then show ?case using Cons.IH [of "a @ [slash]"] by simp
qed simp

lemma norm_pieces_last_slash:
  assumes "last a = slash" and "a \<noteq> []"
  shows "norm_pieces (butlast a) = norm_pieces a"
  using norm_pieces_slash [of "butlast a"] append_butlast_last_id [OF assms(2)] assms(1) by (metis (full_types))

lemma norm_pieces_Nil [simp]: "norm_pieces [] = []"
  by (simp add: norm_pieces_def norm_piece_def)

lemma norm_pieces_snoc:
  assumes "plain b"
  shows "norm_pieces (a @ slash # b) = norm_pieces a @ [b]" "norm_pieces b = [b]"
proof -
  have b: "pieces b = [b]" "norm_piece b acc = b # acc" for acc
    using assms by (simp_all add: plain_def pieces_plain norm_piece_def)
  show "norm_pieces (a @ slash # b) = norm_pieces a @ [b]" by (simp add: norm_pieces_append b)
  show "norm_pieces b = [b]" by (simp add: norm_pieces_def b)
qed

lemma norm_pieces_join:
  assumes "plain b"
  shows "norm_pieces (path_join a b) = norm_pieces a @ [b]"
proof -
  have b: "\<not> is_abs b" using assms by (auto simp: plain_def is_abs_def split: list.splits)
  consider "a = []" | "a \<noteq> []" "last a = slash" | "a \<noteq> []" "last a \<noteq> slash" by blast
  then show ?thesis
  proof cases
    case 2
    then have "a @ b = butlast a @ slash # b" using append_butlast_last_id [of a] by (metis append.assoc append_Cons append_Nil)
    then have "norm_pieces (a @ b) = norm_pieces (butlast a @ slash # b)" by (rule arg_cong)
    also have "... = norm_pieces a @ [b]"
      using norm_pieces_snoc(1) [OF assms, of "butlast a"] norm_pieces_last_slash [OF 2(2,1)] by simp
    finally show ?thesis using 2 b by (simp add: path_join_def)
  qed (use b norm_pieces_snoc [OF assms] in \<open>simp_all add: path_join_def\<close>)
qed

lemma is_abs_append [simp]: "a \<noteq> [] \<Longrightarrow> is_abs (a @ b) = is_abs a"
  by (cases a) (simp_all add: is_abs_def)

lemma place_join:
  assumes "plain b"
  shows "place s (path_join d b) = place s d @ [b]"
proof -
  let ?w = "dk_cwd s"
  have b: "\<not> is_abs b" "b \<noteq> []" using assms by (auto simp: plain_def is_abs_def split: list.splits)
  show ?thesis
  proof (cases "d = []")
    case True
    have "norm_pieces (path_join ?w []) = norm_pieces ?w" by (simp add: path_join_def is_abs_def)
    then show ?thesis using True b norm_pieces_join [OF assms, of ?w] by (simp add: place_def path_join_def [of "[]"])
  next
    case False
    then have abs: "is_abs (path_join d b) = is_abs d" using b by (simp add: path_join_def)
    have "path_join ?w (path_join d b) = path_join (path_join ?w d) b"
    proof (cases "is_abs d")
      case True
      then show ?thesis using abs by (simp add: path_join_def [of ?w])
    next
      case False
      then show ?thesis using abs b \<open>d \<noteq> []\<close> by (auto simp: path_join_def)
    qed
    then show ?thesis using norm_pieces_join [OF assms] by (simp add: place_def)
  qed
qed

lemma dropWhile_slashes: "\<exists>t. list_all (\<lambda>c. c = slash) t \<and> h = rev (dropWhile (\<lambda>c. c = slash) (rev h)) @ t"
proof (intro exI conjI)
  let ?t = "rev (takeWhile (\<lambda>c. c = slash) (rev h))"
  show "list_all (\<lambda>c. c = slash) ?t" by (auto simp: list_all_iff dest: set_takeWhileD)
  have "rev h = takeWhile (\<lambda>c. c = slash) (rev h) @ dropWhile (\<lambda>c. c = slash) (rev h)" by simp
  then show "h = rev (dropWhile (\<lambda>c. c = slash) (rev h)) @ ?t" by (metis rev_append rev_rev_ident)
qed

lemma place_split:
  assumes "plain (basename p)"
  shows "place s p = place s (dirname p) @ [basename p]"
proof -
  define h where "h = rev (dropWhile (\<lambda>c. c \<noteq> slash) (rev p))"
  have p: "p = h @ basename p"
    unfolding h_def basename_def by (metis rev_append rev_rev_ident takeWhile_dropWhile_id)
  have h: "h = [] \<or> last h = slash"
  proof (cases "dropWhile (\<lambda>c. c \<noteq> slash) (rev p)")
    case (Cons c r)
    then have "c = slash" using hd_dropWhile [of "\<lambda>c. c \<noteq> slash" "rev p"] by simp
    then show ?thesis by (simp add: h_def Cons)
  qed (simp add: h_def)
  have "norm_pieces (path_join w (dirname p)) = norm_pieces (path_join w h)" for w
  proof (cases "list_all (\<lambda>c. c = slash) h")
    case False
    define d where "d = rev (dropWhile (\<lambda>c. c = slash) (rev h))"
    have d: "dirname p = d" using False by (simp add: dirname_def Let_def d_def h_def)
    obtain t where t: "list_all (\<lambda>c. c = slash) t" "h = d @ t" using dropWhile_slashes [of h] by (auto simp: d_def)
    have "d \<noteq> []" using False t by auto
    then have "path_join w h = path_join w d @ t" using t(2) by (simp add: path_join_def)
    then show ?thesis using norm_pieces_slashes [OF t(1)] d by simp
  qed (simp add: dirname_def Let_def h_def)
  then have "place s (dirname p) = place s h" by (simp add: place_def)
  moreover have "path_join h (basename p) = p"
    using p h assms by (auto simp: path_join_def plain_def is_abs_def split: list.splits)
  ultimately show ?thesis using place_join [OF assms, of s h] by simp
qed

end
