(* ===== verification/Atlas_Models.thy ===== *)
theory Atlas_Models
  imports File_System
begin

text \<open>
  The data of the code generator (\<^verbatim>\<open>atlas_agent/models.py\<close>): the enumerations, the pydantic models with
  the constraints their constructors check, and the trade order with its envelope. A constructor that
  refuses a field raises pydantic's \<^verbatim>\<open>ValidationError\<close>. What pydantic itself computes from a model, its
  JSON text, is a parameter of the definitions that use it.
\<close>

section \<open>Errors\<close>

text \<open>What \<^verbatim>\<open>except SyntaxError\<close> catches.\<close>

fun is_syntax_error :: "exn \<Rightarrow> bool" where
  "is_syntax_error (Raised (OtherError n) m) = (n \<in> {''SyntaxError'', ''IndentationError'', ''TabError''})"
| "is_syntax_error e = False"

section \<open>Enumerations\<close>

datatype language = Python | Rust | Go

fun language_value :: "language \<Rightarrow> string" where
  "language_value Python = ''python''"
| "language_value Rust = ''rust''"
| "language_value Go = ''go''"

text \<open>The second class of the name, derived from \<^verbatim>\<open>str\<close>, is the one that is in force.\<close>

datatype security_level = SevCritical | SevHigh | SevMedium | SevLow | SevInfo

fun security_level_value :: "security_level \<Rightarrow> string" where
  "security_level_value SevCritical = ''critical''"
| "security_level_value SevHigh = ''high''"
| "security_level_value SevMedium = ''medium''"
| "security_level_value SevLow = ''low''"
| "security_level_value SevInfo = ''info''"

datatype approval_status = ApPending | ApApproved | ApRejected | ApDeployed | ApDeployFailed | ApRolledBack

fun approval_status_value :: "approval_status \<Rightarrow> string" where
  "approval_status_value ApPending = ''pending''"
| "approval_status_value ApApproved = ''approved''"
| "approval_status_value ApRejected = ''rejected''"
| "approval_status_value ApDeployed = ''deployed''"
| "approval_status_value ApDeployFailed = ''deploy_failed''"
| "approval_status_value ApRolledBack = ''rolled_back''"

section \<open>Requirements, specifications and artifacts\<close>

record requirement =
  rq_description :: string
  rq_language :: language
  rq_project_name :: string
  rq_target_folder :: string
  rq_additional_rules :: "string list"
  rq_constraints :: pydict

record atlas_spec =
  sp_requirement :: requirement
  sp_architecture :: string
  sp_modules :: "pydict list"
  sp_dependencies :: "string list"
  sp_approved_by :: "string option"
  sp_approved_at :: "datetime option"

record security_finding =
  sf_severity :: security_level
  sf_category :: string
  sf_message :: string
  sf_file_path :: string
  sf_line_number :: "int option"
  sf_suggestion :: string

text \<open>\<^verbatim>\<open>validate_relative_path\<close>.\<close>

definition relative_path :: "string \<Rightarrow> bool" where
  "relative_path v \<longleftrightarrow>
     \<not> (is_abs v \<or> CHR '':'' \<in> set (hd (pieces v)) \<and> take 2 v \<noteq> ''./'')"

definition new_security_finding ::
  "security_level \<Rightarrow> string \<Rightarrow> string \<Rightarrow> string \<Rightarrow> int option \<Rightarrow> string \<Rightarrow> exn + security_finding" where
  "new_security_finding sev cat msg path line sug =
     (if cat = [] \<or> msg = [] \<or> path = [] \<or> sug = []
         \<or> (case line of Some n \<Rightarrow> n < 0 | None \<Rightarrow> False) \<or> \<not> relative_path path
      then Inl validation_error
      else Inr \<lparr>sf_severity = sev, sf_category = cat, sf_message = msg, sf_file_path = path,
        sf_line_number = line, sf_suggestion = sug\<rparr>)"

text \<open>The duration is a constant of the caller and never read; it is left out.\<close>

record test_result =
  tr_name :: string
  tr_passed :: bool
  tr_output :: string
  tr_errors :: "string list"

record artifact =
  ar_requirement :: requirement
  ar_specification :: "atlas_spec option"
  ar_generated_files :: "string list"
  ar_dependencies :: "(string \<times> string) list"
  ar_security_findings :: "security_finding list"
  ar_test_results :: "test_result list"
  ar_status :: approval_status
  ar_timestamp :: datetime
  ar_metadata :: pydict

definition new_artifact :: "requirement \<Rightarrow> atlas_spec \<Rightarrow> string list \<Rightarrow> ('z env_world_scheme, artifact) action" where
  "new_artifact req spec files =
     bindA now (\<lambda>t. ret \<lparr>ar_requirement = req, ar_specification = Some spec, ar_generated_files = files,
       ar_dependencies = [], ar_security_findings = [], ar_test_results = [], ar_status = ApPending,
       ar_timestamp = t, ar_metadata = []\<rparr>)"

section \<open>Audit records\<close>

record gov_record =
  gr_event_id :: string
  gr_contract_version :: string
  gr_event_type :: string
  gr_operation_id :: string
  gr_agent_id :: string
  gr_timestamp :: datetime
  gr_action :: string
  gr_resource :: string
  gr_result :: string
  gr_metadata :: pydict

definition new_gov_record ::
  "string \<Rightarrow> string \<Rightarrow> string \<Rightarrow> string \<Rightarrow> string \<Rightarrow> string \<Rightarrow> pydict \<Rightarrow> ('z env_world_scheme, gov_record) action" where
  "new_gov_record event_type operation_id agent_id act resource result metadata =
     bindA fresh_uuid (\<lambda>u.
     bindA now (\<lambda>t.
     if [] \<in> {event_type, operation_id, agent_id, act, resource, result} then raise validation_error
     else ret \<lparr>gr_event_id = u, gr_contract_version = ''1.0'', gr_event_type = event_type,
       gr_operation_id = operation_id, gr_agent_id = agent_id, gr_timestamp = t, gr_action = act,
       gr_resource = resource, gr_result = result, gr_metadata = metadata\<rparr>))"

section \<open>Deployment records\<close>

record deploy_validation =
  dv_syntax_valid :: bool
  dv_importable :: bool
  dv_tests_passed :: bool
  dv_errors :: "string list"

record deployment_record =
  dr_deployment_id :: string
  dr_artifact_path :: string
  dr_target_path :: string
  dr_status :: approval_status
  dr_timestamp :: rat
  dr_backup_path :: "string option"
  dr_validation :: deploy_validation
  dr_audit_event_id :: string
  dr_rollback_reason :: "string option"

definition new_deployment_record :: "deployment_record \<Rightarrow> exn + deployment_record" where
  "new_deployment_record d =
     (if [] \<in> {dr_deployment_id d, dr_artifact_path d, dr_target_path d, dr_audit_event_id d}
      then Inl validation_error else Inr d)"

section \<open>Orders\<close>

datatype order_side = Buy | Sell

datatype order_type = MarketOrder | LimitOrder | StopLimitOrder | StopMarketOrder

datatype time_in_force = Gtc | Ioc | Fok | Gtd

record order =
  or_order_id :: string
  or_symbol :: string
  or_side :: order_side
  or_quantity :: pyfloat
  or_order_type :: order_type
  or_timestamp :: datetime
  or_agent_id :: string
  or_price :: "pyfloat option"
  or_stop_price :: "pyfloat option"
  or_time_in_force :: "time_in_force option"
  or_metadata :: pydict

text \<open>\<^verbatim>\<open>Field(gt=0)\<close>: NaN is not greater than zero, infinity is.\<close>

fun positive :: "pyfloat \<Rightarrow> bool" where
  "positive (Fin x) = (0 < x)"
| "positive PosInf = True"
| "positive x = False"

definition new_order ::
  "string \<Rightarrow> order_side \<Rightarrow> pyfloat \<Rightarrow> order_type \<Rightarrow> string \<Rightarrow> pyfloat option \<Rightarrow> pyfloat option \<Rightarrow>
   time_in_force option \<Rightarrow> pydict \<Rightarrow> ('z env_world_scheme, order) action" where
  "new_order symbol side quantity typ agent price stop tif metadata =
     bindA fresh_uuid (\<lambda>u.
     bindA now (\<lambda>t.
     if strip symbol = [] \<or> strip agent = [] \<or> \<not> positive quantity
        \<or> \<not> pred_option positive price \<or> \<not> pred_option positive stop
     then raise validation_error
     else ret \<lparr>or_order_id = u, or_symbol = symbol, or_side = side, or_quantity = quantity,
       or_order_type = typ, or_timestamp = t, or_agent_id = agent, or_price = price,
       or_stop_price = stop, or_time_in_force = tif, or_metadata = metadata\<rparr>))"

record message_metadata =
  mm_specification_id :: string
  mm_policy_version :: string
  mm_owner :: string
  mm_validation_status :: string

record engine_message =
  em_contract_version :: string
  em_message_type :: string
  em_source_engine :: string
  em_timestamp :: datetime
  em_payload :: pydict
  em_metadata :: message_metadata

text \<open>\<open>dump\<close> is pydantic's \<^verbatim>\<open>model_dump\<close>; the argument \<^verbatim>\<open>agent_id\<close> is not used.\<close>

definition wrap_order :: "(order \<Rightarrow> pydict) \<Rightarrow> order \<Rightarrow> string \<Rightarrow> ('z env_world_scheme, engine_message) action" where
  "wrap_order dump ord agent =
     bindA now (\<lambda>t. ret \<lparr>em_contract_version = ''1.0'', em_message_type = ''exec.order.v1'',
       em_source_engine = ''python_engine'', em_timestamp = t, em_payload = dump ord,
       em_metadata = \<lparr>mm_specification_id = ''order-v1'', mm_policy_version = ''1.0'',
         mm_owner = ''Python AI Agent'', mm_validation_status = ''validated''\<rparr>\<rparr>)"

end
