(* ===== verification/Governance.thy ===== *)
theory Governance
  imports Atlas_Models Regex
begin

text \<open>
  The governance engine of the code generator (\<^verbatim>\<open>atlas_agent/governance.py\<close>, with the settings of
  \<^verbatim>\<open>config.py\<close> it reads): the audit trail in memory and in its file, the policy checks, the scan for
  secrets and the human approval. What the human types is a field of the state; an exhausted one is
  the end of the input. \<open>dump\<close> is pydantic's JSON text of a model, \<open>repr\<close> is \<^verbatim>\<open>str\<close> of a dictionary.
\<close>

section \<open>State\<close>

record settings =
  st_logs_dir :: string
  st_require_human_approval :: bool
  st_secret_patterns :: "(string \<times> rx) list"

record gov_world = sys_world +
  gov_settings :: settings
  gov_logs :: "gov_record list"
  gov_replies :: "string list"

text \<open>\<^verbatim>\<open>key\s*=\s*["']\<close>: the text of a pattern and the pattern, for matching without regard to case
  against a text in lower case.\<close>

definition secret_pattern :: "string \<Rightarrow> string \<times> rx" where
  "secret_pattern key =
     (key @ [CHR 0x5C] @ ''s*='' @ [CHR 0x5C] @ ''s*['' @ [CHR 0x22, CHR 0x5C, CHR 0x27] @ '']'',
      sequence [lit key, Star space, lit ''='', Star space, One (\<lambda>c. c = CHR 0x22 \<or> c = CHR 0x27)])"

definition default_settings :: settings where
  "default_settings = \<lparr>st_logs_dir = ''/root/Atlas-AI/logs'', st_require_human_approval = True,
     st_secret_patterns = map secret_pattern [''api_key'', ''password'', ''secret'']\<rparr>"

section \<open>The audit trail\<close>

text \<open>\<^verbatim>\<open>str\<close> of an aware time: a space where \<^verbatim>\<open>isoformat\<close> has its \<^verbatim>\<open>T\<close>.\<close>

definition str_datetime :: "datetime \<Rightarrow> string" where
  "str_datetime t = (let s = isoformat t in take 10 s @ '' '' @ drop 11 s)"

definition audit_line :: "gov_record \<Rightarrow> string \<Rightarrow> string option \<Rightarrow> string" where
  "audit_line r component err =
     str_datetime (gr_timestamp r) @ '' | '' @ gr_action r @ '' | '' @ component @ '' | '' @ gr_result r
       @ '' | '' @ (case err of Some e \<Rightarrow> e | None \<Rightarrow> []) @ [CHR 0x0A]"

definition log_metadata :: "string \<Rightarrow> pydict \<Rightarrow> string option \<Rightarrow> pydict" where
  "log_metadata component details err =
     (let md = dict_set ''component'' (PStr component) details
      in case err of Some e \<Rightarrow> dict_set ''error'' (PStr e) md | None \<Rightarrow> md)"

text \<open>The parameters no caller passes keep their defaults.\<close>

definition log_audit_as ::
  "string \<Rightarrow> string \<Rightarrow> pydict \<Rightarrow> string \<Rightarrow> string option \<Rightarrow> string \<Rightarrow> string \<Rightarrow> string \<Rightarrow> string \<Rightarrow>
   ('z gov_world_scheme, unit) action" where
  "log_audit_as act component details result err event_type operation_id agent_id resource =
     bindA (new_gov_record event_type operation_id agent_id act
       (if resource = [] then component else resource) result (log_metadata component details err)) (\<lambda>r.
     bindA (modify (\<lambda>s. s\<lparr>gov_logs := gov_logs s @ [r]\<rparr>)) (\<lambda>_.
     bindA (gets gov_settings) (\<lambda>cfg.
     append_file (path_join (st_logs_dir cfg) ''audit.log'') (audit_line r component err))))"

definition log_audit ::
  "string \<Rightarrow> string \<Rightarrow> pydict \<Rightarrow> string \<Rightarrow> string option \<Rightarrow> ('z gov_world_scheme, unit) action" where
  "log_audit act component details result err =
     log_audit_as act component details result err ''governance_event'' ''unknown'' ''governance_engine'' []"

text \<open>The constructor.\<close>

definition governance_init :: "('z gov_world_scheme, unit) action" where
  "governance_init =
     bindA (modify (\<lambda>s. s\<lparr>gov_logs := []\<rparr>)) (\<lambda>_.
     bindA (gets gov_settings) (\<lambda>cfg. make_dirs (st_logs_dir cfg)))"

section \<open>Policies\<close>

text \<open>A failed check is audited.\<close>

definition gov_failed :: "string \<Rightarrow> pydict \<Rightarrow> string \<Rightarrow> string \<Rightarrow> ('z gov_world_scheme, bool) action" where
  "gov_failed act details result err =
     bindA (log_audit act ''governance'' details result (Some err)) (\<lambda>_. ret False)"

definition get_truthy :: "pydict \<Rightarrow> string \<Rightarrow> bool" where
  "get_truthy d k = (case map_of d k of Some v \<Rightarrow> truthy v | None \<Rightarrow> False)"

definition check_policy :: "(pydict \<Rightarrow> string) \<Rightarrow> string \<Rightarrow> pydict \<Rightarrow> ('z gov_world_scheme, bool) action" where
  "check_policy repr policy context =
     bindA (log_audit ''policy_check'' ''governance''
       [(''policy'', PStr policy), (''context'', PStr (repr context))] ''success'' None) (\<lambda>_.
     let fails = gov_failed ''policy_failed'' [(''policy'', PStr policy)] ''failed'' in
     if policy = ''architecture_first'' then
       (if \<not> get_truthy context ''architecture'' then fails ''Missing architecture'' else ret True)
     else if policy = ''spec_before_code'' then
       (if \<not> get_truthy context ''specification'' then fails ''Missing specification'' else ret True)
     else if policy = ''security_first'' \<and> \<not> get_truthy context ''security_scan'' then fails ''Missing security scan''
     else ret True)"

definition validate_specification :: "(atlas_spec \<Rightarrow> string) \<Rightarrow> atlas_spec \<Rightarrow> ('z gov_world_scheme, bool) action" where
  "validate_specification dump spec =
     bindA (log_audit ''spec_validation'' ''governance'' [(''spec'', PStr (dump spec))] ''success'' None) (\<lambda>_.
     if sp_architecture spec = [] then gov_failed ''spec_validation_failed'' [] ''success'' ''Missing architecture''
     else if sp_modules spec = [] then gov_failed ''spec_validation_failed'' [] ''success'' ''Missing modules''
     else ret True)"

definition secret_finding :: "string \<Rightarrow> string \<Rightarrow> exn + security_finding" where
  "secret_finding pattern path =
     new_security_finding SevCritical ''secret_detection'' (''Potential secret found: '' @ pattern) path None
       ''Remove secret and use environment variable or secret manager''"

fun scan_for_secrets :: "(string \<times> rx) list \<Rightarrow> string \<Rightarrow> string \<Rightarrow> exn + security_finding list" where
  "scan_for_secrets [] content path = Inr []"
| "scan_for_secrets ((pattern, r) # ps) content path =
     (if re_search r (lower content)
      then case secret_finding pattern path of
          Inl e \<Rightarrow> Inl e
        | Inr f \<Rightarrow> map_sum id (Cons f) (scan_for_secrets ps content path)
      else scan_for_secrets ps content path)"

definition validate_artifact :: "(artifact \<Rightarrow> string) \<Rightarrow> artifact \<Rightarrow> ('z gov_world_scheme, bool) action" where
  "validate_artifact dump a =
     bindA (log_audit ''artifact_validation'' ''governance'' [(''artifact'', PStr (dump a))] ''success'' None) (\<lambda>_.
     if filter (\<lambda>f. sf_severity f = SevCritical) (ar_security_findings a) \<noteq> []
     then gov_failed ''artifact_validation_failed'' [] ''success'' ''Critical security findings''
     else if filter (\<lambda>t. \<not> tr_passed t) (ar_test_results a) \<noteq> []
     then gov_failed ''artifact_validation_failed'' [] ''success'' ''Failed tests''
     else ret True)"

section \<open>Human approval\<close>

definition project_detail :: "artifact \<Rightarrow> pydict" where
  "project_detail a = [(''artifact'', PStr (rq_project_name (ar_requirement a)))]"

text \<open>The artifact is passed on with its status, which the method assigns.\<close>

definition require_human_approval :: "artifact \<Rightarrow> ('z gov_world_scheme, bool \<times> artifact) action" where
  "require_human_approval a =
     bindA (gets gov_settings) (\<lambda>cfg.
     if \<not> st_require_human_approval cfg then ret (True, a)
     else bindA (gets gov_replies) (\<lambda>replies.
       case replies of
         [] \<Rightarrow> ret (False, a)
       | reply # rest \<Rightarrow>
           bindA (modify (\<lambda>s. s\<lparr>gov_replies := rest\<rparr>)) (\<lambda>_.
           if lower (strip reply) = ''yes''
           then bindA (log_audit ''human_approval'' ''governance'' (project_detail a) ''approved'' None) (\<lambda>_.
             ret (True, a\<lparr>ar_status := ApApproved\<rparr>))
           else bindA (log_audit ''human_rejection'' ''governance'' (project_detail a) ''rejected'' None) (\<lambda>_.
             ret (False, a\<lparr>ar_status := ApRejected\<rparr>)))))"

end
