(* ===== verification/Restriction_Guard.thy ===== *)
theory Restriction_Guard
  imports Regex Sha256 Governance
begin

text \<open>
  The restriction guard (\<^verbatim>\<open>atlas_agent/restriction_guard.py\<close>): the rules of the JSON contract, the
  classification of a request, the validation of generated code, and the guard with its trail.
\<close>

section \<open>Decisions\<close>

datatype request_intent = Scaffold | Implementation | Ambiguous

datatype restriction_category = HftCore | ExecutionLogic | RiskSystems | TradingStrategies

fun category_value :: "restriction_category \<Rightarrow> string" where
  "category_value HftCore = ''hft_core''"
| "category_value ExecutionLogic = ''execution_logic''"
| "category_value RiskSystems = ''risk_systems''"
| "category_value TradingStrategies = ''trading_strategies''"

record guard_decision =
  gd_allowed :: bool
  gd_intent :: request_intent
  gd_category :: "restriction_category option"
  gd_reason :: string
  gd_timestamp :: rat
  gd_prompt_hash :: string
  gd_layer :: string

definition new_guard_decision ::
  "bool \<Rightarrow> request_intent \<Rightarrow> restriction_category option \<Rightarrow> string \<Rightarrow> string \<Rightarrow> string \<Rightarrow>
   ('z sys_world_scheme, guard_decision) action" where
  "new_guard_decision allowed intent category reason hash layer =
     bindA time_time (\<lambda>t. ret \<lparr>gd_allowed = allowed, gd_intent = intent, gd_category = category,
       gd_reason = reason, gd_timestamp = t, gd_prompt_hash = hash, gd_layer = layer\<rparr>)"

section \<open>Rules\<close>

text \<open>The contract: patterns by the key of their category, and the two lists of indicators.\<close>

record guard_rules =
  gr_categories :: "(string \<times> rx list) list"
  gr_scaffold :: "rx list"
  gr_implementation :: "rx list"

text \<open>A file that is not there gives no rules.\<close>

definition load_rules :: "guard_rules option \<Rightarrow> guard_rules" where
  "load_rules file = (case file of Some r \<Rightarrow> r
     | None \<Rightarrow> \<lparr>gr_categories = [], gr_scaffold = [], gr_implementation = []\<rparr>)"

definition category_map :: "(string \<times> restriction_category) list" where
  "category_map = [(''hft_core'', HftCore), (''execution_logic'', ExecutionLogic),
     (''risk_systems'', RiskSystems), (''trading_strategies'', TradingStrategies)]"

definition category_patterns :: "guard_rules \<Rightarrow> (restriction_category \<times> rx list) list" where
  "category_patterns rules =
     fold (\<lambda>(k, ps) d. case map_of category_map k of Some c \<Rightarrow> dict_set c ps d | None \<Rightarrow> d)
       (gr_categories rules) []"

text \<open>\<^verbatim>\<open>[\s-]\<close> and \<^verbatim>\<open>[\s_]\<close>.\<close>

definition space_or :: "char \<Rightarrow> rx" where
  "space_or c = One (\<lambda>x. is_space x \<or> x = c)"

text \<open>\<^verbatim>\<open>\b...[\s_]*...\b\<close> and \<^verbatim>\<open>\b...\s+...\b\<close>.\<close>

definition joined :: "string \<Rightarrow> string \<Rightarrow> rx list" where
  "joined a b = [Boundary, lit a, Star (space_or (CHR ''_'')), lit b]"

fun spaced :: "string list \<Rightarrow> rx list" where
  "spaced [] = []"
| "spaced [w] = [lit w]"
| "spaced (w # ws) = [lit w, plus space] @ spaced ws"

definition bounded :: "rx list \<Rightarrow> rx" where
  "bounded rs = sequence (Boundary # rs @ [Boundary])"

definition contract_rules :: guard_rules where
  "contract_rules =
     \<lparr>gr_categories =
        [(''hft_core'',
          [bounded [lit ''high'', maybe (space_or (CHR ''-'')), lit ''frequency''],
           bounded [lit ''hft''],
           bounded [lit ''nanosecond'', Star space, lit ''timing''],
           bounded [lit ''latency'', maybe (space_or (CHR ''-'')), lit ''critical'', Star space, lit ''execution'']]),
         (''execution_logic'',
          [sequence (joined ''order'' ''execution'' @ [Boundary]),
           sequence (joined ''trade'' ''execution'' @ [Boundary]),
           sequence (joined ''execution'' ''engine'' @ [Boundary]),
           sequence (joined ''order'' ''routing'' @ [Boundary]),
           sequence (joined ''exchange'' ''order'' @ [Boundary]),
           bounded [lit ''ordermanager'']]),
         (''risk_systems'',
          [sequence (joined ''risk'' ''engine'' @ [Boundary]),
           sequence (joined ''risk'' ''management'' @ [Boundary]),
           sequence (joined ''position'' ''limit''),
           sequence (joined ''exposure'' ''control'' @ [Boundary]),
           sequence (joined ''margin'' ''calculation'' @ [Boundary]),
           sequence (joined ''risk'' ''assessment'' @ [Boundary])]),
         (''trading_strategies'',
          [sequence (joined ''trading'' ''strateg''),
           sequence (joined ''strategy'' ''logic'' @ [Boundary]),
           sequence (joined ''signal'' ''generation'' @ [Boundary]),
           sequence (joined ''backtest'' ''engine'' @ [Boundary]),
           sequence (joined ''alpha'' ''generation'' @ [Boundary]),
           bounded [lit ''strategysignal'']])],
      gr_scaffold =
        [bounded [lit ''scaffold''], bounded [lit ''stub''], bounded (spaced [''trait'', ''definition'']),
         bounded (spaced [''struct'', ''definition'']), bounded (spaced [''enum'', ''definition'']),
         lit ''todo!()'', lit ''unimplemented!()'', bounded (spaced [''no'', ''implementation'']),
         bounded (spaced [''without'', ''implementation'']), bounded (spaced [''do'', ''not'', ''implement'']),
         bounded (spaced [''forbidden'', ''per'']),
         bounded [lit ''only'', plus space, maybe (Seq (lit ''the'') (plus space)), lit ''structure''],
         bounded [lit ''only'', plus space, maybe (Seq (lit ''the'') (plus space)), lit ''definition'',
           maybe (lit ''s'')],
         bounded [lit ''placeholder'']],
      gr_implementation =
        [bounded (spaced [''implement'', ''the'']), bounded (spaced [''write'', ''the'', ''logic'']),
         bounded (spaced [''business'', ''logic'', ''for'']), bounded (spaced [''algorithm'', ''for'']),
         bounded (spaced [''calculate'', ''the'']),
         sequence ([Boundary] @ spaced [''fn'', ''assess''] @ [Star space, lit ''('']),
         sequence ([Boundary] @ spaced [''fn'', ''execute''] @ [Star space, lit ''('']),
         sequence ([Boundary] @ spaced [''fn'', ''evaluate''] @ [Star space, lit ''('']),
         bounded (spaced [''position'', ''sizing'', ''logic'']), bounded (spaced [''risk'', ''assessment'', ''logic'']),
         bounded (spaced [''order'', ''routing'', ''logic'']),
         bounded (spaced [''signal'', ''generation'', ''logic''])]\<rparr>"

section \<open>Layer 1: the request\<close>

definition classify_intent :: "guard_rules \<Rightarrow> string \<Rightarrow> request_intent" where
  "classify_intent rules prompt =
     (let t = lower prompt;
          scaffold_hits = length (filter (\<lambda>r. re_search r t) (gr_scaffold rules));
          impl_hits = length (filter (\<lambda>r. re_search r t) (gr_implementation rules))
      in if impl_hits > 0 then Implementation
         else if scaffold_hits \<ge> 2 then Scaffold else Ambiguous)"

definition detect_category :: "guard_rules \<Rightarrow> string \<Rightarrow> restriction_category option" where
  "detect_category rules prompt =
     map_option fst (List.find (\<lambda>(c, ps). list_ex (\<lambda>r. re_search r (lower prompt)) ps) (category_patterns rules))"

section \<open>Layer 2: the generated code\<close>

definition business_call :: rx where
  "business_call = sequence [lit ''.'',
     any_of [lit ''assess'', lit ''execute'', lit ''evaluate'', lit ''calculate'', lit ''compute''], Star space, lit ''('']"

text \<open>\<^verbatim>\<open>fn\s+\w+\s*\([^)]*\)\s*->\s*[^{]*\{\<close>.\<close>

definition rust_fn :: "rx list" where
  "rust_fn = [lit ''fn'', plus space, plus word, Star space, lit ''('', Star (not_in '')''), lit '')'',
     Star space, lit ''->'', Star space, Star (not_in ''{''), lit ''{'']"

definition implementation_patterns_rust :: "rx list" where
  "implementation_patterns_rust =
     [sequence (rust_fn @ [at_least 50 (not_in ''}'')]),
      sequence [any_of [lit ''if'', lit ''match'', lit ''while'', lit ''for''], plus space, Star dot_all, lit ''{'',
        Star dot_all, any_of [lit ''return'', lit ''Err'', lit ''Ok'']],
      business_call]"

definition newline :: rx where
  "newline = lit [CHR 0x0A]"

definition implementation_patterns_python :: "rx list" where
  "implementation_patterns_python =
     [sequence [lit ''def'', plus space, plus word, Star space, lit ''(self'', Star (not_in '')''), lit '')'',
        Star (not_in '':''), lit '':'', Star space, newline,
        at_least 5 (sequence [plus space, plus dot_all, newline])],
      sequence [any_of [lit ''if'', lit ''elif'', lit ''while'', lit ''for''], plus space, plus dot_all, lit '':'',
        Star space, newline, plus space, Star dot_all, any_of [lit ''return'', lit ''raise'']],
      business_call]"

definition scaffold_patterns_rust :: "rx list" where
  "scaffold_patterns_rust =
     [lit ''todo!()'', lit ''unimplemented!()'', lit ''unreachable!()'',
      sequence (rust_fn @ [Star space, any_of [lit ''todo'', lit ''unimplemented'']])]"

definition scaffold_patterns_python :: "rx list" where
  "scaffold_patterns_python =
     [sequence [lit ''raise'', plus space, lit ''NotImplementedError''], lit ''...'',
      sequence [lit ''pass'', Star space, LineEnd]]"

definition validate_output_structure :: "string \<Rightarrow> string \<Rightarrow> bool \<times> string" where
  "validate_output_structure code language =
     (if language \<noteq> ''rust'' \<and> language \<noteq> ''python'' then (True, ''Non-restricted language'')
      else
        (let todos = (if language = ''rust'' then scaffold_patterns_rust else scaffold_patterns_python);
             impls = (if language = ''rust'' then implementation_patterns_rust else implementation_patterns_python);
             has_todo = list_ex (\<lambda>r. re_search r code) todos;
             has_impl = list_ex (\<lambda>r. re_search r code) impls
         in if has_todo \<and> \<not> has_impl then (True, ''Valid scaffold: has stubs, no implementation'')
            else if has_impl \<and> \<not> has_todo then (False, ''REJECTED: contains implementation without stubs'')
            else if has_impl \<and> has_todo then (False, ''REJECTED: mixed scaffold + implementation'')
            else (False, ''REJECTED: no recognizable scaffold markers'')))"

section \<open>Layer 3: the guard\<close>

record guard_world = gov_world +
  guard_log :: "guard_decision list"

definition guard_append :: "guard_decision \<Rightarrow> ('z guard_world_scheme, guard_decision) action" where
  "guard_append d = bindA (modify (\<lambda>s. s\<lparr>guard_log := guard_log s @ [d]\<rparr>)) (\<lambda>_. ret d)"

text \<open>The dash of the reason texts is U+2014 in the source; it is written \<^verbatim>\<open>--\<close> here.\<close>

definition guard_check_request :: "guard_rules \<Rightarrow> string \<Rightarrow> ('z guard_world_scheme, guard_decision) action" where
  "guard_check_request rules prompt =
     (let hash = take 16 (sha256_hex prompt) in
      case detect_category rules prompt of
        None \<Rightarrow> bindA (new_guard_decision True Scaffold None ''No restricted category detected'' hash ''L1'') guard_append
      | Some c \<Rightarrow>
          (case classify_intent rules prompt of
             Implementation \<Rightarrow>
               bindA (new_guard_decision False Implementation (Some c)
                 (''BLOCKED: implementation request for restricted category '' @ quoted (category_value c)) hash ''L1'')
                 guard_append
           | Ambiguous \<Rightarrow>
               bindA (new_guard_decision False Ambiguous (Some c)
                 (''BLOCKED: ambiguous intent for restricted category '' @ quoted (category_value c)
                    @ '' -- use explicit SCAFFOLD markers'') hash ''L1'')
                 guard_append
           | Scaffold \<Rightarrow>
               bindA (new_guard_decision True Scaffold (Some c)
                 (''ALLOWED: scaffold-only for '' @ quoted (category_value c) @ '' -- Layer 2 will validate output'')
                 hash ''L1'')
                 guard_append))"

definition guard_validate_output ::
  "string \<Rightarrow> string \<Rightarrow> guard_decision \<Rightarrow> ('z guard_world_scheme, guard_decision) action" where
  "guard_validate_output code language d =
     (if gd_category d = None then ret d
      else
        (case validate_output_structure code language of
           (valid, reason) \<Rightarrow>
             bindA (new_guard_decision valid (gd_intent d) (gd_category d)
               ((if valid then ''L2 PASSED: '' else ''L2 REJECTED: '') @ reason) (gd_prompt_hash d) ''L2'')
               guard_append))"

definition guard_stats :: "'z guard_world_scheme \<Rightarrow> (string \<times> nat) list" where
  "guard_stats s =
     [(''total_decisions'', length (guard_log s)),
      (''blocked'', length (filter (\<lambda>d. \<not> gd_allowed d) (guard_log s))),
      (''allowed'', length (filter gd_allowed (guard_log s))),
      (''scaffolds_allowed'',
         length (filter (\<lambda>d. gd_intent d = Scaffold \<and> gd_category d \<noteq> None) (guard_log s)))]"

section \<open>Facts\<close>

definition guard_logged :: "guard_decision \<Rightarrow> 'z guard_world_scheme \<Rightarrow> 'z guard_world_scheme" where
  "guard_logged d s = s\<lparr>wall_pos := Suc (wall_pos s), guard_log := guard_log s @ [d]\<rparr>"

lemma logged_decision:
  "bindA (new_guard_decision a i c r h l) guard_append s =
    (let d = \<lparr>gd_allowed = a, gd_intent = i, gd_category = c, gd_reason = r, gd_timestamp = wall_src s (wall_pos s),
       gd_prompt_hash = h, gd_layer = l\<rparr> in (Inr d, guard_logged d s))"
  by (simp add: new_guard_decision_def guard_append_def guard_logged_def action_simps Let_def)

text \<open>What layer 1 answers.\<close>

definition request_allowed :: "guard_rules \<Rightarrow> string \<Rightarrow> bool" where
  "request_allowed rules prompt \<longleftrightarrow>
     detect_category rules prompt = None \<or> classify_intent rules prompt = Scaffold"

lemma guard_check_cases:
  "\<exists>d. guard_check_request rules prompt s = (Inr d, guard_logged d s)
     \<and> gd_allowed d = request_allowed rules prompt \<and> gd_category d = detect_category rules prompt
     \<and> gd_prompt_hash d = take 16 (sha256_hex prompt) \<and> gd_layer d = ''L1''"
  by (simp add: guard_check_request_def logged_decision Let_def request_allowed_def
      split: option.split request_intent.split)

lemma classify_scaffold_iff:
  "classify_intent rules prompt = Scaffold \<longleftrightarrow>
     list_all (\<lambda>r. \<not> re_search r (lower prompt)) (gr_implementation rules)
     \<and> 2 \<le> length (filter (\<lambda>r. re_search r (lower prompt)) (gr_scaffold rules))"
  by (auto simp: classify_intent_def Let_def list_all_iff filter_empty_conv)

lemma detect_category_iff:
  "detect_category rules prompt \<noteq> None \<longleftrightarrow>
     (\<exists>(c, ps) \<in> set (category_patterns rules). \<exists>r \<in> set ps. re_search r (lower prompt))"
  by (auto simp: detect_category_def find_None_iff list_ex_iff)

lemma no_rules_no_category: "detect_category (load_rules None) prompt = None"
  by (simp add: detect_category_def load_rules_def category_patterns_def)

definition scaffold_markers :: "string \<Rightarrow> rx list" where
  "scaffold_markers lang = (if lang = ''rust'' then scaffold_patterns_rust else scaffold_patterns_python)"

definition implementation_markers :: "string \<Rightarrow> rx list" where
  "implementation_markers lang =
     (if lang = ''rust'' then implementation_patterns_rust else implementation_patterns_python)"

definition is_scaffold :: "string \<Rightarrow> string \<Rightarrow> bool" where
  "is_scaffold code lang \<longleftrightarrow> lang \<notin> {''rust'', ''python''}
     \<or> (\<exists>r \<in> set (scaffold_markers lang). re_search r code)
       \<and> (\<forall>r \<in> set (implementation_markers lang). \<not> re_search r code)"

lemma validate_output_structure_ok: "fst (validate_output_structure code lang) \<longleftrightarrow> is_scaffold code lang"
  unfolding validate_output_structure_def is_scaffold_def scaffold_markers_def implementation_markers_def
  by (auto simp: Let_def list_ex_iff)

lemma guard_validate_cases:
  assumes "gd_category d \<noteq> None"
  shows "\<exists>d'. guard_validate_output code lang d s = (Inr d', guard_logged d' s)
     \<and> gd_allowed d' = is_scaffold code lang \<and> gd_category d' = gd_category d"
  using assms validate_output_structure_ok [of code lang]
  by (cases "validate_output_structure code lang")
    (auto simp: guard_validate_output_def logged_decision Let_def)

datatype guard_call =
    CheckRequest string
  | ValidateOutput string string guard_decision

fun guard_exec :: "guard_rules \<Rightarrow> guard_call \<Rightarrow> ('z guard_world_scheme, guard_decision) action" where
  "guard_exec rules (CheckRequest p) = guard_check_request rules p"
| "guard_exec rules (ValidateOutput code lang d) = guard_validate_output code lang d"

text \<open>The calls that take a decision of their own.\<close>

fun deciding :: "guard_call \<Rightarrow> bool" where
  "deciding (CheckRequest p) = True"
| "deciding (ValidateOutput code lang d) = (gd_category d \<noteq> None)"

lemma guard_exec_log:
  "\<exists>ds. guard_log (snd (guard_exec rules c s)) = guard_log s @ ds \<and> length ds = (if deciding c then 1 else 0)"
proof (cases c)
  case (CheckRequest p)
  then show ?thesis using guard_check_cases [of rules p s] by (auto simp: guard_logged_def)
next
  case (ValidateOutput code lang d)
  show ?thesis
  proof (cases "gd_category d = None")
    case True
    then show ?thesis using ValidateOutput by (simp add: guard_validate_output_def ret_def)
  next
    case False
    then show ?thesis using ValidateOutput guard_validate_cases [OF False, of code lang s]
      by (auto simp: guard_logged_def)
  qed
qed

section \<open>Properties\<close>

text \<open>
  C23. The guard's two layers, completely. A request that matches a restricted category is let through
  only if no implementation indicator and at least two scaffold indicators match it; a request
  without a category is always let through, and so is every request when the rules file is missing.
  Code generated for a restricted request passes only if it is neither Rust nor Python, or has a
  stub marker and no mark of an implementation. Each of these decisions is appended to the trail.
\<close>

theorem guard_two_layers:
  "(\<exists>d. guard_check_request rules prompt s = (Inr d, guard_logged d s)
      \<and> gd_category d = detect_category rules prompt
      \<and> (gd_allowed d \<longleftrightarrow>
          \<not> (\<exists>(c, ps) \<in> set (category_patterns rules). \<exists>r \<in> set ps. re_search r (lower prompt))
          \<or> list_all (\<lambda>r. \<not> re_search r (lower prompt)) (gr_implementation rules)
            \<and> 2 \<le> length (filter (\<lambda>r. re_search r (lower prompt)) (gr_scaffold rules))))
   \<and> (\<exists>d. guard_check_request (load_rules None) prompt s = (Inr d, guard_logged d s) \<and> gd_allowed d)
   \<and> (gd_category e \<noteq> None \<longrightarrow>
       (\<exists>d. guard_validate_output code lang e s = (Inr d, guard_logged d s)
         \<and> gd_allowed d = is_scaffold code lang))"
  using guard_check_cases [of rules prompt s] guard_check_cases [of "load_rules None" prompt s]
    guard_validate_cases [of e code lang s] no_rules_no_category [of prompt]
  unfolding detect_category_iff [symmetric] classify_scaffold_iff [symmetric] request_allowed_def
  by blast

definition guard_demo :: guard_world where
  "guard_demo = \<lparr>uuid_src = demo_uuids, clock_src = demo_clock, uuid_pos = 0, clock_pos = 0,
     dk_files = (\<lambda>_. None), dk_dirs = {[]}, dk_cwd = ''/'', dk_src = (\<lambda>_. Written), dk_pos = 0,
     wall_src = of_nat, wall_pos = 0,
     gov_settings = default_settings, gov_logs = [], gov_replies = [], guard_log = []\<rparr>"

definition demo_decision :: guard_decision where
  "demo_decision = \<lparr>gd_allowed = True, gd_intent = Scaffold, gd_category = Some HftCore, gd_reason = [],
     gd_timestamp = 0, gd_prompt_hash = [], gd_layer = ''L1''\<rparr>"

lemma demo_not_scaffold: "\<not> is_scaffold ''x = 1'' ''python''"
  by code_simp

theorem guard_two_layers_witness:
  "\<exists>d. guard_validate_output ''x = 1'' ''python'' demo_decision guard_demo = (Inr d, guard_logged d guard_demo)
     \<and> \<not> gd_allowed d"
proof -
  have "gd_category demo_decision \<noteq> None" by (simp add: demo_decision_def)
  then show ?thesis
    using guard_two_layers [of contract_rules "[]" guard_demo demo_decision "''x = 1''" "''python''"]
      demo_not_scaffold by simp
qed

text \<open>
  The trail is complete and its statistics add up: over any sequence of calls it only grows, by
  exactly one decision per call that takes one, and the blocked and the allowed make up the total.
\<close>

theorem guard_trail_complete:
  "prefix (guard_log s) (guard_log (run (guard_exec rules) s cs))
   \<and> length (guard_log (run (guard_exec rules) s cs)) = length (guard_log s) + length (filter deciding cs)
   \<and> map_of (guard_stats s) ''total_decisions''
     = Some (the (map_of (guard_stats s) ''blocked'') + the (map_of (guard_stats s) ''allowed''))"
proof -
  have "prefix (guard_log s) (guard_log (run (guard_exec rules) s cs))
   \<and> length (guard_log (run (guard_exec rules) s cs)) = length (guard_log s) + length (filter deciding cs)"
  proof (induction cs arbitrary: s)
    case (Cons c cs)
    obtain ds where "guard_log (snd (guard_exec rules c s)) = guard_log s @ ds"
      "length ds = (if deciding c then 1 else 0)"
      using guard_exec_log by blast
    then show ?case using Cons.IH [of "snd (guard_exec rules c s)"] by (auto simp: prefix_def)
  qed simp
  moreover have "length l = length (filter (\<lambda>d. \<not> P d) l) + length (filter P l)" for P and l :: "guard_decision list"
    using sum_length_filter_compl [of P l] by simp
  then have "map_of (guard_stats s) ''total_decisions''
     = Some (the (map_of (guard_stats s) ''blocked'') + the (map_of (guard_stats s) ''allowed''))"
    by (simp add: guard_stats_def)
  ultimately show ?thesis by blast
qed

end
