(* ===== verification/Llm_Cache.thy ===== *)
theory Llm_Cache
  imports Restriction_Guard Json_Roundtrip
begin

text \<open>
  The response cache (\<^verbatim>\<open>atlas_agent/llm_cache.py\<close>): expiry, eviction, the hit counter, and the JSON
  file that keeps the entries over a restart. The difference of two clock readings is exact here, as
  it is in Python for two doubles within a factor of two of each other. A file is what this class
  wrote, or no JSON; a JSON file of another shape is not modelled.
\<close>

section \<open>Entries\<close>

record cache_entry =
  ce_response :: string
  ce_ts :: rat
  ce_model :: string
  ce_hits :: nat
  ce_len :: nat

definition max_entries :: nat where
  "max_entries = 100"

definition ttl_seconds :: rat where
  "ttl_seconds = 86400"

definition entry_value :: "cache_entry \<Rightarrow> pyval" where
  "entry_value e = PDict [(''response'', PStr (ce_response e)), (''ts'', PFloat (Fin (ce_ts e))),
     (''model'', PStr (ce_model e)), (''hits'', PInt (int (ce_hits e))), (''len'', PInt (int (ce_len e)))]"

fun entry_of_value :: "pyval \<Rightarrow> cache_entry option" where
  "entry_of_value (PDict d) =
     (case (map_of d ''response'', map_of d ''ts'', map_of d ''model'', map_of d ''hits'', map_of d ''len'') of
        (Some (PStr r), Some (PFloat (Fin t)), Some (PStr m), Some (PInt h), Some (PInt l)) \<Rightarrow>
          Some \<lparr>ce_response = r, ce_ts = t, ce_model = m, ce_hits = nat h, ce_len = nat l\<rparr>
      | _ \<Rightarrow> None)"
| "entry_of_value v = None"

type_synonym cache_dict = "(string, cache_entry) dict"

definition cache_value :: "cache_dict \<Rightarrow> pyval" where
  "cache_value c = PDict (map (\<lambda>p. (fst p, entry_value (snd p))) c)"

definition cache_of_value :: "pyval \<Rightarrow> cache_dict" where
  "cache_of_value v = (case v of
     PDict d \<Rightarrow> List.map_filter (\<lambda>p. map_option (Pair (fst p)) (entry_of_value (snd p))) d
   | _ \<Rightarrow> [])"

section \<open>The cache\<close>

record cache_world = guard_world +
  cache :: cache_dict
  cache_file :: "string option"
  cache_readable :: bool
  cache_writes :: "nat \<Rightarrow> write_outcome"
  cache_write_pos :: nat

definition cache_load :: "('z cache_world_scheme, unit) action" where
  "cache_load =
     bindA (gets cache_file) (\<lambda>file.
     case file of
       None \<Rightarrow> ret ()
     | Some text \<Rightarrow>
         bindA (gets cache_readable) (\<lambda>readable.
         case (if readable then json_loads text else Inl (Raised (OtherError ''OSError'') [])) of
           Inl _ \<Rightarrow> modify (\<lambda>s. s\<lparr>cache := []\<rparr>)
         | Inr v \<Rightarrow>
             bindA time_time (\<lambda>now.
             modify (\<lambda>s. s\<lparr>cache := filter (\<lambda>p. now - ce_ts (snd p) < ttl_seconds) (cache_of_value v)\<rparr>))))"

definition cache_init :: "('z cache_world_scheme, unit) action" where
  "cache_init = bindA (modify (\<lambda>s. s\<lparr>cache := []\<rparr>)) (\<lambda>_. cache_load)"

definition cache_text :: "(rat \<Rightarrow> string) \<Rightarrow> cache_dict \<Rightarrow> string" where
  "cache_text shown c = json_text shown True '' '' (cache_value c)"

definition cache_save :: "(rat \<Rightarrow> string) \<Rightarrow> ('z cache_world_scheme, unit) action" where
  "cache_save shown s =
     (let s' = s\<lparr>cache_write_pos := Suc (cache_write_pos s)\<rparr>; text = cache_text shown (cache s)
      in (Inr (), case cache_writes s (cache_write_pos s) of
            Written \<Rightarrow> s'\<lparr>cache_file := Some text\<rparr>
          | NotOpened \<Rightarrow> s'
          | Torn n \<Rightarrow> s'\<lparr>cache_file := Some (take n text)\<rparr>))"

text \<open>The temperature is given by its text.\<close>

definition cache_key :: "string \<Rightarrow> string \<Rightarrow> string \<Rightarrow> string" where
  "cache_key prompt model temperature = take 24 (sha256_hex (model @ '':'' @ temperature @ '':'' @ prompt))"

definition cache_get :: "string \<Rightarrow> string \<Rightarrow> string \<Rightarrow> ('z cache_world_scheme, string option) action" where
  "cache_get prompt model temperature =
     (let key = cache_key prompt model temperature in
      bindA (gets (\<lambda>s. map_of (cache s) key)) (\<lambda>entry.
      case entry of
        None \<Rightarrow> ret None
      | Some e \<Rightarrow>
          bindA time_time (\<lambda>now.
          if now - ce_ts e > ttl_seconds
          then bindA (modify (\<lambda>s. s\<lparr>cache := dict_del key (cache s)\<rparr>)) (\<lambda>_. ret None)
          else bindA (modify (\<lambda>s. s\<lparr>cache := dict_set key (e\<lparr>ce_hits := ce_hits e + 1\<rparr>) (cache s)\<rparr>)) (\<lambda>_.
            ret (Some (ce_response e))))))"

text \<open>\<^verbatim>\<open>min(self._cache, key=...)\<close>: the first key with the least time.\<close>

fun oldest_key :: "cache_dict \<Rightarrow> string option" where
  "oldest_key [] = None"
| "oldest_key (p # c) =
     Some (fst (foldl (\<lambda>best q. if ce_ts (snd q) < ce_ts (snd best) then q else best) p c))"

definition cache_evict :: "string \<Rightarrow> cache_dict \<Rightarrow> cache_dict" where
  "cache_evict key c =
     (if max_entries \<le> length c \<and> map_of c key = None
      then (case oldest_key c of Some k \<Rightarrow> dict_del k c | None \<Rightarrow> c) else c)"

definition cache_put ::
  "(rat \<Rightarrow> string) \<Rightarrow> string \<Rightarrow> string \<Rightarrow> string \<Rightarrow> string \<Rightarrow> ('z cache_world_scheme, unit) action" where
  "cache_put shown prompt model temperature response =
     (let key = cache_key prompt model temperature in
      bindA (modify (\<lambda>s. s\<lparr>cache := cache_evict key (cache s)\<rparr>)) (\<lambda>_.
      bindA time_time (\<lambda>now.
      bindA (modify (\<lambda>s. s\<lparr>cache := dict_set key
          \<lparr>ce_response = response, ce_ts = now, ce_model = model, ce_hits = 0, ce_len = length response\<rparr>
          (cache s)\<rparr>)) (\<lambda>_.
      cache_save shown))))"

definition cache_stats :: "'z cache_world_scheme \<Rightarrow> (string \<times> nat) list" where
  "cache_stats s =
     (let total_hits = sum_list (map (ce_hits \<circ> snd) (cache s))
      in [(''entries'', length (cache s)), (''total_hits_saved'', total_hits),
          (''estimated_seconds_saved'', total_hits * 3),
          (''file_kb'', case cache_file s of None \<Rightarrow> 0 | Some t \<Rightarrow> length t div 1024)])"

section \<open>Facts\<close>

lemma entry_round [simp]: "entry_of_value (entry_value e) = Some e"
  by (simp add: entry_value_def)

lemma cache_round [simp]: "cache_of_value (cache_value c) = c"
  by (induction c) (simp_all add: cache_of_value_def cache_value_def List.map_filter_simps)

text \<open>The keys are distinct and the times are doubles.\<close>

definition cache_ok :: "cache_dict \<Rightarrow> bool" where
  "cache_ok c \<longleftrightarrow> distinct (map fst c) \<and> list_all (\<lambda>p. is_double (ce_ts (snd p))) c"

lemma cache_value_good: "cache_ok c \<Longrightarrow> json_good (cache_value c)"
  by (simp add: cache_ok_def cache_value_def entry_value_def list_all_iff comp_def)

lemma cache_text_reads:
  assumes "float_repr shown" and "cache_ok c"
  shows "json_loads (cache_text shown c) = Inr (cache_value c)"
  unfolding cache_text_def
  by (rule float_repr.json_loads_text [OF assms(1) _ cache_value_good [OF assms(2)]]) (simp add: json_space_def)

lemma oldest_key_member: "c \<noteq> [] \<Longrightarrow> \<exists>k e. oldest_key c = Some k \<and> (k, e) \<in> set c \<and> (\<forall>p \<in> set c. ce_ts e \<le> ce_ts (snd p))"
proof -
  define f where "f = (\<lambda>best q. if ce_ts (snd q) < ce_ts (snd best) then q else (best :: string \<times> cache_entry))"
  have "foldl f p c \<in> set (p # c) \<and> (\<forall>q \<in> set (p # c). ce_ts (snd (foldl f p c)) \<le> ce_ts (snd q))" for p c
  proof (induction c arbitrary: p)
    case (Cons q c)
    have "ce_ts (snd (f p q)) \<le> ce_ts (snd p)" "ce_ts (snd (f p q)) \<le> ce_ts (snd q)" "f p q \<in> {p, q}"
      by (auto simp: f_def)
    with Cons [of "f p q"] show ?case by (auto intro: order_trans)
  qed simp
  then show "c \<noteq> [] \<Longrightarrow> \<exists>k e. oldest_key c = Some k \<and> (k, e) \<in> set c \<and> (\<forall>p \<in> set c. ce_ts e \<le> ce_ts (snd p))"
    unfolding f_def by (cases c) (simp, metis (no_types, lifting) oldest_key.simps(2) prod.collapse)
qed

lemma length_dict_set: "length (dict_set k v d) = (if map_of d k = None then Suc (length d) else length d)"
  by (induction d) auto

lemma length_dict_del: "length (dict_del k d) \<le> length d"
  by (simp add: AList.delete_eq)

lemma length_dict_del_member: "(k, v) \<in> set d \<Longrightarrow> length (dict_del k d) < length d"
  unfolding AList.delete_eq by (rule length_filter_less) auto

lemma cache_evict_length:
  "length c \<le> max_entries \<Longrightarrow> map_of (cache_evict key c) key = None \<Longrightarrow> length (cache_evict key c) < max_entries"
proof -
  assume a: "length c \<le> max_entries" and n: "map_of (cache_evict key c) key = None"
  show "length (cache_evict key c) < max_entries"
  proof (cases "max_entries \<le> length c \<and> map_of c key = None")
    case True
    then have "c \<noteq> []" by (auto simp: max_entries_def)
    then obtain k e where "oldest_key c = Some k" "(k, e) \<in> set c" using oldest_key_member by blast
    then show ?thesis using True a length_dict_del_member [of k e c] by (simp add: cache_evict_def)
  next
    case False
    then have "cache_evict key c = c" by (auto simp: cache_evict_def)
    then show ?thesis using False a n by auto
  qed
qed

lemma cache_save_cache [simp]: "cache (snd (cache_save shown s)) = cache s" "fst (cache_save shown s) = Inr ()"
  by (simp_all add: cache_save_def Let_def split: write_outcome.split)

lemma cache_put_cache:
  "cache (snd (cache_put shown p m t r s)) = dict_set (cache_key p m t)
     \<lparr>ce_response = r, ce_ts = wall_src s (wall_pos s), ce_model = m, ce_hits = 0, ce_len = length r\<rparr>
     (cache_evict (cache_key p m t) (cache s))"
  "fst (cache_put shown p m t r s) = Inr ()"
  by (simp_all add: cache_put_def Let_def bindA_def modify_def time_time_def)

lemma cache_evict_sub: "set (cache_evict k c) \<subseteq> set c"
  by (auto simp: cache_evict_def AList.delete_eq split: option.split)

lemma distinct_evict: "distinct (map fst c) \<Longrightarrow> distinct (map fst (cache_evict k c))"
  by (auto simp: cache_evict_def distinct_delete split: option.split)

lemma cache_get_cases:
  "cache_get p m t s =
    (case map_of (cache s) (cache_key p m t) of
       None \<Rightarrow> (Inr None, s)
     | Some e \<Rightarrow>
         (if wall_src s (wall_pos s) - ce_ts e > ttl_seconds
          then (Inr None, s\<lparr>wall_pos := Suc (wall_pos s), cache := dict_del (cache_key p m t) (cache s)\<rparr>)
          else (Inr (Some (ce_response e)), s\<lparr>wall_pos := Suc (wall_pos s),
            cache := dict_set (cache_key p m t) (e\<lparr>ce_hits := ce_hits e + 1\<rparr>) (cache s)\<rparr>)))"
  by (simp add: cache_get_def action_simps Let_def split: option.split)

datatype cache_call = CacheGet string string string | CachePut string string string string

fun cache_exec :: "(rat \<Rightarrow> string) \<Rightarrow> cache_call \<Rightarrow> ('z cache_world_scheme, string option) action" where
  "cache_exec shown (CacheGet p m t) = cache_get p m t"
| "cache_exec shown (CachePut p m t r) = bindA (cache_put shown p m t r) (\<lambda>_. ret None)"

lemma cache_exec_capacity:
  assumes "length (cache s) \<le> max_entries"
  shows "length (cache (snd (cache_exec shown c s))) \<le> max_entries"
proof (cases c)
  case (CacheGet p m t)
  then show ?thesis
    using assms length_dict_del [of "cache_key p m t" "cache s"]
    by (auto simp: cache_get_cases length_dict_set split: option.split)
next
  case (CachePut p m t r)
  let ?c = "cache_evict (cache_key p m t) (cache s)"
  have "length ?c \<le> length (cache s)"
    using length_dict_del by (auto simp: cache_evict_def split: option.split)
  then have "length ?c \<le> max_entries" using assms by (rule order_trans)
  then show ?thesis
    using CachePut cache_evict_length [OF assms, of "cache_key p m t"]
    by (auto simp: cache_put_cache length_dict_set)
qed

section \<open>Properties\<close>

text \<open>
  C24. The cache is bounded. From at most 100 entries, over any sequence of lookups and stores, whatever
  the clock reads and the disk does, there are never more than 100. A store under a new key into a
  full cache gives up exactly one entry, one with the least time, and keeps every other.
\<close>

theorem cache_capacity:
  assumes "length (cache s) \<le> max_entries"
  shows "length (cache (run (cache_exec shown) s cs)) \<le> max_entries
    \<and> (length (cache s) = max_entries \<and> distinct (map fst (cache s))
        \<and> map_of (cache s) (cache_key p m t) = None \<longrightarrow>
      (\<exists>k e. map_of (cache s) k = Some e \<and> (\<forall>q \<in> set (cache s). ce_ts e \<le> ce_ts (snd q))
        \<and> (\<forall>j. j \<noteq> cache_key p m t \<longrightarrow>
            map_of (cache (snd (cache_put shown p m t r s))) j
              = (if j = k then None else map_of (cache s) j))))"
proof
  show "length (cache (run (cache_exec shown) s cs)) \<le> max_entries"
    using assms by (induction cs arbitrary: s) (simp_all add: cache_exec_capacity)
  show "length (cache s) = max_entries \<and> distinct (map fst (cache s))
        \<and> map_of (cache s) (cache_key p m t) = None \<longrightarrow>
      (\<exists>k e. map_of (cache s) k = Some e \<and> (\<forall>q \<in> set (cache s). ce_ts e \<le> ce_ts (snd q))
        \<and> (\<forall>j. j \<noteq> cache_key p m t \<longrightarrow>
            map_of (cache (snd (cache_put shown p m t r s))) j
              = (if j = k then None else map_of (cache s) j)))"
  proof
    assume a: "length (cache s) = max_entries \<and> distinct (map fst (cache s))
        \<and> map_of (cache s) (cache_key p m t) = None"
    then have "cache s \<noteq> []" by (auto simp: max_entries_def)
    then obtain k e where k: "oldest_key (cache s) = Some k" "(k, e) \<in> set (cache s)"
      "\<forall>q \<in> set (cache s). ce_ts e \<le> ce_ts (snd q)"
      using oldest_key_member by blast
    have "map_of (cache s) k = Some e" using a k(2) by (simp add: map_of_is_SomeI)
    then show "\<exists>k e. map_of (cache s) k = Some e \<and> (\<forall>q \<in> set (cache s). ce_ts e \<le> ce_ts (snd q))
        \<and> (\<forall>j. j \<noteq> cache_key p m t \<longrightarrow>
            map_of (cache (snd (cache_put shown p m t r s))) j
              = (if j = k then None else map_of (cache s) j))"
      using a k by (intro exI [of _ k] exI [of _ e]) (simp add: cache_put_cache cache_evict_def)
  qed
qed

definition cache_demo :: "cache_dict \<Rightarrow> cache_world" where
  "cache_demo c = \<lparr>uuid_src = demo_uuids, clock_src = demo_clock, uuid_pos = 0, clock_pos = 0,
     dk_files = (\<lambda>_. None), dk_dirs = {[]}, dk_cwd = ''/'', dk_src = (\<lambda>_. Written), dk_pos = 0,
     wall_src = of_nat, wall_pos = 0,
     gov_settings = default_settings, gov_logs = [], gov_replies = [], guard_log = [], cache = c, cache_file = None, cache_readable = True,
     cache_writes = (\<lambda>_. Written), cache_write_pos = 0\<rparr>"

theorem cache_capacity_witness:
  "length (cache (run (cache_exec exact_decimal) (cache_demo [])
     [CachePut ''p'' ''m'' ''0.2'' ''r'', CacheGet ''p'' ''m'' ''0.2''])) \<le> max_entries"
proof -
  have "length (cache (cache_demo [])) \<le> max_entries" by (simp add: cache_demo_def)
  then show ?thesis using cache_capacity by blast
qed

text \<open>
  A lookup answers only with what was stored under the same key (the digest of model, temperature
  and prompt) no longer ago than the time to live, and it does answer with it: right after a store,
  the response comes back unless the clock has moved on by more than the time to live.
\<close>

theorem cache_lookup:
  "(\<forall>r t'. cache_get p m t s = (Inr (Some r), t') \<longrightarrow>
      (\<exists>e. map_of (cache s) (cache_key p m t) = Some e \<and> ce_response e = r
         \<and> wall_src s (wall_pos s) - ce_ts e \<le> ttl_seconds))
   \<and> fst (cache_get p m t (snd (cache_put shown p m t r s)))
     = Inr (if wall_src s (Suc (wall_pos s)) - wall_src s (wall_pos s) > ttl_seconds then None else Some r)"
proof -
  have "wall_src (snd (cache_put shown p m t r s)) = wall_src s"
    "wall_pos (snd (cache_put shown p m t r s)) = Suc (wall_pos s)"
    by (simp_all add: cache_put_def cache_save_def Let_def action_simps split: write_outcome.split)
  then show ?thesis
    by (auto simp: cache_get_cases cache_put_cache split: option.splits if_splits)
qed

theorem cache_lookup_witness:
  "fst (cache_get ''p'' ''m'' ''0.2'' (snd (cache_put exact_decimal ''p'' ''m'' ''0.2'' ''r'' (cache_demo []))))
     = Inr (Some ''r'')"
  using cache_lookup [of "''p''" "''m''" "''0.2''" "cache_demo []" exact_decimal "''r''"]
  by (simp add: cache_demo_def ttl_seconds_def)

text \<open>
  The cache survives a restart. When the file is written and can be read, a new cache holds
  exactly the entries that have not expired, with their responses, times and hit counts as they were.
\<close>

theorem cache_restart:
  assumes "float_repr shown" and "cache_ok (cache s)" and "is_double (wall_src s (wall_pos s))"
    and "cache_writes s (cache_write_pos s) = Written" and "cache_readable s"
    and "u = snd (cache_put shown p m t r s)"
  shows "cache (snd (cache_init u))
    = filter (\<lambda>q. wall_src s (Suc (wall_pos s)) - ce_ts (snd q) < ttl_seconds) (cache u)"
proof -
  have u: "wall_src u = wall_src s" "wall_pos u = Suc (wall_pos s)" "cache_readable u"
    "cache_file u = Some (cache_text shown (cache u))"
    using assms(4-6) by (simp_all add: cache_put_def cache_save_def Let_def action_simps)
  have "distinct (map fst (cache u))"
    using assms(2) by (simp add: assms(6) cache_put_cache distinct_update distinct_evict cache_ok_def)
  moreover have "\<forall>q \<in> set (cache u). is_double (ce_ts (snd q))"
    using assms(2,3) cache_evict_sub [of "cache_key p m t" "cache s"]
    by (auto simp: assms(6) cache_put_cache cache_ok_def list_all_iff dest!: set_update_cases)
  ultimately have "json_loads (cache_text shown (cache u)) = Inr (cache_value (cache u))"
    by (intro cache_text_reads [OF assms(1)]) (simp add: cache_ok_def list_all_iff)
  then show ?thesis by (simp add: cache_init_def cache_load_def action_simps u)
qed

lemma cache_demo_ready:
  "cache_ok (cache (cache_demo []))"
  "is_double (wall_src (cache_demo []) (wall_pos (cache_demo [])))"
  "cache_writes (cache_demo []) (cache_write_pos (cache_demo [])) = Written" "cache_readable (cache_demo [])"
  by (simp_all add: cache_demo_def cache_ok_def is_double_def to_double_def)

theorem cache_restart_witness:
  "cache (snd (cache_init (snd (cache_put exact_decimal ''p'' ''m'' ''0.2'' ''r'' (cache_demo [])))))
    = filter (\<lambda>q. wall_src (cache_demo []) (Suc (wall_pos (cache_demo []))) - ce_ts (snd q) < ttl_seconds)
        (cache (snd (cache_put exact_decimal ''p'' ''m'' ''0.2'' ''r'' (cache_demo []))))"
  by (rule cache_restart [OF exact_decimal.float_repr_axioms cache_demo_ready refl])

end
