(* ===== verification/Llm_Client.thy ===== *)
theory Llm_Client
  imports Llm_Cache
begin

text \<open>
  The model client (\<^verbatim>\<open>atlas_agent/llm_client.py\<close>): the circuit breaker, the rate limit, the retried
  call of the provider, and the two requests built from them, with the guard and the cache in front.
  The provider (the \<^verbatim>\<open>groq\<close> package) is a parameter \<open>api\<close> with a state of its own. What a lock protects
  is one step; the permits of the semaphore that other threads hold are missing from \<open>permits\<close>, and
  none is returned while a request waits.
\<close>

section \<open>Costs\<close>

text \<open>An action adds at most \<open>n\<close> to a measure of the state, however it ends.\<close>

definition costs :: "('s \<Rightarrow> 'n :: linordered_semidom) \<Rightarrow> 'n \<Rightarrow> ('s, 'a) action \<Rightarrow> bool" where
  "costs c n m \<longleftrightarrow> (\<forall>s. c (snd (m s)) \<le> c s + n)"

lemma costsI: "(\<And>s. c (snd (m s)) \<le> c s + n) \<Longrightarrow> costs c n m"
  by (simp add: costs_def)

lemma costs_weaken: "costs c n m \<Longrightarrow> n \<le> k \<Longrightarrow> costs c k m"
  unfolding costs_def by (meson add_left_mono order_trans)

lemma costs_frames: "frames c m \<Longrightarrow> costs c 0 m"
  by (simp add: costs_def obeys_def)

lemma costs_bind:
  assumes "costs c a m" and "\<And>x. costs c b (f x)" and "0 \<le> b"
  shows "costs c (a + b) (bindA m f)"
proof (rule costsI)
  fix s
  obtain r t where m: "m s = (r, t)" by fastforce
  have t: "c t \<le> c s + a" using assms(1) m by (metis costs_def snd_conv)
  show "c (snd (bindA m f s)) \<le> c s + (a + b)"
  proof (cases r)
    case (Inl e)
    then show ?thesis using m t assms(3) by (simp add: bindA_def add_increasing2 add.assoc [symmetric])
  next
    case (Inr x)
    have "c (snd (f x t)) \<le> c t + b" using assms(2) by (simp add: costs_def)
    also have "... \<le> c s + a + b" using t by simp
    finally show ?thesis using m Inr by (simp add: bindA_def add.assoc)
  qed
qed

lemma costs_catch:
  assumes "costs c a m" and "\<And>x. costs c b (h x)" and "0 \<le> b"
  shows "costs c (a + b) (catchA m h)"
proof (rule costsI)
  fix s
  obtain r t where m: "m s = (r, t)" by fastforce
  have t: "c t \<le> c s + a" using assms(1) m by (metis costs_def snd_conv)
  then have keep: "c t \<le> c s + (a + b)" using assms(3) by (simp add: add_increasing2 add.assoc [symmetric])
  show "c (snd (catchA m h s)) \<le> c s + (a + b)"
  proof (cases r)
    case (Inl e)
    have "c (snd (h e t)) \<le> c t + b" using assms(2) by (simp add: costs_def)
    also have "... \<le> c s + a + b" using t by simp
    finally show ?thesis using m Inl keep by (simp add: catchA_def add.assoc)
  next
    case (Inr x)
    then show ?thesis using m keep by (simp add: catchA_def)
  qed
qed

lemma costs_if: "costs c n m \<Longrightarrow> costs c n m' \<Longrightarrow> costs c n (if b then m else m')"
  by simp

lemma costs_option: "costs c n m \<Longrightarrow> (\<And>x. costs c n (f x)) \<Longrightarrow> costs c n (case_option m f oo)"
  by (cases oo) auto

section \<open>Configuration and state\<close>

datatype provider_status = Healthy | Degraded | CircuitOpen

record resource_config =
  rc_max_concurrent_requests :: nat
  rc_request_timeout_seconds :: nat
  rc_max_response_tokens :: nat
  rc_rate_limit_rpm :: nat
  rc_circuit_breaker_threshold :: nat
  rc_circuit_breaker_reset_seconds :: rat

definition default_config :: resource_config where
  "default_config = \<lparr>rc_max_concurrent_requests = 2, rc_request_timeout_seconds = 30,
     rc_max_response_tokens = 4096, rc_rate_limit_rpm = 20, rc_circuit_breaker_threshold = 5,
     rc_circuit_breaker_reset_seconds = 60\<rparr>"

record circuit_breaker =
  cb_failure_count :: nat
  cb_last_failure_time :: rat
  cb_status :: provider_status

definition new_circuit_breaker :: circuit_breaker where
  "new_circuit_breaker = \<lparr>cb_failure_count = 0, cb_last_failure_time = 0, cb_status = Healthy\<rparr>"

record 'p llm_world = cache_world +
  breaker :: circuit_breaker
  request_times :: "rat list"
  permits :: nat
  llm_model :: string
  llm_fallback :: string
  random_src :: "nat \<Rightarrow> rat"
  random_pos :: nat
  slept :: "rat list"
  provider :: 'p

text \<open>The constructor: the breaker, the semaphore, an empty window, the cache loaded from its file,
  and the two models, whose defaults apply when the variables are not set. The timeout and the retries given to
  the package of the provider act inside one of its calls and belong to the parameter \<open>api\<close>.\<close>

definition llm_init ::
  "resource_config option \<Rightarrow> (string \<Rightarrow> string option) \<Rightarrow> (('p, 'z) llm_world_scheme, resource_config) action" where
  "llm_init config env =
     (let cfg = (case config of Some c \<Rightarrow> c | None \<Rightarrow> default_config) in
      bindA (modify (\<lambda>s. s\<lparr>breaker := new_circuit_breaker, permits := rc_max_concurrent_requests cfg,
        request_times := []\<rparr>)) (\<lambda>_.
      bindA cache_init (\<lambda>_.
      bindA (modify (\<lambda>s. s\<lparr>guard_log := []\<rparr>)) (\<lambda>_.
      case env ''GROQ_API_KEY'' of
        None \<Rightarrow> raise (value_error ''GROQ_API_KEY missing in .env'')
      | Some key \<Rightarrow>
          if key = [] then raise (value_error ''GROQ_API_KEY missing in .env'')
          else bindA (modify (\<lambda>s. s\<lparr>
              llm_model := (case env ''LLM_MODEL'' of Some m \<Rightarrow> m | None \<Rightarrow> ''qwen/qwen3.8-27b''),
              llm_fallback := (case env ''LLM_FALLBACK_MODEL'' of Some m \<Rightarrow> m | None \<Rightarrow> ''openai/gpt-oss-20b'')\<rparr>)) (\<lambda>_.
            ret cfg)))))"

section \<open>The circuit breaker\<close>

definition record_success :: "(('p, 'z) llm_world_scheme, unit) action" where
  "record_success = modify (\<lambda>s. s\<lparr>breaker := (breaker s)\<lparr>cb_failure_count := 0, cb_status := Healthy\<rparr>\<rparr>)"

definition record_failure :: "resource_config \<Rightarrow> (('p, 'z) llm_world_scheme, unit) action" where
  "record_failure cfg =
     bindA time_time (\<lambda>now.
     modify (\<lambda>s. s\<lparr>breaker :=
       (let n = cb_failure_count (breaker s) + 1
        in (breaker s)\<lparr>cb_failure_count := n, cb_last_failure_time := now,
             cb_status := (if n \<ge> rc_circuit_breaker_threshold cfg then CircuitOpen
               else cb_status (breaker s))\<rparr>)\<rparr>))"

definition allow_request :: "resource_config \<Rightarrow> (('p, 'z) llm_world_scheme, bool) action" where
  "allow_request cfg =
     bindA (gets breaker) (\<lambda>b.
     if cb_status b \<noteq> CircuitOpen then ret True
     else bindA time_time (\<lambda>now.
       if now - cb_last_failure_time b \<ge> rc_circuit_breaker_reset_seconds cfg
       then bindA (modify (\<lambda>s. s\<lparr>breaker := (breaker s)\<lparr>cb_status := Degraded, cb_failure_count := 0\<rparr>\<rparr>)) (\<lambda>_.
         ret True)
       else ret False))"

section \<open>The rate limit\<close>

text \<open>The window of the minute before \<open>t0\<close>. The clock is read just before the lock is taken; here the reading and
  what the lock protects are one step.\<close>

definition recent :: "rat \<Rightarrow> rat list \<Rightarrow> rat list" where
  "recent t0 ts = filter (\<lambda>t. t0 - t < 60) ts"

definition check_rate_limit :: "resource_config \<Rightarrow> (('p, 'z) llm_world_scheme, unit) action" where
  "check_rate_limit cfg =
     bindA time_time (\<lambda>now.
     bindA (modify (\<lambda>s. s\<lparr>request_times := recent now (request_times s)\<rparr>)) (\<lambda>_.
     bindA (gets request_times) (\<lambda>ts.
     if length ts \<ge> rc_rate_limit_rpm cfg
     then raise (runtime_error (''Rate limit exceeded: '' @ show_nat (rc_rate_limit_rpm cfg) @ '' RPM''))
     else modify (\<lambda>s. s\<lparr>request_times := request_times s @ [now]\<rparr>))))"

section \<open>The call of the provider\<close>

text \<open>The provider's exception classes: \<^verbatim>\<open>APIError\<close> and its documented subclasses.\<close>

definition api_errors :: "string list" where
  "api_errors = [''APIError'', ''APIConnectionError'', ''APITimeoutError'', ''APIResponseValidationError'',
     ''APIStatusError'', ''BadRequestError'', ''AuthenticationError'', ''PermissionDeniedError'', ''NotFoundError'',
     ''ConflictError'', ''UnprocessableEntityError'', ''RateLimitError'', ''InternalServerError'']"

fun provider_failure :: "exn \<Rightarrow> bool" where
  "provider_failure (Raised RuntimeError m) = True"
| "provider_failure (Raised (OtherError n) m) = (n \<in> set api_errors)"
| "provider_failure e = False"

text \<open>The longest wait after an exception that is tried again.\<close>

fun retry_cap :: "exn \<Rightarrow> rat option" where
  "retry_cap (Raised (OtherError n) m) =
     (if n = ''RateLimitError'' then Some 30
      else if n \<in> {''APITimeoutError'', ''APIConnectionError''} then Some 15 else None)"
| "retry_cap e = None"

type_synonym 'p provider_api = "string \<Rightarrow> string \<Rightarrow> string \<Rightarrow> nat \<Rightarrow> ('p, string option) action"

definition on_provider :: "('p, 'a) action \<Rightarrow> (('p, 'z) llm_world_scheme, 'a) action" where
  "on_provider m s = (case m (provider s) of (r, p) \<Rightarrow> (r, s\<lparr>provider := p\<rparr>))"

definition random_unit :: "(('p, 'z) llm_world_scheme, rat) action" where
  "random_unit s = (Inr (random_src s (random_pos s)), s\<lparr>random_pos := Suc (random_pos s)\<rparr>)"

definition sleep :: "rat \<Rightarrow> (('p, 'z) llm_world_scheme, unit) action" where
  "sleep d = modify (\<lambda>s. s\<lparr>slept := slept s @ [d]\<rparr>)"

definition api_once ::
  "resource_config \<Rightarrow> 'p provider_api \<Rightarrow> string \<Rightarrow> string \<Rightarrow> string \<Rightarrow> (('p, 'z) llm_world_scheme, string) action" where
  "api_once cfg api prompt model temperature =
     bindA (on_provider (api model prompt temperature (rc_max_response_tokens cfg))) (\<lambda>content.
     case content of
       None \<Rightarrow> raise (runtime_error (''Model '' @ model @ '' returned empty content''))
     | Some c \<Rightarrow> if length (strip c) = 0
         then raise (runtime_error (''Model '' @ model @ '' returned empty content'')) else ret c)"

definition max_attempts :: nat where
  "max_attempts = 3"

fun call_api_left ::
  "nat \<Rightarrow> resource_config \<Rightarrow> 'p provider_api \<Rightarrow> string \<Rightarrow> string \<Rightarrow> string \<Rightarrow>
   (('p, 'z) llm_world_scheme, string) action" where
  "call_api_left 0 cfg api prompt model temperature = raise (type_error ''no attempt'')"
| "call_api_left (Suc left) cfg api prompt model temperature =
     catchA (api_once cfg api prompt model temperature)
       (\<lambda>e. case retry_cap e of
          None \<Rightarrow> raise e
        | Some cap \<Rightarrow>
            if left = 0 then raise e
            else bindA random_unit (\<lambda>u.
              bindA (sleep (min (2 ^ (max_attempts - Suc left) + u) cap)) (\<lambda>_.
              call_api_left left cfg api prompt model temperature)))"

definition call_api ::
  "resource_config \<Rightarrow> 'p provider_api \<Rightarrow> string \<Rightarrow> string \<Rightarrow> string \<Rightarrow> (('p, 'z) llm_world_scheme, string) action" where
  "call_api = call_api_left max_attempts"

section \<open>Requests\<close>

text \<open>\<^verbatim>\<open>try: m finally: h\<close>.\<close>

definition finallyA :: "('s, 'a) action \<Rightarrow> ('s, unit) action \<Rightarrow> ('s, 'a) action" where
  "finallyA m h s =
     (case m s of (r, t) \<Rightarrow> (case h t of (Inl e, u) \<Rightarrow> (Inl e, u) | (Inr _, u) \<Rightarrow> (r, u)))"

definition acquire :: "(('p, 'z) llm_world_scheme, bool) action" where
  "acquire =
     bindA (gets permits) (\<lambda>n.
     if n = 0 then ret False else bindA (modify (\<lambda>s. s\<lparr>permits := permits s - 1\<rparr>)) (\<lambda>_. ret True))"

definition release :: "(('p, 'z) llm_world_scheme, unit) action" where
  "release = modify (\<lambda>s. s\<lparr>permits := permits s + 1\<rparr>)"

definition check_restricted_content ::
  "guard_rules \<Rightarrow> string \<Rightarrow> (('p, 'z) llm_world_scheme, string option) action" where
  "check_restricted_content rules requirement =
     bindA (guard_check_request rules requirement) (\<lambda>d.
     ret (if gd_allowed d then None
       else Some (case gd_category d of Some c \<Rightarrow> category_value c | None \<Rightarrow> ''restricted'')))"

definition code_prompt :: "string \<Rightarrow> string \<Rightarrow> string" where
  "code_prompt language requirement =
     ''You are a senior software engineer.'' @ [CHR 0x0A]
     @ ''Generate professional, secure '' @ language @ '' code for:'' @ [CHR 0x0A]
     @ requirement @ [CHR 0x0A]
     @ ''Include error handling. Production-ready only.''"

text \<open>The section sign of the message is U+00A7.\<close>

definition rejected_category :: "string \<Rightarrow> exn" where
  "rejected_category c = value_error (''Rejected: restricted category '' @ quoted c @ ''. CONSTITUTION.md ''
     @ [CHR 0xA7] @ ''17 prohibits external AI for: HFT core, execution logic, risk systems, trading strategies.'')"

definition primary_or_fallback ::
  "resource_config \<Rightarrow> 'p provider_api \<Rightarrow> string \<Rightarrow> (('p, 'z) llm_world_scheme, string) action" where
  "primary_or_fallback cfg api prompt =
     bindA (gets llm_model) (\<lambda>model.
     bindA (gets llm_fallback) (\<lambda>fallback.
     catchA (call_api cfg api prompt model ''0.2'')
       (\<lambda>e. if provider_failure e
          then catchA (call_api cfg api prompt fallback ''0.2'')
            (\<lambda>f. if provider_failure f
               then bindA (record_failure cfg) (\<lambda>_.
                 raise (runtime_error (''Both models failed. Primary: '' @ exn_str e @ ''. Fallback: '' @ exn_str f)))
               else raise f)
          else raise e)))"

text \<open>Storing the answer and closing the breaker.\<close>

definition keep_answer ::
  "(rat \<Rightarrow> string) \<Rightarrow> string \<Rightarrow> string \<Rightarrow> string \<Rightarrow> (('p, 'z) llm_world_scheme, string) action" where
  "keep_answer shown prompt temperature content =
     bindA (gets llm_model) (\<lambda>model.
     bindA (cache_put shown prompt model temperature content) (\<lambda>_.
     bindA record_success (\<lambda>_. ret content)))"

definition generate_code ::
  "(rat \<Rightarrow> string) \<Rightarrow> guard_rules \<Rightarrow> resource_config \<Rightarrow> 'p provider_api \<Rightarrow> string \<Rightarrow> string \<Rightarrow>
   (('p, 'z) llm_world_scheme, string) action" where
  "generate_code shown rules cfg api requirement language =
     bindA (check_restricted_content rules requirement) (\<lambda>restricted.
     case restricted of
       Some c \<Rightarrow> raise (rejected_category c)
     | None \<Rightarrow>
         bindA (allow_request cfg) (\<lambda>allowed.
         if \<not> allowed then raise (runtime_error ''Circuit breaker OPEN -- API temporarily unavailable'')
         else
           bindA (check_rate_limit cfg) (\<lambda>_.
           let prompt = code_prompt language requirement in
           bindA (gets llm_model) (\<lambda>model.
           bindA (cache_get prompt model ''0.2'') (\<lambda>cached.
           case cached of
             Some c \<Rightarrow> ret c
           | None \<Rightarrow>
               bindA acquire (\<lambda>acquired.
               if \<not> acquired then raise (runtime_error ''Max concurrent requests reached'')
               else finallyA
                 (bindA (primary_or_fallback cfg api prompt) (keep_answer shown prompt ''0.2''))
                 release))))))"

definition security_prompt :: "string \<Rightarrow> string" where
  "security_prompt code = ''Review for security vulnerabilities (SQL Injection, XSS, Hardcoded Secrets):''
     @ [CHR 0x0A] @ code"

definition analyze_security ::
  "(rat \<Rightarrow> string) \<Rightarrow> resource_config \<Rightarrow> 'p provider_api \<Rightarrow> string \<Rightarrow> (('p, 'z) llm_world_scheme, string) action" where
  "analyze_security shown cfg api code =
     bindA (allow_request cfg) (\<lambda>allowed.
     if \<not> allowed then raise (runtime_error ''Circuit breaker OPEN'')
     else
       bindA (check_rate_limit cfg) (\<lambda>_.
       let prompt = security_prompt code in
       bindA (gets llm_model) (\<lambda>model.
       bindA (cache_get prompt model ''0.1'') (\<lambda>cached.
       case cached of
         Some c \<Rightarrow> ret c
       | None \<Rightarrow>
           bindA acquire (\<lambda>acquired.
           if \<not> acquired then raise (runtime_error ''Max concurrent requests reached'')
           else finallyA
             (catchA
               (bindA
                 (catchA (call_api cfg api prompt model ''0.1'')
                   (\<lambda>e. if provider_failure e
                      then bindA (gets llm_fallback) (\<lambda>fallback. call_api cfg api prompt fallback ''0.1'')
                      else raise e))
                 (keep_answer shown prompt ''0.1''))
               (\<lambda>e. if provider_failure e
                  then bindA (record_failure cfg) (\<lambda>_.
                    raise (runtime_error (''Security analysis failed: '' @ exn_str e)))
                  else raise e))
             release)))))"

end
