(* ===== verification/Llm_Limits.thy ===== *)
theory Llm_Limits
  imports Llm_Client
begin

text \<open>
  What a request to the model may do: the permits it takes come back, its calls and waits are bounded,
  blocked requests stay on the machine, the window of the rate limit holds, and no blank answer is
  returned or stored.
\<close>

section \<open>Facts\<close>

text \<open>The fields that only the provider's calls and the semaphore write.\<close>

definition outer :: "('p, 'z) llm_world_scheme \<Rightarrow> nat \<times> 'p \<times> rat list" where
  "outer s = (permits s, provider s, slept s)"

lemma outer_guard: "frames outer (guard_check_request rules p)"
proof (rule obeysI)
  fix s :: "('p, 'z) llm_world_scheme"
  show "outer (snd (guard_check_request rules p s)) = outer s"
    using guard_check_cases [of rules p s] by (auto simp: outer_def guard_logged_def)
qed

lemma outer_steps:
  "frames outer (check_restricted_content rules p)" "frames outer (allow_request cfg)"
  "frames outer (check_rate_limit cfg)" "frames outer (cache_get p m t)"
  "frames outer (cache_put shown p m t r)" "frames outer record_success"
  "frames outer (record_failure cfg)" "frames outer (keep_answer shown p t r)"
proof -
  show "frames outer (check_restricted_content rules p)"
    unfolding check_restricted_content_def by (intro frame.closure_rules outer_guard)
  show "frames outer (allow_request cfg)" "frames outer (check_rate_limit cfg)"
    by (simp_all add: obeys_def allow_request_def check_rate_limit_def action_simps outer_def)
  show "frames outer (cache_get p m t)"
    by (simp add: obeys_def cache_get_cases outer_def split: option.split)
  show put: "frames outer (cache_put shown p m t r)" for m
    by (simp add: obeys_def cache_put_def cache_save_def Let_def action_simps outer_def split: write_outcome.split)
  show suc: "frames outer record_success" "frames outer (record_failure cfg)"
    by (simp_all add: obeys_def record_success_def record_failure_def action_simps outer_def)
  show "frames outer (keep_answer shown p t r)"
    unfolding keep_answer_def by (intro frame.closure_rules put suc)
qed

lemma outer_frames: "frames outer m \<Longrightarrow> frames permits m" "frames outer m \<Longrightarrow> frames provider m"
  "frames outer m \<Longrightarrow> frames slept m"
  by (simp_all add: obeys_def outer_def)

lemma permits_call_api: "frames permits (call_api_left n cfg api p m t)"
proof (induction n)
  case (Suc n)
  have "frames permits (api_once cfg api p m t)"
    unfolding api_once_def
    by (intro frame.closure_rules obeysI) (simp_all add: on_provider_def split: prod.split)
  moreover have "frames permits random_unit" "frames permits (sleep d)" for d
    by (simp_all add: obeys_def random_unit_def sleep_def modify_def)
  ultimately show ?case
    unfolding call_api_left.simps by (intro frame.closure_rules Suc)
qed (simp add: frame.raise_in)

lemma permits_primary: "frames permits (primary_or_fallback cfg api p)"
  unfolding primary_or_fallback_def call_api_def
  by (intro frame.closure_rules permits_call_api outer_frames outer_steps)

text \<open>A permit that was taken is given back.\<close>

lemma permits_bracket:
  assumes "frames permits m"
  shows "frames permits (bindA acquire (\<lambda>b. if \<not> b then raise e else finallyA m release))"
proof (rule obeysI)
  fix s
  show "permits (snd (bindA acquire (\<lambda>b. if \<not> b then raise e else finallyA m release) s)) = permits s"
  proof (cases "permits s")
    case 0
    then show ?thesis by (simp add: acquire_def action_simps)
  next
    case (Suc n)
    obtain r t where m: "m (s\<lparr>permits := n\<rparr>) = (r, t)" by fastforce
    then have "permits t = n" using obeysD [OF assms, of "s\<lparr>permits := n\<rparr>"] by simp
    then show ?thesis using Suc m by (simp add: acquire_def finallyA_def release_def action_simps)
  qed
qed

lemma permits_generate: "frames permits (generate_code shown rules cfg api req lang)"
  unfolding generate_code_def Let_def
  by (intro frame.closure_rules permits_bracket permits_primary outer_frames outer_steps)

lemma permits_analyze: "frames permits (analyze_security shown cfg api code)"
  unfolding analyze_security_def Let_def call_api_def
  by (intro frame.closure_rules permits_bracket permits_call_api outer_frames outer_steps)

section \<open>Costs of a request\<close>

lemma costs_finally_release:
  assumes "costs c n m" and "\<And>s. c (s\<lparr>permits := permits s + 1\<rparr>) = c s"
  shows "costs c n (finallyA m release)"
  using assms by (simp add: costs_def finallyA_def release_def modify_def split: prod.split)
    (metis snd_conv)

lemma call_api_costs:
  fixes c :: "'p \<Rightarrow> nat"
  assumes "\<And>md pr te n p. c (snd (api md pr te n p)) \<le> c p + (1 :: nat)"
  shows "costs (\<lambda>s :: ('p, 'z) llm_world_scheme. c (provider s)) n (call_api_left n cfg api p m t)"
proof (induction n)
  case 0
  show ?case by (simp add: costs_def raise_def)
next
  case (Suc n)
  let ?c = "\<lambda>s :: ('p, 'z) llm_world_scheme. c (provider s)"
  have once: "costs ?c 1 (api_once cfg api p m t)"
  proof (rule costsI)
    fix s
    show "c (provider (snd (api_once cfg api p m t s))) \<le> c (provider s) + 1"
      using assms [of m p t "rc_max_response_tokens cfg" "provider s"]
      by (cases "api m p t (rc_max_response_tokens cfg) (provider s)")
        (simp add: api_once_def on_provider_def action_simps split: sum.split option.split)
  qed
  have "costs ?c 0 random_unit" "costs ?c 0 (sleep d)" for d
    by (simp_all add: costs_def random_unit_def sleep_def modify_def)
  then have nap: "costs ?c (0 + (0 + n))
      (bindA random_unit (\<lambda>u. bindA (sleep (f u)) (\<lambda>_. call_api_left n cfg api p m t)))" for f
    by (intro costs_bind Suc) simp_all
  have stop: "costs ?c n (raise e)" for e
    by (simp add: costs_def raise_def)
  have "costs ?c (1 + n) (call_api_left (Suc n) cfg api p m t)"
    unfolding call_api_left.simps
    by (intro costs_catch once costs_option costs_if stop nap [simplified]) simp_all
  then show ?case by simp
qed

section \<open>Answers\<close>

text \<open>An action keeps an invariant of the state, and every value it returns satisfies \<open>P\<close>.\<close>

definition delivers :: "('s \<Rightarrow> bool) \<Rightarrow> ('a \<Rightarrow> bool) \<Rightarrow> ('s, 'a) action \<Rightarrow> bool" where
  "delivers I P m \<longleftrightarrow> (\<forall>s. I s \<longrightarrow> I (snd (m s)) \<and> (\<forall>v. fst (m s) = Inr v \<longrightarrow> P v))"

lemma deliversI:
  "(\<And>s. I s \<Longrightarrow> I (snd (m s))) \<Longrightarrow> (\<And>s v. I s \<Longrightarrow> fst (m s) = Inr v \<Longrightarrow> P v) \<Longrightarrow> delivers I P m"
  by (simp add: delivers_def)

lemma delivers_bind:
  assumes "delivers I Q m" and "\<And>x. Q x \<Longrightarrow> delivers I P (f x)"
  shows "delivers I P (bindA m f)"
proof (unfold delivers_def, intro allI impI)
  fix s
  assume s: "I s"
  obtain r t where m: "m s = (r, t)" by fastforce
  with assms(1) s have t: "I t" "\<And>v. r = Inr v \<Longrightarrow> Q v" by (fastforce simp: delivers_def)+
  show "I (snd (bindA m f s)) \<and> (\<forall>v. fst (bindA m f s) = Inr v \<longrightarrow> P v)"
  proof (cases r)
    case (Inr x)
    then have "delivers I P (f x)" using t(2) assms(2) by simp
    then show ?thesis using m Inr t(1) by (simp add: bindA_def delivers_def)
  qed (use m t(1) in \<open>simp add: bindA_def\<close>)
qed

lemma delivers_catch:
  assumes "delivers I P m" and "\<And>e. delivers I P (h e)"
  shows "delivers I P (catchA m h)"
proof (unfold delivers_def, intro allI impI)
  fix s
  assume s: "I s"
  obtain r t where m: "m s = (r, t)" by fastforce
  with assms(1) s have t: "I t" "\<And>v. r = Inr v \<Longrightarrow> P v" by (fastforce simp: delivers_def)+
  show "I (snd (catchA m h s)) \<and> (\<forall>v. fst (catchA m h s) = Inr v \<longrightarrow> P v)"
    using m t assms(2) by (cases r) (auto simp: catchA_def delivers_def)
qed

lemma delivers_ret: "P v \<Longrightarrow> delivers I P (ret v)"
  by (simp add: delivers_def ret_def)

lemma delivers_raise: "delivers I P (raise e)"
  by (simp add: delivers_def raise_def)

lemma delivers_frames: "frames f m \<Longrightarrow> delivers (\<lambda>s. J (f s)) (\<lambda>_. True) m"
  by (simp add: delivers_def obeys_def)

lemma delivers_gets: "delivers I (\<lambda>_. True) (gets f)"
  by (simp add: delivers_def gets_def)

lemma delivers_if: "delivers I P m \<Longrightarrow> delivers I P m' \<Longrightarrow> delivers I P (if b then m else m')"
  by simp

lemma delivers_finally_release:
  assumes "delivers I P m" and "\<And>s. I (s\<lparr>permits := permits s + 1\<rparr>) = I s"
  shows "delivers I P (finallyA m release)"
  unfolding delivers_def
proof (intro allI impI)
  fix s
  assume s: "I s"
  obtain r t where m: "m s = (r, t)" by fastforce
  with assms(1) s have t: "I t" "\<And>v. r = Inr v \<Longrightarrow> P v" by (fastforce simp: delivers_def)+
  then show "I (snd (finallyA m release s)) \<and> (\<forall>v. fst (finallyA m release s) = Inr v \<longrightarrow> P v)"
    using m assms(2) by (auto simp: finallyA_def release_def modify_def)
qed

text \<open>No answer in the cache is blank.\<close>

definition blank_free :: "('p, 'z) llm_world_scheme \<Rightarrow> bool" where
  "blank_free s \<longleftrightarrow> (\<forall>q \<in> set (cache s). strip (ce_response (snd q)) \<noteq> [])"

lemma blank_free_frames:
  "frames cache m \<Longrightarrow> delivers blank_free (\<lambda>_. True) m"
  by (simp add: delivers_def obeys_def blank_free_def)

lemma cache_guard: "frames (cache :: ('p, 'z) llm_world_scheme \<Rightarrow> cache_dict) (guard_check_request rules p)"
proof (rule obeysI)
  fix s :: "('p, 'z) llm_world_scheme"
  show "cache (snd (guard_check_request rules p s)) = cache s"
    using guard_check_cases [of rules p s] by (auto simp: guard_logged_def)
qed

lemma cache_steps:
  fixes f :: "('p, 'z) llm_world_scheme \<Rightarrow> cache_dict"
  assumes "f = cache"
  shows "frames f (check_restricted_content rules p)" "frames f (allow_request cfg)"
    "frames f (check_rate_limit cfg)" "frames f record_success" "frames f (record_failure cfg)"
    "frames f random_unit" "frames f (sleep d)" "frames f acquire"
proof -
  show "frames f (check_restricted_content rules p)"
    unfolding check_restricted_content_def assms by (intro frame.closure_rules cache_guard)
qed (simp_all add: assms obeys_def allow_request_def check_rate_limit_def record_success_def record_failure_def
    random_unit_def sleep_def acquire_def action_simps)

lemmas blank_free_steps = cache_steps [OF refl, THEN blank_free_frames]

lemma cache_get_delivers:
  "delivers blank_free (\<lambda>r. \<forall>c. r = Some c \<longrightarrow> strip c \<noteq> []) (cache_get p m t)"
proof (rule deliversI)
  fix s :: "('p, 'z) llm_world_scheme"
  assume s: "blank_free s"
  show "blank_free (snd (cache_get p m t s))"
    using s map_of_SomeD [of "cache s" "cache_key p m t"]
    by (force simp: cache_get_cases blank_free_def AList.delete_eq split: option.split
        dest!: set_update_cases)
  fix v
  assume "fst (cache_get p m t s) = Inr v"
  then show "\<forall>c. v = Some c \<longrightarrow> strip c \<noteq> []"
    using s map_of_SomeD [of "cache s" "cache_key p m t"]
    by (fastforce simp: cache_get_cases blank_free_def split: option.splits if_splits)
qed

lemma keep_answer_delivers:
  assumes "strip c \<noteq> []"
  shows "delivers (blank_free :: ('p, 'z) llm_world_scheme \<Rightarrow> bool) (\<lambda>r. strip r \<noteq> []) (keep_answer shown p t c)"
proof -
  have put: "delivers (blank_free :: ('p, 'z) llm_world_scheme \<Rightarrow> bool) (\<lambda>_. True) (cache_put shown p m t c)" for m
  proof (rule deliversI)
    fix s :: "('p, 'z) llm_world_scheme"
    assume "blank_free s"
    then show "blank_free (snd (cache_put shown p m t c s))"
      using assms cache_evict_sub [of "cache_key p m t" "cache s"]
      by (fastforce simp: cache_put_cache blank_free_def dest!: set_update_cases)
  qed simp
  show ?thesis
    unfolding keep_answer_def
    by (intro delivers_bind [OF delivers_gets] delivers_bind [OF put] blank_free_steps [THEN delivers_bind]
        delivers_ret assms)
qed

lemma call_api_delivers: "delivers (blank_free :: ('p, 'z) llm_world_scheme \<Rightarrow> bool) (\<lambda>r. strip r \<noteq> []) (call_api_left n cfg api p m t)"
proof (induction n)
  case (Suc n)
  let ?I = "blank_free :: ('p, 'z) llm_world_scheme \<Rightarrow> bool"
  have "delivers ?I (\<lambda>r. strip r \<noteq> []) (api_once cfg api p m t)"
    by (rule deliversI)
      (auto simp: api_once_def on_provider_def action_simps blank_free_def
        split: prod.splits sum.splits option.splits if_splits)
  moreover have "delivers ?I (\<lambda>r. strip r \<noteq> []) (bindA random_unit (\<lambda>u. bindA (sleep (f u)) (\<lambda>_.
      call_api_left n cfg api p m t)))" for f
    by (intro blank_free_steps [THEN delivers_bind] Suc)
  ultimately show ?case
    unfolding call_api_left.simps
    by (intro delivers_catch) (auto intro: delivers_raise split: option.split)
qed (simp add: delivers_raise)

lemma primary_delivers: "delivers blank_free (\<lambda>r. strip r \<noteq> []) (primary_or_fallback cfg api p)"
  unfolding primary_or_fallback_def call_api_def
  by (intro delivers_bind [OF delivers_gets] delivers_catch delivers_if delivers_raise
      blank_free_steps [THEN delivers_bind] call_api_delivers)

lemma request_delivers:
  assumes "delivers blank_free (\<lambda>r. strip r \<noteq> []) m"
  shows "delivers blank_free (\<lambda>r. strip r \<noteq> [])
    (bindA (cache_get p md t) (\<lambda>cached. case cached of Some c \<Rightarrow> ret c
      | None \<Rightarrow> bindA acquire (\<lambda>b. if \<not> b then raise e else finallyA m release)))"
proof (rule delivers_bind [OF cache_get_delivers])
  fix r :: "string option"
  assume r: "\<forall>c. r = Some c \<longrightarrow> strip c \<noteq> []"
  have "delivers blank_free (\<lambda>r. strip r \<noteq> [])
      (bindA acquire (\<lambda>b. if \<not> b then raise e else finallyA m release))"
    by (intro blank_free_steps [THEN delivers_bind] delivers_if delivers_raise
        delivers_finally_release assms) (simp add: blank_free_def)
  then show "delivers blank_free (\<lambda>r. strip r \<noteq> []) (case r of Some c \<Rightarrow> ret c
      | None \<Rightarrow> bindA acquire (\<lambda>b. if \<not> b then raise e else finallyA m release))"
    using r by (auto intro: delivers_ret split: option.split)
qed

lemma generate_delivers: "delivers blank_free (\<lambda>r. strip r \<noteq> []) (generate_code shown rules cfg api req lang)"
  unfolding generate_code_def Let_def
  apply (rule delivers_bind [OF blank_free_steps(1)])
  subgoal for x
    by (cases x) (auto intro!: delivers_raise blank_free_steps [THEN delivers_bind]
        delivers_bind [OF delivers_gets] request_delivers
        delivers_bind [OF primary_delivers] keep_answer_delivers)
  done

lemma analyze_delivers: "delivers blank_free (\<lambda>r. strip r \<noteq> []) (analyze_security shown cfg api code)"
  unfolding analyze_security_def Let_def call_api_def
  by (intro blank_free_steps [THEN delivers_bind] delivers_if delivers_raise
      delivers_bind [OF delivers_gets] request_delivers delivers_catch
      delivers_bind [where Q = "\<lambda>r. strip r \<noteq> []"] call_api_delivers keep_answer_delivers)

section \<open>The window of the rate limit\<close>

text \<open>The readings at which \<^verbatim>\<open>_check_rate_limit\<close> lets a request pass; before the \<open>i\<close>-th check the rest of
  the program reads the clock \<open>gs ! i\<close> times.\<close>

fun admissions :: "resource_config \<Rightarrow> nat list \<Rightarrow> ('p, 'z) llm_world_scheme \<Rightarrow> rat list" where
  "admissions cfg [] s = []"
| "admissions cfg (g # gs) s =
     (let w = s\<lparr>wall_pos := wall_pos s + g\<rparr>
      in case check_rate_limit cfg w of
           (Inl e, t) \<Rightarrow> admissions cfg gs t
         | (Inr u, t) \<Rightarrow> wall_src w (wall_pos w) # admissions cfg gs t)"

lemma check_rate_limit_cases:
  "check_rate_limit cfg s =
     (let t0 = wall_src s (wall_pos s); ts = recent t0 (request_times s)
      in if rc_rate_limit_rpm cfg \<le> length ts
         then (Inl (runtime_error (''Rate limit exceeded: '' @ show_nat (rc_rate_limit_rpm cfg) @ '' RPM'')),
               s\<lparr>wall_pos := Suc (wall_pos s), request_times := ts\<rparr>)
         else (Inr (), s\<lparr>wall_pos := Suc (wall_pos s), request_times := ts @ [t0]\<rparr>))"
  by (simp add: check_rate_limit_def time_time_def action_simps Let_def)

lemma admissions_later:
  assumes "mono (wall_src s)" and "a \<in> set (admissions cfg gs s)"
  shows "wall_src s (wall_pos s) \<le> a"
  using assms
proof (induction gs arbitrary: s)
  case (Cons g gs)
  have le: "wall_src s (wall_pos s) \<le> wall_src s (wall_pos s + g)"
    "wall_src s (wall_pos s) \<le> wall_src s (Suc (wall_pos s + g))"
    using Cons.prems(1) by (auto intro: monoD)
  show ?case
  proof (cases "rc_rate_limit_rpm cfg \<le> length (recent (wall_src s (wall_pos s + g)) (request_times s))")
    case True
    then have "a \<in> set (admissions cfg gs (s\<lparr>wall_pos := Suc (wall_pos s + g),
        request_times := recent (wall_src s (wall_pos s + g)) (request_times s)\<rparr>))"
      using Cons.prems(2) by (simp add: check_rate_limit_cases Let_def)
    from Cons.IH [OF _ this] show ?thesis using Cons.prems(1) le by simp
  next
    case False
    then have "a = wall_src s (wall_pos s + g) \<or> a \<in> set (admissions cfg gs (s\<lparr>wall_pos := Suc (wall_pos s + g),
        request_times := recent (wall_src s (wall_pos s + g)) (request_times s) @ [wall_src s (wall_pos s + g)]\<rparr>))"
      using Cons.prems(2) by (simp add: check_rate_limit_cases Let_def)
    then show ?thesis using Cons.IH [of "s\<lparr>wall_pos := Suc (wall_pos s + g),
        request_times := recent (wall_src s (wall_pos s + g)) (request_times s) @ [wall_src s (wall_pos s + g)]\<rparr>"]
        Cons.prems(1) le by auto
  qed
qed simp

abbreviation minute_from :: "rat \<Rightarrow> rat list \<Rightarrow> rat list" where
  "minute_from x ts \<equiv> filter (\<lambda>t. x \<le> t \<and> t < x + 60) ts"

lemma admissions_window:
  assumes "mono (wall_src s)" and "length (request_times s) \<le> rc_rate_limit_rpm cfg"
  shows "length (minute_from x (request_times s @ admissions cfg gs s)) \<le> rc_rate_limit_rpm cfg"
  using assms
proof (induction gs arbitrary: s)
  case Nil
  then show ?case using order_trans [OF length_filter_le] by simp
next
  case (Cons g gs)
  define t0 where "t0 = wall_src s (wall_pos s + g)"
  define ts where "ts = recent t0 (request_times s)"
  define u where "u = s\<lparr>wall_pos := Suc (wall_pos s + g), request_times := ts\<rparr>"
  define v where "v = s\<lparr>wall_pos := Suc (wall_pos s + g), request_times := ts @ [t0]\<rparr>"
  have short: "length ts \<le> length (request_times s)" by (simp add: ts_def recent_def)
  have step: "admissions cfg (g # gs) s =
      (if rc_rate_limit_rpm cfg \<le> length ts then admissions cfg gs u else t0 # admissions cfg gs v)"
    by (simp add: check_rate_limit_cases Let_def t0_def ts_def u_def v_def)
  show ?case
  proof (cases "x + 60 \<le> t0")
    case True
    have "a \<ge> t0" if "a \<in> set (admissions cfg (g # gs) s)" for a
    proof -
      have "wall_src s (wall_pos s + g) \<le> a"
        using admissions_later [of "s\<lparr>wall_pos := wall_pos s + g\<rparr>" a cfg "0 # gs"] that Cons.prems(1) by simp
      then show ?thesis by (simp add: t0_def)
    qed
    then have "minute_from x (admissions cfg (g # gs) s) = []"
      using True by (fastforce simp: filter_empty_conv)
    then have "minute_from x (request_times s @ admissions cfg (g # gs) s) = minute_from x (request_times s)"
      by simp
    then show ?thesis using Cons.prems(2) length_filter_le le_trans by metis
  next
    case False
    have "minute_from x (request_times s) = minute_from x ts"
      using False by (auto simp: ts_def recent_def intro!: filter_cong)
    moreover have "length (minute_from x (ts @ admissions cfg gs u)) \<le> rc_rate_limit_rpm cfg"
      using Cons.IH [of u] Cons.prems short by (simp add: u_def)
    moreover have "\<not> rc_rate_limit_rpm cfg \<le> length ts \<Longrightarrow>
        length (minute_from x ((ts @ [t0]) @ admissions cfg gs v)) \<le> rc_rate_limit_rpm cfg"
      using Cons.IH [of v] Cons.prems by (simp add: v_def)
    ultimately show ?thesis by (simp add: step del: admissions.simps)
  qed
qed

section \<open>The bounds of a request\<close>

lemma provider_frames: "frames provider random_unit" "frames provider acquire"
  "frames slept random_unit" "frames slept acquire"
  by (simp_all add: obeys_def random_unit_def acquire_def action_simps)

lemma naps_call_api:
  "costs (\<lambda>s :: ('p, 'z) llm_world_scheme. length (slept s)) (n - 1) (call_api_left n cfg api p m t)"
proof (induction n)
  case 0
  show ?case by (simp add: costs_def raise_def)
next
  case (Suc n)
  let ?c = "\<lambda>s :: ('p, 'z) llm_world_scheme. length (slept s)"
  have once: "costs ?c 0 (api_once cfg api p m t)"
    by (rule costsI) (simp add: api_once_def on_provider_def action_simps split: prod.split sum.split option.split)
  have unit: "costs ?c 0 random_unit"
    by (simp add: costs_def random_unit_def)
  have nap: "costs ?c 1 (sleep d)" for d
    by (simp add: costs_def sleep_def modify_def)
  have stop: "costs ?c n (raise e)" for e
    by (simp add: costs_def raise_def)
  have stop0: "costs ?c 0 (raise e)" for e
    by (simp add: costs_def raise_def)
  have "costs ?c n (if n = 0 then raise e else bindA random_unit (\<lambda>u.
      bindA (sleep (f u)) (\<lambda>_. call_api_left n cfg api p m t)))" for e f
  proof (cases "n = 0")
    case False
    have "costs ?c (0 + (1 + (n - 1))) (bindA random_unit (\<lambda>u.
        bindA (sleep (f u)) (\<lambda>_. call_api_left n cfg api p m t)))"
      by (intro costs_bind unit nap Suc) simp_all
    then show ?thesis using False by simp
  qed (simp add: stop0)
  then have "costs ?c (0 + n) (call_api_left (Suc n) cfg api p m t)"
    unfolding call_api_left.simps by (intro costs_catch once costs_option stop) simp_all
  then show ?case by simp
qed

text \<open>A measure of the provider and of the waits.\<close>

definition charge :: "('p \<times> rat list \<Rightarrow> nat) \<Rightarrow> ('p, 'z) llm_world_scheme \<Rightarrow> nat" where
  "charge g s = g (provider s, slept s)"

lemma charge_frames: "frames outer m \<Longrightarrow> costs (charge g) 0 m"
  by (simp add: costs_def obeys_def charge_def outer_def)

lemma charge_steps: "costs (charge g) 0 (raise e)" "costs (charge g) 0 (ret a)" "costs (charge g) 0 (gets f)"
  "costs (charge g) 0 acquire"
  by (simp_all add: costs_def action_simps acquire_def charge_def)

lemma charge_release: "costs (charge g) n m \<Longrightarrow> costs (charge g) n (finallyA m release)"
  by (rule costs_finally_release) (simp_all add: charge_def)

lemma costs_free_bind: "costs c 0 m \<Longrightarrow> (\<And>x. costs c n (f x)) \<Longrightarrow> costs c (n :: nat) (bindA m f)"
  using costs_bind [of c 0 m n f] by simp

lemma costs_then_free: "costs c n m \<Longrightarrow> (\<And>x. costs c 0 (f x)) \<Longrightarrow> costs c (n :: nat) (bindA m f)"
  using costs_bind [of c n m 0 f] by simp

lemma charge_raise: "costs (charge g) n (raise e)"
  by (rule costs_weaken [OF charge_steps(1)]) simp

lemma charge_ret: "costs (charge g) n (ret a)"
  by (rule costs_weaken [OF charge_steps(2)]) simp

lemmas charge_free = charge_steps(3,4) charge_frames [OF outer_steps(1)] charge_frames [OF outer_steps(2)]
  charge_frames [OF outer_steps(3)] charge_frames [OF outer_steps(4)] charge_frames [OF outer_steps(7)]

lemma charge_primary:
  assumes "\<And>m. costs (charge g :: ('p, 'z) llm_world_scheme \<Rightarrow> nat) n (call_api cfg api p m ''0.2'')"
  shows "costs (charge g :: ('p, 'z) llm_world_scheme \<Rightarrow> nat) (n + n) (primary_or_fallback cfg api p)"
proof -
  have "costs (charge g :: ('p, 'z) llm_world_scheme \<Rightarrow> nat) n (bindA (record_failure cfg) (\<lambda>_. raise e))" for e
    by (intro costs_free_bind charge_free charge_raise)
  then have "costs (charge g :: ('p, 'z) llm_world_scheme \<Rightarrow> nat) (n + 0) (catchA (call_api cfg api p m ''0.2'') (\<lambda>f. if provider_failure f
      then bindA (record_failure cfg) (\<lambda>_. raise (h f)) else raise f))" for m h
    by (intro costs_catch assms costs_if costs_free_bind charge_free charge_raise) simp
  then show ?thesis
    unfolding primary_or_fallback_def
    by (intro costs_free_bind charge_free costs_catch assms costs_if charge_raise) simp_all
qed

lemma charge_generate:
  assumes "\<And>p m. costs (charge g :: ('p, 'z) llm_world_scheme \<Rightarrow> nat) n (call_api cfg api p m ''0.2'')"
  shows "costs (charge g :: ('p, 'z) llm_world_scheme \<Rightarrow> nat) (n + n) (generate_code shown rules cfg api req lang)"
  unfolding generate_code_def Let_def
  by (intro costs_free_bind charge_free costs_option charge_raise charge_ret costs_if charge_release
      costs_then_free [OF charge_primary] charge_frames [OF outer_steps(8)] assms)

lemma charge_analyze:
  assumes "\<And>p m. costs (charge g :: ('p, 'z) llm_world_scheme \<Rightarrow> nat) n (call_api cfg api p m ''0.1'')"
  shows "costs (charge g :: ('p, 'z) llm_world_scheme \<Rightarrow> nat) (n + n) (analyze_security shown cfg api code)"
proof -
  have two: "costs (charge g :: ('p, 'z) llm_world_scheme \<Rightarrow> nat) (n + n) (catchA (call_api cfg api p m ''0.1'') (\<lambda>e. if provider_failure e
      then bindA (gets llm_fallback) (\<lambda>f. call_api cfg api p f ''0.1'') else raise e))" for p m
    by (intro costs_catch assms costs_if costs_free_bind charge_free charge_raise) simp
  have "costs (charge g :: ('p, 'z) llm_world_scheme \<Rightarrow> nat) ((n + n) + 0) (catchA (bindA (catchA (call_api cfg api p m ''0.1'') (\<lambda>e.
      if provider_failure e then bindA (gets llm_fallback) (\<lambda>f. call_api cfg api p f ''0.1'') else raise e))
      (keep_answer shown p ''0.1'')) (\<lambda>e. if provider_failure e then bindA (record_failure cfg) (\<lambda>_.
        raise (h e)) else raise e))" for p m h
    by (rule costs_catch [OF costs_then_free [OF two]])
      (intro charge_frames [OF outer_steps(8)] costs_if costs_free_bind charge_free charge_raise order_refl)+
  then show ?thesis
    unfolding analyze_security_def Let_def
    by (intro costs_free_bind charge_free costs_option charge_raise charge_ret costs_if charge_release) simp_all
qed

lemma charge_calls:
  assumes "\<And>m p t n w. c (snd (api m p t n w)) \<le> c w + (1 :: nat)"
  shows "costs (charge (\<lambda>q. c (fst q))) 3 (call_api cfg api p m t)"
  using call_api_costs [of c api 3 cfg p m t, OF assms]
  by (simp add: costs_def charge_def call_api_def max_attempts_def)

lemma charge_naps: "costs (charge (\<lambda>q. length (snd q))) 2 (call_api cfg api p m t)"
  using naps_call_api [of 3 cfg api p m t] by (simp add: costs_def charge_def call_api_def max_attempts_def)

section \<open>Properties\<close>

text \<open>
  C25. A restricted request never leaves the machine. When the guard does not allow the requirement,
  \<^verbatim>\<open>generate_code\<close> raises the rejection naming the category, having done nothing but append one
  decision to the guard's log: the provider, the cache, the window of the rate limit, the breaker
  and the permits are as before. Nor does a request reach the provider while the breaker is open and
  its reset time has not passed, for either kind of request.
\<close>

theorem llm_blocked_requests:
  "(\<not> request_allowed rules req \<longrightarrow>
     (\<exists>d. generate_code shown rules cfg api req lang s
        = (Inl (rejected_category (case detect_category rules req of Some c \<Rightarrow> category_value c
             | None \<Rightarrow> ''restricted'')), guard_logged d s)
      \<and> \<not> gd_allowed d))
   \<and> (request_allowed rules req \<and> cb_status (breaker s) = CircuitOpen
       \<and> wall_src s (Suc (wall_pos s)) - cb_last_failure_time (breaker s) < rc_circuit_breaker_reset_seconds cfg \<longrightarrow>
     (\<exists>d. generate_code shown rules cfg api req lang s
        = (Inl (runtime_error ''Circuit breaker OPEN -- API temporarily unavailable''),
           (guard_logged d s)\<lparr>wall_pos := Suc (Suc (wall_pos s))\<rparr>)))
   \<and> (cb_status (breaker s) = CircuitOpen
       \<and> wall_src s (wall_pos s) - cb_last_failure_time (breaker s) < rc_circuit_breaker_reset_seconds cfg \<longrightarrow>
     analyze_security shown cfg api code s
       = (Inl (runtime_error ''Circuit breaker OPEN''), s\<lparr>wall_pos := Suc (wall_pos s)\<rparr>))"
proof (intro conjI impI)
  obtain d where d: "guard_check_request rules req s = (Inr d, guard_logged d s)"
    "gd_allowed d = request_allowed rules req" "gd_category d = detect_category rules req"
    using guard_check_cases [of rules req s] by blast
  then have check: "check_restricted_content rules req s = (Inr (if request_allowed rules req then None
      else Some (case detect_category rules req of Some c \<Rightarrow> category_value c | None \<Rightarrow> ''restricted'')),
      guard_logged d s)"
    by (simp add: check_restricted_content_def action_simps)
  show "\<exists>d. generate_code shown rules cfg api req lang s
      = (Inl (rejected_category (case detect_category rules req of Some c \<Rightarrow> category_value c
           | None \<Rightarrow> ''restricted'')), guard_logged d s) \<and> \<not> gd_allowed d"
    if "\<not> request_allowed rules req"
    using check d(2) that by (intro exI [of _ d]) (simp add: generate_code_def bindA_def raise_def)
  show "\<exists>d. generate_code shown rules cfg api req lang s
      = (Inl (runtime_error ''Circuit breaker OPEN -- API temporarily unavailable''),
         (guard_logged d s)\<lparr>wall_pos := Suc (Suc (wall_pos s))\<rparr>)"
    if "request_allowed rules req \<and> cb_status (breaker s) = CircuitOpen
       \<and> wall_src s (Suc (wall_pos s)) - cb_last_failure_time (breaker s) < rc_circuit_breaker_reset_seconds cfg"
    using check that
    by (intro exI [of _ d])
      (simp add: generate_code_def allow_request_def time_time_def bindA_def raise_def gets_def ret_def guard_logged_def)
  show "analyze_security shown cfg api code s
      = (Inl (runtime_error ''Circuit breaker OPEN''), s\<lparr>wall_pos := Suc (wall_pos s)\<rparr>)"
    if "cb_status (breaker s) = CircuitOpen
       \<and> wall_src s (wall_pos s) - cb_last_failure_time (breaker s) < rc_circuit_breaker_reset_seconds cfg"
    using that
    by (simp add: analyze_security_def allow_request_def time_time_def bindA_def raise_def gets_def ret_def)
qed

text \<open>
  C26. What a request can cost. If each call of the provider raises a counter of its own by at most
  one, then a request, whether it returns or raises, makes at most six calls (three attempts with each
  of the two models), waits at most four times, and gives back every permit it took.
\<close>

theorem llm_request_bounds:
  assumes "\<And>m p t n w. c (snd (api m p t n w)) \<le> c w + (1 :: nat)"
    and "u \<in> {snd (generate_code shown rules cfg api req lang s), snd (analyze_security shown cfg api code s)}"
  shows "c (provider u) \<le> c (provider s) + 6 \<and> length (slept u) \<le> length (slept s) + 4 \<and> permits u = permits s"
proof -
  have calls: "costs (charge (\<lambda>q. c (fst q))) 3 (call_api cfg api p m t)" for p m t
    by (rule charge_calls) (rule assms(1))
  have "costs (charge (\<lambda>q. c (fst q))) (3 + 3) (generate_code shown rules cfg api req lang)"
    "costs (charge (\<lambda>q. c (fst q))) (3 + 3) (analyze_security shown cfg api code)"
    by (intro charge_generate charge_analyze calls)+
  moreover have "costs (charge (\<lambda>q. length (snd q))) (2 + 2) (generate_code shown rules cfg api req lang)"
    "costs (charge (\<lambda>q. length (snd q))) (2 + 2) (analyze_security shown cfg api code)"
    by (intro charge_generate charge_analyze charge_naps)+
  ultimately show ?thesis
    using assms(2) obeysD [OF permits_generate] obeysD [OF permits_analyze]
    by (auto simp: costs_def charge_def)
qed

definition llm_demo :: "(string list, unit) llm_world_scheme" where
  "llm_demo = \<lparr>uuid_src = demo_uuids, clock_src = demo_clock, uuid_pos = 0, clock_pos = 0,
     dk_files = (\<lambda>_. None), dk_dirs = {[]}, dk_cwd = ''/'', dk_src = (\<lambda>_. Written), dk_pos = 0,
     wall_src = of_nat, wall_pos = 0,
     gov_settings = default_settings, gov_logs = [], gov_replies = [], guard_log = [], cache = [], cache_file = None, cache_readable = True,
     cache_writes = (\<lambda>_. Written), cache_write_pos = 0, breaker = new_circuit_breaker, request_times = [],
     permits = 2, llm_model = ''m'', llm_fallback = ''f'', random_src = (\<lambda>_. 0), random_pos = 0, slept = [],
     provider = []\<rparr>"

definition demo_api :: "(string list) provider_api" where
  "demo_api m p t n w = (Inl (Raised (OtherError ''RateLimitError'') ''busy''), w @ [m])"

theorem llm_request_bounds_witness:
  "length (provider (snd (analyze_security exact_decimal default_config demo_api ''x'' llm_demo))) \<le> 0 + 6"
proof -
  have "length (snd (demo_api m p t n w)) \<le> length w + 1" for m p t n w by (simp add: demo_api_def)
  note bounds = llm_request_bounds [of length demo_api, OF this,
      of "snd (analyze_security exact_decimal default_config demo_api ''x'' llm_demo)" exact_decimal
        "load_rules None" default_config "[]" "[]" llm_demo "''x''"]
  have "provider llm_demo = []" by (simp add: llm_demo_def)
  then show ?thesis using bounds by simp
qed

theorem llm_blocked_requests_witness:
  "analyze_security exact_decimal default_config demo_api ''x''
     (llm_demo\<lparr>breaker := \<lparr>cb_failure_count = 5, cb_last_failure_time = 0, cb_status = CircuitOpen\<rparr>\<rparr>)
   = (Inl (runtime_error ''Circuit breaker OPEN''),
      llm_demo\<lparr>breaker := \<lparr>cb_failure_count = 5, cb_last_failure_time = 0, cb_status = CircuitOpen\<rparr>, wall_pos := 1\<rparr>)"
  using llm_blocked_requests [of "load_rules None" "[]" exact_decimal default_config demo_api "[]"
      "llm_demo\<lparr>breaker := \<lparr>cb_failure_count = 5, cb_last_failure_time = 0, cb_status = CircuitOpen\<rparr>\<rparr>" "''x''"]
  by (simp add: llm_demo_def default_config_def)

text \<open>
  C27. The rate limit. With a clock that does not go back, and however often the rest of the program
  reads it in between, the checks let at most \<^verbatim>\<open>rate_limit_rpm\<close> requests pass in any 60 seconds,
  wherever the minute begins.
\<close>

theorem llm_rate_limit:
  assumes "mono (wall_src s)" and "request_times s = []"
  shows "length (filter (\<lambda>t. x \<le> t \<and> t < x + 60) (admissions cfg gs s)) \<le> rc_rate_limit_rpm cfg"
  using admissions_window [of s cfg x gs] assms by simp

theorem llm_rate_limit_witness:
  "length (filter (\<lambda>t. 0 \<le> t \<and> t < 0 + 60)
     (admissions (default_config\<lparr>rc_rate_limit_rpm := 1\<rparr>) [0, 2, 80] llm_demo)) \<le> 1"
proof -
  have "mono (wall_src llm_demo)" "request_times llm_demo = []"
    by (simp_all add: llm_demo_def mono_def)
  from llm_rate_limit [OF this, of 0 "default_config\<lparr>rc_rate_limit_rpm := 1\<rparr>" "[0, 2, 80]"]
  show ?thesis by simp
qed

text \<open>
  C28. No blank answer. From a cache that holds none, neither request ever returns an answer that is
  empty or only white space, from the provider or from the cache, and none is ever stored.
\<close>

theorem llm_answers_not_blank:
  assumes "\<forall>q \<in> set (cache s). strip (ce_response (snd q)) \<noteq> []"
    and "m \<in> {generate_code shown rules cfg api req lang, analyze_security shown cfg api code}"
  shows "(\<forall>a. fst (m s) = Inr a \<longrightarrow> strip a \<noteq> [])
    \<and> (\<forall>q \<in> set (cache (snd (m s))). strip (ce_response (snd q)) \<noteq> [])"
proof -
  have "delivers blank_free (\<lambda>r. strip r \<noteq> []) m"
    using assms(2) by (elim insertE emptyE) (simp_all only: generate_delivers analyze_delivers)
  then show ?thesis using assms(1) unfolding delivers_def blank_free_def by blast
qed

theorem llm_answers_not_blank_witness:
  "\<not> list_ex (\<lambda>q. strip (ce_response (snd q)) = []) (cache (snd (analyze_security exact_decimal default_config
     (\<lambda>m p t n w. (Inr (Some '' ''), w)) ''x'' llm_demo)))"
proof -
  have "\<forall>q \<in> set (cache llm_demo). strip (ce_response (snd q)) \<noteq> []" by (simp add: llm_demo_def)
  note answers = llm_answers_not_blank [OF this, of "analyze_security exact_decimal default_config
      (\<lambda>m p t n w. (Inr (Some '' ''), w)) ''x''" exact_decimal "load_rules None" default_config
      "\<lambda>m p t n w. (Inr (Some '' ''), w)" "[]" "[]" "''x''"]
  show ?thesis
    unfolding list_ex_iff bex_simps(8) [symmetric] using answers [THEN conjunct2, OF insertI2 [OF insertI1]] by blast
qed

end
