(* ===== verification/Triple.thy ===== *)
theory Triple
  imports Prelude
begin

text \<open>
  Triples for actions: from a state with \<open>P\<close>, the action ends with a value and a state in \<open>Q\<close>, or with an
  exception and a state in \<open>E\<close>. The rules follow the combinators.
\<close>

definition triple ::
  "('s \<Rightarrow> bool) \<Rightarrow> ('s, 'a) action \<Rightarrow> ('a \<Rightarrow> 's \<Rightarrow> bool) \<Rightarrow> (exn \<Rightarrow> 's \<Rightarrow> bool) \<Rightarrow> bool" where
  "triple P m Q E \<longleftrightarrow> (\<forall>s. P s \<longrightarrow> (case m s of (Inr v, t) \<Rightarrow> Q v t | (Inl e, t) \<Rightarrow> E e t))"

lemma tripleI:
  "(\<And>s v t. P s \<Longrightarrow> m s = (Inr v, t) \<Longrightarrow> Q v t) \<Longrightarrow> (\<And>s e t. P s \<Longrightarrow> m s = (Inl e, t) \<Longrightarrow> E e t)
   \<Longrightarrow> triple P m Q E"
  by (auto simp: triple_def split: prod.split sum.split)

lemma tripleD: "triple P m Q E \<Longrightarrow> P s \<Longrightarrow> case m s of (Inr v, t) \<Rightarrow> Q v t | (Inl e, t) \<Rightarrow> E e t"
  by (simp add: triple_def)

lemma triple_conseq:
  assumes "triple P' m Q' E'" and "\<And>s. P s \<Longrightarrow> P' s" and "\<And>v s. Q' v s \<Longrightarrow> Q v s"
    and "\<And>e s. E' e s \<Longrightarrow> E e s"
  shows "triple P m Q E"
proof (rule tripleI)
  show "Q v t" if "P s" "m s = (Inr v, t)" for s v t
    using tripleD [OF assms(1) assms(2) [OF that(1)]] that(2) assms(3) by simp
  show "E e t" if "P s" "m s = (Inl e, t)" for s e t
    using tripleD [OF assms(1) assms(2) [OF that(1)]] that(2) assms(4) by simp
qed

lemma triple_pre: "triple P' m Q E \<Longrightarrow> (\<And>s. P s \<Longrightarrow> P' s) \<Longrightarrow> triple P m Q E"
  by (erule triple_conseq) simp_all

lemma triple_post: "triple P m Q' E \<Longrightarrow> (\<And>v s. Q' v s \<Longrightarrow> Q v s) \<Longrightarrow> triple P m Q E"
  by (erule triple_conseq) simp_all

lemma triple_exn: "triple P m Q E' \<Longrightarrow> (\<And>e s. E' e s \<Longrightarrow> E e s) \<Longrightarrow> triple P m Q E"
  by (erule triple_conseq) simp_all

lemma triple_ret: "triple (Q v) (ret v) Q E"
  by (simp add: triple_def ret_def)

lemma triple_raise: "triple (E e) (raise e) Q E"
  by (simp add: triple_def raise_def)

lemma triple_lift_res:
  "triple (\<lambda>s. (\<forall>v. r = Inr v \<longrightarrow> Q v s) \<and> (\<forall>e. r = Inl e \<longrightarrow> E e s)) (lift_res r) Q E"
  by (cases r) (simp_all add: triple_def lift_res_def)

lemma triple_gets: "triple (\<lambda>s. Q (f s) s) (gets f) Q E"
  by (simp add: triple_def gets_def)

lemma triple_modify: "triple (\<lambda>s. Q () (f s)) (modify f) Q E"
  by (simp add: triple_def modify_def)

lemma triple_bind:
  assumes "triple P m R E" and "\<And>v. triple (R v) (f v) Q E"
  shows "triple P (bindA m f) Q E"
proof (unfold triple_def, intro allI impI)
  fix s
  assume "P s"
  obtain r t where m: "m s = (r, t)" by fastforce
  show "case bindA m f s of (Inr v, t) \<Rightarrow> Q v t | (Inl e, t) \<Rightarrow> E e t"
  proof (cases r)
    case (Inl e)
    then show ?thesis using tripleD [OF assms(1) \<open>P s\<close>] m by (simp add: bindA_def)
  next
    case (Inr v)
    then have "R v t" using tripleD [OF assms(1) \<open>P s\<close>] m by simp
    then show ?thesis using tripleD [OF assms(2)] m Inr by (simp add: bindA_def)
  qed
qed

text \<open>An exception that is no \<^verbatim>\<open>Exception\<close> passes the handler.\<close>

lemma triple_catch:
  assumes "triple P m Q R" and "\<And>e. is_exception e \<Longrightarrow> triple (R e) (h e) Q E"
    and "\<And>e s. \<not> is_exception e \<Longrightarrow> R e s \<Longrightarrow> E e s"
  shows "triple P (catchA m h) Q E"
proof (unfold triple_def, intro allI impI)
  fix s
  assume "P s"
  obtain r t where m: "m s = (r, t)" by fastforce
  show "case catchA m h s of (Inr v, t) \<Rightarrow> Q v t | (Inl e, t) \<Rightarrow> E e t"
  proof (cases r)
    case (Inl e)
    then have "R e t" using tripleD [OF assms(1) \<open>P s\<close>] m by simp
    then show ?thesis using tripleD [OF assms(2)] assms(3) m Inl by (cases "is_exception e") (simp_all add: catchA_def)
  next
    case (Inr v)
    then show ?thesis using tripleD [OF assms(1) \<open>P s\<close>] m by (simp add: catchA_def)
  qed
qed

lemma triple_attempt:
  assumes "triple P m (\<lambda>v. Q (Inr v)) (\<lambda>e s. if is_exception e then Q (Inl e) s else E e s)"
  shows "triple P (attempt m) Q E"
proof (unfold triple_def, intro allI impI)
  fix s
  assume "P s"
  then show "case attempt m s of (Inr v, t) \<Rightarrow> Q v t | (Inl e, t) \<Rightarrow> E e t"
    using tripleD [OF assms \<open>P s\<close>]
    by (auto simp: attempt_def catchA_def bindA_def ret_def split: prod.splits sum.splits if_splits)
qed

lemma triple_if: "(b \<Longrightarrow> triple P m Q E) \<Longrightarrow> (\<not> b \<Longrightarrow> triple P m' Q E) \<Longrightarrow> triple P (if b then m else m') Q E"
  by simp

lemma triple_if_state:
  assumes "triple (\<lambda>s. P s \<and> b s) m Q E" and "triple (\<lambda>s. P s \<and> \<not> b s) m' Q E"
  shows "triple P (\<lambda>s. if b s then m s else m' s) Q E"
  using assms by (simp add: triple_def)

lemma triple_false: "triple (\<lambda>_. False) m Q E"
  by (simp add: triple_def)

lemma triple_frame:
  assumes "frames f m"
  shows "triple (\<lambda>s. J (f s)) m (\<lambda>_ s. J (f s)) (\<lambda>_ s. J (f s))"
  using assms by (auto simp: triple_def obeys_def split: prod.split sum.split) (metis snd_conv)+

lemma triple_keeps: "keeps I m \<Longrightarrow> triple I m (\<lambda>_. I) (\<lambda>_. I)"
  by (auto simp: triple_def obeys_def split: prod.split sum.split)

lemma triple_disj: "triple P m Q E \<Longrightarrow> triple P' m Q E \<Longrightarrow> triple (\<lambda>s. P s \<or> P' s) m Q E"
  by (auto simp: triple_def)

section \<open>Ordinary exceptions\<close>

text \<open>An action that raises nothing but an \<^verbatim>\<open>Exception\<close>: no handler lets it pass.\<close>

definition ordinary :: "('s, 'a) action \<Rightarrow> bool" where
  "ordinary m \<longleftrightarrow> (\<forall>s e t. m s = (Inl e, t) \<longrightarrow> is_exception e)"

lemma ordinary_basic: "ordinary (ret a)" "ordinary (gets f)" "ordinary (modify g)"
  by (simp_all add: ordinary_def action_simps)

lemma ordinary_raise: "is_exception e \<Longrightarrow> ordinary (raise e)"
  by (simp add: ordinary_def raise_def)

lemma ordinary_lift_res: "(\<And>e. r = Inl e \<Longrightarrow> is_exception e) \<Longrightarrow> ordinary (lift_res r)"
  by (simp add: ordinary_def lift_res_def)

lemma ordinary_bind: "ordinary m \<Longrightarrow> (\<And>x. ordinary (f x)) \<Longrightarrow> ordinary (bindA m f)"
  unfolding ordinary_def bindA_def by (auto split: prod.splits sum.splits)

lemma ordinary_catch: "ordinary m \<Longrightarrow> (\<And>e. ordinary (h e)) \<Longrightarrow> ordinary (catchA m h)"
  unfolding ordinary_def catchA_def by (auto split: prod.splits sum.splits if_splits)

lemma ordinary_if: "ordinary m \<Longrightarrow> ordinary m' \<Longrightarrow> ordinary (if b then m else m')"
  by simp

lemma ordinary_at: "(\<And>s. \<exists>m. f s = m s \<and> ordinary m) \<Longrightarrow> ordinary f"
  unfolding ordinary_def by metis

lemmas ordinary_rules = ordinary_basic ordinary_bind ordinary_catch ordinary_if

lemma triple_catch_ordinary:
  assumes "triple P m Q R" and "ordinary m" and "\<And>e. triple (R e) (h e) Q E"
  shows "triple P (catchA m h) Q E"
proof -
  have "triple P m Q (\<lambda>e s. is_exception e \<and> R e s)"
  proof (rule tripleI)
    show "Q v t" if "P s" "m s = (Inr v, t)" for s v t
      using tripleD [OF assms(1) that(1)] that(2) by simp
    show "is_exception e \<and> R e t" if "P s" "m s = (Inl e, t)" for s e t
      using tripleD [OF assms(1) that(1)] that(2) assms(2) unfolding ordinary_def by auto
  qed
  then show ?thesis
    by (rule triple_catch) (auto intro: triple_pre [OF assms(3)])
qed

end
