(* ===== verification/Deployment.thy ===== *)
theory Deployment
  imports Governance Triple
begin

text \<open>
  The deployment engine (\<^verbatim>\<open>atlas_agent/deployment.py\<close>): the backup of what is replaced, the
  installation, the validation after it, the rollback and the record. \<open>parse\<close> is \<^verbatim>\<open>ast.parse\<close>, which
  raises for a text it refuses. The log lines are not modelled.
\<close>

section \<open>Steps\<close>

definition backup_dir_name :: string where
  "backup_dir_name = ''.atlas_backups''"

definition backup_name :: "string \<Rightarrow> string \<Rightarrow> string" where
  "backup_name target did = path_join (path_join (dirname target) backup_dir_name) (basename target @ ''.bak.'' @ did)"

definition create_backup :: "string \<Rightarrow> string \<Rightarrow> ('z gov_world_scheme, string) action" where
  "create_backup target did =
     bindA (make_dirs (path_join (dirname target) backup_dir_name)) (\<lambda>_.
     bindA (copy_file target (backup_name target did)) (\<lambda>_. ret (backup_name target did)))"

definition rollback :: "string \<Rightarrow> string option \<Rightarrow> ('z gov_world_scheme, unit) action" where
  "rollback target backup s =
     (case backup of
        Some b \<Rightarrow>
          (if b \<noteq> [] \<and> is_file b s then copy_file b target s
           else if is_file target s then remove_file target s else ret () s)
      | None \<Rightarrow> (if is_file target s then remove_file target s else ret () s))"

definition validation_found :: "bool \<Rightarrow> string list \<Rightarrow> deploy_validation" where
  "validation_found ok errs = \<lparr>dv_syntax_valid = ok, dv_importable = ok, dv_tests_passed = True, dv_errors = errs\<rparr>"

definition validate_deployment ::
  "(string \<Rightarrow> exn + unit) \<Rightarrow> string \<Rightarrow> string \<Rightarrow> ('z gov_world_scheme, deploy_validation) action" where
  "validate_deployment parse target lang s =
     (if \<not> is_file target s
      then ret (validation_found False [''File not found after deploy: '' @ target]) s
      else catchA
        (if lang = ''python'' then
           bindA (read_text target) (\<lambda>text. bindA (lift_res (parse text)) (\<lambda>_. ret (validation_found True [])))
         else if lang \<in> {''go'', ''rust''} then
           bindA (gets (\<lambda>s. dk_files s (place s target))) (\<lambda>f. ret (validation_found (f \<noteq> Some []) []))
         else ret (validation_found True []))
        (\<lambda>e. ret (validation_found False
           [(if is_syntax_error e then ''Syntax error: '' else ''Validation error: '') @ exn_str e])) s)"

definition deploy_audit :: "bool \<Rightarrow> string \<Rightarrow> deployment_record \<Rightarrow> ('z gov_world_scheme, unit) action" where
  "deploy_audit governed act d =
     (if governed then log_audit act ''deployment_engine''
        [(''deployment_id'', PStr (dr_deployment_id d)), (''status'', PStr (approval_status_value (dr_status d))),
         (''target_path'', PStr (dr_target_path d))] ''success'' None
      else ret ())"

definition failed_validation :: "string \<Rightarrow> deploy_validation" where
  "failed_validation reason = \<lparr>dv_syntax_valid = False, dv_importable = False, dv_tests_passed = False,
     dv_errors = [reason]\<rparr>"

text \<open>The two kinds of record, before their constructor has checked them.\<close>

definition failure_record ::
  "string \<Rightarrow> string \<Rightarrow> string \<Rightarrow> rat \<Rightarrow> string option \<Rightarrow> string \<Rightarrow> deploy_validation option \<Rightarrow> deployment_record" where
  "failure_record did art target t backup reason validation =
     \<lparr>dr_deployment_id = did, dr_artifact_path = art, dr_target_path = target,
      dr_status = (if backup \<noteq> None \<and> backup \<noteq> Some [] then ApRolledBack else ApDeployFailed),
      dr_timestamp = t, dr_backup_path = backup,
      dr_validation = (case validation of Some v \<Rightarrow> v | None \<Rightarrow> failed_validation reason),
      dr_audit_event_id = ''deploy-fail-'' @ did, dr_rollback_reason = Some reason\<rparr>"

definition success_record ::
  "string \<Rightarrow> string \<Rightarrow> string \<Rightarrow> rat \<Rightarrow> string option \<Rightarrow> deploy_validation \<Rightarrow> deployment_record" where
  "success_record did art target t backup validation =
     \<lparr>dr_deployment_id = did, dr_artifact_path = art, dr_target_path = target, dr_status = ApDeployed,
      dr_timestamp = t, dr_backup_path = backup, dr_validation = validation,
      dr_audit_event_id = ''deploy-'' @ did, dr_rollback_reason = None\<rparr>"

definition record_deploy_failure ::
  "bool \<Rightarrow> string \<Rightarrow> string \<Rightarrow> string \<Rightarrow> rat \<Rightarrow> string option \<Rightarrow> string \<Rightarrow> deploy_validation option \<Rightarrow>
   ('z gov_world_scheme, deployment_record) action" where
  "record_deploy_failure governed did art target t backup reason validation =
     bindA (lift_res (new_deployment_record (failure_record did art target t backup reason validation))) (\<lambda>d.
     bindA (deploy_audit governed ''deployment_failure'' d) (\<lambda>_. ret d))"

section \<open>Deployment\<close>

text \<open>\<^verbatim>\<open>str\<close> of a list of texts.\<close>

definition list_repr :: "string list \<Rightarrow> string" where
  "list_repr xs = ''['' @ join '', '' (map py_repr xs) @ '']''"

text \<open>The \<^verbatim>\<open>except Exception\<close> of \<^verbatim>\<open>deploy\<close>, with the backup path known when the exception was raised.\<close>

definition deploy_failed ::
  "bool \<Rightarrow> string \<Rightarrow> string \<Rightarrow> string \<Rightarrow> rat \<Rightarrow> string option \<Rightarrow> exn \<Rightarrow>
   ('z gov_world_scheme, deployment_record) action" where
  "deploy_failed governed did art target t backup e =
     bindA (rollback target backup) (\<lambda>_. record_deploy_failure governed did art target t backup (exn_str e) None)"

text \<open>Steps 1 and 2: the record of a missing source, or the backup that was made.\<close>

definition deploy_prepare ::
  "bool \<Rightarrow> string \<Rightarrow> string \<Rightarrow> string \<Rightarrow> rat \<Rightarrow> ('z gov_world_scheme, deployment_record + string option) action" where
  "deploy_prepare governed did art target t s =
     (if \<not> is_file art s
      then bindA (record_deploy_failure governed did art target t None (''Source not found: '' @ art) None)
        (\<lambda>d. ret (Inl d)) s
      else if path_exists target s then bindA (create_backup target did) (\<lambda>b. ret (Inr (Some b))) s
      else ret (Inr None) s)"

text \<open>Steps 3 to 6.\<close>

definition deploy_install :: "string \<Rightarrow> string \<Rightarrow> ('z gov_world_scheme, unit) action" where
  "deploy_install art target =
     bindA (if dirname target = [] then ret () else make_dirs (dirname target)) (\<lambda>_.
     bindA (gets dk_cwd) (\<lambda>w. if abspath w art = abspath w target then ret () else copy_file art target))"

definition deploy_finish ::
  "(string \<Rightarrow> exn + unit) \<Rightarrow> bool \<Rightarrow> string \<Rightarrow> string \<Rightarrow> string \<Rightarrow> rat \<Rightarrow> string option \<Rightarrow> deploy_validation \<Rightarrow>
   ('z gov_world_scheme, deployment_record) action" where
  "deploy_finish parse governed did art target t backup v =
     (if \<not> dv_syntax_valid v
      then bindA (rollback target backup) (\<lambda>_. record_deploy_failure governed did art target t backup
        (''Post-deploy syntax validation failed: '' @ list_repr (dv_errors v)) (Some v))
      else bindA (lift_res (new_deployment_record (success_record did art target t backup v))) (\<lambda>d.
        bindA (deploy_audit governed ''deployment_success'' d) (\<lambda>_. ret d)))"

text \<open>The deployment, once its identifier is drawn and the clock is read.\<close>

definition deploy_from ::
  "(string \<Rightarrow> exn + unit) \<Rightarrow> bool \<Rightarrow> string \<Rightarrow> string \<Rightarrow> string \<Rightarrow> string \<Rightarrow> rat \<Rightarrow>
   ('z gov_world_scheme, deployment_record) action" where
  "deploy_from parse governed art target lang did t =
     bindA (attempt (deploy_prepare governed did art target t)) (\<lambda>r.
     case r of
       Inl e \<Rightarrow> deploy_failed governed did art target t None e
     | Inr (Inl d) \<Rightarrow> ret d
     | Inr (Inr backup) \<Rightarrow>
         catchA
           (bindA (deploy_install art target) (\<lambda>_.
            bindA (validate_deployment parse target lang) (deploy_finish parse governed did art target t backup)))
           (deploy_failed governed did art target t backup))"

definition deploy ::
  "(string \<Rightarrow> exn + unit) \<Rightarrow> bool \<Rightarrow> string \<Rightarrow> string \<Rightarrow> string \<Rightarrow> ('z gov_world_scheme, deployment_record) action" where
  "deploy parse governed art target lang =
     bindA fresh_uuid (\<lambda>u. bindA time_time (deploy_from parse governed art target lang (take 12 u)))"

end
