(* ===== verification/Deployment_Safety.thy ===== *)
theory Deployment_Safety
  imports Deployment
begin

text \<open>
  What a deployment does to the files: on a disk that works it is all or nothing, by triples over the
  files of the disk; and the two ways in which its rollback removes a file it should not.
\<close>

section \<open>A disk that works\<close>

definition audit_file :: "'z gov_world_scheme \<Rightarrow> string list" where
  "audit_file s = place s (path_join (st_logs_dir (gov_settings s)) ''audit.log'')"

text \<open>The files are \<open>F\<close>, except for the audit file \<open>l\<close>; neither \<open>a\<close> nor \<open>b\<close> is a directory, and the directory of \<open>a\<close>
  exists if \<open>a\<close> does.\<close>

definition site ::
  "string \<Rightarrow> string list \<Rightarrow> string list \<Rightarrow> string list \<Rightarrow> (string list \<Rightarrow> string option) \<Rightarrow> 'z gov_world_scheme \<Rightarrow> bool" where
  "site w l a b F s \<longleftrightarrow> calm s \<and> dk_cwd s = w \<and> audit_file s = l \<and> (\<forall>x. x \<noteq> l \<longrightarrow> dk_files s x = F x)
     \<and> a \<notin> dk_dirs s \<and> b \<notin> dk_dirs s \<and> (F a \<noteq> None \<longrightarrow> butlast a \<in> dk_dirs s)"

lemma siteD:
  assumes "site w l a b F s"
  shows "dk_src s n = Written" "dk_cwd s = w" "audit_file s = l" "x \<noteq> l \<Longrightarrow> dk_files s x = F x"
    "a \<notin> dk_dirs s" "b \<notin> dk_dirs s" "F a \<noteq> None \<Longrightarrow> butlast a \<in> dk_dirs s"
  using assms by (simp_all add: site_def calm_def)

lemma place_spot: "site w l a b F s \<Longrightarrow> place s p = norm_pieces (path_join w p)"
  by (simp add: place_def siteD(2))

lemma site_agree:
  assumes "site w l a b F s" and "dk_dirs t = dk_dirs s" "dk_cwd t = dk_cwd s" "dk_src t = dk_src s"
    "gov_settings t = gov_settings s" and "\<And>x. x \<noteq> l \<Longrightarrow> dk_files t x = dk_files s x"
  shows "site w l a b F t"
proof -
  have "audit_file t = l" using siteD(3) [OF assms(1)] by (simp add: audit_file_def place_def assms(3,5))
  then show ?thesis
    using assms(6) siteD [OF assms(1)] by (simp add: site_def calm_def assms(2-4))
qed

lemma put_text_disk:
  "dk_dirs (snd (put_text f p text s)) = dk_dirs s" "dk_cwd (snd (put_text f p text s)) = dk_cwd s"
  "dk_src (snd (put_text f p text s)) = dk_src s"
  "x \<noteq> place s p \<Longrightarrow> dk_files (snd (put_text f p text s)) x = dk_files s x"
  by (simp_all add: put_text_def disk_outcome_def action_simps place_def split: write_outcome.split)

lemma put_text_settings: "gov_settings (snd (put_text f p text s)) = gov_settings s"
  by (simp add: put_text_def disk_outcome_def action_simps split: write_outcome.split)

definition logged :: "gov_record \<Rightarrow> 'z gov_world_scheme \<Rightarrow> 'z gov_world_scheme" where
  "logged r s = s\<lparr>uuid_pos := Suc (uuid_pos s), clock_pos := Suc (clock_pos s), gov_logs := gov_logs s @ [r]\<rparr>"

definition governance_record :: "string \<Rightarrow> string \<Rightarrow> pydict \<Rightarrow> string \<Rightarrow> string option \<Rightarrow> 'z gov_world_scheme \<Rightarrow> gov_record" where
  "governance_record act cm details res err s =
     \<lparr>gr_event_id = uuid_str (uuid4_bits (uuid_src s (uuid_pos s))), gr_contract_version = ''1.0'',
      gr_event_type = ''governance_event'', gr_operation_id = ''unknown'', gr_agent_id = ''governance_engine'',
      gr_timestamp = clock_src s (clock_pos s), gr_action = act, gr_resource = cm, gr_result = res,
      gr_metadata = log_metadata cm details err\<rparr>"

lemma log_audit_cases:
  "log_audit act cm details res err s =
     (if act = [] \<or> cm = [] \<or> res = []
      then (Inl validation_error, s\<lparr>uuid_pos := Suc (uuid_pos s), clock_pos := Suc (clock_pos s)\<rparr>)
      else let r = governance_record act cm details res err s in
        append_file (path_join (st_logs_dir (gov_settings s)) ''audit.log'') (audit_line r cm err) (logged r s))"
  by (auto simp: log_audit_def log_audit_as_def new_gov_record_def governance_record_def logged_def action_simps Let_def)

lemma site_audit: "keeps (site w l a b F) (log_audit act cm details res err)"
proof (rule obeysI, rule impI)
  fix s :: "'z gov_world_scheme"
  assume s: "site w l a b F s"
  show "site w l a b F (snd (log_audit act cm details res err s))"
  proof (cases "act = [] \<or> cm = [] \<or> res = []")
    case True
    then show ?thesis by (intro site_agree [OF s]) (simp_all add: log_audit_cases)
  next
    case False
    define r where "r = governance_record act cm details res err s"
    define t where "t = append_file (path_join (st_logs_dir (gov_settings s)) ''audit.log'') (audit_line r cm err) (logged r s)"
    have "place (logged r s) (path_join (st_logs_dir (gov_settings s)) ''audit.log'') = l"
      using siteD(3) [OF s] by (simp add: audit_file_def place_def logged_def)
    then have "site w l a b F (snd t)"
      by (intro site_agree [OF s])
        (simp_all add: t_def append_file_def put_text_disk put_text_settings, simp_all add: logged_def)
    then show ?thesis using False by (simp add: log_audit_cases Let_def r_def t_def)
  qed
qed

lemma place_update [simp]:
  "place (dk_pos_update f s) p = place s p" "place (dk_files_update g s) p = place s p"
  "place (dk_dirs_update h s) p = place s p"
  by (simp_all add: place_def)

lemma make_dirs_cases:
  assumes "calm s"
  shows "(\<exists>e. make_dirs p s = (e, s))
    \<or> make_dirs p s = (Inr (), s\<lparr>dk_pos := Suc (dk_pos s), dk_dirs := dk_dirs s \<union> set (way (place s p))\<rparr>)
      \<and> (\<forall>d \<in> set (way (place s p)). dk_files s d = None)"
proof (cases "p = [] \<or> is_dir p s \<or> is_file p s \<or> list_ex (\<lambda>d. dk_files s d \<noteq> None) (way (place s p))")
  case True
  then show ?thesis by (auto simp: make_dirs_def raise_def ret_def)
next
  case False
  then show ?thesis
    using assms by (simp add: make_dirs_def calm_def action_simps disk_outcome_def list_ex_iff)
qed

lemma site_make_dirs:
  assumes "\<And>d. d \<in> {a, b} \<Longrightarrow> d \<in> set (way (norm_pieces (path_join w p))) \<Longrightarrow> d \<noteq> l \<and> F d \<noteq> None"
  shows "keeps (site w l a b F) (make_dirs p)"
proof (rule obeysI, rule impI)
  fix s :: "'z gov_world_scheme"
  assume s: "site w l a b F s"
  have calm: "calm s" using s by (simp add: site_def)
  show "site w l a b F (snd (make_dirs p s))"
    using make_dirs_cases [OF calm, of p]
  proof (elim disjE exE conjE)
    assume made: "make_dirs p s = (Inr (), s\<lparr>dk_pos := Suc (dk_pos s), dk_dirs := dk_dirs s \<union> set (way (place s p))\<rparr>)"
      "\<forall>d \<in> set (way (place s p)). dk_files s d = None"
    have "d \<notin> set (way (place s p))" if "d \<in> {a, b}" for d
      using assms [OF that] made(2) siteD(4) [OF s, of d] by (auto simp: place_spot [OF s])
    moreover have "audit_file (snd (make_dirs p s)) = l" using siteD(3) [OF s] made(1) by (simp add: audit_file_def place_def)
    ultimately show ?thesis using siteD [OF s] made(1) by (simp add: site_def calm_def)
  qed (use s in simp)
qed

lemma copy_file_cases:
  assumes "calm s" and "\<not> is_dir dst s"
  obtains (failed) e t where "copy_file src dst s = (Inl e, t)" "t = s \<or> t = s\<lparr>dk_pos := Suc (dk_pos s)\<rparr>"
      "\<not> is_file src s \<or> is_dir src s \<or> place s src = place s dst \<or> dst = [] \<or> butlast (place s dst) \<notin> dk_dirs s"
  | (copied) body n where "dk_files s (place s src) = Some body" "butlast (place s dst) \<in> dk_dirs s"
      "copy_file src dst s = (Inr (), s\<lparr>dk_files := (dk_files s)(place s dst \<mapsto> body), dk_pos := n\<rparr>)"
proof (cases "path_exists src s \<and> path_exists dst s \<and> place s src = place s dst")
  case True
  then show ?thesis using assms(2) by (intro failed [where t = s]) (simp_all add: copy_file_def raise_def)
next
  case False
  then have copy: "copy_file src dst s = bindA (read_file src) (\<lambda>text. bindA (write_file dst text) (\<lambda>_.
      bindA disk_outcome (\<lambda>r. if r = Written then ret () else raise (broken dst)))) s"
    using assms(2) by (simp add: copy_file_def del: de_Morgan_conj)
  show ?thesis
  proof (cases "is_file src s \<and> \<not> is_dir src s")
    case True
    then obtain body where body: "dk_files s (place s src) = Some body" by (auto simp: is_file_def)
    define u where "u = s\<lparr>dk_pos := Suc (dk_pos s)\<rparr>"
    have u: "is_dir dst u = is_dir dst s" "place u q = place s q" "dk_dirs u = dk_dirs s" "dk_src u = dk_src s" for q
      by (simp_all add: u_def is_dir_def place_def)
    have read: "read_file src s = (Inr body, u)"
      using True assms(1) body by (simp add: read_file_def disk_outcome_def action_simps calm_def u_def)
    show ?thesis
    proof (cases "dst = [] \<or> butlast (place s dst) \<notin> dk_dirs s")
      case True
      then have "write_file dst body u = (Inl (missing dst), u)"
        using assms(2) u by (auto simp: write_file_def put_text_def raise_def)
      then have "copy_file src dst s = (Inl (missing dst), u)"
        using copy read by (simp add: bindA_def)
      then show ?thesis using True by (intro failed [where t = u]) (auto simp: u_def)
    next
      case False
      then have "write_file dst body u = (Inr (), u\<lparr>dk_files := (dk_files s)(place s dst \<mapsto> body), dk_pos := Suc (dk_pos u)\<rparr>)"
        using assms u by (simp add: write_file_def put_text_def disk_outcome_def action_simps calm_def u_def)
      then have "copy_file src dst s
          = (Inr (), s\<lparr>dk_files := (dk_files s)(place s dst \<mapsto> body), dk_pos := Suc (Suc (Suc (dk_pos s)))\<rparr>)"
        using copy assms(1) read by (simp add: bindA_def disk_outcome_def calm_def u_def ret_def)
      then show ?thesis using False body by (intro copied) simp_all
    qed
  next
    case False
    then have "\<exists>e. read_file src s = (Inl e, s)" by (auto simp: read_file_def raise_def)
    then obtain e where "read_file src s = (Inl e, s)" by blast
    then have "copy_file src dst s = (Inl e, s)" using copy by (simp add: bindA_def)
    then show ?thesis using False by (intro failed [where t = s]) auto
  qed
qed

section \<open>Names of places\<close>

lemma pieces_no_slash: "p \<in> set (pieces s) \<Longrightarrow> slash \<notin> set p"
proof (induction s arbitrary: p)
  case (Cons c s)
  then show ?case by (cases "pieces s") (auto split: if_splits)
qed simp

lemma set_tl: "set (tl xs) \<subseteq> set xs"
  by (cases xs) auto

lemma norm_piece_plain: "\<forall>y \<in> set acc. plain y \<Longrightarrow> slash \<notin> set c \<Longrightarrow> y \<in> set (norm_piece c acc) \<Longrightarrow> plain y"
  using set_tl [of acc] unfolding norm_piece_def by (cases "c = [] \<or> c = ''.''"; cases "c = ''..''") (auto simp: plain_def)

lemma fold_norm_plain:
  "\<forall>c \<in> set cs. slash \<notin> set c \<Longrightarrow> \<forall>y \<in> set acc. plain y \<Longrightarrow> x \<in> set (fold norm_piece cs acc) \<Longrightarrow> plain x"
proof (induction cs arbitrary: acc)
  case (Cons c cs)
  have "\<forall>y \<in> set (norm_piece c acc). plain y"
    using norm_piece_plain [OF Cons.prems(2), of c] Cons.prems(1) by simp
  then show ?case using Cons.IH Cons.prems(1,3) by simp
qed simp

lemma norm_pieces_plain: "x \<in> set (norm_pieces p) \<Longrightarrow> plain x"
  using fold_norm_plain [of "pieces p" "[]" x] pieces_no_slash by (simp add: norm_pieces_def)

lemma pieces_join: "xs \<noteq> [] \<Longrightarrow> \<forall>x \<in> set xs. slash \<notin> set x \<Longrightarrow> pieces (join [slash] xs) = xs"
  by (induction "[slash]" xs rule: join.induct) (simp_all add: pieces_append pieces_plain)

lemma norm_pieces_of_join: "\<forall>x \<in> set xs. plain x \<Longrightarrow> norm_pieces (join [slash] xs) = xs"
proof -
  assume xs: "\<forall>x \<in> set xs. plain x"
  have "fold norm_piece ys acc = rev ys @ acc" if "\<forall>x \<in> set ys. plain x" for ys acc
    using that by (induction ys arbitrary: acc) (simp_all add: norm_piece_def plain_def)
  then have "xs \<noteq> [] \<Longrightarrow> ?thesis"
    using xs by (simp add: norm_pieces_def pieces_join plain_def)
  then show ?thesis by (cases xs) simp_all
qed

lemma norm_pieces_leading: "norm_pieces (replicate n slash @ p) = norm_pieces p"
proof (induction n)
  case (Suc n)
  then show ?case by (simp add: norm_pieces_def norm_piece_def)
qed simp

lemma abspath_place: "abspath w p = abspath w q \<Longrightarrow> norm_pieces (path_join w p) = norm_pieces (path_join w q)"
proof -
  have "norm_pieces (abspath w r) = norm_pieces (path_join w r)" for r
    using norm_pieces_plain by (simp add: abspath_def Let_def norm_pieces_leading norm_pieces_of_join)
  then show "abspath w p = abspath w q \<Longrightarrow> ?thesis" by metis
qed

section \<open>The steps of a deployment\<close>

abbreviation spot :: "string \<Rightarrow> string \<Rightarrow> string list" where
  "spot w p \<equiv> norm_pieces (path_join w p)"

lemma site_put:
  assumes "site w l a b F s" and "d \<noteq> l" and "d = a \<Longrightarrow> butlast a \<in> dk_dirs s"
  shows "site w l a b (F(d \<mapsto> x)) (s\<lparr>dk_files := (dk_files s)(d \<mapsto> x), dk_pos := n\<rparr>)"
  using assms siteD(3) [OF assms(1)] siteD(7) [OF assms(1)]
  by (auto simp: site_def calm_def audit_file_def)

lemma site_copy:
  assumes "spot w dst \<in> {a, b}" and "spot w dst \<noteq> l" and "spot w src \<noteq> l"
  shows "triple (site w l a b F) (copy_file src dst)
    (\<lambda>_ s. \<exists>x. F (spot w src) = Some x \<and> site w l a b (F(spot w dst \<mapsto> x)) s) (\<lambda>_. site w l a b F)"
proof (unfold triple_def, intro allI impI)
  fix s :: "'z gov_world_scheme"
  assume s: "site w l a b F s"
  have calm: "calm s" "\<not> is_dir dst s"
    using s assms(1) by (auto simp: site_def is_dir_def place_spot [OF s])
  show "case copy_file src dst s of
      (Inr _, t) \<Rightarrow> \<exists>x. F (spot w src) = Some x \<and> site w l a b (F(spot w dst \<mapsto> x)) t
    | (Inl _, t) \<Rightarrow> site w l a b F t"
  proof (cases rule: copy_file_cases [OF calm, of src, case_names failed copied])
    case (failed e t)
    have "site w l a b F (s\<lparr>dk_pos := n\<rparr>)" for n by (rule site_agree [OF s]) simp_all
    then show ?thesis using failed s by auto
  next
    case (copied x n)
    then have "F (spot w src) = Some x" using siteD(4) [OF s assms(3)] by (simp add: place_spot [OF s])
    moreover have "site w l a b (F(spot w dst \<mapsto> x)) (s\<lparr>dk_files := (dk_files s)(spot w dst \<mapsto> x), dk_pos := n\<rparr>)"
      using copied(2) by (intro site_put [OF s assms(2)]) (simp add: place_spot [OF s])
    ultimately show ?thesis using copied(3) by (simp add: place_spot [OF s])
  qed
qed

definition backup_ok ::
  "string \<Rightarrow> string list \<Rightarrow> string list \<Rightarrow> string option \<Rightarrow> string option \<Rightarrow> (string list \<Rightarrow> string option) \<Rightarrow> bool" where
  "backup_ok w a b old backup F \<longleftrightarrow> (case backup of
     Some p \<Rightarrow> p \<noteq> [] \<and> spot w p = b \<and> F b = old \<and> old \<noteq> None \<and> F a \<noteq> None
   | None \<Rightarrow> old = None)"

lemma site_remove:
  assumes "site w l a b F s" and "spot w target = a" and "a \<noteq> l" and "is_file target s"
  shows "\<exists>t. remove_file target s = (Inr (), t) \<and> site w l a b (F(a := None)) t"
proof -
  have "\<not> is_dir target s" using siteD(5) [OF assms(1)] by (simp add: is_dir_def place_spot [OF assms(1)] assms(2))
  then have "remove_file target s = (Inr (), s\<lparr>dk_files := (dk_files s)(a := None), dk_pos := Suc (dk_pos s)\<rparr>)"
    using assms(2,4) siteD(1) [OF assms(1)]
    by (simp add: remove_file_def disk_outcome_def action_simps place_spot [OF assms(1)])
  moreover have "site w l a b (F(a := None)) (s\<lparr>dk_files := (dk_files s)(a := None), dk_pos := Suc (dk_pos s)\<rparr>)"
    using assms(1,3) siteD(3) [OF assms(1)] by (auto simp: site_def calm_def audit_file_def)
  ultimately show ?thesis by blast
qed

text \<open>A rollback puts the old file back, and does not fail.\<close>

lemma site_rollback:
  assumes "backup_ok w a b old backup F" and "spot w target = a" and "target \<noteq> []" and "a \<noteq> l" "b \<noteq> l" "a \<noteq> b"
  shows "triple (site w l a b F) (rollback target backup) (\<lambda>_. site w l a b (F(a := old))) (\<lambda>_ _. False)"
proof (unfold triple_def, intro allI impI)
  fix s :: "'z gov_world_scheme"
  assume s: "site w l a b F s"
  have there: "is_file target s \<longleftrightarrow> F a \<noteq> None"
    using siteD(4) [OF s assms(4)] assms(2,3) by (simp add: is_file_def place_spot [OF s])
  show "case rollback target backup s of (Inr _, t) \<Rightarrow> site w l a b (F(a := old)) t | (Inl _, t) \<Rightarrow> False"
  proof (cases backup)
    case None
    then have old: "old = None" using assms(1) by (simp add: backup_ok_def)
    show ?thesis
    proof (cases "F a")
      case None
      then have "F(a := old) = F" using old by auto
      then show ?thesis using s there \<open>backup = None\<close> None by (simp add: rollback_def ret_def)
    next
      case (Some x)
      then obtain t where "remove_file target s = (Inr (), t)" "site w l a b (F(a := None)) t"
        using site_remove [OF s assms(2,4)] there by auto
      then show ?thesis using \<open>backup = None\<close> there Some old by (simp add: rollback_def)
    qed
  next
    case (Some p)
    then have p: "p \<noteq> []" "spot w p = b" "F b = old" "old \<noteq> None" "F a \<noteq> None"
      using assms(1) by (simp_all add: backup_ok_def)
    then have src: "is_file p s" "\<not> is_dir p s" "\<not> is_dir target s" "calm s" "butlast a \<in> dk_dirs s"
      using siteD(4) [OF s assms(5)] siteD(5-7) [OF s] s assms(2)
      by (auto simp: is_file_def is_dir_def place_spot [OF s] site_def)
    have copy: "rollback target backup s = copy_file p target s" using Some p(1) src(1) by (simp add: rollback_def)
    show ?thesis
    proof (cases rule: copy_file_cases [OF src(4,3), of p, case_names failed copied])
      case (failed e t)
      then show ?thesis using src p(2) assms(2,3,6) by (simp add: place_spot [OF s])
    next
      case (copied x n)
      then have "Some x = old" using siteD(4) [OF s assms(5)] p(2,3) by (simp add: place_spot [OF s])
      then have "site w l a b (F(a := old)) (s\<lparr>dk_files := (dk_files s)(a \<mapsto> x), dk_pos := n\<rparr>)"
        using site_put [OF s assms(4), of x n] src(5) by simp
      then show ?thesis using copied(3) copy assms(2) by (simp add: place_spot [OF s])
    qed
  qed
qed

lemma site_record_failure:
  "triple (site w l a b F) (record_deploy_failure g did art target t backup reason v)
     (\<lambda>d s. dr_status d \<noteq> ApDeployed \<and> site w l a b F s) (\<lambda>_. site w l a b F)"
proof -
  have audit: "keeps (site w l a b F) (deploy_audit g act d)" for act d
    unfolding deploy_audit_def by (intro keep.closure_rules site_audit)
  show ?thesis
    unfolding record_deploy_failure_def
  proof (intro triple_bind)
    show "triple (site w l a b F) (lift_res (new_deployment_record (failure_record did art target t backup reason v)))
        (\<lambda>d s. dr_status d \<noteq> ApDeployed \<and> site w l a b F s) (\<lambda>_. site w l a b F)"
      by (rule triple_pre [OF triple_lift_res]) (auto simp: new_deployment_record_def failure_record_def split: if_splits)
    show "triple (\<lambda>s. dr_status d \<noteq> ApDeployed \<and> site w l a b F s) (deploy_audit g ''deployment_failure'' d)
        (\<lambda>_ s. dr_status d \<noteq> ApDeployed \<and> site w l a b F s) (\<lambda>_. site w l a b F)" for d
      using triple_keeps [OF audit, of "''deployment_failure''" d] by (auto simp: triple_def split: prod.splits sum.splits)
    show "triple (\<lambda>s. dr_status d \<noteq> ApDeployed \<and> site w l a b F s) (ret d)
        (\<lambda>d s. dr_status d \<noteq> ApDeployed \<and> site w l a b F s) (\<lambda>_. site w l a b F)" for d
      by (rule triple_pre [OF triple_ret])
  qed
qed

text \<open>What the validation accepts.\<close>

definition deployable :: "(string \<Rightarrow> exn + unit) \<Rightarrow> string \<Rightarrow> string \<Rightarrow> bool" where
  "deployable parse lang text \<longleftrightarrow>
     (if lang = ''python'' then parse (universal text) = Inr () else if lang \<in> {''go'', ''rust''} then text \<noteq> [] else True)"

lemma site_validate:
  assumes "\<And>text e. parse text = Inl e \<Longrightarrow> is_exception e" and "spot w target = a" and "a \<noteq> l" and "target \<noteq> []"
  shows "triple (site w l a b F) (validate_deployment parse target lang)
    (\<lambda>v s. site w l a b F s \<and> (dv_syntax_valid v \<longrightarrow> (\<exists>x. F a = Some x \<and> deployable parse lang x))) (\<lambda>_ _. False)"
proof (unfold triple_def, intro allI impI)
  fix s :: "'z gov_world_scheme"
  assume s: "site w l a b F s"
  have at: "dk_files s (place s target) = F a" using siteD(4) [OF s assms(3)] assms(2) by (simp add: place_spot [OF s])
  then have there: "is_file target s \<longleftrightarrow> F a \<noteq> None" using assms(4) by (simp add: is_file_def)
  have keep: "site w l a b F (s\<lparr>dk_pos := n\<rparr>)" for n by (rule site_agree [OF s]) simp_all
  have dir: "\<not> is_dir target s" using siteD(5) [OF s] assms(2) by (simp add: is_dir_def place_spot [OF s])
  show "case validate_deployment parse target lang s of
      (Inr v, t) \<Rightarrow> site w l a b F t \<and> (dv_syntax_valid v \<longrightarrow> (\<exists>x. F a = Some x \<and> deployable parse lang x))
    | (Inl e, t) \<Rightarrow> False"
  proof (cases "F a")
    case None
    then show ?thesis using there s by (simp add: validate_deployment_def ret_def validation_found_def)
  next
    case (Some x)
    have read: "read_text target s = (Inr (universal x), s\<lparr>dk_pos := Suc (dk_pos s)\<rparr>)"
      using there at Some dir siteD(1) [OF s] by (simp add: read_text_def read_file_def disk_outcome_def action_simps)
    consider "lang = ''python''" | "lang \<noteq> ''python''" "lang \<in> {''go'', ''rust''}" | "lang \<notin> {''python'', ''go'', ''rust''}" by blast
    then show ?thesis
    proof cases
      case 1
      show ?thesis
      proof (cases "parse (universal x)")
        case (Inl e)
        then show ?thesis
          using 1 there Some read keep assms(1) [OF Inl]
          by (simp add: validate_deployment_def action_simps validation_found_def)
      next
        case (Inr u)
        then show ?thesis
          using 1 there Some read keep
          by (simp add: validate_deployment_def action_simps validation_found_def deployable_def)
      qed
    qed (use there Some at s in \<open>simp_all add: validate_deployment_def action_simps validation_found_def deployable_def\<close>)
  qed
qed

section \<open>The whole deployment\<close>

definition backup_dir :: "'z disk_world_scheme \<Rightarrow> string \<Rightarrow> string list" where
  "backup_dir s target = place s (path_join (dirname target) backup_dir_name)"

text \<open>The places of a deployment: the target is a plain name that is no directory, and nothing stands in the way
  of the backup directory, of which neither the artifact nor the audit file is a part.\<close>

definition deploy_site :: "string \<Rightarrow> string \<Rightarrow> 'z gov_world_scheme \<Rightarrow> bool" where
  "deploy_site art target s \<longleftrightarrow> calm s \<and> plain (basename target) \<and> place s target \<notin> dk_dirs s
     \<and> (is_file target s \<longrightarrow> butlast (place s target) \<in> dk_dirs s)
     \<and> (\<forall>d \<in> set (way (backup_dir s target)). dk_files s d = None \<and> d \<noteq> audit_file s)
     \<and> (\<forall>d \<in> dk_dirs s. butlast d \<noteq> backup_dir s target)
     \<and> audit_file s \<noteq> place s target \<and> audit_file s \<noteq> place s art
     \<and> butlast (audit_file s) \<noteq> backup_dir s target \<and> butlast (place s art) \<noteq> backup_dir s target"

lemma plain_backup: "plain backup_dir_name" "plain b \<Longrightarrow> slash \<notin> set did \<Longrightarrow> plain (b @ ''.bak.'' @ did)"
  by (auto simp: plain_def backup_dir_name_def)

lemma uuid_no_slash: "slash \<notin> set (take n (uuid_str w))"
proof -
  have "hex_digit n \<in> set ''0123456789abcdef''" for n
    unfolding hex_digit_def by (rule nth_mem) simp
  moreover have "slash \<notin> set ''0123456789abcdef''" by simp
  ultimately have "hex_digit n \<noteq> slash" for n by metis
  then have "slash \<notin> set (uuid_hex v)" for v by (auto simp: uuid_hex_def dest: sym)
  then show ?thesis by (auto simp: uuid_str_def Let_def dest!: in_set_takeD in_set_dropD)
qed

lemma spot_backup:
  assumes "plain (basename target)" and "slash \<notin> set did"
  shows "spot w (path_join (dirname target) backup_dir_name) = butlast (spot w target) @ [backup_dir_name]"
    "spot w (backup_name target did) = butlast (spot w target) @ [backup_dir_name, basename target @ ''.bak.'' @ did]"
    "spot w target = butlast (spot w target) @ [basename target]" "spot w (dirname target) = butlast (spot w target)"
proof -
  define s where "s = (\<lparr>uuid_src = demo_uuids, clock_src = demo_clock, uuid_pos = 0, clock_pos = 0,
    dk_files = (\<lambda>_. None), dk_dirs = {}, dk_cwd = w, dk_src = (\<lambda>_. Written), dk_pos = 0\<rparr> :: disk_world)"
  have s: "spot w p = place s p" for p by (simp add: place_def s_def)
  have t: "place s target = place s (dirname target) @ [basename target]" by (rule place_split [OF assms(1)])
  have "place s (path_join (dirname target) backup_dir_name) = place s (dirname target) @ [backup_dir_name]"
    by (rule place_join [OF plain_backup(1)])
  moreover have "place s (backup_name target did)
      = place s (path_join (dirname target) backup_dir_name) @ [basename target @ ''.bak.'' @ did]"
    unfolding backup_name_def by (rule place_join [OF plain_backup(2) [OF assms]])
  ultimately show "spot w (path_join (dirname target) backup_dir_name) = butlast (spot w target) @ [backup_dir_name]"
    "spot w (backup_name target did) = butlast (spot w target) @ [backup_dir_name, basename target @ ''.bak.'' @ did]"
    "spot w target = butlast (spot w target) @ [basename target]" "spot w (dirname target) = butlast (spot w target)"
    using t by (simp_all add: s)
qed

lemma way_lengths: "d \<in> set (way q) \<Longrightarrow> length d \<le> length q" "q \<in> set (way q)"
  by (auto simp: way_def)

lemma make_dirs_makes:
  assumes "calm s" and "p \<noteq> []" and "\<And>d. d \<in> set (way (place s p)) \<Longrightarrow> dk_files s d = None"
  shows "\<exists>t. make_dirs p s = (Inr (), t) \<and> place s p \<in> dk_dirs t"
proof (cases "is_dir p s")
  case True
  then show ?thesis using assms(2) by (simp add: make_dirs_def ret_def) (simp add: is_dir_def)
next
  case False
  have "\<not> is_file p s" using assms(3) [OF way_lengths(2)] by (simp add: is_file_def)
  then have "make_dirs p s = (Inr (), s\<lparr>dk_pos := Suc (dk_pos s), dk_dirs := dk_dirs s \<union> set (way (place s p))\<rparr>)"
    using False assms by (simp add: make_dirs_def calm_def action_simps disk_outcome_def list_ex_iff)
  then show ?thesis using way_lengths(2) by simp
qed

lemma path_join_nonempty: "b \<noteq> [] \<Longrightarrow> path_join a b \<noteq> []"
  by (simp add: path_join_def)

text \<open>The backup is made.\<close>

lemma site_backup:
  assumes s: "site w l a b F s" and x: "F a = Some x" and t: "spot w target = a" "target \<noteq> []" "plain (basename target)"
    and did: "slash \<notin> set did" and b: "b = spot w (backup_name target did)" "b \<noteq> l" "a \<noteq> l"
    and free: "\<And>d. d \<in> set (way (spot w (path_join (dirname target) backup_dir_name))) \<Longrightarrow> F d = None \<and> d \<noteq> l"
  shows "\<exists>u. create_backup target did s = (Inr (backup_name target did), u) \<and> site w l a b (F(b \<mapsto> x)) u"
proof -
  let ?p = "path_join (dirname target) backup_dir_name"
  note spots = spot_backup [OF t(3) did, of w]
  have calm: "calm s" using s by (simp add: site_def)
  have "?p \<noteq> []" by (rule path_join_nonempty) (simp add: backup_dir_name_def)
  then obtain v where v: "make_dirs ?p s = (Inr (), v)" "spot w ?p \<in> dk_dirs v"
    using make_dirs_makes [OF calm, of ?p] free siteD(4) [OF s] by (auto simp: place_spot [OF s])
  have "keeps (site w l a b F) (make_dirs ?p)"
  proof (rule site_make_dirs)
    fix d
    assume "d \<in> {a, b}" "d \<in> set (way (spot w ?p))"
    then show "d \<noteq> l \<and> F d \<noteq> None" using free [of d] x way_lengths(1) [of b "spot w ?p"] spots(1,2) b(1) by auto
  qed
  then have vs: "site w l a b F v" using obeysD [of _ "make_dirs ?p" s] s v(1) by fastforce
  have ab: "a \<noteq> b" using spots(2,3) b(1) t(1) by (metis append_eq_append_conv last_snoc length_append_singleton
      list.distinct(1) list.sel(3) butlast_snoc append_butlast_last_id n_not_Suc_n length_Cons length_append)
  have dst: "\<not> is_dir (backup_name target did) v" "calm v"
    using siteD(6) [OF vs] vs b(1) by (simp_all add: is_dir_def place_spot [OF vs] site_def)
  have src: "is_file target v" "\<not> is_dir target v"
    using siteD(4) [OF vs b(3)] siteD(5) [OF vs] x t(1,2) by (simp_all add: is_file_def is_dir_def place_spot [OF vs])
  have "butlast b \<in> dk_dirs v" "backup_name target did \<noteq> []"
    using v(2) spots(1,2) b(1) by (auto simp: butlast_append backup_name_def path_join_def)
  then show ?thesis
  proof (cases rule: copy_file_cases [OF dst(2,1), of target, case_names failed copied])
    case (failed e u)
    then show ?thesis using src ab \<open>butlast b \<in> dk_dirs v\<close> \<open>backup_name target did \<noteq> []\<close> b(1) t(1)
      by (simp add: place_spot [OF vs])
  next
    case (copied y n)
    then have "y = x" using siteD(4) [OF vs b(3)] x t(1) by (simp add: place_spot [OF vs])
    moreover have "site w l a b (F(b \<mapsto> x)) (v\<lparr>dk_files := (dk_files v)(b \<mapsto> x), dk_pos := n\<rparr>)"
      using ab by (intro site_put [OF vs b(2)]) simp
    ultimately show ?thesis using copied(3) v(1) b(1)
      by (simp add: create_backup_def bindA_def ret_def place_spot [OF vs])
  qed
qed

lemma site_install:
  assumes art: "spot w art \<noteq> l" and x: "F (spot w art) = Some x" and t: "spot w target = a" "plain (basename target)" "a \<noteq> l"
    and b: "butlast b = butlast a @ [backup_dir_name]"
  shows "triple (site w l a b F) (deploy_install art target) (\<lambda>_. site w l a b (F(a \<mapsto> x))) (\<lambda>_. site w l a b F)"
  unfolding deploy_install_def
proof (intro triple_bind)
  have dir: "spot w (dirname target) = butlast a" and snoc: "a = butlast a @ [basename target]"
    using spot_backup(3,4) [OF t(2), of "[]" w] t(1) by simp_all
  have "d \<notin> set (way (butlast a))" if "d \<in> {a, b}" for d
  proof -
    have "length (butlast a) < length a" by (subst (2) snoc) simp
    moreover have "length (butlast a) < length b" using arg_cong [OF b, of length] by simp
    ultimately show ?thesis using way_lengths(1) [of d "butlast a"] that by auto
  qed
  then have "keeps (site w l a b F) (if dirname target = [] then ret () else make_dirs (dirname target))"
    by (intro keep.if_in keep.ret_in site_make_dirs) (auto simp: dir)
  then show "triple (site w l a b F) (if dirname target = [] then ret () else make_dirs (dirname target))
      (\<lambda>_. site w l a b F) (\<lambda>_. site w l a b F)" by (rule triple_keeps)
  fix u :: unit
  show "triple (site w l a b F) (gets dk_cwd) (\<lambda>v s. site w l a b F s \<and> v = w) (\<lambda>_. site w l a b F)"
    by (rule triple_pre [OF triple_gets]) (simp add: siteD(2))
  fix v :: string
  show "triple (\<lambda>s. site w l a b F s \<and> v = w) (if abspath v art = abspath v target then ret () else copy_file art target)
      (\<lambda>_. site w l a b (F(a \<mapsto> x))) (\<lambda>_. site w l a b F)"
  proof (cases "v = w")
    case True
    show ?thesis
    proof (cases "abspath w art = abspath w target")
      case True
      then have "F(a \<mapsto> x) = F" using abspath_place [of w art target] t(1) x by auto
      then show ?thesis using True \<open>v = w\<close> by (simp add: triple_pre [OF triple_ret])
    next
      case False
      have "triple (site w l a b F) (copy_file art target)
          (\<lambda>_ s. \<exists>y. F (spot w art) = Some y \<and> site w l a b (F(spot w target \<mapsto> y)) s) (\<lambda>_. site w l a b F)"
        using t art by (intro site_copy) simp_all
      then have "triple (site w l a b F) (copy_file art target) (\<lambda>_. site w l a b (F(a \<mapsto> x))) (\<lambda>_. site w l a b F)"
        by (rule triple_post) (simp add: x t(1))
      then show ?thesis using False \<open>v = w\<close> by simp
    qed
  qed (simp add: triple_def)
qed

text \<open>From the installed file to the record, and the handler around it.\<close>

lemma site_finish:
  assumes old: "backup_ok w a b old backup F" and t: "spot w target = a" "target \<noteq> []" "a \<noteq> l" "b \<noteq> l" "a \<noteq> b"
    and F: "F a = Some x" and undone: "F(a := old) = G" and v: "dv_syntax_valid v \<longrightarrow> deployable parse lang x"
  shows "triple (site w l a b F) (deploy_finish parse g did art target tm backup v)
    (\<lambda>d s. if dr_status d = ApDeployed then dr_backup_path d = backup \<and> deployable parse lang x \<and> site w l a b F s
       else site w l a b G s)
    (\<lambda>_ s. site w l a b F s \<or> site w l a b G s)"
proof -
  have rolled: "triple (site w l a b F) (rollback target backup) (\<lambda>_. site w l a b G) (\<lambda>_ _. False)"
    using site_rollback [OF old t(1-4) t(5)] by (simp add: undone)
  have fail: "triple (site w l a b F) (bindA (rollback target backup) (\<lambda>_. record_deploy_failure g did art target tm backup m v'))
      (\<lambda>d s. dr_status d \<noteq> ApDeployed \<and> site w l a b G s) (\<lambda>_. site w l a b G)" for m v'
    by (rule triple_bind [OF triple_exn [OF rolled] site_record_failure]) simp
  have audit: "keeps (site w l a b F) (deploy_audit g act d)" for act d
    unfolding deploy_audit_def by (intro keep.closure_rules site_audit)
  have good: "triple (site w l a b F) (bindA (lift_res (new_deployment_record (success_record did art target tm backup v)))
      (\<lambda>d. bindA (deploy_audit g ''deployment_success'' d) (\<lambda>_. ret d)))
      (\<lambda>d s. dr_status d = ApDeployed \<and> dr_backup_path d = backup \<and> site w l a b F s) (\<lambda>_. site w l a b F)"
  proof (intro triple_bind)
    show "triple (site w l a b F) (lift_res (new_deployment_record (success_record did art target tm backup v)))
        (\<lambda>d s. dr_status d = ApDeployed \<and> dr_backup_path d = backup \<and> site w l a b F s) (\<lambda>_. site w l a b F)"
      by (rule triple_pre [OF triple_lift_res]) (auto simp: new_deployment_record_def success_record_def split: if_splits)
    show "triple (\<lambda>s. dr_status d = ApDeployed \<and> dr_backup_path d = backup \<and> site w l a b F s)
        (deploy_audit g ''deployment_success'' d)
        (\<lambda>_ s. dr_status d = ApDeployed \<and> dr_backup_path d = backup \<and> site w l a b F s) (\<lambda>_. site w l a b F)" for d
      using triple_keeps [OF audit, of "''deployment_success''" d] by (auto simp: triple_def split: prod.splits sum.splits)
    show "triple (\<lambda>s. dr_status d = ApDeployed \<and> dr_backup_path d = backup \<and> site w l a b F s) (ret d)
        (\<lambda>d s. dr_status d = ApDeployed \<and> dr_backup_path d = backup \<and> site w l a b F s) (\<lambda>_. site w l a b F)" for d
      by (rule triple_pre [OF triple_ret])
  qed
  show ?thesis
  proof (cases "dv_syntax_valid v")
    case True
    then have eq: "deploy_finish parse g did art target tm backup v = bindA (lift_res (new_deployment_record
        (success_record did art target tm backup v))) (\<lambda>d. bindA (deploy_audit g ''deployment_success'' d) (\<lambda>_. ret d))"
      by (intro ext) (simp add: deploy_finish_def)
    show ?thesis unfolding eq by (rule triple_conseq [OF good]) (use v True in simp_all)
  next
    case False
    then have eq: "deploy_finish parse g did art target tm backup v = bindA (rollback target backup) (\<lambda>_.
        record_deploy_failure g did art target tm backup
          (''Post-deploy syntax validation failed: '' @ list_repr (dv_errors v)) (Some v))"
      by (intro ext) (simp add: deploy_finish_def)
    show ?thesis unfolding eq by (rule triple_conseq [OF fail]) simp_all
  qed
qed

section \<open>Exceptions of a deployment\<close>

lemma ordinary_disk:
  "ordinary (read_file p)" "ordinary (put_text f p text)" "ordinary (make_dirs p)" "ordinary (remove_file p)"
  "ordinary (read_text p)"
proof -
  have out: "ordinary disk_outcome" by (simp add: ordinary_def disk_outcome_def)
  show read: "ordinary (read_file p)" and "ordinary (put_text f p text)" "ordinary (make_dirs p)" "ordinary (remove_file p)"
    by (auto simp: ordinary_def read_file_def put_text_def make_dirs_def remove_file_def disk_outcome_def os_error_def
        action_simps split: if_splits write_outcome.splits)
  show "ordinary (read_text p)" unfolding read_text_def by (intro ordinary_rules read)
qed

lemma ordinary_copy: "ordinary (copy_file src dst)"
proof (rule ordinary_at)
  fix s :: "'z disk_world_scheme"
  define d where "d = (if is_dir dst s then path_join dst (basename src) else dst)"
  define m :: "('z disk_world_scheme, unit) action" where
    "m = (if path_exists src s \<and> path_exists d s \<and> place s src = place s d
      then raise (Raised (OtherError ''SameFileError'') (quoted src @ '' and '' @ quoted d @ '' are the same file''))
      else bindA (read_file src) (\<lambda>text. bindA (write_file d text) (\<lambda>_.
        bindA disk_outcome (\<lambda>r. if r = Written then ret () else raise (broken d)))))"
  have "copy_file src dst s = m s"
    by (cases "path_exists src s \<and> path_exists d s \<and> place s src = place s d")
      (simp_all only: copy_file_def Let_def d_def [symmetric] m_def if_True if_False simp_thms)
  moreover have "ordinary m"
    unfolding m_def write_file_def
    by (intro ordinary_rules ordinary_raise ordinary_disk) (simp_all add: ordinary_def disk_outcome_def os_error_def)
  ultimately show "\<exists>m. copy_file src dst s = m s \<and> ordinary m" by blast
qed

lemma ordinary_validate:
  assumes "\<And>text e. parse text = Inl e \<Longrightarrow> is_exception e"
  shows "ordinary (validate_deployment parse target lang)"
proof (rule ordinary_at)
  fix s :: "'z gov_world_scheme"
  define m :: "('z gov_world_scheme, deploy_validation) action" where "m = catchA
      (if lang = ''python'' then
         bindA (read_text target) (\<lambda>text. bindA (lift_res (parse text)) (\<lambda>_. ret (validation_found True [])))
       else if lang \<in> {''go'', ''rust''} then
         bindA (gets (\<lambda>s. dk_files s (place s target))) (\<lambda>f. ret (validation_found (f \<noteq> Some []) []))
       else ret (validation_found True []))
      (\<lambda>e. ret (validation_found False
         [(if is_syntax_error e then ''Syntax error: '' else ''Validation error: '') @ exn_str e]))"
  have "ordinary m" unfolding m_def by (intro ordinary_rules ordinary_disk ordinary_lift_res assms)
  moreover have "validate_deployment parse target lang s = m s
      \<or> validate_deployment parse target lang s = ret (validation_found False [''File not found after deploy: '' @ target]) s"
    by (simp add: validate_deployment_def m_def)
  ultimately show "\<exists>m. validate_deployment parse target lang s = m s \<and> ordinary m"
    using ordinary_basic(1) by metis
qed

lemma ordinary_rollback: "ordinary (rollback target backup)"
proof (rule ordinary_at)
  fix s :: "'z gov_world_scheme"
  have "rollback target backup s = ret () s \<or> rollback target backup s = remove_file target s
      \<or> (\<exists>p. rollback target backup s = copy_file p target s)"
    by (cases backup) (auto simp: rollback_def)
  then show "\<exists>m. rollback target backup s = m s \<and> ordinary m"
    using ordinary_basic(1) ordinary_disk(4) ordinary_copy by metis
qed

lemma ordinary_audit: "ordinary (log_audit act cm details res err)"
  unfolding log_audit_def log_audit_as_def append_file_def new_gov_record_def
  by (intro ordinary_rules ordinary_disk ordinary_raise)
    (simp_all add: ordinary_def fresh_uuid_def now_def)

lemma ordinary_finish: "ordinary (deploy_finish parse g did art target tm backup v)"
proof -
  have "ordinary (lift_res (new_deployment_record r))" for r
    by (rule ordinary_lift_res) (auto simp: new_deployment_record_def split: if_splits)
  moreover have "ordinary (deploy_audit g act d)" for act d
    unfolding deploy_audit_def by (intro ordinary_rules ordinary_audit)
  ultimately show ?thesis
    by (cases "dv_syntax_valid v")
      (auto simp: deploy_finish_def [abs_def] record_deploy_failure_def intro!: ordinary_rules ordinary_rollback)
qed

lemma ordinary_install: "ordinary (deploy_install art target)"
  unfolding deploy_install_def by (intro ordinary_rules ordinary_disk ordinary_copy)

text \<open>Everything after the backup.\<close>

lemma site_deploy:
  assumes parse: "\<And>text e. parse text = Inl e \<Longrightarrow> is_exception e"
    and old: "F a = old" and kept: "case backup of Some p \<Rightarrow> p \<noteq> [] \<and> spot w p = b \<and> F b = old \<and> old \<noteq> None | None \<Rightarrow> old = None"
    and t: "spot w target = a" "plain (basename target)" "target \<noteq> []" "a \<noteq> l" "b \<noteq> l" "a \<noteq> b"
    and b: "butlast b = butlast a @ [backup_dir_name]" and art: "spot w art \<noteq> l" "F (spot w art) = Some x"
  shows "triple (site w l a b F :: 'z gov_world_scheme \<Rightarrow> bool)
    (catchA
      (bindA (deploy_install art target) (\<lambda>_.
       bindA (validate_deployment parse target lang) (deploy_finish parse g did art target tm backup)))
      (deploy_failed g did art target tm backup))
    (\<lambda>d s. if dr_status d = ApDeployed
       then dr_backup_path d = backup \<and> deployable parse lang x \<and> site w l a b (F(a \<mapsto> x)) s else site w l a b F s)
    (\<lambda>_. site w l a b F)"
proof (rule triple_catch_ordinary)
  let ?H = "F(a \<mapsto> x)"
  have ok: "backup_ok w a b old backup ?H" using kept t(6) by (auto simp: backup_ok_def split: option.splits)
  have ok': "backup_ok w a b old backup F" using kept old by (auto simp: backup_ok_def split: option.splits)
  have undone: "?H(a := old) = F" "F(a := old) = F" using old by auto
  show "triple (site w l a b F)
      (bindA (deploy_install art target) (\<lambda>_.
       bindA (validate_deployment parse target lang) (deploy_finish parse g did art target tm backup)))
      (\<lambda>d s. if dr_status d = ApDeployed
         then dr_backup_path d = backup \<and> deployable parse lang x \<and> site w l a b ?H s else site w l a b F s)
      (\<lambda>_ s. site w l a b ?H s \<or> site w l a b F s)"
  proof (intro triple_bind)
    show "triple (site w l a b F) (deploy_install art target) (\<lambda>_. site w l a b ?H)
        (\<lambda>_ s. site w l a b ?H s \<or> site w l a b F s)"
      by (rule triple_exn [OF site_install [where F = F, OF art t(1,2,4) b]]) simp
    show "triple (site w l a b ?H) (validate_deployment parse target lang)
        (\<lambda>v s. site w l a b ?H s \<and> (dv_syntax_valid v \<longrightarrow> deployable parse lang x))
        (\<lambda>_ s. site w l a b ?H s \<or> site w l a b F s)"
      by (rule triple_conseq [OF site_validate [OF parse t(1,4,3), where F = ?H]]) auto
    show "triple (\<lambda>s. site w l a b ?H s \<and> (dv_syntax_valid v \<longrightarrow> deployable parse lang x))
        (deploy_finish parse g did art target tm backup v)
        (\<lambda>d s. if dr_status d = ApDeployed
           then dr_backup_path d = backup \<and> deployable parse lang x \<and> site w l a b ?H s else site w l a b F s)
        (\<lambda>_ s. site w l a b ?H s \<or> site w l a b F s)" for v
    proof (cases "dv_syntax_valid v \<longrightarrow> deployable parse lang x")
      case True
      then show ?thesis
        by (intro triple_pre [OF site_finish [OF ok t(1,3-6) _ undone(1)]]) auto
    qed (simp add: triple_def)
  qed
  show "triple (\<lambda>s :: 'z gov_world_scheme. site w l a b ?H s \<or> site w l a b F s) (deploy_failed g did art target tm backup e)
      (\<lambda>d s. if dr_status d = ApDeployed
         then dr_backup_path d = backup \<and> deployable parse lang x \<and> site w l a b ?H s else site w l a b F s)
      (\<lambda>_. site w l a b F)" for e
  proof -
    have rec: "triple (site w l a b F :: 'z gov_world_scheme \<Rightarrow> bool) (record_deploy_failure g did art target tm backup (exn_str e) None)
        (\<lambda>d s. if dr_status d = ApDeployed
           then dr_backup_path d = backup \<and> deployable parse lang x \<and> site w l a b ?H s else site w l a b F s)
        (\<lambda>_. site w l a b F)"
      by (rule triple_post [OF site_record_failure]) auto
    have r: "triple (site w l a b ?H :: 'z gov_world_scheme \<Rightarrow> bool) (rollback target backup) (\<lambda>_. site w l a b F) (\<lambda>_. site w l a b F)"
      "triple (site w l a b F :: 'z gov_world_scheme \<Rightarrow> bool) (rollback target backup) (\<lambda>_. site w l a b F) (\<lambda>_. site w l a b F)"
      using triple_exn [OF site_rollback [OF ok t(1,3-6)]] triple_exn [OF site_rollback [OF ok' t(1,3-6)]]
      by (simp_all add: undone)
    show ?thesis unfolding deploy_failed_def by (rule triple_bind [OF triple_disj [OF r]]) (rule rec)
  qed
  show "ordinary (bindA (deploy_install art target) (\<lambda>_.
      bindA (validate_deployment parse target lang) (deploy_finish parse g did art target tm backup)))"
    by (intro ordinary_bind ordinary_install ordinary_validate ordinary_finish parse)
qed

section \<open>Properties\<close>

text \<open>The state in which \<^verbatim>\<open>deploy\<close> has drawn its identifier and read the clock.\<close>

abbreviation begun :: "'z gov_world_scheme \<Rightarrow> 'z gov_world_scheme" where
  "begun s \<equiv> s\<lparr>uuid_pos := Suc (uuid_pos s), wall_pos := Suc (wall_pos s)\<rparr>"

definition deploy_id :: "'z env_world_scheme \<Rightarrow> string" where
  "deploy_id s = take 12 (uuid_str (uuid4_bits (uuid_src s (uuid_pos s))))"

lemma deploy_begins:
  "deploy parse g art target lang s
     = deploy_from parse g art target lang (deploy_id s) (wall_src s (wall_pos s)) (begun s)"
  by (simp add: deploy_def deploy_id_def bindA_def fresh_uuid_def time_time_def)

lemma deploy_site_begun:
  assumes "deploy_site art target s"
  defines "w \<equiv> dk_cwd s"
  shows "site w (audit_file s) (place s target) (spot w (backup_name target (deploy_id s))) (dk_files s) (begun s)"
proof -
  have "\<forall>d \<in> dk_dirs s. d \<noteq> spot w (backup_name target (deploy_id s))"
    using assms(1) spot_backup(1,2) [of target "deploy_id s" w] uuid_no_slash
    by (auto simp: deploy_site_def backup_dir_def place_def deploy_id_def butlast_append w_def)
  then show ?thesis
    using assms(1)
    by (auto simp: site_def deploy_site_def calm_def audit_file_def place_def is_file_def w_def plain_def basename_def)
qed

text \<open>The places of a deployment differ.\<close>

lemma deploy_places:
  assumes site: "deploy_site art target s" and b: "b = place s (backup_name target (deploy_id s))"
  shows "place s target \<noteq> b" "place s target \<noteq> audit_file s" "b \<noteq> audit_file s" "place s art \<noteq> b"
    "place s art \<noteq> audit_file s" "butlast b = butlast (place s target) @ [backup_dir_name]"
    "butlast b = backup_dir s target" "target \<noteq> []" "plain (basename target)" "slash \<notin> set (deploy_id s)"
proof -
  show plain: "plain (basename target)" and "target \<noteq> []"
    using site by (auto simp: deploy_site_def plain_def basename_def)
  show did: "slash \<notin> set (deploy_id s)" unfolding deploy_id_def by (rule uuid_no_slash)
  note spots = spot_backup [OF plain did, of "dk_cwd s", folded place_def]
  show bdir: "butlast b = butlast (place s target) @ [backup_dir_name]" "butlast b = backup_dir s target"
    using spots(1,2) by (auto simp: b butlast_append backup_dir_def)
  have "length (place s target) = Suc (length (butlast (place s target)))" using spots(3) by (metis length_append_singleton)
  moreover have "length b = Suc (Suc (length (butlast (place s target))))" using spots(2) by (simp add: b)
  ultimately show "place s target \<noteq> b" by auto
  show "place s target \<noteq> audit_file s" "place s art \<noteq> audit_file s" "b \<noteq> audit_file s" "place s art \<noteq> b"
    using site bdir(2) by (auto simp: deploy_site_def)
qed

text \<open>What the files are once the backup is made.\<close>

definition backed_up :: "string list \<Rightarrow> string list \<Rightarrow> (string list \<Rightarrow> string option) \<Rightarrow> string list \<Rightarrow> string option" where
  "backed_up a b F = (case F a of None \<Rightarrow> F | Some y \<Rightarrow> F(b \<mapsto> y))"

definition backup_of :: "'z disk_world_scheme \<Rightarrow> string \<Rightarrow> string option" where
  "backup_of s target = (if dk_files s (place s target) = None then None else Some (backup_name target (deploy_id s)))"

lemma deploy_prepared:
  assumes site: "deploy_site art target s" and art: "dk_files s (place s art) = Some x" "art \<noteq> []"
    and b: "b = place s (backup_name target (deploy_id s))"
  shows "\<exists>v. deploy_prepare g (deploy_id s) art target tm (begun s) = (Inr (Inr (backup_of s target)), v)
    \<and> site (dk_cwd s) (audit_file s) (place s target) b (backed_up (place s target) b (dk_files s)) v"
proof -
  note places = deploy_places [OF site b]
  have s: "site (dk_cwd s) (audit_file s) (place s target) b (dk_files s) (begun s)"
    using deploy_site_begun [OF site] by (simp add: b place_def)
  have at: "is_file art (begun s)" "is_dir target (begun s) = False"
    "is_file target (begun s) \<longleftrightarrow> dk_files s (place s target) \<noteq> None"
    using art siteD(5) [OF s] places(8) by (auto simp: is_file_def is_dir_def place_def)
  show ?thesis
  proof (cases "dk_files s (place s target)")
    case None
    then show ?thesis using at s
      by (simp add: deploy_prepare_def path_exists_def ret_def backup_of_def backed_up_def)
  next
    case (Some y)
    have "d \<in> set (way (spot (dk_cwd s) (path_join (dirname target) backup_dir_name))) \<Longrightarrow>
        dk_files s d = None \<and> d \<noteq> audit_file s" for d
      using site by (auto simp: deploy_site_def backup_dir_def place_def)
    then obtain v where "create_backup target (deploy_id s) (begun s) = (Inr (backup_name target (deploy_id s)), v)"
      "site (dk_cwd s) (audit_file s) (place s target) b ((dk_files s)(b \<mapsto> y)) v"
      using site_backup [OF s Some _ places(8,9,10) _ places(3,2)] by (auto simp: b place_def)
    then show ?thesis using at Some
      by (simp add: deploy_prepare_def path_exists_def bindA_def ret_def backup_of_def backed_up_def)
  qed
qed

text \<open>
  C31. A deployment is all or nothing. On a disk that works, with an artifact that exists and nothing
  in the way of the backup directory, and whatever the audit does: either the record says deployed,
  and then the target holds the artifact's text, which passed the validation, and what it held before
  is in the backup the record names; or the target holds what it held before, or does not exist if it
  did not. No other file changes but the audit file and the backups.
\<close>

theorem deploy_all_or_nothing:
  assumes parse: "\<And>text e. parse text = Inl e \<Longrightarrow> is_exception e"
    and site: "deploy_site art target s" and art: "dk_files s (place s art) = Some x" "art \<noteq> []"
    and run: "deploy parse g art target lang s = (r, u)"
  shows "((\<exists>d. r = Inr d \<and> dr_status d = ApDeployed \<and> deployable parse lang x
        \<and> dk_files u (place s target) = Some x
        \<and> (\<forall>y. dk_files s (place s target) = Some y \<longrightarrow>
            (\<exists>b. dr_backup_path d = Some b \<and> dk_files u (place s b) = Some y)))
      \<or> (\<forall>d. r = Inr d \<longrightarrow> dr_status d \<noteq> ApDeployed) \<and> dk_files u (place s target) = dk_files s (place s target))
    \<and> (\<forall>q. q \<noteq> place s target \<and> q \<noteq> audit_file s \<and> butlast q \<noteq> backup_dir s target \<longrightarrow> dk_files u q = dk_files s q)"
proof -
  define b where "b = place s (backup_name target (deploy_id s))"
  define a where "a = place s target"
  define G where "G = backed_up a b (dk_files s)"
  note places = deploy_places [OF site b_def, folded a_def]
  let ?site = "site (dk_cwd s) (audit_file s) a b"
  obtain v where v: "deploy_prepare g (deploy_id s) art target (wall_src s (wall_pos s)) (begun s)
      = (Inr (Inr (backup_of s target)), v)" "?site G v"
    using deploy_prepared [OF site art b_def] unfolding a_def G_def by blast
  have old: "G a = dk_files s a" "G (place s art) = Some x"
    using places(1,4) art(1) by (simp_all add: G_def backed_up_def split: option.split)
  have kept: "case backup_of s target of
      Some p \<Rightarrow> p \<noteq> [] \<and> spot (dk_cwd s) p = b \<and> G b = dk_files s a \<and> dk_files s a \<noteq> None | None \<Rightarrow> dk_files s a = None"
    by (auto simp: backup_of_def G_def backed_up_def b_def a_def place_def backup_name_def path_join_nonempty)
  let ?rest = "catchA
      (bindA (deploy_install art target) (\<lambda>_. bindA (validate_deployment parse target lang)
        (deploy_finish parse g (deploy_id s) art target (wall_src s (wall_pos s)) (backup_of s target))))
      (deploy_failed g (deploy_id s) art target (wall_src s (wall_pos s)) (backup_of s target))"
  have "triple (?site G) ?rest
      (\<lambda>d s'. if dr_status d = ApDeployed
         then dr_backup_path d = backup_of s target \<and> deployable parse lang x \<and> ?site (G(a \<mapsto> x)) s' else ?site G s')
      (\<lambda>_. ?site G)"
    using places(5) old(2)
    by (intro site_deploy [OF parse old(1) kept _ places(9,8,2,3,1,6)]) (simp_all add: a_def place_def)
  note ends = tripleD [OF this v(2)]
  have "?rest v = (r, u)"
    using run unfolding deploy_begins deploy_from_def by (simp add: bindA_def attempt_cases v(1))
  then have res: "case r of Inr d \<Rightarrow> if dr_status d = ApDeployed
        then dr_backup_path d = backup_of s target \<and> deployable parse lang x \<and> ?site (G(a \<mapsto> x)) u else ?site G u
      | Inl e \<Rightarrow> ?site G u"
    using ends by simp
  have frame: "dk_files u q = dk_files s q"
    if "?site H u" "H = G \<or> H = G(a \<mapsto> x)" "q \<noteq> a" "q \<noteq> audit_file s" "butlast q \<noteq> butlast b" for q H
    using siteD(4) [OF that(1,4)] that by (auto simp: G_def backed_up_def split: option.splits)
  show ?thesis
  proof (cases "\<exists>d. r = Inr d \<and> dr_status d = ApDeployed")
    case True
    then obtain d where d: "r = Inr d" "dr_status d = ApDeployed" by blast
    then have u: "dr_backup_path d = backup_of s target" "deployable parse lang x" "?site (G(a \<mapsto> x)) u" using res by simp_all
    have "dk_files u a = Some x" "dk_files u b = G b" using siteD(4) [OF u(3)] places(1-3) by simp_all
    moreover have "G b = Some y" "backup_of s target = Some (backup_name target (deploy_id s))" if "dk_files s a = Some y" for y
      using that by (simp_all add: G_def backed_up_def backup_of_def a_def)
    ultimately show ?thesis
      using d u(1,2) frame [OF u(3), unfolded places(7)] by (auto simp: a_def b_def)
  next
    case False
    then have "?site G u" using res by (auto split: sum.splits if_splits)
    then have "dk_files u a = dk_files s a"
      "\<And>q. q \<noteq> a \<Longrightarrow> q \<noteq> audit_file s \<Longrightarrow> butlast q \<noteq> butlast b \<Longrightarrow> dk_files u q = dk_files s q"
      using siteD(4) places(2) old(1) frame by metis+
    then show ?thesis using False by (auto simp: a_def places(7))
  qed
qed

lemma rollback_removes:
  assumes "calm s" and "is_file target s" and "place s target \<notin> dk_dirs s"
  shows "rollback target None s
    = (Inr (), s\<lparr>dk_files := (dk_files s)(place s target := None), dk_pos := Suc (dk_pos s)\<rparr>)"
  using assms by (simp add: rollback_def remove_file_def is_dir_def disk_outcome_def action_simps calm_def)

lemma audit_spares:
  assumes "q \<noteq> audit_file s"
  shows "dk_files (snd (log_audit act cm details res err s)) q = dk_files s q"
proof (cases "act = [] \<or> cm = [] \<or> res = []")
  case False
  define r where "r = governance_record act cm details res err s"
  have "place (logged r s) (path_join (st_logs_dir (gov_settings s)) ''audit.log'') = audit_file s"
    by (simp add: audit_file_def place_def logged_def)
  then have "dk_files (snd (append_file (path_join (st_logs_dir (gov_settings s)) ''audit.log'') line (logged r s))) q
      = dk_files (logged r s) q" for line
    using assms by (simp add: append_file_def put_text_disk)
  then show ?thesis using False by (simp add: log_audit_cases Let_def r_def) (simp add: logged_def)
qed (simp add: log_audit_cases)

lemma record_failure_spares:
  assumes "q \<noteq> audit_file s"
  shows "dk_files (snd (record_deploy_failure g did art target tm backup reason v s)) q = dk_files s q"
  using audit_spares [OF assms]
  by (auto simp: record_deploy_failure_def deploy_audit_def bindA_def lift_res_def ret_def split: prod.splits sum.splits)
    (metis snd_conv)+

lemma failed_removes:
  assumes "calm s" and "is_file target s" and "place s target \<notin> dk_dirs s" and "audit_file s \<noteq> place s target"
  shows "dk_files (snd (deploy_failed g did art target tm None e s)) (place s target) = None"
proof -
  let ?u = "s\<lparr>dk_files := (dk_files s)(place s target := None), dk_pos := Suc (dk_pos s)\<rparr>"
  have "deploy_failed g did art target tm None e s = record_deploy_failure g did art target tm None (exn_str e) None ?u"
    by (simp add: deploy_failed_def bindA_def rollback_removes [OF assms(1-3)])
  moreover have "place s target \<noteq> audit_file ?u" using assms(4) by (simp add: audit_file_def place_def)
  ultimately show ?thesis by (simp add: record_failure_spares)
qed

text \<open>
  C32. What the rollback can destroy. If the backup cannot be made (here: a file stands where its
  directory belongs), or if there is no artifact and the audit of that fails, then \<^verbatim>\<open>deploy\<close> removes the
  target, which it had not yet touched: the handler takes a missing backup for a missing file.
\<close>

theorem deploy_loses_target:
  assumes "calm s" and "is_file target s" and "place s target \<notin> dk_dirs s" and "audit_file s \<noteq> place s target"
    and cause: "is_file art s \<and> dk_files s (backup_dir s target) \<noteq> None \<and> backup_dir s target \<notin> dk_dirs s
      \<or> \<not> is_file art s \<and> g \<and> art \<noteq> [] \<and> butlast (audit_file s) \<notin> dk_dirs s \<and> audit_file s \<notin> dk_dirs s"
  shows "dk_files (snd (deploy parse g art target lang s)) (place s target) = None"
proof -
  define did where "did = deploy_id s"
  define tm where "tm = wall_src s (wall_pos s)"
  have p: "place (begun s) q = place s q" "is_file q (begun s) = is_file q s" "is_dir q (begun s) = is_dir q s" for q
    by (simp_all add: place_def is_file_def is_dir_def)
  obtain e v where e: "deploy_prepare g did art target tm (begun s) = (Inl e, v)" "is_exception e"
    and v: "dk_files v = dk_files s" "dk_dirs v = dk_dirs s" "dk_cwd v = dk_cwd s" "dk_src v = dk_src s"
      "gov_settings v = gov_settings s"
    using cause
  proof (elim disjE conjE)
    assume a: "is_file art s" "dk_files s (backup_dir s target) \<noteq> None" "backup_dir s target \<notin> dk_dirs s"
    let ?b = "path_join (dirname target) backup_dir_name"
    have "?b \<noteq> []" by (rule path_join_nonempty) (simp add: backup_dir_name_def)
    then have "is_file ?b s" "\<not> is_dir ?b s"
      using a(2,3) by (simp_all add: is_file_def is_dir_def backup_dir_def)
    then have "create_backup target did (begun s) = (Inl (os_error ''FileExistsError'' ''[Errno 17] File exists'' ?b), begun s)"
      using p by (simp add: create_backup_def make_dirs_def bindA_def raise_def is_file_def)
    then show ?thesis
      using that [of "os_error ''FileExistsError'' ''[Errno 17] File exists'' ?b" "begun s"] a(1) assms(2) p
      by (simp add: deploy_prepare_def path_exists_def bindA_def os_error_def)
  next
    assume a: "\<not> is_file art s" "g" "art \<noteq> []" "butlast (audit_file s) \<notin> dk_dirs s" "audit_file s \<notin> dk_dirs s"
    define d where "d = failure_record did art target tm None (''Source not found: '' @ art) None"
    have d: "new_deployment_record d = Inr d"
      using a(3) assms(2)
      by (auto simp: new_deployment_record_def d_def failure_record_def is_file_def did_def deploy_id_def)
    let ?path = "path_join (st_logs_dir (gov_settings s)) ''audit.log''"
    have "append_file ?path line (logged r (begun s)) = (Inl (missing ?path), logged r (begun s))" for line r
      using a(4,5) by (simp add: append_file_def put_text_def raise_def is_dir_def audit_file_def place_def logged_def)
    then have "\<exists>r. deploy_audit g ''deployment_failure'' d (begun s) = (Inl (missing ?path), logged r (begun s))"
      using a(2) by (simp add: deploy_audit_def log_audit_cases Let_def) blast
    then obtain r where "deploy_audit g ''deployment_failure'' d (begun s) = (Inl (missing ?path), logged r (begun s))" by blast
    then show ?thesis
      using that [of "missing ?path" "logged r (begun s)"] a(1) p d
      by (simp add: deploy_prepare_def record_deploy_failure_def d_def bindA_def lift_res_def os_error_def) (simp add: logged_def)
  qed
  have "deploy parse g art target lang s = deploy_failed g did art target tm None e v"
    unfolding deploy_begins deploy_from_def did_def [symmetric] tm_def [symmetric]
    by (simp add: bindA_def attempt_cases e)
  moreover have "place v target = place s target" using v by (simp add: place_def)
  moreover have "calm v" "is_file target v" "place v target \<notin> dk_dirs v" "audit_file v \<noteq> place v target"
    using assms(1-4) v by (simp_all add: calm_def is_file_def place_def audit_file_def)
  ultimately show ?thesis using failed_removes by metis
qed

section \<open>A disk\<close>

text \<open>Two files in the directory \<open>/w\<close>, with the logs in \<open>/l\<close>.\<close>

definition deploy_demo :: "(string list \<Rightarrow> string option) \<Rightarrow> gov_world" where
  "deploy_demo files = \<lparr>uuid_src = demo_uuids, clock_src = demo_clock, uuid_pos = 0, clock_pos = 0,
     dk_files = files, dk_dirs = {[], [''w''], [''l'']}, dk_cwd = ''/w'', dk_src = (\<lambda>_. Written), dk_pos = 0,
     wall_src = of_nat, wall_pos = 0, gov_settings = default_settings\<lparr>st_logs_dir := ''/l''\<rparr>, gov_logs = [],
     gov_replies = []\<rparr>"

definition demo_files :: "string list \<Rightarrow> string option" where
  "demo_files = [[''w'', ''new.py''] \<mapsto> ''good'', [''w'', ''x.py''] \<mapsto> ''old'']"

definition demo_parse :: "string \<Rightarrow> exn + unit" where
  "demo_parse text = (if text = ''good'' then Inr () else Inl (Raised (OtherError ''SyntaxError'') ''invalid syntax''))"

lemma deploy_demo_places:
  "place (deploy_demo f) ''new.py'' = [''w'', ''new.py'']" "place (deploy_demo f) ''x.py'' = [''w'', ''x.py'']"
  "backup_dir (deploy_demo f) ''x.py'' = [''w'', ''.atlas_backups'']" "audit_file (deploy_demo f) = [''l'', ''audit.log'']"
  by (simp_all add: deploy_demo_def place_def backup_dir_def audit_file_def path_join_def is_abs_def norm_pieces_def
      norm_piece_def dirname_def backup_dir_name_def)

lemma deploy_demo_site: "deploy_site ''new.py'' ''x.py'' (deploy_demo demo_files)"
proof -
  have "calm (deploy_demo demo_files)" "plain (basename ''x.py'')"
    by (simp_all add: calm_def deploy_demo_def plain_def basename_def)
  moreover have "dk_dirs (deploy_demo demo_files) = {[], [''w''], [''l'']}" "dk_files (deploy_demo demo_files) = demo_files"
    by (simp_all add: deploy_demo_def)
  ultimately show ?thesis
    by (simp add: deploy_site_def deploy_demo_places way_def demo_files_def upt_rec)
qed

theorem deploy_all_or_nothing_witness:
  "dk_files (snd (deploy demo_parse True ''new.py'' ''x.py'' ''python'' (deploy_demo demo_files))) [''w'', ''x.py'']
     \<in> {Some ''old'', Some ''good''}"
proof -
  have parse: "demo_parse x = Inl e \<Longrightarrow> is_exception e" for x e
    by (auto simp: demo_parse_def split: if_splits)
  have art: "dk_files (deploy_demo demo_files) (place (deploy_demo demo_files) ''new.py'') = Some ''good''" "''new.py'' \<noteq> []"
    by (simp_all add: deploy_demo_places) (simp add: deploy_demo_def demo_files_def)
  have old: "dk_files (deploy_demo demo_files) [''w'', ''x.py''] = Some ''old''" by (simp add: deploy_demo_def demo_files_def)
  obtain r u where res: "deploy demo_parse True ''new.py'' ''x.py'' ''python'' (deploy_demo demo_files) = (r, u)" by fastforce
  note deploy_all_or_nothing [OF parse deploy_demo_site art res, unfolded deploy_demo_places old]
  then show ?thesis unfolding res by auto
qed

theorem deploy_loses_target_witness:
  "dk_files (snd (deploy demo_parse True ''new.py'' ''x.py'' ''python''
     (deploy_demo (demo_files([''w'', ''.atlas_backups''] \<mapsto> ''''))))) [''w'', ''x.py''] = None"
proof -
  let ?s = "deploy_demo (demo_files([''w'', ''.atlas_backups''] \<mapsto> ''''))"
  have "calm ?s" "is_file ''x.py'' ?s" "is_file ''new.py'' ?s" "place ?s ''x.py'' \<notin> dk_dirs ?s"
    "audit_file ?s \<noteq> place ?s ''x.py''" "dk_files ?s (backup_dir ?s ''x.py'') \<noteq> None" "backup_dir ?s ''x.py'' \<notin> dk_dirs ?s"
    by (simp_all add: calm_def is_file_def deploy_demo_places) (simp_all add: deploy_demo_def demo_files_def)
  then show ?thesis
    using deploy_loses_target [of ?s "''x.py''" "''new.py''" True demo_parse "''python''"] by (simp add: deploy_demo_places)
qed

end
