(* ===== verification/Learning_Memory.thy ===== *)
theory Learning_Memory
  imports File_System Json_Roundtrip Sha256 "HOL-Library.Sublist" "HOL-Library.Multiset"
begin

text \<open>
  The memory of the code generator (\<^verbatim>\<open>atlas_agent/memory\<close>): an experience and its line of JSON, the file
  of such lines, and the index and the set of anti-patterns kept beside it. A set is a list without
  repetition. An experience read from a file has fields of the types that are annotated; a line whose
  fields have other types, which Python would take, is refused here. \<open>shown\<close> is \<^verbatim>\<open>float.__repr__\<close>.
\<close>

section \<open>Objects\<close>

text \<open>A method of an object reads and writes the object and the world around it.\<close>

definition on_world :: "('s, 'a) action \<Rightarrow> ('o \<times> 's, 'a) action" where
  [action_simps]: "on_world m w = (case m (snd w) of (r, t) \<Rightarrow> (r, (fst w, t)))"

definition obj_gets :: "('o \<Rightarrow> 'a) \<Rightarrow> ('o \<times> 's, 'a) action" where
  [action_simps]: "obj_gets f = gets (\<lambda>w. f (fst w))"

definition obj_modify :: "('o \<Rightarrow> 'o) \<Rightarrow> ('o \<times> 's, unit) action" where
  [action_simps]: "obj_modify f = modify (\<lambda>w. (f (fst w), snd w))"

text \<open>A constructor runs on a fresh object and returns it.\<close>

definition construct :: "'o \<Rightarrow> ('o \<times> 's, unit) action \<Rightarrow> ('s, 'o) action" where
  [action_simps]: "construct ob m s =
     (case m (ob, s) of (Inl e, w) \<Rightarrow> (Inl e, snd w) | (Inr _, w) \<Rightarrow> (Inr (fst w), snd w))"

section \<open>Experiences\<close>

datatype decision = Approved | Rejected | Edited

fun decision_value :: "decision \<Rightarrow> string" where
  "decision_value Approved = ''approved''"
| "decision_value Rejected = ''rejected''"
| "decision_value Edited = ''edited''"

record mem_source =
  ms_provider :: string
  ms_model :: string
  ms_prompt_hash :: string

record mem_method =
  mt_context_sources :: "string list"
  mt_temperature :: rat

record mem_artifact =
  ma_language :: string
  ma_module :: string
  ma_governance_refs :: "string list"

record mem_outcome =
  mo_human_decision :: string
  mo_reason :: string
  mo_quality_score :: rat

record gen_experience =
  gx_id :: string
  gx_ts :: string
  gx_type :: string
  gx_source :: mem_source
  gx_method :: mem_method
  gx_artifact :: mem_artifact
  gx_outcome :: mem_outcome
  gx_anti_patterns :: "string list"
  gx_tags :: "string list"

definition strings_value :: "string list \<Rightarrow> pyval" where
  "strings_value xs = PList (map PStr xs)"

definition source_value :: "mem_source \<Rightarrow> pyval" where
  "source_value x = PDict [(''provider'', PStr (ms_provider x)), (''model'', PStr (ms_model x)),
     (''prompt_hash'', PStr (ms_prompt_hash x))]"

definition method_value :: "mem_method \<Rightarrow> pyval" where
  "method_value x = PDict [(''context_sources'', strings_value (mt_context_sources x)),
     (''temperature'', PFloat (Fin (mt_temperature x)))]"

definition artifact_value :: "mem_artifact \<Rightarrow> pyval" where
  "artifact_value x = PDict [(''language'', PStr (ma_language x)), (''module'', PStr (ma_module x)),
     (''governance_refs'', strings_value (ma_governance_refs x))]"

definition outcome_value :: "mem_outcome \<Rightarrow> pyval" where
  "outcome_value x = PDict [(''human_decision'', PStr (mo_human_decision x)), (''reason'', PStr (mo_reason x)),
     (''quality_score'', PFloat (Fin (mo_quality_score x)))]"

definition experience_value :: "gen_experience \<Rightarrow> pyval" where
  "experience_value e = PDict [(''id'', PStr (gx_id e)), (''ts'', PStr (gx_ts e)), (''type'', PStr (gx_type e)),
     (''source'', source_value (gx_source e)), (''method'', method_value (gx_method e)),
     (''artifact'', artifact_value (gx_artifact e)), (''outcome'', outcome_value (gx_outcome e)),
     (''anti_patterns'', strings_value (gx_anti_patterns e)), (''tags'', strings_value (gx_tags e))]"

definition to_jsonl :: "(rat \<Rightarrow> string) \<Rightarrow> gen_experience \<Rightarrow> string" where
  "to_jsonl shown e = json_text shown False '' '' (experience_value e)"

section \<open>Reading an experience\<close>

fun as_str :: "pyval \<Rightarrow> string option" where
  "as_str (PStr s) = Some s"
| "as_str v = None"

fun as_rat :: "pyval \<Rightarrow> rat option" where
  "as_rat (PFloat (Fin q)) = Some q"
| "as_rat (PInt i) = Some (of_int i)"
| "as_rat v = None"

fun as_strings :: "pyval \<Rightarrow> string list option" where
  "as_strings (PList vs) = those (map as_str vs)"
| "as_strings v = None"

definition need :: "pydict \<Rightarrow> string \<Rightarrow> exn + pyval" where
  "need d k = (case map_of d k of Some v \<Rightarrow> Inr v | None \<Rightarrow> Inl (key_error k))"

text \<open>\<^verbatim>\<open>C(**v)\<close> for a class with the given fields, none of which has a default.\<close>

definition kwargs :: "string list \<Rightarrow> pyval \<Rightarrow> exn + pyval list" where
  "kwargs names v =
     (case v of
        PDict d \<Rightarrow>
          (if set (map fst d) = set names then Inr (map (\<lambda>k. the (map_of d k)) names)
           else Inl (type_error ''unexpected or missing keyword argument''))
      | _ \<Rightarrow> Inl (type_error ''argument after ** must be a mapping''))"

fun source_of :: "pyval list \<Rightarrow> mem_source option" where
  "source_of [PStr p, PStr m, PStr h] = Some \<lparr>ms_provider = p, ms_model = m, ms_prompt_hash = h\<rparr>"
| "source_of vs = None"

fun method_of :: "pyval list \<Rightarrow> mem_method option" where
  "method_of [cs, t] =
     (case (as_strings cs, as_rat t) of
        (Some c, Some q) \<Rightarrow> Some \<lparr>mt_context_sources = c, mt_temperature = q\<rparr> | _ \<Rightarrow> None)"
| "method_of vs = None"

fun artifact_of :: "pyval list \<Rightarrow> mem_artifact option" where
  "artifact_of [PStr l, PStr m, rs] =
     (case as_strings rs of
        Some r \<Rightarrow> Some \<lparr>ma_language = l, ma_module = m, ma_governance_refs = r\<rparr> | None \<Rightarrow> None)"
| "artifact_of vs = None"

fun outcome_of :: "pyval list \<Rightarrow> mem_outcome option" where
  "outcome_of [PStr h, PStr r, q] =
     (case as_rat q of
        Some x \<Rightarrow> Some \<lparr>mo_human_decision = h, mo_reason = r, mo_quality_score = x\<rparr> | None \<Rightarrow> None)"
| "outcome_of vs = None"

definition typed_experience ::
  "pyval \<Rightarrow> pyval \<Rightarrow> pyval \<Rightarrow> pyval list \<Rightarrow> pyval list \<Rightarrow> pyval list \<Rightarrow> pyval list \<Rightarrow> pyval \<Rightarrow> pyval \<Rightarrow>
   gen_experience option" where
  "typed_experience i t k src met art out aps tags =
     (case (as_str i, as_str t, as_str k) of
        (Some i, Some t, Some k) \<Rightarrow>
          (case (source_of src, method_of met, artifact_of art, outcome_of out) of
             (Some s, Some m, Some a, Some x) \<Rightarrow>
               (case (as_strings aps, as_strings tags) of
                  (Some ap, Some tg) \<Rightarrow>
                    Some \<lparr>gx_id = i, gx_ts = t, gx_type = k, gx_source = s, gx_method = m, gx_artifact = a,
                      gx_outcome = x, gx_anti_patterns = ap, gx_tags = tg\<rparr>
                | _ \<Rightarrow> None)
           | _ \<Rightarrow> None)
      | _ \<Rightarrow> None)"

definition get_or :: "pyval \<Rightarrow> pydict \<Rightarrow> string \<Rightarrow> pyval" where
  "get_or v d k = (case map_of d k of Some x \<Rightarrow> x | None \<Rightarrow> v)"

definition experience_of :: "pyval \<Rightarrow> exn + gen_experience" where
  "experience_of v =
     (case v of
        PDict d \<Rightarrow>
          bindR (need d ''id'') (\<lambda>i.
          bindR (need d ''ts'') (\<lambda>t.
          bindR (need d ''type'') (\<lambda>k.
          bindR (bindR (need d ''source'') (kwargs [''provider'', ''model'', ''prompt_hash''])) (\<lambda>src.
          bindR (bindR (need d ''method'') (kwargs [''context_sources'', ''temperature''])) (\<lambda>met.
          bindR (bindR (need d ''artifact'') (kwargs [''language'', ''module'', ''governance_refs''])) (\<lambda>art.
          bindR (bindR (need d ''outcome'') (kwargs [''human_decision'', ''reason'', ''quality_score''])) (\<lambda>out.
          case typed_experience i t k src met art out (get_or (PList []) d ''anti_patterns'')
              (get_or (PList []) d ''tags'') of
            Some e \<Rightarrow> Inr e
          | None \<Rightarrow> Inl (type_error ''field of another type''))))))))
      | _ \<Rightarrow> Inl (type_error ''indices must be integers or slices, not str''))"

definition from_jsonl :: "string \<Rightarrow> exn + gen_experience" where
  "from_jsonl line = bindR (json_loads line) experience_of"

lemma those_str [simp]: "those (map as_str (map PStr xs)) = Some xs"
  by (induction xs) simp_all

lemma as_strings_value [simp]: "as_strings (strings_value xs) = Some xs"
  by (simp add: strings_value_def del: map_map)

lemma experience_round: "experience_of (experience_value e) = Inr e"
  by (simp add: experience_of_def experience_value_def source_value_def method_value_def artifact_value_def
      outcome_value_def need_def kwargs_def get_or_def typed_experience_def)


section \<open>The memory\<close>

record learning_memory =
  lm_path :: string
  lm_index :: "(string, gen_experience) dict"
  lm_anti :: "string list"

type_synonym 'z mem_state = "learning_memory \<times> 'z sys_world_scheme"

definition set_update :: "string list \<Rightarrow> string list \<Rightarrow> string list" where
  "set_update xs st = fold List.insert xs st"

definition max_memory_entries :: nat where
  "max_memory_entries = 10000"

definition max_memory_bytes :: nat where
  "max_memory_bytes = 50 * (1024 * 1024)"

definition file_size :: "string \<Rightarrow> 'z disk_world_scheme \<Rightarrow> nat" where
  "file_size p s = (case dk_files s (place s p) of Some t \<Rightarrow> length (utf8 t) | None \<Rightarrow> 0)"

definition memory_prune :: "string \<Rightarrow> ('z sys_world_scheme, unit) action" where
  "memory_prune p s =
     (if \<not> path_exists p s then ret () s
      else bindA (read_text p) (\<lambda>t.
        let ls = split_at (CHR 0x0A) (strip t) in
        if length ls \<le> max_memory_entries then ret ()
        else write_file p (join [CHR 0x0A] (drop (length ls - max_memory_entries) ls) @ [CHR 0x0A])) s)"

text \<open>What the loop over the lines skips as corrupt.\<close>

fun corrupt_entry :: "exn \<Rightarrow> bool" where
  "corrupt_entry (Raised KeyError m) = True"
| "corrupt_entry (Raised (OtherError n) m) = (n = ''JSONDecodeError'')"
| "corrupt_entry e = False"

definition remember :: "gen_experience \<Rightarrow> learning_memory \<Rightarrow> learning_memory" where
  "remember e m = m\<lparr>lm_index := dict_set (gx_id e) e (lm_index m), lm_anti := set_update (gx_anti_patterns e) (lm_anti m)\<rparr>"

fun load_lines :: "string list \<Rightarrow> learning_memory \<Rightarrow> (exn + unit) \<times> learning_memory" where
  "load_lines [] m = (Inr (), m)"
| "load_lines (l # ls) m =
     (if strip l = [] then load_lines ls m
      else case from_jsonl (strip l) of
          Inr e \<Rightarrow> load_lines ls (remember e m)
        | Inl x \<Rightarrow> (if corrupt_entry x then load_lines ls m else (Inl x, m)))"

text \<open>An empty line is skipped, so the text after the last line feed needs no case of its own.\<close>

definition memory_load :: "('z mem_state, unit) action" where
  "memory_load =
     bindA (obj_gets lm_path) (\<lambda>p.
     bindA (on_world (gets (\<lambda>s. (path_exists p s, file_size p s)))) (\<lambda>(ex, size).
     if \<not> ex then ret ()
     else
       bindA (if size > max_memory_bytes then on_world (memory_prune p) else ret ()) (\<lambda>_.
       bindA (on_world (read_text p)) (\<lambda>t.
       (\<lambda>w. case load_lines (split_at (CHR 0x0A) t) (fst w) of (r, m) \<Rightarrow> (r, (m, snd w)))))))"

definition new_memory :: "string \<Rightarrow> ('z sys_world_scheme, learning_memory) action" where
  "new_memory p = construct \<lparr>lm_path = p, lm_index = [], lm_anti = []\<rparr> memory_load"

text \<open>\<^verbatim>\<open>time.strftime("%Y-%m-%dT%H:%M:%SZ", time.gmtime())\<close>.\<close>

definition gmtime_stamp :: "rat \<Rightarrow> string" where
  "gmtime_stamp t =
     (let n = floor t; day = n div 86400; sec = n mod 86400
      in case civil day of (y, m, d) \<Rightarrow>
           padded 4 y @ ''-'' @ padded 2 m @ ''-'' @ padded 2 d @ ''T'' @ padded 2 (sec div 3600) @ '':''
             @ padded 2 (sec div 60 mod 60) @ '':'' @ padded 2 (sec mod 60) @ ''Z'')"

text \<open>\<^verbatim>\<open>time.time_ns()\<close> is a reading of the same clock.\<close>

definition generate_id :: "(rat \<Rightarrow> string) \<Rightarrow> ('z sys_world_scheme, string) action" where
  "generate_id shown =
     bindA time_time (\<lambda>t. bindA time_time (\<lambda>n.
     ret (''mem_'' @ take 12 (sha256_hex (shown t @ ''-'' @ take 8 (sha256_hex (show_int (floor (n * 1000000000)))))))))"

definition rejected_patterns :: "decision \<Rightarrow> string list option \<Rightarrow> string list" where
  "rejected_patterns d aps = (if d = Rejected then (case aps of Some xs \<Rightarrow> xs | None \<Rightarrow> []) else [])"

definition make_experience ::
  "string \<Rightarrow> string \<Rightarrow> mem_source \<Rightarrow> mem_method \<Rightarrow> mem_artifact \<Rightarrow> decision \<Rightarrow> string \<Rightarrow> rat \<Rightarrow>
   string list option \<Rightarrow> gen_experience" where
  "make_experience i ts src met art d reason q aps =
     \<lparr>gx_id = i, gx_ts = ts, gx_type = ''generation'', gx_source = src, gx_method = met, gx_artifact = art,
      gx_outcome = \<lparr>mo_human_decision = decision_value d, mo_reason = reason, mo_quality_score = q\<rparr>,
      gx_anti_patterns = (case aps of Some xs \<Rightarrow> xs | None \<Rightarrow> []),
      gx_tags = [ma_language art, ma_module art]
        @ (if rejected_patterns d aps \<noteq> [] then [''REJECTED''] else [])\<rparr>"

text \<open>The line is written and forced to the disk, either of which can fail, before the index has it.\<close>

definition record_experience ::
  "(rat \<Rightarrow> string) \<Rightarrow> mem_source \<Rightarrow> mem_method \<Rightarrow> mem_artifact \<Rightarrow> decision \<Rightarrow> string \<Rightarrow> rat \<Rightarrow>
   string list option \<Rightarrow> ('z mem_state, gen_experience) action" where
  "record_experience shown src met art d reason q aps =
     bindA (on_world (generate_id shown)) (\<lambda>i.
     bindA (on_world time_time) (\<lambda>t.
     let e = make_experience i (gmtime_stamp t) src met art d reason q aps in
     bindA (obj_modify (\<lambda>m. m\<lparr>lm_anti := set_update (rejected_patterns d aps) (lm_anti m)\<rparr>)) (\<lambda>_.
     bindA (obj_gets lm_path) (\<lambda>p.
     bindA (on_world (append_file p (to_jsonl shown e @ [CHR 0x0A]))) (\<lambda>_.
     bindA (on_world disk_outcome) (\<lambda>r.
     if r \<noteq> Written then raise (broken p)
     else bindA (obj_modify (\<lambda>m. m\<lparr>lm_index := dict_set (gx_id e) e (lm_index m)\<rparr>)) (\<lambda>_. ret e)))))))"

definition memory_experiences :: "learning_memory \<Rightarrow> gen_experience list" where
  "memory_experiences m = dict_values (lm_index m)"

text \<open>A sort with \<^verbatim>\<open>reverse=True\<close> keeps the order of equal keys.\<close>

definition get_positive :: "string \<Rightarrow> string \<Rightarrow> nat \<Rightarrow> learning_memory \<Rightarrow> gen_experience list" where
  "get_positive language mdl limit m =
     take limit (rev (sort_key (\<lambda>e. mo_quality_score (gx_outcome e))
       (rev (filter (\<lambda>e. mo_human_decision (gx_outcome e) = ''approved'' \<and> ma_language (gx_artifact e) = language
         \<and> sublist mdl (ma_module (gx_artifact e))) (memory_experiences m)))))"

definition get_negative :: "string \<Rightarrow> nat \<Rightarrow> learning_memory \<Rightarrow> gen_experience list" where
  "get_negative language limit m =
     take limit (filter (\<lambda>e. mo_human_decision (gx_outcome e) = ''rejected'' \<and> ma_language (gx_artifact e) = language)
       (memory_experiences m))"

definition get_anti_patterns :: "learning_memory \<Rightarrow> string list" where
  "get_anti_patterns m = lm_anti m"

definition memory_stats :: "learning_memory \<Rightarrow> 'z sys_world_scheme \<Rightarrow> (string \<times> nat) list" where
  "memory_stats m s =
     [(''total'', length (lm_index m)),
      (''approved'', length (filter (\<lambda>e. mo_human_decision (gx_outcome e) = ''approved'') (memory_experiences m))),
      (''rejected'', length (filter (\<lambda>e. mo_human_decision (gx_outcome e) = ''rejected'') (memory_experiences m))),
      (''anti_patterns'', length (lm_anti m)),
      (''file_kb'', if path_exists (lm_path m) s then file_size (lm_path m) s div 1024 else 0)]"


section \<open>The text of a memory\<close>

lemma set_set_update [simp]: "set (set_update xs st) = set st \<union> set xs"
  unfolding set_update_def by (induction xs arbitrary: st) auto

text \<open>No control characters.\<close>

abbreviation printing :: "char \<Rightarrow> bool" where
  "printing c \<equiv> 32 \<le> (of_char c :: nat)"

lemma digits_printing: "span_digits s = (ds, r) \<Longrightarrow> s = ds @ r \<and> list_all printing ds"
  by (auto simp: span_digits_def list_all_iff is_digit_def dest: set_takeWhileD)

lemma scan_integer_printing: "scan_integer s = Some (ip, r) \<Longrightarrow> s = ip @ r \<and> list_all printing ip"
  by (auto simp: scan_integer_def dest!: digits_printing split: prod.splits list.splits if_splits)

lemma scan_fraction_printing: "scan_fraction s = (fp, r) \<Longrightarrow> \<exists>p. s = p @ r \<and> list_all printing p"
  by (auto simp: scan_fraction_def dest!: digits_printing split: prod.splits list.splits if_splits)

lemma scan_exponent_printing: "scan_exponent s = (ep, r) \<Longrightarrow> \<exists>p. s = p @ r \<and> list_all printing p"
  by (auto simp: scan_exponent_def dest!: digits_printing split: prod.splits list.splits if_splits)

lemma scan_number_printing:
  assumes "scan_number s = Some (v, r)"
  shows "\<exists>p. s = p @ r \<and> list_all printing p"
proof -
  define sg where "sg = (case s of c # r \<Rightarrow> if c = CHR 0x2D then (True, r) else (False, s) | [] \<Rightarrow> (False, s))"
  have sign: "\<exists>p. s = p @ snd sg \<and> list_all printing p"
    by (auto simp: sg_def split: list.splits)
  have num: "scan_number s = (case scan_integer (snd sg) of None \<Rightarrow> None
    | Some (ip, s2) \<Rightarrow> (let (fp, s3) = scan_fraction s2; (ep, s4) = scan_exponent s3
              in if fp = None \<and> ep = None
                 then Some (PInt (if fst sg then - digits_value ip else digits_value ip), s2)
                 else Some (PFloat (to_double (negate_if (fst sg)
                        (decimal_value ip (case fp of None \<Rightarrow> [] | Some f \<Rightarrow> f)
                           (case ep of None \<Rightarrow> 0 | Some e \<Rightarrow> e)))), s4)))"
    unfolding scan_number_def sg_def [symmetric] by (simp add: split_beta)
  then obtain ip s2 where ip: "scan_integer (snd sg) = Some (ip, s2)"
    using assms by (cases "scan_integer (snd sg)") auto
  obtain fp s3 where fp: "scan_fraction s2 = (fp, s3)" by fastforce
  obtain ep s4 where ep: "scan_exponent s3 = (ep, s4)" by fastforce
  have "r = s2 \<or> r = s4"
    using assms by (simp add: num ip fp ep split: if_splits)
  moreover obtain p0 p2 p3 where
    "s = p0 @ snd sg" "list_all printing p0" "s2 = p2 @ s3" "list_all printing p2" "s3 = p3 @ s4" "list_all printing p3"
    using sign scan_fraction_printing [OF fp] scan_exponent_printing [OF ep] by blast
  moreover note scan_integer_printing [OF ip]
  ultimately have "s = (p0 @ ip) @ r \<and> list_all printing (p0 @ ip) \<or>
      s = (p0 @ ip @ p2 @ p3) @ r \<and> list_all printing (p0 @ ip @ p2 @ p3)" by auto
  then show ?thesis by blast
qed

lemma json_char_printing: "list_all printing (json_char a c)"
  by (auto simp: json_char_def Let_def hex_digit_def list_all_iff) (simp_all add: nth_Cons' )

lemma join_printing: "list_all printing sep \<Longrightarrow> (\<And>x. x \<in> set xs \<Longrightarrow> list_all printing x) \<Longrightarrow> list_all printing (join sep xs)"
  by (induction sep xs rule: join.induct) auto

lemma json_string_printing: "list_all printing (json_string a s)"
  using json_char_printing by (auto simp: json_string_def list_all_iff)

lemma json_text_printing:
  assumes "float_repr shown" and "list_all printing gap" and "json_good v"
  shows "list_all printing (json_text shown a gap v)"
  using assms(3)
proof (induction v)
  case (PInt i)
  then show ?case using scan_number_printing [OF scan_number_show] by fastforce
next
  case (PFloat x)
  show ?case
  proof (cases x)
    case (Fin q)
    then have "scan_number (shown q) = Some (PFloat (Fin q), [])" using PFloat float_repr.show_reads [OF assms(1)] by simp
    then show ?thesis using scan_number_printing Fin by fastforce
  qed simp_all
next
  case (PList vs)
  then have "list_all printing x" if "x \<in> set (map (json_text shown a gap) vs)" for x
    using that by (auto simp: list_all_iff)
  then have "list_all printing (join (CHR '','' # gap) (map (json_text shown a gap) vs))"
    using assms(2) by (intro join_printing) simp_all
  then show ?case by simp
next
  case (PDict d)
  have "list_all printing x"
    if "x \<in> set (map (\<lambda>p. json_string a (fst p) @ CHR '':'' # gap @ json_text shown a gap (snd p)) d)" for x
    using that PDict json_string_printing assms(2) by (fastforce simp: list_all_iff)
  then have "list_all printing (join (CHR '','' # gap)
      (map (\<lambda>p. json_string a (fst p) @ CHR '':'' # gap @ json_text shown a gap (snd p)) d))"
    using assms(2) by (intro join_printing) simp_all
  then show ?case by simp
qed (simp_all add: json_string_printing)

definition good_experience :: "gen_experience \<Rightarrow> bool" where
  "good_experience e \<longleftrightarrow> is_double (mt_temperature (gx_method e)) \<and> is_double (mo_quality_score (gx_outcome e))"

lemma good_value: "good_experience e \<Longrightarrow> json_good (experience_value e)"
  by (simp add: good_experience_def experience_value_def source_value_def method_value_def artifact_value_def
      outcome_value_def strings_value_def list_all_iff)

lemma jsonl_round: "float_repr shown \<Longrightarrow> good_experience e \<Longrightarrow> from_jsonl (to_jsonl shown e) = Inr e"
  by (simp add: from_jsonl_def to_jsonl_def float_repr.json_loads_text json_space_def good_value experience_round)

lemma jsonl_printing: "float_repr shown \<Longrightarrow> good_experience e \<Longrightarrow> list_all printing (to_jsonl shown e)"
  unfolding to_jsonl_def by (rule json_text_printing) (simp_all add: good_value)

lemma strip_braced: "strip (CHR ''{'' # s @ ''}'') = CHR ''{'' # s @ ''}''"
  by (simp add: strip_def is_space_def)

lemma jsonl_braced: "\<exists>s. to_jsonl shown e = CHR ''{'' # s @ ''}''"
  by (simp add: to_jsonl_def experience_value_def)

lemma strip_jsonl: "strip (to_jsonl shown e) = to_jsonl shown e"
  using jsonl_braced strip_braced by metis

lemma jsonl_nonempty: "to_jsonl shown e \<noteq> []"
  using jsonl_braced [of shown e] by force

definition memory_text :: "(rat \<Rightarrow> string) \<Rightarrow> gen_experience list \<Rightarrow> string" where
  "memory_text shown es = concat (map (\<lambda>e. to_jsonl shown e @ [CHR 0x0A]) es)"

lemma memory_text_Cons: "memory_text shown (e # es) = to_jsonl shown e @ CHR 0x0A # memory_text shown es"
  by (simp add: memory_text_def)

lemma memory_text_append: "memory_text shown (es @ fs) = memory_text shown es @ memory_text shown fs"
  by (simp add: memory_text_def)

lemma printing_no_line_end: "list_all printing s \<Longrightarrow> CHR 0x0D \<notin> set s \<and> CHR 0x0A \<notin> set s"
  by (auto simp: list_all_iff)

lemma memory_text_no_return:
  "float_repr shown \<Longrightarrow> list_all good_experience es \<Longrightarrow> CHR 0x0D \<notin> set (memory_text shown es)"
proof (induction es)
  case (Cons e es)
  then show ?case using printing_no_line_end [OF jsonl_printing [of shown e]] by (simp add: memory_text_Cons)
qed (simp add: memory_text_def)

lemma load_line_text:
  assumes "float_repr shown" and "good_experience e"
  shows "load_lines (to_jsonl shown e # ls) m = load_lines ls (remember e m)"
  using jsonl_round [OF assms] by (simp add: strip_jsonl jsonl_nonempty)

lemma load_text:
  assumes "float_repr shown" and "list_all good_experience es"
  shows "load_lines (split_at (CHR 0x0A) (memory_text shown es @ s)) m
    = load_lines (split_at (CHR 0x0A) s) (fold remember es m)"
  using assms(2)
proof (induction es arbitrary: m)
  case (Cons e es)
  then have "CHR 0x0A \<notin> set (to_jsonl shown e)" using jsonl_printing [OF assms(1)] printing_no_line_end by simp
  then show ?case
    using Cons by (simp add: memory_text_Cons split_at_append load_line_text [OF assms(1)] del: load_lines.simps)
qed (simp add: memory_text_def)

lemma load_memory_text:
  assumes "float_repr shown" and "list_all good_experience es"
  shows "load_lines (split_at (CHR 0x0A) (memory_text shown es)) m = (Inr (), fold remember es m)"
  using load_text [OF assms, of "[]" m] by (simp add: strip_def)

section \<open>A run of records\<close>

text \<open>The file at a path holds the lines of \<open>es\<close>; there may be no file when there are none.\<close>

definition memory_file :: "(rat \<Rightarrow> string) \<Rightarrow> string \<Rightarrow> gen_experience list \<Rightarrow> 'z disk_world_scheme \<Rightarrow> bool" where
  "memory_file shown p es s \<longleftrightarrow> p \<noteq> [] \<and> place s p \<notin> dk_dirs s \<and> butlast (place s p) \<in> dk_dirs s
     \<and> list_all good_experience es
     \<and> (dk_files s (place s p) = Some (memory_text shown es) \<or> es = [] \<and> dk_files s (place s p) = None)"

type_synonym record_args = "mem_source \<times> mem_method \<times> mem_artifact \<times> decision \<times> string \<times> rat \<times> string list option"

definition record_call :: "(rat \<Rightarrow> string) \<Rightarrow> record_args \<Rightarrow> ('z mem_state, gen_experience) action" where
  "record_call shown = (\<lambda>(src, met, art, d, reason, q, aps). record_experience shown src met art d reason q aps)"

definition good_call :: "record_args \<Rightarrow> bool" where
  "good_call = (\<lambda>(src, met, art, d, reason, q, aps). is_double (mt_temperature met) \<and> is_double q)"

lemma place_dk [simp]: "place (s\<lparr>dk_pos := n\<rparr>) q = place s q" "place (s\<lparr>dk_files := F\<rparr>) q = place s q"
  "place (s\<lparr>wall_pos := n\<rparr>) q = place s q"
  by (simp_all add: place_def)

lemma rejected_subset: "set (rejected_patterns d aps) \<subseteq> set (case aps of Some xs \<Rightarrow> xs | None \<Rightarrow> [])"
  by (cases aps; cases d; simp add: rejected_patterns_def)

text \<open>The place of a memory file, whatever it holds.\<close>

definition memory_spot :: "string \<Rightarrow> 'z disk_world_scheme \<Rightarrow> bool" where
  "memory_spot p s \<longleftrightarrow> p \<noteq> [] \<and> place s p \<notin> dk_dirs s \<and> butlast (place s p) \<in> dk_dirs s"

definition held :: "string \<Rightarrow> 'z disk_world_scheme \<Rightarrow> string" where
  "held p s = (case dk_files s (place s p) of Some t \<Rightarrow> t | None \<Rightarrow> [])"

definition noted :: "string \<Rightarrow> string \<Rightarrow> nat \<Rightarrow> 'z sys_world_scheme \<Rightarrow> 'z sys_world_scheme" where
  "noted p t n s = s\<lparr>wall_pos := Suc (Suc (Suc (wall_pos s))), dk_files := (dk_files s)(place s p \<mapsto> held p s @ t),
     dk_pos := dk_pos s + n\<rparr>"

lemma memory_file_spot: "memory_file shown p es s \<Longrightarrow> memory_spot p s \<and> held p s = memory_text shown es"
  by (auto simp: memory_file_def memory_spot_def held_def memory_text_def)

lemma record_outcomes:
  fixes s :: "'z sys_world_scheme"
  assumes "memory_spot (lm_path m) s" and "good_call c"
  obtains e m1 where "good_experience e" and "lm_path m1 = lm_path m" and "lm_index m1 = lm_index m"
    and "set (lm_anti m1) \<subseteq> set (lm_anti m) \<union> set (gx_anti_patterns e)"
    and "dk_src s (dk_pos s) = Written \<Longrightarrow> dk_src s (Suc (dk_pos s)) = Written \<Longrightarrow>
      record_call shown c (m, s) = (Inr e, (m1\<lparr>lm_index := dict_set (gx_id e) e (lm_index m)\<rparr>,
        noted (lm_path m) (to_jsonl shown e @ [CHR 0x0A]) 2 s))"
    and "\<And>n. dk_src s (dk_pos s) = Torn n \<Longrightarrow>
      record_call shown c (m, s) = (Inl (broken (lm_path m)), (m1, noted (lm_path m) (take n (to_jsonl shown e @ [CHR 0x0A])) 1 s))"
proof -
  obtain src met art d reason q aps where c: "c = (src, met, art, d, reason, q, aps)" by (cases c)
  obtain i where i: "generate_id shown s = (Inr i, s\<lparr>wall_pos := Suc (Suc (wall_pos s))\<rparr>)"
    by (simp add: generate_id_def action_simps)
  define e where "e = make_experience i (gmtime_stamp (wall_src s (Suc (Suc (wall_pos s))))) src met art d reason q aps"
  define m1 where "m1 = m\<lparr>lm_anti := set_update (rejected_patterns d aps) (lm_anti m)\<rparr>"
  let ?s = "s\<lparr>wall_pos := Suc (Suc (Suc (wall_pos s)))\<rparr>" and ?p = "lm_path m"
  have spot: "?p \<noteq> []" "\<not> is_dir ?p ?s" "butlast (place ?s ?p) \<in> dk_dirs ?s"
    using assms(1) by (simp_all add: memory_spot_def is_dir_def)
  have put: "append_file ?p t ?s = (case dk_src s (dk_pos s) of
      Written \<Rightarrow> (Inr (), noted ?p t 1 s)
    | Torn n \<Rightarrow> (Inl (broken ?p), noted ?p (take n t) 1 s)
    | NotOpened \<Rightarrow> (Inl (broken ?p), ?s\<lparr>dk_pos := Suc (dk_pos s)\<rparr>))" for t
    using spot by (simp add: append_file_def put_text_def action_simps disk_outcome_def noted_def held_def
        split: write_outcome.split)
  have rec_eq: "record_call shown c (m, s) =
      (case append_file ?p (to_jsonl shown e @ [CHR 0x0A]) ?s of
         (Inl x, t) \<Rightarrow> (Inl x, (m1, t))
       | (Inr _, t) \<Rightarrow> (if dk_src t (dk_pos t) = Written
           then (Inr e, (m1\<lparr>lm_index := dict_set (gx_id e) e (lm_index m)\<rparr>, t\<lparr>dk_pos := Suc (dk_pos t)\<rparr>))
           else (Inl (broken ?p), (m1, t\<lparr>dk_pos := Suc (dk_pos t)\<rparr>))))"
    by (simp add: c record_call_def record_experience_def i action_simps disk_outcome_def Let_def e_def [symmetric]
        m1_def split: prod.split sum.split)
  have aps: "gx_anti_patterns e = (case aps of Some xs \<Rightarrow> xs | None \<Rightarrow> [])"
    by (simp add: e_def make_experience_def)
  show thesis
  proof (rule that)
    show "good_experience e" using assms(2) by (simp add: c good_call_def good_experience_def e_def make_experience_def)
    show "set (lm_anti m1) \<subseteq> set (lm_anti m) \<union> set (gx_anti_patterns e)"
      using rejected_subset [of d aps] aps by (auto simp: m1_def)
    show "record_call shown c (m, s) = (Inr e, (m1\<lparr>lm_index := dict_set (gx_id e) e (lm_index m)\<rparr>,
        noted ?p (to_jsonl shown e @ [CHR 0x0A]) 2 s))"
      if "dk_src s (dk_pos s) = Written" "dk_src s (Suc (dk_pos s)) = Written"
      using that by (simp add: rec_eq put) (simp add: noted_def)
    show "record_call shown c (m, s) = (Inl (broken ?p), (m1, noted ?p (take n (to_jsonl shown e @ [CHR 0x0A])) 1 s))"
      if "dk_src s (dk_pos s) = Torn n" for n
      using that by (simp add: rec_eq put)
  qed (simp_all add: m1_def)
qed

lemma noted_simps [simp]: "place (noted p t n s) = place s" "dk_dirs (noted p t n s) = dk_dirs s"
  "dk_src (noted p t n s) = dk_src s" "dk_pos (noted p t n s) = dk_pos s + n"
  "dk_files (noted p t n s) = (dk_files s)(place s p \<mapsto> held p s @ t)"
  by (auto simp: noted_def)

lemma noted_spot [simp]: "memory_spot q (noted p t n s) = memory_spot q s" "held p (noted p t n s) = held p s @ t"
  by (simp_all add: memory_spot_def held_def)

lemma record_calm:
  fixes s :: "'z sys_world_scheme"
  assumes "calm s" and "memory_file shown (lm_path m) es s" and "good_call c"
  shows "\<exists>e m' s'. record_call shown c (m, s) = (Inr e, (m', s')) \<and> lm_path m' = lm_path m
    \<and> lm_index m' = dict_set (gx_id e) e (lm_index m) \<and> calm s' \<and> memory_file shown (lm_path m) (es @ [e]) s'
    \<and> set (lm_anti m') \<subseteq> set (lm_anti m) \<union> set (gx_anti_patterns e) \<and> place s' = place s"
proof -
  note spot = memory_file_spot [OF assms(2)]
  obtain e m1 where e: "good_experience e" "lm_path m1 = lm_path m"
      "set (lm_anti m1) \<subseteq> set (lm_anti m) \<union> set (gx_anti_patterns e)"
      "record_call shown c (m, s) = (Inr e, (m1\<lparr>lm_index := dict_set (gx_id e) e (lm_index m)\<rparr>,
        noted (lm_path m) (to_jsonl shown e @ [CHR 0x0A]) 2 s))"
    using record_outcomes [of m s c shown] spot assms(1,3) by (metis calm_def)
  moreover have "memory_file shown (lm_path m) (es @ [e]) (noted (lm_path m) (to_jsonl shown e @ [CHR 0x0A]) 2 s)"
    using assms(2) e(1) spot by (auto simp: memory_file_def memory_text_append) (simp_all add: memory_text_def)
  moreover have "calm (noted (lm_path m) (to_jsonl shown e @ [CHR 0x0A]) 2 s)" using assms(1) by (simp add: calm_def)
  ultimately show ?thesis by auto
qed

text \<open>What the file holds is what the index holds.\<close>

definition index_of :: "gen_experience list \<Rightarrow> (string, gen_experience) dict" where
  "index_of es = fold (\<lambda>e. dict_set (gx_id e) e) es []"

definition patterns_of :: "gen_experience list \<Rightarrow> string set" where
  "patterns_of es = (\<Union>e \<in> set es. set (gx_anti_patterns e))"

lemma remember_all:
  "fold remember es m = m\<lparr>lm_index := fold (\<lambda>e. dict_set (gx_id e) e) es (lm_index m),
     lm_anti := fold (\<lambda>e. set_update (gx_anti_patterns e)) es (lm_anti m)\<rparr>"
  by (induction es arbitrary: m) (simp_all add: remember_def)

lemma anti_of: "set (fold (\<lambda>e. set_update (gx_anti_patterns e)) es st) = set st \<union> patterns_of es"
  by (induction es arbitrary: st) (auto simp: patterns_of_def)

lemma length_split: "length (split_at c t) = Suc (length (filter (\<lambda>x. x = c) t))"
  by (induction t) (auto split: list.split)

lemma strip_between: "\<exists>a b. t = a @ strip t @ b"
proof -
  define u where "u = dropWhile is_space t"
  have "t = takeWhile is_space t @ u" by (simp add: u_def)
  moreover have "rev u = takeWhile is_space (rev u) @ dropWhile is_space (rev u)" by simp
  then have "u = strip t @ rev (takeWhile is_space (rev u))"
    unfolding strip_def u_def [symmetric] by (metis rev_append rev_rev_ident)
  ultimately show ?thesis by metis
qed

lemma length_split_strip: "length (split_at c (strip t)) \<le> length (split_at c t)"
  using strip_between [of t] by (metis length_split filter_append length_append le_add1 le_add2 order_trans Suc_le_mono)

text \<open>A memory that is read: the file is small, or has no more lines than pruning keeps.\<close>

definition unpruned :: "string \<Rightarrow> bool" where
  "unpruned t \<longleftrightarrow> length (utf8 t) \<le> max_memory_bytes \<or> length (split_at (CHR 0x0A) (universal t)) \<le> max_memory_entries"

lemma new_memory_reads:
  assumes "memory_spot p s" and "dk_files s (place s p) = Some t" and "\<And>n. dk_pos s \<le> n \<Longrightarrow> dk_src s n = Written"
    and "unpruned t"
  shows "\<exists>k. new_memory p s = (case load_lines (split_at (CHR 0x0A) (universal t)) \<lparr>lm_path = p, lm_index = [], lm_anti = []\<rparr> of
      (Inl x, m) \<Rightarrow> (Inl x, s\<lparr>dk_pos := k\<rparr>) | (Inr _, m) \<Rightarrow> (Inr m, s\<lparr>dk_pos := k\<rparr>))"
proof -
  have there: "is_file p s" "\<not> is_dir p s" "path_exists p s"
    using assms(1,2) by (simp_all add: memory_spot_def is_file_def is_dir_def path_exists_def)
  have reads: "read_text p (s\<lparr>dk_pos := k\<rparr>) = (Inr (universal t), s\<lparr>dk_pos := Suc k\<rparr>)" if "dk_pos s \<le> k" for k
    using there assms(2,3) that
    by (simp add: is_file_def is_dir_def read_text_def read_file_def action_simps disk_outcome_def)
  have "memory_prune p s = (Inr (), s\<lparr>dk_pos := Suc (dk_pos s)\<rparr>)" if "length (split_at (CHR 0x0A) (universal t)) \<le> max_memory_entries"
    using that reads [of "dk_pos s"] there(3) length_split_strip [of "CHR 0x0A" "universal t"]
    by (simp add: memory_prune_def action_simps Let_def)
  moreover have "file_size p s = length (utf8 t)" using assms(2) by (simp add: file_size_def)
  ultimately have "\<exists>k \<ge> dk_pos s. (if file_size p s > max_memory_bytes then memory_prune p else ret ()) s = (Inr (), s\<lparr>dk_pos := k\<rparr>)"
    using assms(4) by (auto simp: unpruned_def action_simps intro: exI [of _ "dk_pos s"] exI [of _ "Suc (dk_pos s)"])
  then obtain k where k: "k \<ge> dk_pos s" "(if file_size p s > max_memory_bytes then memory_prune p else ret ()) s = (Inr (), s\<lparr>dk_pos := k\<rparr>)"
    by blast
  have "(if max_memory_bytes < file_size p s then on_world (memory_prune p) else ret ()) (m, s) = (Inr (), m, s\<lparr>dk_pos := k\<rparr>)" for m :: learning_memory
    using k(2) by (simp add: action_simps split: if_splits)
  then have "new_memory p s = (case load_lines (split_at (CHR 0x0A) (universal t)) \<lparr>lm_path = p, lm_index = [], lm_anti = []\<rparr> of
      (Inl x, m) \<Rightarrow> (Inl x, s\<lparr>dk_pos := Suc k\<rparr>) | (Inr _, m) \<Rightarrow> (Inr m, s\<lparr>dk_pos := Suc k\<rparr>))"
    using there(3) reads [OF k(1)]
    by (simp add: new_memory_def memory_load_def construct_def bindA_def obj_gets_def gets_def on_world_def split: prod.split sum.split)
  then show ?thesis by blast
qed

lemma length_split_text:
  assumes "float_repr shown" and "list_all good_experience es"
  shows "length (split_at (CHR 0x0A) (memory_text shown es @ t)) = length es + length (split_at (CHR 0x0A) t)"
  using assms(2)
proof (induction es)
  case (Cons e es)
  then show ?case using jsonl_printing [OF assms(1), of e] printing_no_line_end
    by (simp add: memory_text_Cons split_at_append)
qed (simp add: memory_text_def)

lemma new_memory_text:
  fixes s :: "'z sys_world_scheme"
  assumes "float_repr shown" and "calm s" and "memory_file shown p es s" and "length es < max_memory_entries"
  shows "\<exists>m s'. new_memory p s = (Inr m, s') \<and> lm_path m = p \<and> lm_index m = index_of es
    \<and> set (lm_anti m) = patterns_of es \<and> calm s' \<and> memory_file shown p es s'"
proof (cases "dk_files s (place s p)")
  case None
  then have "es = []" "\<not> path_exists p s"
    using assms(3) by (auto simp: memory_file_def path_exists_def is_dir_def is_file_def)
  then show ?thesis
    using assms(2,3) by (simp add: new_memory_def memory_load_def action_simps index_of_def patterns_of_def)
next
  case (Some t)
  then have t: "dk_files s (place s p) = Some (memory_text shown es)" "memory_spot p s"
    and good: "list_all good_experience es"
    using assms(3) by (auto simp: memory_file_def memory_spot_def)
  have u: "universal (memory_text shown es) = memory_text shown es"
    using memory_text_no_return [OF assms(1) good] by (rule universal_id)
  then have "unpruned (memory_text shown es)"
    using length_split_text [OF assms(1) good, of "[]"] assms(4) by (simp add: unpruned_def)
  then obtain k where
    "new_memory p s = (Inr (fold remember es \<lparr>lm_path = p, lm_index = [], lm_anti = []\<rparr>), s\<lparr>dk_pos := k\<rparr>)"
    using new_memory_reads [OF t(2,1)] assms(2) u load_memory_text [OF assms(1) good] by (auto simp: calm_def)
  moreover have "memory_file shown p es (s\<lparr>dk_pos := k\<rparr>)" "calm (s\<lparr>dk_pos := k\<rparr>)"
    using assms(2,3) by (simp_all add: memory_file_def calm_def)
  ultimately show ?thesis
    by (simp add: remember_all index_of_def anti_of)
qed

lemma run_records:
  fixes s :: "'z sys_world_scheme"
  assumes "calm s" and "memory_file shown (lm_path m) es s" and "list_all good_call cs"
    and "lm_index m = index_of es" and "set (lm_anti m) \<subseteq> patterns_of es"
    and "run (record_call shown) (m, s) cs = (m', s')"
  shows "\<exists>fs. calm s' \<and> memory_file shown (lm_path m) fs s' \<and> lm_index m' = index_of fs
    \<and> set (lm_anti m') \<subseteq> patterns_of fs \<and> length fs = length es + length cs"
  using assms
proof (induction cs arbitrary: m s es)
  case (Cons c cs)
  have "good_call c" using Cons.prems(3) by simp
  from record_calm [OF Cons.prems(1,2) this] obtain e m1 s1 where
    step: "record_call shown c (m, s) = (Inr e, (m1, s1))" "lm_path m1 = lm_path m"
      "lm_index m1 = dict_set (gx_id e) e (lm_index m)" "calm s1" "memory_file shown (lm_path m) (es @ [e]) s1"
      "set (lm_anti m1) \<subseteq> set (lm_anti m) \<union> set (gx_anti_patterns e)" by blast
  have "lm_index m1 = index_of (es @ [e])" "set (lm_anti m1) \<subseteq> patterns_of (es @ [e])"
    using step Cons.prems(4,5) by (auto simp: index_of_def patterns_of_def)
  from Cons.IH [OF step(4) _ _ this] step Cons.prems(3,6) show ?case by simp
qed auto

text \<open>
  C33. A restart forgets nothing while the file is below its limit. As long as the entries there were and the
  records made are fewer than 10000 in all, after any such records on a disk that works a memory loaded from the
  file has the same index as the running one, and every anti-pattern of it; the file holds one line for
  each record, and the anti-patterns after the restart are those of all its lines. (With 10000 entries or more,
  and more than 50 MB, \<^verbatim>\<open>_prune\<close> drops the oldest lines, and a restart does forget them.)
\<close>

theorem memory_restart:
  fixes s :: "'z sys_world_scheme"
  assumes "float_repr shown" and "calm s" and "memory_file shown p es s" and "list_all good_call cs"
    and start: "new_memory p s = (Inr m, t)" and "run (record_call shown) (m, t) cs = (m', s')"
    and "length es + length cs < max_memory_entries"
  shows "\<exists>m'' u. new_memory p s' = (Inr m'', u) \<and> lm_index m'' = lm_index m' \<and> set (lm_anti m') \<subseteq> set (lm_anti m'')
    \<and> (\<exists>fs. memory_file shown p fs s' \<and> length fs = length es + length cs \<and> set (lm_anti m'') = patterns_of fs)"
proof -
  have m: "lm_path m = p" "lm_index m = index_of es" "set (lm_anti m) = patterns_of es" "calm t" "memory_file shown p es t"
    using new_memory_text [OF assms(1-3)] start assms(7) by auto
  from run_records [OF m(4) _ assms(4) m(2) _ assms(6)] m obtain fs where
    fs: "calm s'" "memory_file shown p fs s'" "lm_index m' = index_of fs" "set (lm_anti m') \<subseteq> patterns_of fs"
      "length fs = length es + length cs" by auto
  from new_memory_text [OF assms(1) fs(1,2)] fs(2-5) assms(7) show ?thesis by auto
qed

section \<open>Lines that are no experience\<close>

lemma load_bad_line:
  assumes "float_repr shown" and "list_all good_experience es" and "CHR 0x0A \<notin> set l" and "strip l \<noteq> []"
    and "from_jsonl (strip l) = Inl x"
  shows "load_lines (split_at (CHR 0x0A) (memory_text shown es @ l @ CHR 0x0A # t)) m
    = (if corrupt_entry x then load_lines (split_at (CHR 0x0A) t) (fold remember es m) else (Inl x, fold remember es m))"
  using assms(4,5) by (simp add: load_text [OF assms(1,2)] split_at_append [OF assms(3)])

lemma brace_brace: "from_jsonl (strip (CHR ''{'' # to_jsonl shown e)) = Inl json_error"
  "strip (CHR ''{'' # to_jsonl shown e) \<noteq> []"
proof -
  obtain s where s: "to_jsonl shown e = CHR ''{'' # s @ ''}''" using jsonl_braced by blast
  have "strip (CHR ''{'' # to_jsonl shown e) = CHR ''{'' # CHR ''{'' # s @ ''}''"
    using strip_braced [of "CHR ''{'' # s"] s by simp
  then show "from_jsonl (strip (CHR ''{'' # to_jsonl shown e)) = Inl json_error" "strip (CHR ''{'' # to_jsonl shown e) \<noteq> []"
    by (simp_all add: from_jsonl_def json_loads_def skip_def json_space_def)
qed

text \<open>
  A line that is JSON, but no object, is not among the corrupt lines the loop skips: after any good
  lines, it makes the constructor raise, so that the generator cannot start.
\<close>

theorem memory_load_stops:
  fixes s :: "'z sys_world_scheme"
  assumes "float_repr shown" and "list_all good_experience es"
    and "memory_spot p s" and "calm s" and "unpruned (memory_text shown es @ l @ CHR 0x0A # t)"
    and "dk_files s (place s p) = Some (memory_text shown es @ l @ CHR 0x0A # t)"
    and "list_all printing l" and "json_loads (strip l) = Inr v" and "\<not> (\<exists>d. v = PDict d)"
  shows "fst (new_memory p s) = Inl (type_error ''indices must be integers or slices, not str'')"
proof -
  let ?m = "\<lparr>lm_path = p, lm_index = [], lm_anti = []\<rparr>"
  have l: "CHR 0x0A \<notin> set l" "CHR 0x0D \<notin> set l" using printing_no_line_end [OF assms(7)] by simp_all
  have u: "universal (memory_text shown es @ l @ CHR 0x0A # t) = memory_text shown es @ l @ CHR 0x0A # universal t"
    using l(2) memory_text_no_return [OF assms(1,2)] universal_append [of "memory_text shown es @ l" t] by simp
  have "strip l \<noteq> []"
    using assms(8) by (auto simp: json_loads_def skip_def)
  moreover have "from_jsonl (strip l) = Inl (type_error ''indices must be integers or slices, not str'')"
    using assms(8,9) by (cases v) (simp_all add: from_jsonl_def experience_of_def)
  ultimately have "load_lines (split_at (CHR 0x0A) (universal (memory_text shown es @ l @ CHR 0x0A # t))) ?m
      = (Inl (type_error ''indices must be integers or slices, not str''), fold remember es ?m)"
    using load_bad_line [OF assms(1,2) l(1), of _ "universal t" ?m] unfolding u by (simp add: type_error_def)
  then show ?thesis using new_memory_reads [OF assms(3,6) _ assms(5)] assms(4) by (auto simp: calm_def)
qed

text \<open>
  After an append that was torn after its first character, the next record returns its experience and
  is in the index, but the memory loaded at the next start does not have it.
\<close>

theorem memory_torn_write:
  fixes s :: "'z sys_world_scheme"
  assumes "float_repr shown" and held: "memory_file shown (lm_path m) es s" and "good_call c" and "good_call c'"
    and src: "dk_src s = (\<lambda>n. if n = dk_pos s then Torn 1 else Written)"
    and first: "record_call shown c (m, s) = (r1, (m1, s1))"
    and second: "record_call shown c' (m1, s1) = (r2, (m2, s2))"
    and size: "length es + 2 \<le> max_memory_entries"
  shows "(\<exists>x. r1 = Inl x) \<and> (\<exists>e. r2 = Inr e \<and> map_of (lm_index m2) (gx_id e) = Some e)
    \<and> (\<exists>m3 s3. new_memory (lm_path m) s2 = (Inr m3, s3) \<and> lm_index m3 = index_of es)"
proof -
  let ?p = "lm_path m"
  note spot = memory_file_spot [OF held]
  obtain e0 n1 where n1: "lm_path n1 = ?p"
      "record_call shown c (m, s) = (Inl (broken ?p), (n1, noted ?p (take 1 (to_jsonl shown e0 @ [CHR 0x0A])) 1 s))"
  proof (rule record_outcomes [OF conjunct1 [OF spot] assms(3), of shown])
    fix e0 n1
    assume "lm_path n1 = ?p" and a: "\<And>n. dk_src s (dk_pos s) = Torn n \<Longrightarrow> record_call shown c (m, s)
      = (Inl (broken ?p), (n1, noted ?p (take n (to_jsonl shown e0 @ [CHR 0x0A])) 1 s))"
    moreover have "dk_src s (dk_pos s) = Torn 1" using src by simp
    ultimately show thesis using that a [of 1] by blast
  qed
  obtain z where "to_jsonl shown e0 = CHR ''{'' # z" using jsonl_braced [of shown e0] by auto
  then have s1: "r1 = Inl (broken ?p)" "m1 = n1" "s1 = noted ?p ''{'' 1 s" using n1 first by simp_all
  have "dk_src s1 (dk_pos s1) = Written" "dk_src s1 (Suc (dk_pos s1)) = Written" "memory_spot (lm_path m1) s1"
    using spot src by (simp_all add: s1 n1)
  note ready = this
  obtain e n2 where n2: "good_experience e"
      "record_call shown c' (m1, s1) = (Inr e, (n2\<lparr>lm_index := dict_set (gx_id e) e (lm_index m1)\<rparr>,
        noted ?p (to_jsonl shown e @ [CHR 0x0A]) 2 s1))"
  proof (rule record_outcomes [OF ready(3) assms(4), of shown])
    fix e n2
    assume "good_experience e" and a: "dk_src s1 (dk_pos s1) = Written \<Longrightarrow> dk_src s1 (Suc (dk_pos s1)) = Written \<Longrightarrow>
      record_call shown c' (m1, s1) = (Inr e, (n2\<lparr>lm_index := dict_set (gx_id e) e (lm_index m1)\<rparr>,
        noted (lm_path m1) (to_jsonl shown e @ [CHR 0x0A]) 2 s1))"
    then show thesis
      using that a [OF ready(1,2)] n1(1) s1(2) by simp
  qed
  define l where "l = CHR ''{'' # to_jsonl shown e"
  have s2: "r2 = Inr e" "m2 = n2\<lparr>lm_index := dict_set (gx_id e) e (lm_index m1)\<rparr>"
    "dk_files s2 (place s2 ?p) = Some (memory_text shown es @ l @ [CHR 0x0A])" "memory_spot ?p s2" "\<And>n. dk_pos s2 \<le> n \<Longrightarrow> dk_src s2 n = Written"
  proof -
    have eq: "r2 = Inr e" "m2 = n2\<lparr>lm_index := dict_set (gx_id e) e (lm_index m1)\<rparr>"
      "s2 = noted ?p (to_jsonl shown e @ [CHR 0x0A]) 2 s1" using n2(2) second by simp_all
    show "r2 = Inr e" "m2 = n2\<lparr>lm_index := dict_set (gx_id e) e (lm_index m1)\<rparr>"
      "dk_files s2 (place s2 ?p) = Some (memory_text shown es @ l @ [CHR 0x0A])" "memory_spot ?p s2" "\<And>n. dk_pos s2 \<le> n \<Longrightarrow> dk_src s2 n = Written"
      using spot src unfolding eq by (simp_all add: s1 l_def)
  qed
  have good: "list_all good_experience es" using held by (simp add: memory_file_def)
  have l: "list_all printing l" using jsonl_printing [OF assms(1) n2(1)] by (simp add: l_def)
  let ?t = "memory_text shown es @ l @ [CHR 0x0A]"
  have u: "universal ?t = ?t"
    using memory_text_no_return [OF assms(1) good] printing_no_line_end [OF l] by (intro universal_id) simp
  then have "unpruned ?t"
    using length_split_text [OF assms(1) good, of "l @ [CHR 0x0A]"] printing_no_line_end [OF l] size
    by (simp add: unpruned_def split_at_append)
  then obtain k where
    "new_memory ?p s2 = (Inr (fold remember es \<lparr>lm_path = ?p, lm_index = [], lm_anti = []\<rparr>), s2\<lparr>dk_pos := k\<rparr>)"
    using new_memory_reads [OF s2(4,3,5)] u load_bad_line [OF assms(1) good, of l json_error "[]"]
      printing_no_line_end [OF l] brace_brace [of shown e]
    by (auto simp: l_def json_error_def strip_def)
  then show ?thesis using s1(1) s2(1,2) by (simp add: remember_all index_of_def)
qed

section \<open>Examples\<close>

text \<open>
  The examples shown to the model are the best of the approved ones of the language and the module:
  they begin an ordering of all of these by falling score.
\<close>

theorem get_positive_best:
  "\<exists>others. mset (get_positive language mdl limit m @ others)
        = {# e \<in># mset (memory_experiences m). mo_human_decision (gx_outcome e) = ''approved''
             \<and> ma_language (gx_artifact e) = language \<and> sublist mdl (ma_module (gx_artifact e)) #}
     \<and> sorted_wrt (\<lambda>d e. mo_quality_score (gx_outcome e) \<le> mo_quality_score (gx_outcome d))
         (get_positive language mdl limit m @ others)
     \<and> length (get_positive language mdl limit m) = min limit (length (get_positive language mdl limit m @ others))"
proof -
  define q where "q = (\<lambda>e :: gen_experience. mo_quality_score (gx_outcome e))"
  define good where "good = (\<lambda>e :: gen_experience. mo_human_decision (gx_outcome e) = ''approved'' \<and> ma_language (gx_artifact e) = language
         \<and> sublist mdl (ma_module (gx_artifact e)))"
  define xs where "xs = rev (sort_key q (rev (filter good (memory_experiences m))))"
  have get: "get_positive language mdl limit m = take limit xs"
    by (simp add: get_positive_def xs_def q_def good_def)
  have "sorted_wrt (\<lambda>d e. q e \<le> q d) xs"
    using sorted_sort_key [of q "rev (filter good (memory_experiences m))"] by (simp add: xs_def sorted_wrt_rev sorted_map)
  moreover have "mset xs = {# e \<in># mset (memory_experiences m). good e #}" by (simp add: xs_def)
  ultimately show ?thesis
    unfolding get by (intro exI [of _ "drop limit xs"]) (simp add: good_def q_def)
qed

section \<open>A memory\<close>

definition memory_demo :: "(string list \<Rightarrow> string option) \<Rightarrow> (nat \<Rightarrow> write_outcome) \<Rightarrow> sys_world" where
  "memory_demo files src = \<lparr>uuid_src = demo_uuids, clock_src = demo_clock, uuid_pos = 0, clock_pos = 0,
     dk_files = files, dk_dirs = {[], [''w'']}, dk_cwd = ''/w'', dk_src = src, dk_pos = 0,
     wall_src = of_nat, wall_pos = 0\<rparr>"

definition demo_call :: record_args where
  "demo_call = (\<lparr>ms_provider = ''groq'', ms_model = ''m'', ms_prompt_hash = ''h''\<rparr>,
     \<lparr>mt_context_sources = [], mt_temperature = 1 / 2\<rparr>,
     \<lparr>ma_language = ''go'', ma_module = ''p/main'', ma_governance_refs = []\<rparr>, Rejected, ''r'', 1 / 2, Some [''globals''])"

lemma double_half: "is_double (1 / 2)"
  by code_simp

lemma demo_call_good: "good_call demo_call"
  by (simp add: good_call_def demo_call_def double_half)

definition demo_place :: "string list" where
  "demo_place = [''w'', ''m'']"

lemma memory_demo_place: "place (memory_demo files src) ''m'' = demo_place"
  by (simp add: memory_demo_def place_def path_join_def is_abs_def norm_pieces_def norm_piece_def demo_place_def)

lemma memory_demo_spot: "memory_spot ''m'' (memory_demo files src)"
  by (simp add: memory_spot_def memory_demo_place) (simp add: memory_demo_def demo_place_def)

lemma memory_demo_file: "memory_file exact_decimal ''m'' [] (memory_demo Map.empty src)"
  by (simp add: memory_file_def memory_demo_place) (simp add: memory_demo_def demo_place_def)

theorem memory_restart_witness:
  "\<exists>m t m' s' m'' u. new_memory ''m'' (memory_demo Map.empty (\<lambda>_. Written)) = (Inr m, t)
     \<and> run (record_call exact_decimal) (m, t) [demo_call, demo_call] = (m', s')
     \<and> new_memory ''m'' s' = (Inr m'', u) \<and> lm_index m'' = lm_index m'"
proof -
  let ?s = "memory_demo Map.empty (\<lambda>_. Written)"
  have calm: "calm ?s" by (simp add: calm_def memory_demo_def)
  obtain m t where start: "new_memory ''m'' ?s = (Inr m, t)"
    using new_memory_text [OF exact_decimal.float_repr_axioms calm memory_demo_file] by (auto simp: max_memory_entries_def)
  obtain m' s' where runs: "run (record_call exact_decimal) (m, t) [demo_call, demo_call] = (m', s')" by fastforce
  have "length ([] :: gen_experience list) + length [demo_call, demo_call] < max_memory_entries"
    by (simp add: max_memory_entries_def)
  from memory_restart [OF exact_decimal.float_repr_axioms calm memory_demo_file _ start runs this] demo_call_good start runs
  show ?thesis by auto
qed

theorem memory_load_stops_witness:
  "fst (new_memory ''m'' (memory_demo [demo_place \<mapsto> ''[]'' @ [CHR 0x0A]] (\<lambda>_. Written)))
     = Inl (type_error ''indices must be integers or slices, not str'')"
proof -
  let ?s = "memory_demo [demo_place \<mapsto> ''[]'' @ [CHR 0x0A]] (\<lambda>_. Written)"
  have "dk_files ?s demo_place = Some (memory_text exact_decimal [] @ ''[]'' @ CHR 0x0A # [])"
    by (simp add: memory_demo_def memory_text_def)
  moreover have "unpruned (memory_text exact_decimal [] @ ''[]'' @ CHR 0x0A # [])"
    by (simp add: unpruned_def memory_text_def utf8_def utf8_char_def max_memory_bytes_def)
  moreover have "json_loads (strip ''[]'') = Inr (PList [])"
    by code_simp
  moreover have "calm ?s" by (simp add: calm_def memory_demo_def)
  ultimately show ?thesis
    using memory_load_stops [OF exact_decimal.float_repr_axioms _ memory_demo_spot, of "[]" _ _ "''[]''" "[]" "PList []"]
    by (simp add: memory_demo_place)
qed

theorem memory_torn_write_witness:
  "\<exists>m1 s1 m2 s2 e m3 s3. (case record_call exact_decimal demo_call (\<lparr>lm_path = ''m'', lm_index = [], lm_anti = []\<rparr>,
       memory_demo Map.empty (\<lambda>n. if n = 0 then Torn 1 else Written)) of (r, w) \<Rightarrow> w = (m1, s1))
     \<and> record_call exact_decimal demo_call (m1, s1) = (Inr e, (m2, s2))
     \<and> map_of (lm_index m2) (gx_id e) = Some e \<and> new_memory ''m'' s2 = (Inr m3, s3) \<and> lm_index m3 = []"
proof -
  let ?s = "memory_demo Map.empty (\<lambda>n. if n = 0 then Torn 1 else Written)"
    and ?m = "\<lparr>lm_path = ''m'', lm_index = [], lm_anti = []\<rparr> :: learning_memory"
  obtain r1 m1 s1 where first: "record_call exact_decimal demo_call (?m, ?s) = (r1, (m1, s1))" by (metis surj_pair)
  obtain r2 m2 s2 where second: "record_call exact_decimal demo_call (m1, s1) = (r2, (m2, s2))" by (metis surj_pair)
  have "dk_src ?s = (\<lambda>n. if n = dk_pos ?s then Torn 1 else Written)" by (simp add: memory_demo_def)
  from memory_torn_write [OF exact_decimal.float_repr_axioms _ demo_call_good demo_call_good this first second, of "[]"]
  show ?thesis using memory_demo_file first second by (auto simp: max_memory_entries_def index_of_def)
qed

end
