(* ===== verification/Code_Patcher.thy ===== *)
theory Code_Patcher
  imports Learning_Memory
begin

text \<open>
  The patcher of the code generator (\<^verbatim>\<open>atlas_agent/code_patcher.py\<close>): the places in a Python text that
  need repair, the prompt for one of them, and the replacement of its lines. What \<^verbatim>\<open>ast.parse\<close> and
  \<^verbatim>\<open>ast.walk\<close> give for a text is a parameter: the nodes with the attributes the patcher reads, or the
  error with its line and message.
\<close>

section \<open>Lines\<close>

definition line_break :: "char \<Rightarrow> bool" where
  "line_break c \<longleftrightarrow> (of_char c :: nat) \<in> {10, 11, 12, 13, 28, 29, 30, 133}"

text \<open>\<^verbatim>\<open>s.splitlines(keepends=True)\<close>.\<close>

fun lines_keep :: "string \<Rightarrow> string list" where
  "lines_keep [] = []"
| "lines_keep [c] = [[c]]"
| "lines_keep (c # d # s) =
     (if c = CHR 0x0D \<and> d = CHR 0x0A then [c, d] # lines_keep s
      else if line_break c then [c] # lines_keep (d # s)
      else case lines_keep (d # s) of l # ls \<Rightarrow> (c # l) # ls | [] \<Rightarrow> [[c]])"

definition drop_break :: "string \<Rightarrow> string" where
  "drop_break l =
     (if l = [] then []
      else if last l = CHR 0x0A \<and> butlast l \<noteq> [] \<and> last (butlast l) = CHR 0x0D then butlast (butlast l)
      else if line_break (last l) then butlast l else l)"

text \<open>\<^verbatim>\<open>s.splitlines()\<close>.\<close>

definition split_lines :: "string \<Rightarrow> string list" where
  "split_lines s = map drop_break (lines_keep s)"

text \<open>Subscripts and slices of a list, with Python's reading of negative positions.\<close>

definition index_error :: exn where
  "index_error = Raised (OtherError ''IndexError'') ''list index out of range''"

definition py_index :: "'a list \<Rightarrow> int \<Rightarrow> exn + 'a" where
  "py_index xs i =
     (let k = (if i < 0 then i + int (length xs) else i)
      in if 0 \<le> k \<and> k < int (length xs) then Inr (xs ! nat k) else Inl index_error)"

definition slice_bound :: "'a list \<Rightarrow> int \<Rightarrow> nat" where
  "slice_bound xs i = nat (if i < 0 then max 0 (i + int (length xs)) else min i (int (length xs)))"

definition py_slice :: "'a list \<Rightarrow> int \<Rightarrow> int \<Rightarrow> 'a list" where
  "py_slice xs a b = drop (slice_bound xs a) (take (slice_bound xs b) xs)"

section \<open>Numbers in messages\<close>

text \<open>\<^verbatim>\<open>a / b\<close> of two integers is the double nearest to the quotient.\<close>

definition float_div :: "nat \<Rightarrow> nat \<Rightarrow> pyfloat" where
  "float_div a b = to_double (of_nat a / of_nat b)"

fun float_neg :: "pyfloat \<Rightarrow> pyfloat" where
  "float_neg (Fin q) = Fin (- q)"
| "float_neg PosInf = NegInf"
| "float_neg NegInf = PosInf"
| "float_neg NaN = NaN"

text \<open>The format \<open>.nf\<close>: the exact value rounded to that many decimals, ties to even. There is one zero here,
  so a value rounded to it has the sign of the value.\<close>

definition fixed_rat :: "nat \<Rightarrow> rat \<Rightarrow> string" where
  "fixed_rat n q =
     (let m = round_even (\<bar>q\<bar> * 10 ^ n)
      in (if q < 0 then ''-'' else []) @ show_int (m div 10 ^ n)
         @ (if n = 0 then [] else ''.'' @ padded n (m mod 10 ^ n)))"

fun fixed_text :: "nat \<Rightarrow> pyfloat \<Rightarrow> string" where
  "fixed_text n (Fin q) = fixed_rat n q"
| "fixed_text n PosInf = ''inf''"
| "fixed_text n NegInf = ''-inf''"
| "fixed_text n NaN = ''nan''"

section \<open>Syntax trees\<close>

text \<open>The first statement of a body, as far as the patcher looks at it.\<close>

datatype stmt = StringConstant | OtherStmt

datatype py_node =
    FunctionNode (node_name: string) (node_returns: bool) (node_args: "(string \<times> bool) list") (node_line: int)
      (node_end: "int option") (node_body: "stmt list")
  | ClassNode (node_name: string) (node_line: int) (node_body: "stmt list")
  | OtherNode

text \<open>What \<^verbatim>\<open>ast.parse\<close> gives, its nodes in the order of \<^verbatim>\<open>ast.walk\<close>.\<close>

datatype parsed = Parsed "py_node list" | BadSyntax "int option" string | NotParsed exn

section \<open>Targets\<close>

record patch_target =
  pt_line_start :: int
  pt_line_end :: int
  pt_issue_type :: string
  pt_description :: string
  pt_original_code :: string
  pt_context_before :: string
  pt_context_after :: string

definition plain_target :: "int \<Rightarrow> string \<Rightarrow> string \<Rightarrow> string \<Rightarrow> patch_target" where
  "plain_target line kind what code = \<lparr>pt_line_start = line, pt_line_end = line, pt_issue_type = kind,
     pt_description = what, pt_original_code = code, pt_context_before = [], pt_context_after = []\<rparr>"

definition has_docstring :: "stmt list \<Rightarrow> bool" where
  "has_docstring body = (case body of StringConstant # _ \<Rightarrow> True | _ \<Rightarrow> False)"

definition docstring_target :: "string \<Rightarrow> string list \<Rightarrow> string \<Rightarrow> int \<Rightarrow> stmt list \<Rightarrow> exn + patch_target list" where
  "docstring_target kind ls name line body =
     (if has_docstring body then Inr []
      else bindR (py_index ls (line - 1)) (\<lambda>l.
        Inr [plain_target line ''missing_docstring'' (kind @ '' '' @ quoted name @ '' missing docstring'') l]))"

definition hints_target ::
  "string list \<Rightarrow> string \<Rightarrow> bool \<Rightarrow> (string \<times> bool) list \<Rightarrow> int \<Rightarrow> int option \<Rightarrow> patch_target list" where
  "hints_target ls name returns args line end_line =
     (if returns \<and> list_all (\<lambda>(a, annotated). a = ''self'' \<or> annotated) args then []
      else let stop = (case end_line of Some e \<Rightarrow> if e = 0 then line else e | None \<Rightarrow> line) in
        [\<lparr>pt_line_start = line, pt_line_end = stop, pt_issue_type = ''missing_type_hints'',
          pt_description = ''Function '' @ quoted name @ '' missing type annotations'',
          pt_original_code = join [CHR 0x0A] (py_slice ls (line - 1) stop),
          pt_context_before = join [CHR 0x0A] (py_slice ls (max 0 (line - 3)) (line - 1)),
          pt_context_after = join [CHR 0x0A] (py_slice ls stop (min (int (length ls)) (stop + 2)))\<rparr>])"

fun node_targets :: "string list \<Rightarrow> py_node \<Rightarrow> exn + patch_target list" where
  "node_targets ls (FunctionNode name returns args line end_line body) =
     bindR (docstring_target ''Function'' ls name line body) (\<lambda>ts. Inr (hints_target ls name returns args line end_line @ ts))"
| "node_targets ls (ClassNode name line body) = docstring_target ''Class'' ls name line body"
| "node_targets ls OtherNode = Inr []"

fun walk_targets :: "string list \<Rightarrow> py_node list \<Rightarrow> exn + patch_target list" where
  "walk_targets ls [] = Inr []"
| "walk_targets ls (n # ns) =
     bindR (node_targets ls n) (\<lambda>ts. bindR (walk_targets ls ns) (\<lambda>us. Inr (ts @ us)))"

definition analyze_python :: "(string \<Rightarrow> parsed) \<Rightarrow> string \<Rightarrow> exn + patch_target list" where
  "analyze_python parse code =
     (let ls = split_lines code in
      case parse code of
        Parsed nodes \<Rightarrow> walk_targets ls nodes
      | NotParsed e \<Rightarrow> Inl e
      | BadSyntax line msg \<Rightarrow>
          (let n = (case line of Some k \<Rightarrow> k | None \<Rightarrow> 0) in
           bindR (if n \<noteq> 0 \<and> n \<le> int (length ls) then py_index ls (n - 1) else Inr []) (\<lambda>code_line.
           Inr [plain_target (if n = 0 then 1 else n) ''syntax_error'' msg code_line])))"

definition build_patch_prompt :: "patch_target \<Rightarrow> string \<Rightarrow> string" where
  "build_patch_prompt t language =
     (let nl = [CHR 0x0A]; kind = pt_issue_type t in
      if kind = ''missing_type_hints'' then
        ''Add type hints to this '' @ language @ '' function. Keep the exact same logic and structure. ''
          @ ''Only add parameter types and return type.'' @ nl @ nl
          @ ''Original:'' @ nl @ pt_original_code t @ nl @ nl @ ''Return ONLY the patched function. No markdown.''
      else if kind = ''missing_docstring'' then
        ''Add a docstring to this '' @ language @ '' function/class. Keep everything else exactly the same.'' @ nl @ nl
          @ ''Original:'' @ nl @ pt_original_code t @ nl @ nl @ ''Context before:'' @ nl @ pt_context_before t @ nl @ nl
          @ ''Return ONLY the patched version with docstring added. No markdown.''
      else if kind = ''syntax_error'' then
        ''Fix the syntax error in this '' @ language @ '' code.'' @ nl @ ''Error: '' @ pt_description t @ nl @ nl
          @ ''Code:'' @ nl @ pt_original_code t @ nl @ nl @ ''Return ONLY the fixed code. No markdown.''
      else
        ''Fix this issue in '' @ language @ '' code: '' @ pt_description t @ nl @ nl
          @ ''Code:'' @ nl @ pt_original_code t @ nl @ nl @ ''Return ONLY the fixed code. No markdown.'')"

section \<open>Patching\<close>

text \<open>The second of two equal lines that return or raise is dropped.\<close>

definition doubled :: "string \<Rightarrow> string \<Rightarrow> bool" where
  "doubled previous line \<longleftrightarrow> line = previous
     \<and> (take 7 (strip line) = ''return '' \<or> take 6 (strip line) = ''raise '')"

fun dedupe :: "string option \<Rightarrow> string list \<Rightarrow> string list" where
  "dedupe previous [] = []"
| "dedupe previous (l # ls) =
     (if (case previous of Some p \<Rightarrow> doubled p l | None \<Rightarrow> False) then dedupe (Some l) ls
      else l # dedupe (Some l) ls)"

definition apply_patch :: "string \<Rightarrow> patch_target \<Rightarrow> string \<Rightarrow> string" where
  "apply_patch code t section_text =
     (let ls = lines_keep code; n = int (length ls);
          start = max 0 (min (pt_line_start t - 1) n);
          stop = max start (min (pt_line_end t) n)
      in concat (dedupe None (lines_keep (concat
           (take (nat start) ls @ [strip section_text @ [CHR 0x0A]] @ drop (nat stop) ls)))))"

definition estimate_token_savings :: "string \<Rightarrow> patch_target list \<Rightarrow> nat \<times> nat \<times> string \<times> nat" where
  "estimate_token_savings code ts =
     (let full = length code; part = sum_list (map (length \<circ> pt_original_code) ts);
          saved = float_mult (float_add (Fin 1) (float_neg (float_div part (max full 1)))) (Fin 100)
      in (full, part, fixed_text 0 saved @ ''%'', length ts))"

section \<open>Facts\<close>

lemma lines_keep_Cons: "lines_keep (c # s) \<noteq> []"
  by (cases s) (auto split: list.split)

lemma lines_keep_concat [simp]: "concat (lines_keep s) = s"
  by (induction s rule: lines_keep.induct) (auto simp: lines_keep_Cons split: list.split)

text \<open>Nothing is lost around a patch but repeated lines.\<close>

fun no_doubled :: "string list \<Rightarrow> bool" where
  "no_doubled (l # l' # ls) \<longleftrightarrow> \<not> doubled l l' \<and> no_doubled (l' # ls)"
| "no_doubled ls \<longleftrightarrow> True"

lemma dedupe_after: "no_doubled (p # ls) \<Longrightarrow> dedupe (Some p) ls = ls"
  by (induction ls arbitrary: p) auto

lemma dedupe_id: "no_doubled ls \<Longrightarrow> dedupe None ls = ls"
  by (cases ls) (simp_all add: dedupe_after)

end
