(* ===== verification/Self_Correction.thy ===== *)
theory Self_Correction
  imports Code_Patcher Llm_Client
begin

text \<open>
  The self-correcting loop's own operations (\<^verbatim>\<open>atlas_agent/self_correcting_loop.py\<close>): the quality score in
  doubles, the strategy of an attempt, the context of a repair, the repair by patches and the metrics. A
  long dash of a message is written \<open>--\<close>. \<^verbatim>\<open>avg_latency\<close> and the engine's own history are never used and
  are left out.
\<close>

section \<open>Quality\<close>

datatype repair_strategy = PatchStrategy | RewriteStrategy | DifferentModel | DifferentPrompt

fun strategy_value :: "repair_strategy \<Rightarrow> string" where
  "strategy_value PatchStrategy = ''patch''"
| "strategy_value RewriteStrategy = ''rewrite''"
| "strategy_value DifferentModel = ''different_model''"
| "strategy_value DifferentPrompt = ''different_prompt''"

record quality_score =
  qs_syntax :: pyfloat
  qs_security :: pyfloat
  qs_completeness :: pyfloat
  qs_style :: pyfloat
  qs_overall :: pyfloat

definition new_quality_score :: quality_score where
  "new_quality_score = \<lparr>qs_syntax = Fin 0, qs_security = Fin 0, qs_completeness = Fin 0, qs_style = Fin 0,
     qs_overall = Fin 0\<rparr>"

text \<open>The literals are the doubles nearest to their decimals.\<close>

definition compute_overall :: "quality_score \<Rightarrow> quality_score" where
  "compute_overall q = q\<lparr>qs_overall :=
     float_add (float_add (float_add
       (float_mult (qs_syntax q) (to_double (35 / 100)))
       (float_mult (qs_security q) (to_double (30 / 100))))
       (float_mult (qs_completeness q) (to_double (20 / 100))))
       (float_mult (qs_style q) (to_double (15 / 100)))\<rparr>"

definition quality_passed :: "quality_score \<Rightarrow> bool" where
  "quality_passed q \<longleftrightarrow> float_le (to_double (8 / 10)) (qs_overall q)"

definition compute_quality_score :: "bool \<Rightarrow> security_finding list \<Rightarrow> string list \<Rightarrow> quality_score" where
  "compute_quality_score syntax_passed findings generated =
     (let critical = length (filter (\<lambda>f. sf_severity f = SevCritical) findings);
          high = length (filter (\<lambda>f. sf_severity f = SevHigh) findings)
      in compute_overall (new_quality_score\<lparr>
           qs_syntax := Fin (if syntax_passed then 1 else 0),
           qs_security := Fin (if critical > 0 then 0 else if high > 0 then 1 / 2 else 1),
           qs_completeness := Fin (min 1 (of_nat (length generated))),
           qs_style := Fin 1\<rparr>))"

section \<open>Strategies and contexts\<close>

record attempt_record =
  at_number :: nat
  at_strategy :: repair_strategy
  at_model_used :: string
  at_prompt_hash :: string
  at_quality_score :: quality_score
  at_errors :: "string list"
  at_security_findings :: "string list"
  at_code_length :: nat
  at_latency_seconds :: rat
  at_timestamp :: rat

definition loop_max_attempts :: nat where
  "loop_max_attempts = 5"

definition determine_strategy :: "nat \<Rightarrow> repair_strategy" where
  "determine_strategy n =
     (if n \<le> 2 then PatchStrategy else if n \<le> 4 then RewriteStrategy else DifferentPrompt)"

definition should_escalate_model :: "nat \<Rightarrow> bool" where
  "should_escalate_model n \<longleftrightarrow> 3 \<le> n"

fun strategy_part :: "repair_strategy \<Rightarrow> string" where
  "strategy_part PatchStrategy = ''REPAIR STRATEGY: PATCH -- Fix ONLY the specific errors below. ''
     @ ''Keep the rest of the code unchanged.''"
| "strategy_part RewriteStrategy = ''REPAIR STRATEGY: FULL REWRITE -- The previous approach failed. ''
     @ ''Rewrite the entire file from scratch, avoiding the errors below.''"
| "strategy_part s = ''REPAIR STRATEGY: DIFFERENT APPROACH -- Previous attempts failed. ''
     @ ''Try a fundamentally different implementation approach.''"

definition numbered_errors :: "string list \<Rightarrow> string list" where
  "numbered_errors errors = map (\<lambda>(i, e). ''  '' @ show_nat i @ ''. '' @ e) (zip [1..<Suc (length errors)] errors)"

definition attempt_line :: "attempt_record \<Rightarrow> string" where
  "attempt_line r = ''  Attempt '' @ show_nat (at_number r) @ '': strategy='' @ strategy_value (at_strategy r)
     @ '', score='' @ fixed_text 2 (qs_overall (at_quality_score r)) @ '', errors='' @ show_nat (length (at_errors r))"

definition repair_parts ::
  "string \<Rightarrow> string list \<Rightarrow> string list \<Rightarrow> string list \<Rightarrow> attempt_record list \<Rightarrow> repair_strategy \<Rightarrow> string list" where
  "repair_parts previous errors findings anti_patterns history strategy =
     (let nl = [CHR 0x0A]; fence = ''```'' in
      [strategy_part strategy]
      @ (if strategy = PatchStrategy \<and> previous \<noteq> []
         then [nl @ ''PREVIOUS CODE (fix errors in this code):'' @ nl @ fence @ nl @ previous @ nl @ fence] else [])
      @ (if errors \<noteq> [] then (nl @ ''ERRORS TO FIX:'') # numbered_errors errors else [])
      @ (if findings \<noteq> [] then (nl @ ''SECURITY ISSUES TO FIX:'') # map (\<lambda>f. ''  - '' @ f) findings else [])
      @ (if anti_patterns \<noteq> [] then [nl @ ''ANTI-PATTERNS TO AVOID: '' @ join '', '' anti_patterns] else [])
      @ (if history \<noteq> [] then (nl @ ''PREVIOUS ATTEMPTS (do NOT repeat these approaches):'')
           # map attempt_line (drop (length history - 3) history) else []))"

definition build_structured_repair_context ::
  "string \<Rightarrow> string list \<Rightarrow> string list \<Rightarrow> string list \<Rightarrow> attempt_record list \<Rightarrow> repair_strategy \<Rightarrow> string" where
  "build_structured_repair_context previous errors findings anti_patterns history strategy =
     join [CHR 0x0A] (repair_parts previous errors findings anti_patterns history strategy)"

section \<open>Metrics\<close>

record loop_metrics =
  lp_total_runs :: nat
  lp_successful_runs :: nat
  lp_failed_runs :: nat
  lp_total_attempts :: nat
  lp_scores_by_attempt :: "(nat, pyfloat list) dict"
  lp_common_failures :: "(string, nat) dict"

definition new_metrics :: loop_metrics where
  "new_metrics = \<lparr>lp_total_runs = 0, lp_successful_runs = 0, lp_failed_runs = 0, lp_total_attempts = 0,
     lp_scores_by_attempt = [], lp_common_failures = []\<rparr>"

definition success_rate :: "loop_metrics \<Rightarrow> pyfloat" where
  "success_rate m = float_div (lp_successful_runs m) (max (lp_total_runs m) 1)"

definition avg_attempts_per_success :: "loop_metrics \<Rightarrow> pyfloat" where
  "avg_attempts_per_success m = float_div (lp_total_attempts m) (max (lp_successful_runs m) 1)"

definition record_attempt :: "nat \<Rightarrow> pyfloat \<Rightarrow> loop_metrics \<Rightarrow> loop_metrics" where
  "record_attempt n score m =
     (let old = (case map_of (lp_scores_by_attempt m) n of Some xs \<Rightarrow> xs | None \<Rightarrow> [])
      in m\<lparr>lp_scores_by_attempt := dict_set n (old @ [score]) (lp_scores_by_attempt m)\<rparr>)"

definition record_failure_category :: "string \<Rightarrow> loop_metrics \<Rightarrow> loop_metrics" where
  "record_failure_category cat m =
     (let old = (case map_of (lp_common_failures m) cat of Some n \<Rightarrow> n | None \<Rightarrow> 0)
      in m\<lparr>lp_common_failures := dict_set cat (old + 1) (lp_common_failures m)\<rparr>)"

definition record_outcome :: "bool \<Rightarrow> nat \<Rightarrow> pyfloat \<Rightarrow> string list \<Rightarrow> loop_metrics \<Rightarrow> loop_metrics" where
  "record_outcome success attempts final cats m =
     (let m1 = m\<lparr>lp_total_runs := lp_total_runs m + 1, lp_total_attempts := lp_total_attempts m + attempts\<rparr>;
          m2 = (if success then m1\<lparr>lp_successful_runs := lp_successful_runs m + 1\<rparr>
            else fold record_failure_category cats (m1\<lparr>lp_failed_runs := lp_failed_runs m + 1\<rparr>))
      in fold (\<lambda>i. record_attempt i (if i = attempts then final else Fin 0)) [1..<Suc attempts] m2)"

text \<open>The sum runs from left to right, as up to Python 3.11.\<close>

fun float_over :: "pyfloat \<Rightarrow> nat \<Rightarrow> pyfloat" where
  "float_over (Fin q) n = to_double (q / of_nat n)"
| "float_over x n = x"

definition mean_text :: "pyfloat list \<Rightarrow> string" where
  "mean_text xs = fixed_text 2 (float_over (foldl float_add (Fin 0) xs) (length xs))"

record metrics_summary =
  su_total_runs :: nat
  su_success_rate :: string
  su_avg_attempts :: string
  su_common_failures :: "(string, nat) dict"
  su_scores_by_attempt :: "(nat, string) dict"

definition get_metrics :: "loop_metrics \<Rightarrow> metrics_summary" where
  "get_metrics m = \<lparr>su_total_runs = lp_total_runs m,
     su_success_rate = fixed_text 1 (float_mult (success_rate m) (Fin 100)) @ ''%'',
     su_avg_attempts = fixed_text 1 (avg_attempts_per_success m),
     su_common_failures = take 5 (sort_key (\<lambda>p. - int (snd p)) (lp_common_failures m)),
     su_scores_by_attempt = map (\<lambda>p. (fst p, mean_text (snd p))) (lp_scores_by_attempt m)\<rparr>"

section \<open>Repair by patches\<close>

text \<open>\<open>gen\<close> is the model client's \<^verbatim>\<open>generate_code\<close>; any exception of it skips the target.\<close>

fun apply_targets ::
  "(string \<Rightarrow> string \<Rightarrow> ('s, string) action) \<Rightarrow> string \<Rightarrow> patch_target list \<Rightarrow> string \<Rightarrow> nat \<Rightarrow>
   ('s, string \<times> nat) action" where
  "apply_targets gen language [] code n = ret (code, n)"
| "apply_targets gen language (t # ts) code n =
     bindA (catchA
       (bindA (gen (build_patch_prompt t language) language) (\<lambda>answer. ret (apply_patch code t answer, n + 1)))
       (\<lambda>e. ret (code, n))) (\<lambda>(code, n). apply_targets gen language ts code n)"

definition attempt_patch_repair ::
  "(string \<Rightarrow> parsed) \<Rightarrow> (string \<Rightarrow> string \<Rightarrow> ('s, string) action) \<Rightarrow> string \<Rightarrow> string \<Rightarrow>
   ('s, string \<times> bool) action" where
  "attempt_patch_repair parse gen code language =
     (if language \<noteq> ''python'' then ret (code, False)
      else
        bindA (lift_res (analyze_python parse code)) (\<lambda>targets.
        if targets = [] then ret (code, False)
        else
          bindA (apply_targets gen language (take 3 targets) code 0) (\<lambda>(patched, n).
          case parse patched of
            Parsed _ \<Rightarrow> ret (patched, n > 0)
          | BadSyntax _ _ \<Rightarrow> ret (code, False)
          | NotParsed e \<Rightarrow> raise e)))"

section \<open>What is shown\<close>

definition score_of :: "rat \<Rightarrow> rat \<Rightarrow> rat \<Rightarrow> quality_score" where
  "score_of a b c = compute_overall (new_quality_score\<lparr>qs_syntax := Fin a, qs_security := Fin b, qs_completeness := Fin c,
     qs_style := Fin 1\<rparr>)"

text \<open>Every sum and product of the score, rounded.\<close>

lemma score_doubles:
  "to_double (7 / 20) = Fin (3152519739159347 / 9007199254740992)"
  "to_double (3 / 10) = Fin (5404319552844595 / 18014398509481984)"
  "to_double (1 / 5) = Fin (3602879701896397 / 18014398509481984)"
  "to_double (3 / 20) = Fin (5404319552844595 / 36028797018963968)"
  "to_double (4 / 5) = Fin (3602879701896397 / 4503599627370496)"
  "to_double (5404319552844595 / 36028797018963968) = Fin (5404319552844595 / 36028797018963968)"
  "to_double (3602879701896397 / 18014398509481984) = Fin (3602879701896397 / 18014398509481984)"
  "to_double (12610078956637389 / 36028797018963968) = Fin (3152519739159347 / 9007199254740992)"
  "to_double (5404319552844595 / 18014398509481984) = Fin (5404319552844595 / 18014398509481984)"
  "to_double (18014398509481983 / 36028797018963968) = Fin (1 / 2)"
  "to_double (16212958658533785 / 36028797018963968) = Fin (2026619832316723 / 4503599627370496)"
  "to_double (1 / 2) = Fin (1 / 2)"
  "to_double (23418718062326579 / 36028797018963968) = Fin (5854679515581645 / 9007199254740992)"
  "to_double (3152519739159347 / 9007199254740992) = Fin (3152519739159347 / 9007199254740992)"
  "to_double (9907919180215091 / 18014398509481984) = Fin (2476979795053773 / 4503599627370496)"
  "to_double (25220157913274779 / 36028797018963968) = Fin (6305039478318695 / 9007199254740992)"
  "to_double (12610078956637389 / 18014398509481984) = Fin (3152519739159347 / 4503599627370496)"
  "to_double (30624477466119371 / 36028797018963968) = Fin (7656119366529843 / 9007199254740992)"
  "to_double (11709359031163289 / 18014398509481984) = Fin (1463669878895411 / 2251799813685248)"
  "to_double (1463669878895411 / 2251799813685248) = Fin (1463669878895411 / 2251799813685248)"
  "to_double (28823037615171171 / 36028797018963968) = Fin (7205759403792793 / 9007199254740992)"
  "to_double (15312238733059685 / 18014398509481984) = Fin (3828059683264921 / 4503599627370496)"
  "to_double (36028797018963963 / 36028797018963968) = Fin (9007199254740991 / 9007199254740992)"
  using to_double_scaled [of "7 / 20" 54 6305039478318694]
    to_double_scaled [of "3 / 10" 54 5404319552844595]
    to_double_scaled [of "1 / 5" 55 7205759403792794]
    to_double_scaled [of "3 / 20" 55 5404319552844595]
    to_double_scaled [of "4 / 5" 53 7205759403792794]
    to_double_scaled [of "5404319552844595 / 36028797018963968" 55 5404319552844595]
    to_double_scaled [of "3602879701896397 / 18014398509481984" 55 7205759403792794]
    to_double_scaled [of "12610078956637389 / 36028797018963968" 54 6305039478318694]
    to_double_scaled [of "5404319552844595 / 18014398509481984" 54 5404319552844595]
    to_double_scaled [of "18014398509481983 / 36028797018963968" 54 9007199254740992]
    to_double_scaled [of "16212958658533785 / 36028797018963968" 54 8106479329266892]
    to_double_scaled [of "1 / 2" 53 4503599627370496]
    to_double_scaled [of "23418718062326579 / 36028797018963968" 53 5854679515581645]
    to_double_scaled [of "3152519739159347 / 9007199254740992" 54 6305039478318694]
    to_double_scaled [of "9907919180215091 / 18014398509481984" 53 4953959590107546]
    to_double_scaled [of "25220157913274779 / 36028797018963968" 53 6305039478318695]
    to_double_scaled [of "12610078956637389 / 18014398509481984" 53 6305039478318694]
    to_double_scaled [of "30624477466119371 / 36028797018963968" 53 7656119366529843]
    to_double_scaled [of "11709359031163289 / 18014398509481984" 53 5854679515581644]
    to_double_scaled [of "1463669878895411 / 2251799813685248" 53 5854679515581644]
    to_double_scaled [of "28823037615171171 / 36028797018963968" 53 7205759403792793]
    to_double_scaled [of "15312238733059685 / 18014398509481984" 53 7656119366529842]
    to_double_scaled [of "36028797018963963 / 36028797018963968" 53 9007199254740991]
  by (simp_all add: near_def)

lemma zero_double: "to_double 0 = Fin 0"
  by (simp add: to_double_def)

lemma quality_passed_iff:
  "a \<in> {0, 1} \<Longrightarrow> b \<in> {0, 1 / 2, 1} \<Longrightarrow> c \<in> {0, 1} \<Longrightarrow> quality_passed (score_of a b c) \<longleftrightarrow> a = 1 \<and> b \<noteq> 0 \<and> c = 1"
  by (elim insertE emptyE; hypsubst)
    (simp_all add: score_of_def compute_overall_def quality_passed_def float_mult_def score_doubles zero_double)

lemma no_severity: "filter (\<lambda>f. sf_severity f = x) fs = [] \<longleftrightarrow> x \<notin> sf_severity ` set fs"
  by (auto simp: filter_empty_conv)

lemma min_one: "min 1 (of_nat (length xs)) = (if xs = [] then 0 else 1 :: rat)"
  by (cases xs) (simp_all add: min_def)

lemma score_cases:
  "compute_quality_score syntax_ok findings generated =
      score_of (if syntax_ok then 1 else 0)
        (if SevCritical \<in> sf_severity ` set findings then 0
         else if SevHigh \<in> sf_severity ` set findings then 1 / 2 else 1)
        (if generated = [] then 0 else 1)"
  by (simp add: compute_quality_score_def score_of_def Let_def min_one no_severity)

text \<open>
  C34. The threshold on the weighted score decides as this reference does: the syntax must be valid, no
  finding critical, and at least one file generated. That an attempt without files fails rests on the
  rounding of the sum alone, and a finding of high severity never fails an attempt.
\<close>

theorem quality_passes_iff:
  "quality_passed (compute_quality_score syntax_ok findings generated)
     \<longleftrightarrow> syntax_ok \<and> SevCritical \<notin> sf_severity ` set findings \<and> generated \<noteq> []"
  by (simp add: score_cases quality_passed_iff)

lemma apply_targets_zero:
  "apply_targets gen language ts code n s = (Inr (code', k), t) \<Longrightarrow> n \<le> k \<and> (k = n \<longrightarrow> code' = code)"
proof (induction ts arbitrary: code n s)
  case (Cons x ts)
  let ?m = "catchA (bindA (gen (build_patch_prompt x language) language) (\<lambda>answer. ret (apply_patch code x answer, n + 1)))
       (\<lambda>e. ret (code, n))"
  obtain r u where m: "?m s = (r, u)" by fastforce
  then obtain c j where r: "r = Inr (c, j)" "apply_targets gen language ts c j u = (Inr (code', k), t)"
    using Cons.prems by (cases r) (auto simp: bindA_def)
  then have "(c, j) = (code, n) \<or> j = n + 1"
    using m by (auto simp: catchA_def bindA_def ret_def split: prod.splits sum.splits if_splits)
  then show ?case using Cons.IH [OF r(2)] by auto
qed (simp add: ret_def)

text \<open>
  C40. A repair by patches never makes things worse: when it returns, its text is the original or one the
  parser accepts, and when it reports success it is a Python text that the parser accepts. It asks the
  model at most three times.
\<close>

theorem patch_repair_safe:
  fixes c :: "'s \<Rightarrow> nat"
  assumes "attempt_patch_repair parse gen code language s = (Inr (code', ok), t)"
    and "\<And>prompt lang. costs c k (gen prompt lang)"
  shows "(code' = code \<and> \<not> ok \<or> language = ''python'' \<and> (\<exists>nodes. parse code' = Parsed nodes))
    \<and> c t \<le> c s + 3 * k"
proof -
  have cost: "costs c (length ts * k) (apply_targets gen language ts x n)" for ts x n
  proof (induction ts arbitrary: x n)
    case (Cons y ts)
    let ?ask = "bindA (gen (build_patch_prompt y language) language) (\<lambda>answer. ret (apply_patch x y answer, n + 1))"
    have free: "costs c 0 (ret v)" for v :: "string \<times> nat" by (simp add: costs_def ret_def)
    have "costs c (k + 0) ?ask" by (rule costs_bind [OF assms(2) free]) simp
    from costs_catch [OF this free] have step: "costs c k (catchA ?ask (\<lambda>e. ret (x, n)))" by simp
    have "costs c (k + length ts * k) (apply_targets gen language (y # ts) x n)"
      unfolding apply_targets.simps by (rule costs_bind [OF step]) (auto simp: Cons split: prod.split)
    then show ?case by simp
  qed (simp add: costs_def ret_def)
  show ?thesis
  proof (cases "language = ''python''")
    case True
    obtain ts where ts: "analyze_python parse code = Inr ts"
      using assms(1) True by (cases "analyze_python parse code") (auto simp: attempt_patch_repair_def bindA_def lift_res_def)
    show ?thesis
    proof (cases "ts = []")
      case False
      obtain r u where a: "apply_targets gen language (take 3 ts) code 0 s = (r, u)" by fastforce
      then obtain p n where r: "r = Inr (p, n)"
        using assms(1) True ts False by (cases r) (auto simp: attempt_patch_repair_def bindA_def lift_res_def)
      have u: "t = u" "code' = code \<and> \<not> ok \<or> code' = p \<and> (\<exists>nodes. parse p = Parsed nodes)"
        using assms(1) True ts False a r
        by (auto simp: attempt_patch_repair_def bindA_def lift_res_def ret_def raise_def split: parsed.splits)
      have "c u \<le> c s + length (take 3 ts) * k" using cost [of "take 3 ts" code 0] a by (metis costs_def snd_conv)
      also have "... \<le> c s + 3 * k" by simp
      finally show ?thesis using True u by auto
    qed (use assms(1) True ts in \<open>simp add: attempt_patch_repair_def bindA_def lift_res_def ret_def\<close>)
  qed (use assms(1) in \<open>simp add: attempt_patch_repair_def ret_def\<close>)
qed

type_synonym loop_outcome = "bool \<times> nat \<times> pyfloat \<times> string list"

definition record_runs :: "loop_outcome list \<Rightarrow> loop_metrics" where
  "record_runs runs = fold (\<lambda>(ok, n, final, cats). record_outcome ok n final cats) runs new_metrics"

definition scores_at :: "loop_metrics \<Rightarrow> nat \<Rightarrow> nat" where
  "scores_at m i = (case map_of (lp_scores_by_attempt m) i of Some xs \<Rightarrow> length xs | None \<Rightarrow> 0)"

lemma scores_record: "scores_at (record_attempt n x m) i = scores_at m i + (if i = n then 1 else 0)"
  by (auto simp: scores_at_def record_attempt_def Let_def update_conv' split: option.split)

lemma scores_records:
  "scores_at (fold (\<lambda>j. record_attempt j (f j)) js m) i = scores_at m i + length (filter (\<lambda>j. j = i) js)"
  by (induction js arbitrary: m) (simp_all add: scores_record)

lemma record_attempt_counts [simp]:
  "lp_total_runs (fold (\<lambda>j. record_attempt j (f j)) js m) = lp_total_runs m"
  "lp_successful_runs (fold (\<lambda>j. record_attempt j (f j)) js m) = lp_successful_runs m"
  "lp_failed_runs (fold (\<lambda>j. record_attempt j (f j)) js m) = lp_failed_runs m"
  "lp_total_attempts (fold (\<lambda>j. record_attempt j (f j)) js m) = lp_total_attempts m"
  by (induction js arbitrary: m) (simp_all add: record_attempt_def)

lemma record_failure_counts [simp]:
  "lp_total_runs (fold record_failure_category cats m) = lp_total_runs m"
  "lp_successful_runs (fold record_failure_category cats m) = lp_successful_runs m"
  "lp_failed_runs (fold record_failure_category cats m) = lp_failed_runs m"
  "lp_total_attempts (fold record_failure_category cats m) = lp_total_attempts m"
  "lp_scores_by_attempt (fold record_failure_category cats m) = lp_scores_by_attempt m"
  by (induction cats arbitrary: m) (simp_all add: record_failure_category_def)

lemma outcome_counts:
  "lp_total_runs (record_outcome ok n final cats m) = lp_total_runs m + 1"
  "lp_successful_runs (record_outcome ok n final cats m) = lp_successful_runs m + (if ok then 1 else 0)"
  "lp_failed_runs (record_outcome ok n final cats m) = lp_failed_runs m + (if ok then 0 else 1)"
  "lp_total_attempts (record_outcome ok n final cats m) = lp_total_attempts m + n"
  by (simp_all add: record_outcome_def Let_def del: upt_Suc)

lemma one_index: "length (filter (\<lambda>j. j = i) [1..<Suc n]) = (if 1 \<le> i \<and> i \<le> n then 1 else 0)"
proof -
  have "length (filter (\<lambda>j. j = i) [1..<Suc n]) = card {j \<in> {1..<Suc n}. j = i}"
    by (subst distinct_card [symmetric]) (auto intro: arg_cong [where f = card])
  also have "{j \<in> {1..<Suc n}. j = i} = (if 1 \<le> i \<and> i \<le> n then {i} else {})" by auto
  finally show ?thesis by simp
qed

lemma outcome_scores:
  "scores_at (record_outcome ok n final cats m) i = scores_at m i + (if 1 \<le> i \<and> i \<le> n then 1 else 0)"
  unfolding record_outcome_def Let_def scores_records one_index by (simp add: scores_at_def)

text \<open>
  The metrics count what was recorded: the runs, those that succeeded and those that failed, all
  attempts, and for every attempt number one score for each run that got so far.
\<close>

theorem loop_metrics_count:
  "lp_total_runs (record_runs runs) = length runs
   \<and> lp_successful_runs (record_runs runs) = length (filter fst runs)
   \<and> lp_failed_runs (record_runs runs) + length (filter fst runs) = length runs
   \<and> lp_total_attempts (record_runs runs) = sum_list (map (fst \<circ> snd) runs)
   \<and> (\<forall>i. scores_at (record_runs runs) i = length (filter (\<lambda>r. 1 \<le> i \<and> i \<le> fst (snd r)) runs))"
proof -
  define g where "g = (\<lambda>(ok, n, final, cats). record_outcome ok n final cats)"
  have "lp_total_runs (fold g runs m) = lp_total_runs m + length runs
   \<and> lp_successful_runs (fold g runs m) = lp_successful_runs m + length (filter fst runs)
   \<and> lp_failed_runs (fold g runs m) + length (filter fst runs) = lp_failed_runs m + length runs
   \<and> lp_total_attempts (fold g runs m) = lp_total_attempts m + sum_list (map (fst \<circ> snd) runs)
   \<and> (\<forall>i. scores_at (fold g runs m) i = scores_at m i + length (filter (\<lambda>r. 1 \<le> i \<and> i \<le> fst (snd r)) runs))" for m
  proof (induction runs arbitrary: m)
    case (Cons r runs)
    obtain ok n final cats where r: "r = (ok, n, final, cats)" by (cases r)
    then have g: "g r m = record_outcome ok n final cats m" by (simp add: g_def)
    have "fold g (r # runs) m = fold g runs (record_outcome ok n final cats m)" by (simp add: g)
    then show ?case
      using Cons [of "record_outcome ok n final cats m"] by (cases ok) (simp_all add: r outcome_counts outcome_scores)
  qed simp
  moreover have "lp_total_runs new_metrics = 0" "lp_successful_runs new_metrics = 0" "lp_failed_runs new_metrics = 0"
    "lp_total_attempts new_metrics = 0" "scores_at new_metrics i = 0" for i
    by (simp_all add: new_metrics_def scores_at_def)
  moreover have "record_runs runs = fold g runs new_metrics" by (simp add: record_runs_def g_def)
  ultimately show ?thesis by simp
qed

section \<open>The context of a repair\<close>

lemma join_member: "x \<in> set xs \<Longrightarrow> sublist x (join sep xs)"
proof (induction sep xs rule: join.induct)
  case (3 sep s u us)
  show ?case
  proof (cases "x = s")
    case True
    then show ?thesis by (simp add: sublist_appendI [of x "[]", simplified])
  next
    case False
    then have "sublist x (join sep (u # us))" using 3 by auto
    then show ?thesis by (metis join.simps(3) sublist_append append.assoc)
  qed
qed auto

lemma sublist_middle: "sublist x (a @ x)" "sublist x (a @ x @ b)"
  by (auto simp: sublist_def intro: exI [of _ "[]"])

text \<open>
  The context of a repair tells the model everything that went wrong: every error, every security
  finding and every anti-pattern is part of it, and so is the previous text when it is to be patched.
\<close>

theorem repair_context_complete:
  assumes "x \<in> set errors \<union> set findings \<union> set anti_patterns \<union> (if strategy = PatchStrategy then {previous} else {})"
  shows "sublist x (build_structured_repair_context previous errors findings anti_patterns history strategy)"
proof -
  let ?parts = "repair_parts previous errors findings anti_patterns history strategy"
  have none: "numbered_errors [] = []" by (simp add: numbered_errors_def)
  have parts: "set (numbered_errors errors) \<subseteq> set ?parts" "(\<lambda>f. ''  - '' @ f) ` set findings \<subseteq> set ?parts"
    unfolding repair_parts_def Let_def set_append
    by (cases "errors = []", simp only: none list.set(1) empty_subsetI, simp only: if_True list.set(2) simp_thms, blast)
      (cases "findings = []", simp only: list.set(1) image_empty empty_subsetI, simp only: if_True list.set(2) set_map simp_thms, blast)
  have "\<exists>p \<in> set ?parts. sublist x p \<or> x = []"
    using assms
  proof (elim UnE)
    assume x: "x \<in> set errors"
    then obtain k where k: "k < length errors" "errors ! k = x" by (auto simp: in_set_conv_nth)
    then have "(Suc k, x) = zip [1..<Suc (length errors)] errors ! k" "k < length (zip [1..<Suc (length errors)] errors)"
      by (simp_all del: upt_Suc)
    then have "(Suc k, x) \<in> set (zip [1..<Suc (length errors)] errors)" by (metis nth_mem)
    then have "''  '' @ show_nat (Suc k) @ ''. '' @ x \<in> set (numbered_errors errors)"
      unfolding numbered_errors_def set_map by (rule rev_image_eqI) simp
    moreover have "sublist x (''  '' @ show_nat (Suc k) @ ''. '' @ x)"
      using sublist_middle(1) [of x "''  '' @ show_nat (Suc k) @ ''. ''"] by simp
    ultimately show ?thesis using parts(1) by blast
  next
    assume x: "x \<in> set findings"
    moreover have "sublist x (''  - '' @ x)" by (rule sublist_middle)
    ultimately show ?thesis using parts(2) by blast
  next
    assume x: "x \<in> set anti_patterns"
    then have "sublist x (join '', '' anti_patterns)" by (rule join_member)
    then have "sublist x ([CHR 0x0A] @ ''ANTI-PATTERNS TO AVOID: '' @ join '', '' anti_patterns)"
      by (rule sublist_order.order_trans)
        (rule sublist_middle(1) [of _ "[CHR 0x0A] @ ''ANTI-PATTERNS TO AVOID: ''", unfolded append.assoc])
    moreover have "[CHR 0x0A] @ ''ANTI-PATTERNS TO AVOID: '' @ join '', '' anti_patterns \<in> set ?parts"
    proof -
      have "anti_patterns \<noteq> []" using x by auto
      then show ?thesis unfolding repair_parts_def Let_def set_append by (simp only: if_True list.set(2) simp_thms) blast
    qed
    ultimately show ?thesis by blast
  next
    assume x: "x \<in> (if strategy = PatchStrategy then {previous} else {})"
    have "sublist previous (([CHR 0x0A] @ ''PREVIOUS CODE (fix errors in this code):'' @ [CHR 0x0A] @ ''```'' @ [CHR 0x0A])
        @ previous @ ([CHR 0x0A] @ ''```''))" by (rule sublist_middle)
    moreover have "x = previous" "strategy = PatchStrategy" using x by (simp_all split: if_splits)
    moreover have "x \<noteq> [] \<Longrightarrow> ([CHR 0x0A] @ ''PREVIOUS CODE (fix errors in this code):'' @ [CHR 0x0A] @ ''```'' @ [CHR 0x0A])
        @ previous @ ([CHR 0x0A] @ ''```'') \<in> set ?parts"
      unfolding repair_parts_def Let_def set_append
      using calculation(2,3) by (simp only: append_assoc if_True list.set(2) simp_thms) blast
    moreover have "?parts \<noteq> []" by (simp only: repair_parts_def Let_def append_Cons list.distinct simp_thms)
    ultimately show ?thesis by (metis list.set_intros(1) neq_Nil_conv)
  qed
  then show ?thesis
    unfolding build_structured_repair_context_def using join_member sublist_order.order_trans by fastforce
qed

section \<open>Examples\<close>

definition demo_tree :: "string \<Rightarrow> parsed" where
  "demo_tree code = Parsed (if code = ''def f(x): pass''
     then [FunctionNode ''f'' False [(''x'', False)] 1 (Some 1) [OtherStmt]] else [])"

definition demo_gen :: "string \<Rightarrow> string \<Rightarrow> (nat, string) action" where
  "demo_gen prompt language = bindA (modify Suc) (\<lambda>_. ret ''def f(x: int) -> None: pass'')"

lemma demo_lines: "split_lines ''def f(x): pass'' = [''def f(x): pass'']"
  by code_simp

theorem patch_repair_safe_witness:
  "\<exists>code' ok t. attempt_patch_repair demo_tree demo_gen ''def f(x): pass'' ''python'' 0 = (Inr (code', ok), t)
     \<and> (code' = ''def f(x): pass'' \<and> \<not> ok \<or> (\<exists>nodes. demo_tree code' = Parsed nodes)) \<and> t \<le> 3"
proof -
  have "\<exists>code' ok t. attempt_patch_repair demo_tree demo_gen ''def f(x): pass'' ''python'' 0 = (Inr (code', ok), t)"
    by (simp add: attempt_patch_repair_def analyze_python_def demo_tree_def demo_gen_def action_simps docstring_target_def
        has_docstring_def py_index_def demo_lines hints_target_def Let_def) blast
  then obtain code' ok t where run: "attempt_patch_repair demo_tree demo_gen ''def f(x): pass'' ''python'' 0 = (Inr (code', ok), t)"
    by blast
  have "costs id 1 (demo_gen prompt lang)" for prompt lang
    by (simp add: costs_def demo_gen_def action_simps)
  from patch_repair_safe [OF run, of id 1, OF this] run show ?thesis by auto
qed

theorem repair_context_complete_witness:
  "sublist ''bad import'' (build_structured_repair_context ''x = 1'' [''bad import'', ''syntax''] [] [] [] RewriteStrategy)"
  by (rule repair_context_complete) simp

end
