(* ===== verification/Validator.thy ===== *)
theory Validator
  imports Self_Correction Governance
begin

text \<open>
  The validator of the code generator (\<^verbatim>\<open>atlas_agent/validator.py\<close>): the syntax check, the security scan
  and the tests of each language. A tool is run by \<open>exec\<close>, which stands for \<^verbatim>\<open>subprocess.run\<close> and the
  program it starts: it may do anything to the state, and ends with the exit code and the two outputs or
  with an exception. \<open>parse\<close> is \<^verbatim>\<open>ast.parse\<close>, \<open>filename\<close> the attribute of that name of an exception. The
  durations of the results are constants that nothing reads, and are left out.
\<close>

section \<open>Tools\<close>

record proc_result =
  pr_returncode :: int
  pr_stdout :: string
  pr_stderr :: string

type_synonym 's tool = "string list \<Rightarrow> string option \<Rightarrow> nat \<Rightarrow> ('s, proc_result) action"

definition is_class :: "string \<Rightarrow> exn \<Rightarrow> bool" where
  "is_class n e = (case e of Raised (OtherError m) _ \<Rightarrow> m = n | _ \<Rightarrow> False)"

text \<open>\<^verbatim>\<open>os.path.relpath\<close> with the working directory \<open>w\<close>.\<close>

fun common_prefix :: "'a list \<Rightarrow> 'a list \<Rightarrow> nat" where
  "common_prefix (x # xs) (y # ys) = (if x = y then Suc (common_prefix xs ys) else 0)"
| "common_prefix xs ys = 0"

definition relpath :: "string \<Rightarrow> string \<Rightarrow> string \<Rightarrow> exn + string" where
  "relpath w p start =
     (if p = [] then Inl (value_error ''no path specified'')
      else
        let a = norm_pieces (path_join w start); b = norm_pieces (path_join w p); i = common_prefix a b;
            rel = replicate (length a - i) ''..'' @ drop i b
        in Inr (if rel = [] then ''.'' else join [slash] rel))"

text \<open>The directory a project tool runs in.\<close>

definition project_dir :: "string \<Rightarrow> 'z disk_world_scheme \<Rightarrow> string" where
  "project_dir p s = (let q = abspath (dk_cwd s) p in if is_dir q s then q else dirname q)"

definition to_relative :: "string \<Rightarrow> string \<Rightarrow> string" where
  "to_relative w p =
     (if is_abs p then (case relpath w p ''.'' of Inr r \<Rightarrow> r | Inl _ \<Rightarrow> basename p) else p)"

section \<open>Syntax\<close>

definition check_result :: "bool \<Rightarrow> string \<Rightarrow> string list \<Rightarrow> test_result" where
  "check_result ok out errs = \<lparr>tr_name = ''syntax_check'', tr_passed = ok, tr_output = out, tr_errors = errs\<rparr>"

definition tool_result :: "proc_result \<Rightarrow> test_result" where
  "tool_result r = check_result (pr_returncode r = 0) (pr_stdout r) (split_lines (pr_stderr r))"

text \<open>Commands up to the first that fails.\<close>

fun run_commands :: "'s tool \<Rightarrow> string \<Rightarrow> string list list \<Rightarrow> ('s, test_result) action" where
  "run_commands exec dir [] = ret (check_result True [] [])"
| "run_commands exec dir [c] = bindA (exec c (Some dir) 30) (\<lambda>r. ret (tool_result r))"
| "run_commands exec dir (c # cs) =
     bindA (exec c (Some dir) 30) (\<lambda>r.
     if pr_returncode r \<noteq> 0 then ret (tool_result r) else run_commands exec dir cs)"

definition go_commands :: "string list list" where
  "go_commands = [[''go'', ''vet'', ''./...''], [''go'', ''test'', ''./...''], [''go'', ''test'', ''-race'', ''./...''],
     [''go'', ''build'', ''./...'']]"

definition check_go :: "('z disk_world_scheme) tool \<Rightarrow> string \<Rightarrow> ('z disk_world_scheme, test_result) action" where
  "check_go exec p =
     bindA (gets (project_dir p)) (\<lambda>dir.
     bindA (exec [''gofmt'', ''-l'', ''.''] (Some dir) 30) (\<lambda>r.
     if pr_returncode r \<noteq> 0 then ret (tool_result r)
     else if strip (pr_stdout r) \<noteq> []
     then ret (check_result False (pr_stdout r) [''Go source is not gofmt-formatted''])
     else run_commands exec dir go_commands))"

definition check_syntax ::
  "(string \<Rightarrow> exn + unit) \<Rightarrow> ('z disk_world_scheme) tool \<Rightarrow> string \<Rightarrow> string \<Rightarrow>
   ('z disk_world_scheme, test_result) action" where
  "check_syntax parse exec p language =
     catchA
       (if language = ''python'' then
          bindA (read_text p) (\<lambda>source. bindA (lift_res (parse source)) (\<lambda>_. ret (check_result True [] [])))
        else if language = ''rust'' then
          bindA (exec [''rustc'', ''--emit=metadata'', p] None 30) (\<lambda>r. ret (tool_result r))
        else if language = ''go'' then check_go exec p
        else ret (check_result False [] [''Unsupported language'']))
       (\<lambda>e. ret (check_result False [] [exn_str e]))"

section \<open>Security\<close>

definition scan_finding :: "security_level \<Rightarrow> string \<Rightarrow> string \<Rightarrow> string \<Rightarrow> string \<Rightarrow> exn + security_finding list" where
  "scan_finding sev cat msg path sug = map_sum id (\<lambda>f. [f]) (new_security_finding sev cat msg path None sug)"

definition or_text :: "string \<Rightarrow> string \<Rightarrow> string" where
  "or_text a b = (if a \<noteq> [] then a else b)"

text \<open>The lines of \<^verbatim>\<open>go vet\<close> that speak of dependencies are no errors of the code.\<close>

definition real_errors :: "string \<Rightarrow> string list" where
  "real_errors err = filter (\<lambda>l. \<not> sublist ''no required module'' l \<and> \<not> sublist ''cannot find package'' l
     \<and> \<not> sublist ''build constraints exclude'' l \<and> \<not> sublist ''missing go.mod'' l \<and> strip l \<noteq> []) (split_lines err)"

definition scan_python :: "'s tool \<Rightarrow> string \<Rightarrow> string \<Rightarrow> ('s, security_finding list) action" where
  "scan_python exec p shown_path =
     bindA (exec [''bandit'', ''-r'', p] None 30) (\<lambda>r.
     if pr_returncode r \<noteq> 0
     then lift_res (scan_finding SevMedium ''security_scan'' ''Bandit scan found issues'' shown_path
       (or_text (strip (pr_stderr r)) ''Review Bandit output''))
     else ret [])"

definition scan_go ::
  "('z disk_world_scheme) tool \<Rightarrow> string \<Rightarrow> string \<Rightarrow> string \<Rightarrow> ('z disk_world_scheme, security_finding list) action" where
  "scan_go exec p base shown_path =
     bindA (gets (\<lambda>s. let dir = (if base \<noteq> [] then base else project_dir p s) in (dir, path_exists (path_join dir ''go.mod'') s)))
       (\<lambda>(dir, has_mod).
     if \<not> has_mod then ret []
     else bindA (exec [''go'', ''vet'', ''./...''] (Some dir) 30) (\<lambda>r.
       if pr_returncode r \<noteq> 0 \<and> real_errors (pr_stderr r) \<noteq> []
       then lift_res (scan_finding SevHigh ''go_security_validation'' ''Go vet reported issues'' shown_path
         (or_text (join [CHR 0x0A] (take 5 (real_errors (pr_stderr r)))) ''Review go vet output''))
       else ret []))"

definition scan_rust ::
  "('z disk_world_scheme) tool \<Rightarrow> string \<Rightarrow> string \<Rightarrow> ('z disk_world_scheme, security_finding list) action" where
  "scan_rust exec p shown_path =
     bindA (gets (project_dir p)) (\<lambda>dir.
     bindA (exec [''cargo'', ''clippy'', ''--'', ''-D'', ''warnings''] (Some dir) 120) (\<lambda>r.
     if pr_returncode r \<noteq> 0
     then lift_res (scan_finding SevHigh ''rust_clippy'' ''Cargo clippy reported warnings/errors'' shown_path
       (or_text (or_text (strip (pr_stdout r)) (strip (pr_stderr r))) ''Review cargo clippy output''))
     else ret []))"

definition run_security_scan ::
  "(exn \<Rightarrow> string) \<Rightarrow> ('z disk_world_scheme) tool \<Rightarrow> string \<Rightarrow> string \<Rightarrow> string \<Rightarrow>
   ('z disk_world_scheme, security_finding list) action" where
  "run_security_scan filename exec p language base =
     bindA (gets dk_cwd) (\<lambda>w.
     bindA (lift_res (if base \<noteq> [] \<and> is_abs p then relpath w p base else Inr p)) (\<lambda>shown_path.
     catchA
       (if language = ''python'' then scan_python exec p shown_path
        else if language = ''go'' then scan_go exec p base shown_path
        else if language = ''rust'' then scan_rust exec p shown_path
        else raise (value_error (''Unsupported security scan language: '' @ language)))
       (\<lambda>e. if is_class ''FileNotFoundError'' e
          then raise (runtime_error (''Required security scanner is unavailable for '' @ language @ '': '' @ filename e))
          else if is_class ''TimeoutExpired'' e
          then raise (runtime_error (''Security scan timed out for '' @ language @ '': '' @ p))
          else raise e)))"

section \<open>Tests\<close>

text \<open>\<^verbatim>\<open>run_tests\<close> splits the error output at line feeds only.\<close>

definition run_tests :: "'s tool \<Rightarrow> string \<Rightarrow> string \<Rightarrow> ('s, test_result list) action" where
  "run_tests exec dir language =
     (if language \<noteq> ''python'' then ret []
      else catchA
        (bindA (exec [''python3'', ''-m'', ''pytest'', dir] None 60) (\<lambda>r.
         ret [\<lparr>tr_name = ''unit_tests'', tr_passed = (pr_returncode r = 0), tr_output = pr_stdout r,
           tr_errors = (if pr_stderr r \<noteq> [] then split_at (CHR 0x0A) (pr_stderr r) else [])\<rparr>]))
        (\<lambda>e. if is_class ''FileNotFoundError'' e
           then ret [\<lparr>tr_name = ''unit_tests'', tr_passed = False, tr_output = [], tr_errors = [''pytest not found'']\<rparr>]
           else if is_class ''TimeoutExpired'' e
           then ret [\<lparr>tr_name = ''unit_tests'', tr_passed = False, tr_output = [], tr_errors = [''Test timeout'']\<rparr>]
           else raise e))"

section \<open>What the scan can report\<close>

definition only_below :: "('s, security_finding list) action \<Rightarrow> bool" where
  "only_below m \<longleftrightarrow> (\<forall>s fs t. m s = (Inr fs, t) \<longrightarrow> SevCritical \<notin> sf_severity ` set fs)"

lemma only_below_basic: "only_below (ret [])" "only_below (raise e)"
  by (simp_all add: only_below_def ret_def raise_def)

lemma only_below_finding: "sev \<noteq> SevCritical \<Longrightarrow> only_below (lift_res (scan_finding sev cat msg path sug))"
  by (auto simp: only_below_def lift_res_def scan_finding_def new_security_finding_def split: if_splits)

lemma only_below_bind: "(\<And>x. only_below (f x)) \<Longrightarrow> only_below (bindA m f)"
  by (fastforce simp: only_below_def bindA_def split: prod.splits sum.splits)

lemma only_below_catch: "only_below m \<Longrightarrow> (\<And>e. only_below (h e)) \<Longrightarrow> only_below (catchA m h)"
  by (fastforce simp: only_below_def catchA_def split: prod.splits sum.splits if_splits)

lemma only_below_if: "only_below m \<Longrightarrow> only_below m' \<Longrightarrow> only_below (if b then m else m')"
  by simp

lemmas only_below_rules = only_below_basic only_below_finding only_below_bind only_below_catch only_below_if

lemma scan_below: "only_below (run_security_scan filename exec p language base)"
  unfolding run_security_scan_def scan_python_def scan_go_def scan_rust_def
  by (intro only_below_rules security_level.distinct) (auto split: prod.split intro!: only_below_rules)

section \<open>What a passed check means\<close>

text \<open>The commands are run one after the other from the state \<open>s\<close>, each returns zero, and \<open>t\<close> is the state
  after the last.\<close>

fun returned_zero :: "'s tool \<Rightarrow> string option \<Rightarrow> string list list \<Rightarrow> 's \<Rightarrow> 's \<Rightarrow> bool" where
  "returned_zero exec dir [] s t \<longleftrightarrow> s = t"
| "returned_zero exec dir (c # cs) s t \<longleftrightarrow>
     (case exec c dir 30 s of
        (Inr r, u) \<Rightarrow> pr_returncode r = 0 \<and> returned_zero exec dir cs u t
      | (Inl e, u) \<Rightarrow> False)"

lemma tool_result_passed [simp]: "tr_passed (tool_result r) \<longleftrightarrow> pr_returncode r = 0"
  by (simp add: tool_result_def check_result_def)

lemma run_commands_passed:
  "run_commands exec dir cs s = (Inr r, t) \<Longrightarrow> tr_passed r \<Longrightarrow> returned_zero exec (Some dir) cs s t"
proof (induction exec dir cs arbitrary: s rule: run_commands.induct)
  case (3 exec dir c c' cs)
  then obtain x u where x: "exec c (Some dir) 30 s = (Inr x, u)"
      "(if pr_returncode x \<noteq> 0 then ret (tool_result x) else run_commands exec dir (c' # cs)) u = (Inr r, t)"
    by (auto simp: bind_value)
  have "pr_returncode x = 0" using x(2) 3(3) by (auto simp: ret_def split: if_splits)
  with x 3(1,3) show ?case by (simp del: run_commands.simps)
qed (auto simp: bind_value ret_def)

lemma check_go_passed:
  assumes "check_go exec p s = (Inr r, t)" and "tr_passed r"
  shows "\<exists>x u. exec [''gofmt'', ''-l'', ''.''] (Some (project_dir p s)) 30 s = (Inr x, u)
    \<and> pr_returncode x = 0 \<and> strip (pr_stdout x) = []
    \<and> returned_zero exec (Some (project_dir p s)) go_commands u t"
proof -
  let ?dir = "project_dir p s"
  obtain x u where x: "exec [''gofmt'', ''-l'', ''.''] (Some ?dir) 30 s = (Inr x, u)"
    "(if pr_returncode x \<noteq> 0 then ret (tool_result x)
      else if strip (pr_stdout x) \<noteq> [] then ret (check_result False (pr_stdout x) [''Go source is not gofmt-formatted''])
      else run_commands exec ?dir go_commands) u = (Inr r, t)"
    using assms(1) by (auto simp: check_go_def bind_value gets_def)
  have "pr_returncode x = 0 \<and> strip (pr_stdout x) = [] \<and> run_commands exec ?dir go_commands u = (Inr r, t)"
    using x(2) assms(2) by (auto simp: ret_def check_result_def split: if_splits)
  then show ?thesis using x(1) run_commands_passed [OF _ assms(2), of exec ?dir go_commands u t] by simp
qed

lemma syntax_check_cases:
  assumes "check_syntax parse exec p language s = (res, t)"
  shows "case res of
      Inl e \<Rightarrow> \<not> is_exception e
    | Inr r \<Rightarrow> \<not> tr_passed r
        \<or> language = ''python'' \<and> (\<exists>x. dk_files s (place s p) = Some x \<and> parse (universal x) = Inr ())
        \<or> language = ''rust'' \<and> returned_zero exec None [[''rustc'', ''--emit=metadata'', p]] s t
        \<or> language = ''go'' \<and> (\<exists>x u. exec [''gofmt'', ''-l'', ''.''] (Some (project_dir p s)) 30 s = (Inr x, u)
            \<and> pr_returncode x = 0 \<and> strip (pr_stdout x) = []
            \<and> returned_zero exec (Some (project_dir p s)) go_commands u t)"
proof -
  define m where "m = (if language = ''python'' then
          bindA (read_text p) (\<lambda>source. bindA (lift_res (parse source)) (\<lambda>_. ret (check_result True [] [])))
        else if language = ''rust'' then bindA (exec [''rustc'', ''--emit=metadata'', p] None 30) (\<lambda>r. ret (tool_result r))
        else if language = ''go'' then check_go exec p
        else ret (check_result False [] [''Unsupported language'']))"
  have run: "catchA m (\<lambda>e. ret (check_result False [] [exn_str e])) s = (res, t)"
    using assms by (simp add: check_syntax_def m_def)
  show ?thesis
  proof (cases res)
    case (Inl e)
    then show ?thesis using run by (auto simp: catchA_def ret_def split: prod.splits sum.splits if_splits)
  next
    case (Inr r)
    show ?thesis
    proof (cases "m s = (Inr r, t) \<and> tr_passed r")
      case True
      then have "m s = (Inr r, t)" "tr_passed r" by simp_all
      then show ?thesis
        unfolding m_def Inr
        by (auto simp: bind_value read_text_def read_file_def lift_res_def ret_def raise_def disk_outcome_def is_file_def
            check_result_def dest: check_go_passed split: if_splits)
    next
      case False
      then show ?thesis using run Inr by (auto simp: catchA_def ret_def check_result_def split: prod.splits sum.splits if_splits)
    qed
  qed
qed

text \<open>
  C35. What a passed syntax check rests on. For Python the file is there and the parser takes its text;
  for Rust the compiler, run in this check, returned zero; for Go, in the directory of the project, \<^verbatim>\<open>gofmt -l\<close>
  returned zero and listed no file, and then, one after the other, \<^verbatim>\<open>go vet\<close>, \<^verbatim>\<open>go test\<close>,
  \<^verbatim>\<open>go test -race\<close> and \<^verbatim>\<open>go build\<close> each returned zero: five commands, the last of them in the state
  in which the check ends. For any other language the check does not pass. It never raises an \<^verbatim>\<open>Exception\<close>.
\<close>

theorem syntax_check_sound:
  assumes "check_syntax parse exec p language s = (res, t)"
  shows "case res of
      Inl e \<Rightarrow> \<not> is_exception e
    | Inr r \<Rightarrow> \<not> tr_passed r
        \<or> language = ''python'' \<and> (\<exists>x. dk_files s (place s p) = Some x \<and> parse (universal x) = Inr ())
        \<or> language = ''rust'' \<and> returned_zero exec None [[''rustc'', ''--emit=metadata'', p]] s t
        \<or> language = ''go'' \<and> (\<exists>x u. exec [''gofmt'', ''-l'', ''.''] (Some (project_dir p s)) 30 s = (Inr x, u)
            \<and> pr_returncode x = 0 \<and> strip (pr_stdout x) = []
            \<and> returned_zero exec (Some (project_dir p s)) [[''go'', ''vet'', ''./...''], [''go'', ''test'', ''./...''],
                [''go'', ''test'', ''-race'', ''./...''], [''go'', ''build'', ''./...'']] u t)"
  using syntax_check_cases [OF assms] unfolding go_commands_def .

definition demo_tool :: "('z disk_world_scheme) tool" where
  "demo_tool c dir limit = ret \<lparr>pr_returncode = 0, pr_stdout = [], pr_stderr = []\<rparr>"

theorem syntax_check_sound_witness:
  "\<exists>r t u. check_syntax (\<lambda>_. Inr ()) demo_tool ''m'' ''go'' (memory_demo Map.empty (\<lambda>_. Written)) = (Inr r, t)
     \<and> tr_passed r \<and> returned_zero (demo_tool :: sys_world tool)
         (Some (project_dir ''m'' (memory_demo Map.empty (\<lambda>_. Written))))
         [[''go'', ''vet'', ''./...''], [''go'', ''test'', ''./...''], [''go'', ''test'', ''-race'', ''./...''],
          [''go'', ''build'', ''./...'']] u t"
proof -
  let ?s = "memory_demo Map.empty (\<lambda>_. Written)"
  have run: "check_syntax (\<lambda>_. Inr ()) demo_tool ''m'' ''go'' ?s = (Inr (check_result True [] []), ?s)"
    by (simp add: check_syntax_def check_go_def go_commands_def demo_tool_def action_simps tool_result_def split_lines_def
      strip_def)
  have passed: "tr_passed (check_result True [] [])" by (simp add: check_result_def)
  from syntax_check_sound [OF run] passed show ?thesis
    unfolding run go_commands_def [symmetric] by (simp del: returned_zero.simps) blast
qed

end
