(* ===== verification/Generator.thy ===== *)
theory Generator
  imports Validator Llm_Limits Deployment
begin

text \<open>
  The generator engine (\<^verbatim>\<open>atlas_agent/generator.py\<close>): what is stripped from a prompt, the context from
  the learning memory, and the generation of the files of a project. \<open>text\<close> is \<^verbatim>\<open>str\<close> of a value that is
  no text. The name check against the standard library is there in the source, but nothing calls it.
\<close>

section \<open>State\<close>

record 'p agent_world = "'p llm_world" +
  gen_memory :: learning_memory
  orch_memory :: learning_memory
  loop_state :: loop_metrics

definition in_memory :: "(learning_memory \<times> ('p, 'z) agent_world_scheme, 'a) action \<Rightarrow> (('p, 'z) agent_world_scheme, 'a) action" where
  "in_memory m s = (case m (gen_memory s, s) of (r, (o', t)) \<Rightarrow> (r, t\<lparr>gen_memory := o'\<rparr>))"

section \<open>Cleaning\<close>

text \<open>A pattern matched without regard to case.\<close>

fun ilit :: "string \<Rightarrow> rx" where
  "ilit [] = Empty"
| "ilit (c # s) = Seq (One (\<lambda>x. lower_char x = c)) (ilit s)"

definition not_space :: rx where
  "not_space = One (\<lambda>c. \<not> is_space c)"

definition ascii_alnum :: rx where
  "ascii_alnum = One (\<lambda>c. let n = of_char c :: nat in 48 \<le> n \<and> n \<le> 57 \<or> 65 \<le> n \<and> n \<le> 90 \<or> 97 \<le> n \<and> n \<le> 122)"

definition assigned :: "rx \<Rightarrow> rx" where
  "assigned key = sequence [key, Star space, One (\<lambda>c. c = CHR ''='' \<or> c = CHR '':''), Star space, plus not_space]"

definition one_to_three_digits :: rx where
  "one_to_three_digits = Seq (One is_digit) (maybe (Seq (One is_digit) (maybe (One is_digit))))"

definition sensitive_patterns :: "rx list" where
  "sensitive_patterns =
     [assigned (sequence [ilit ''api'', maybe (One (\<lambda>c. c = CHR ''_'' \<or> c = CHR ''-'')), ilit ''key'']),
      assigned (ilit ''password''), assigned (ilit ''secret''), assigned (ilit ''token''),
      Seq (ilit ''gsk_'') (plus ascii_alnum), Seq (ilit ''sk-'') (plus ascii_alnum),
      sequence [Boundary, one_to_three_digits, lit ''.'', one_to_three_digits, lit ''.'', one_to_three_digits, lit ''.'',
        one_to_three_digits, Boundary]]"

definition sanitize :: "string \<Rightarrow> string" where
  "sanitize t = foldl (\<lambda>u r. re_sub r ''[REDACTED]'' u) t sensitive_patterns"

definition fence :: string where
  "fence = ''```''"

definition clean_code :: "string \<Rightarrow> string" where
  "clean_code code =
     strip (re_sub (sequence [LineStart, lit fence, Star space, LineEnd]) []
       (re_sub (sequence [LineStart, lit fence, Star word, Star space]) [] code))"

definition get_extension :: "string \<Rightarrow> string" where
  "get_extension lang =
     (if lang = ''python'' then ''py'' else if lang = ''rust'' then ''rs'' else if lang = ''go'' then ''go'' else ''txt'')"

definition stdlib_conflicts :: "string list" where
  "stdlib_conflicts =
     [''math'', ''os'', ''sys'', ''json'', ''time'', ''re'', ''io'', ''abc'', ''ast'', ''csv'', ''ssl'', ''subprocess'',
      ''collections'', ''typing'', ''logging'', ''unittest'', ''random'', ''hashlib'', ''datetime'', ''pathlib'',
      ''functools'', ''itertools'', ''copy'', ''socket'', ''threading'', ''multiprocessing'', ''email'', ''html'', ''http'',
      ''urllib'', ''sqlite3'', ''pickle'', ''shelve'', ''struct'', ''codecs'', ''decimal'', ''fractions'', ''statistics'',
      ''secrets'', ''uuid'']"

definition safe_module_name :: "string \<Rightarrow> string \<Rightarrow> string" where
  "safe_module_name name lang =
     (if lang = ''python'' \<and> lower name \<in> set stdlib_conflicts then name @ ''_module'' else name)"

section \<open>Prompts\<close>

definition positive_line :: "gen_experience \<Rightarrow> string" where
  "positive_line e = ''  - ['' @ ma_module (gx_artifact e) @ ''] score='' @ fixed_rat 2 (mo_quality_score (gx_outcome e))
     @ '' reason='' @ quoted (mo_reason (gx_outcome e))"

definition negative_line :: "gen_experience \<Rightarrow> string" where
  "negative_line e = ''  - reason='' @ quoted (mo_reason (gx_outcome e)) @ '' anti_patterns='' @ list_repr (gx_anti_patterns e)"

definition build_context :: "learning_memory \<Rightarrow> string \<Rightarrow> string \<Rightarrow> string" where
  "build_context m language mdl =
     (let positives = get_positive language mdl 2 m; negatives = get_negative language 2 m
      in join [CHR 0x0A]
        ((if positives \<noteq> [] then ''APPROVED PATTERNS (follow these):'' # map positive_line positives else [])
         @ (if negatives \<noteq> [] then ''REJECTED PATTERNS (DO NOT repeat):'' # map negative_line negatives else [])
         @ (if get_anti_patterns m \<noteq> [] then [''ANTI-PATTERNS TO AVOID: '' @ join '', '' (sort (get_anti_patterns m))] else [])))"

definition shown_name :: "(pyval \<Rightarrow> string) \<Rightarrow> pydict \<Rightarrow> string" where
  "shown_name text m = (case map_of m ''name'' of None \<Rightarrow> ''main'' | Some (PStr s) \<Rightarrow> s | Some v \<Rightarrow> text v)"

fun joined_names :: "pydict list \<Rightarrow> exn + string list" where
  "joined_names [] = Inr []"
| "joined_names (m # ms) =
     bindR (case map_of m ''name'' of None \<Rightarrow> Inr [] | Some (PStr s) \<Rightarrow> Inr s
         | Some v \<Rightarrow> Inl (type_error ''sequence item: expected str instance''))
       (\<lambda>n. bindR (joined_names ms) (\<lambda>ns. Inr (n # ns)))"

definition repair_section :: "string option \<Rightarrow> string" where
  "repair_section repair =
     (case repair of
        Some r \<Rightarrow> (if r = [] then [] else [CHR 0x0A] @ ''PREVIOUS ATTEMPT FAILED. Fix these errors:'' @ [CHR 0x0A]
          @ sanitize r @ [CHR 0x0A])
      | None \<Rightarrow> [])"

definition prompt_rules :: "string \<Rightarrow> string" where
  "prompt_rules lang =
     ''RULES: Production-grade only. Include error handling. No floats in financial calculations. ''
     @ ''Provide ONLY complete source code. No markdown, no explanations.''
     @ (if lang = ''go''
        then '' Use ONLY Go standard library packages. Do NOT import external dependencies.'' else [])"

definition spec_lang :: "atlas_spec \<Rightarrow> string" where
  "spec_lang spec = language_value (rq_language (sp_requirement spec))"

definition target_module :: "atlas_spec \<Rightarrow> string \<Rightarrow> string" where
  "target_module spec name = rq_project_name (sp_requirement spec) @ [slash] @ name"

definition module_prompt ::
  "learning_memory \<Rightarrow> atlas_spec \<Rightarrow> string option \<Rightarrow> pydict list \<Rightarrow> string \<Rightarrow> exn + string" where
  "module_prompt m spec repair modules name =
     bindR (joined_names modules) (\<lambda>names.
     let lang = spec_lang spec;
         context = build_context m lang (target_module spec name);
         again = repair_section repair
     in Inr (join [CHR 0x0A]
       ([''Generate a complete '' @ lang @ '' source file for module '' @ quoted name @ ''.'',
         ''Project: '' @ rq_project_name (sp_requirement spec),
         ''Requirement: '' @ sanitize (rq_description (sp_requirement spec)),
         ''Architecture: '' @ sanitize (sp_architecture spec),
         ''All modules: '' @ join '', '' names]
        @ (if context \<noteq> [] then [[CHR 0x0A] @ context] else [])
        @ (if again \<noteq> [] then [again] else [])
        @ [prompt_rules lang])))"

section \<open>Files\<close>

definition module_path :: "string \<Rightarrow> string \<Rightarrow> string \<Rightarrow> (('p, 'z) agent_world_scheme, string) action" where
  "module_path ext target name =
     (if ext = ''rs'' then
        bindA (make_dirs (path_join target ''src'')) (\<lambda>_. ret (path_join (path_join target ''src'') (name @ ''.'' @ ext)))
      else ret (path_join target (name @ ''.'' @ ext)))"

definition relative_to :: "string \<Rightarrow> string \<Rightarrow> (('p, 'z) agent_world_scheme, string) action" where
  "relative_to target p = bindA (gets dk_cwd) (\<lambda>w. lift_res (relpath w p target))"

definition record_generation ::
  "(rat \<Rightarrow> string) \<Rightarrow> atlas_spec \<Rightarrow> string \<Rightarrow> string \<Rightarrow> (('p, 'z) agent_world_scheme, unit) action" where
  "record_generation shown spec name prompt =
     bindA (gets llm_model) (\<lambda>model.
     bindA (gets (\<lambda>s. map gx_id (get_positive (spec_lang spec) (target_module spec name) 3 (gen_memory s)))) (\<lambda>sources.
     bindA (in_memory (record_experience shown
       \<lparr>ms_provider = ''groq'', ms_model = model, ms_prompt_hash = take 16 (sha256_hex prompt)\<rparr>
       \<lparr>mt_context_sources = sources, mt_temperature = 3602879701896397 / 18014398509481984\<rparr>
       \<lparr>ma_language = spec_lang spec, ma_module = target_module spec name,
         ma_governance_refs = [''llm-invocation-v1.json'', ''security-policy.yaml'']\<rparr>
       Approved ''auto-generated, pending human review'' (1 / 2) None)) (\<lambda>_. ret ())))"

definition generate_module ::
  "(pyval \<Rightarrow> string) \<Rightarrow> (rat \<Rightarrow> string) \<Rightarrow> guard_rules \<Rightarrow> resource_config \<Rightarrow> 'p provider_api \<Rightarrow> atlas_spec \<Rightarrow> string \<Rightarrow>
   string option \<Rightarrow> pydict list \<Rightarrow> pydict \<Rightarrow> (('p, 'z) agent_world_scheme, string) action" where
  "generate_module text shown rules cfg api spec target repair modules m =
     (let name = shown_name text m in
      bindA (gets gen_memory) (\<lambda>mem.
      bindA (lift_res (module_prompt mem spec repair modules name)) (\<lambda>prompt.
      bindA (generate_code shown rules cfg api prompt (spec_lang spec)) (\<lambda>response.
      bindA (module_path (get_extension (spec_lang spec)) target name) (\<lambda>p.
      bindA (write_file p (rstrip (clean_code response) @ [CHR 0x0A])) (\<lambda>_.
      bindA (relative_to target p) (\<lambda>rel.
      bindA (record_generation shown spec name prompt) (\<lambda>_. ret rel))))))))"

fun for_each :: "('a \<Rightarrow> ('s, 'b) action) \<Rightarrow> 'a list \<Rightarrow> ('s, 'b list) action" where
  "for_each f [] = ret []"
| "for_each f (x # xs) = bindA (f x) (\<lambda>y. bindA (for_each f xs) (\<lambda>ys. ret (y # ys)))"

text \<open>\<^verbatim>\<open>s.replace(old, new)\<close> for an \<open>old\<close> that is not empty.\<close>

function (sequential) replace_text :: "string \<Rightarrow> string \<Rightarrow> string \<Rightarrow> string" where
  "replace_text old new [] = []"
| "replace_text old new (c # s) =
     (if old \<noteq> [] \<and> prefix old (c # s) then new @ replace_text old new (drop (length old) (c # s))
      else c # replace_text old new s)"
  by pat_completeness auto
termination by (relation "measure (\<lambda>(old, new, s). length s)") (auto simp: neq_Nil_conv)

definition test_prompt :: "string \<Rightarrow> string" where
  "test_prompt code = ''Generate ONLY Go table-driven tests for this code.'' @ [CHR 0x0A]
     @ ''Same package. Use func TestXxx(t *testing.T) with []struct.'' @ [CHR 0x0A]
     @ ''Cover success and error paths. Import only testing and time.'' @ [CHR 0x0A]
     @ ''ONLY the test code. No markdown.'' @ [CHR 0x0A] @ [CHR 0x0A] @ ''Source code:'' @ [CHR 0x0A] @ code"

definition generate_test ::
  "(rat \<Rightarrow> string) \<Rightarrow> guard_rules \<Rightarrow> resource_config \<Rightarrow> 'p provider_api \<Rightarrow> string \<Rightarrow> string \<Rightarrow>
   (('p, 'z) agent_world_scheme, string list) action" where
  "generate_test shown rules cfg api target rel =
     (if suffix ''.go'' rel \<and> \<not> suffix ''_test.go'' rel then
        bindA (read_text (path_join target rel)) (\<lambda>code.
        catchA
          (bindA (generate_code shown rules cfg api (test_prompt code) ''go'') (\<lambda>tests.
           let name = replace_text ''.go'' ''_test.go'' rel in
           bindA (write_file (path_join target name) (rstrip tests @ [CHR 0x0A])) (\<lambda>_. ret [name])))
          (\<lambda>e. case e of Raised RuntimeError _ \<Rightarrow> ret [] | _ \<Rightarrow> raise e))
      else ret [])"

text \<open>The loop over the files appends the tests to the list it runs over; it skips them when it comes to
  them, because their names end in \<^verbatim>\<open>_test.go\<close>.\<close>

definition generate_tests ::
  "(rat \<Rightarrow> string) \<Rightarrow> guard_rules \<Rightarrow> resource_config \<Rightarrow> 'p provider_api \<Rightarrow> string \<Rightarrow> string list \<Rightarrow>
   (('p, 'z) agent_world_scheme, string list) action" where
  "generate_tests shown rules cfg api target rels =
     bindA (for_each (generate_test shown rules cfg api target) rels) (\<lambda>tests. ret (rels @ concat tests))"

definition ensure_manifest :: "string \<Rightarrow> string \<Rightarrow> string \<Rightarrow> (('p, 'z) agent_world_scheme, string) action" where
  "ensure_manifest target name content =
     bindA (gets (path_exists (path_join target name))) (\<lambda>there.
     bindA (if there then ret () else write_file (path_join target name) content) (\<lambda>_.
     relative_to target (path_join target name)))"

definition go_mod :: "string \<Rightarrow> string" where
  "go_mod project = ''module '' @ project @ [CHR 0x0A, CHR 0x0A] @ ''go 1.22'' @ [CHR 0x0A]"

definition cargo_toml :: "string \<Rightarrow> string" where
  "cargo_toml project = ''[package]'' @ [CHR 0x0A] @ ''name = '' @ [CHR 0x22] @ project @ [CHR 0x22, CHR 0x0A]
     @ ''version = '' @ [CHR 0x22] @ ''0.1.0'' @ [CHR 0x22, CHR 0x0A]
     @ ''edition = '' @ [CHR 0x22] @ ''2021'' @ [CHR 0x22, CHR 0x0A]"

definition generate_project ::
  "(pyval \<Rightarrow> string) \<Rightarrow> (rat \<Rightarrow> string) \<Rightarrow> guard_rules \<Rightarrow> resource_config \<Rightarrow> 'p provider_api \<Rightarrow> atlas_spec \<Rightarrow> string \<Rightarrow>
   string option \<Rightarrow> (('p, 'z) agent_world_scheme, string list) action" where
  "generate_project text shown rules cfg api spec target repair =
     (let lang = spec_lang spec; project = rq_project_name (sp_requirement spec);
          modules = (if sp_modules spec = [] then [[(''name'', PStr ''main'')]] else sp_modules spec)
      in
        bindA (make_dirs target) (\<lambda>_.
        bindA (for_each (generate_module text shown rules cfg api spec target repair modules) modules) (\<lambda>sources.
        bindA (if lang = ''go'' then generate_tests shown rules cfg api target sources else ret sources) (\<lambda>all.
        if lang = ''go'' then
          bindA (ensure_manifest target ''go.mod'' (go_mod project)) (\<lambda>m. ret (all @ [m]))
        else if lang = ''rust'' then
          bindA (ensure_manifest target ''Cargo.toml'' (cargo_toml project)) (\<lambda>m. ret (all @ [m]))
        else ret all))))"

section \<open>What the files of a project leave alone\<close>

text \<open>The contract of a part of the state that lies above the disk, the clocks and the identifiers.\<close>

locale above_disk =
  fixes f :: "'z sys_world_scheme \<Rightarrow> 'x"
  assumes files [simp]: "f (s\<lparr>dk_files := a\<rparr>) = f s"
    and dirs [simp]: "f (s\<lparr>dk_dirs := b\<rparr>) = f s"
    and outcomes [simp]: "f (s\<lparr>dk_pos := n\<rparr>) = f s"
    and wall [simp]: "f (s\<lparr>wall_pos := n\<rparr>) = f s"
    and uuids [simp]: "f (s\<lparr>uuid_pos := n\<rparr>) = f s"
    and clocks [simp]: "f (s\<lparr>clock_pos := n\<rparr>) = f s"
begin

lemma reads: "frames f disk_outcome" "frames f time_time" "frames f fresh_uuid" "frames f now"
  by (simp_all add: obeys_def disk_outcome_def action_simps)

lemma read: "frames f (read_file p)" "frames f (read_text p)"
proof -
  show "frames f (read_file p)"
    by (rule obeysI) (simp add: read_file_def disk_outcome_def action_simps)
  then show "frames f (read_text p)" unfolding read_text_def by (intro frame.closure_rules)
qed

lemma put: "frames f (put_text g p t)"
  by (rule obeysI) (simp add: put_text_def disk_outcome_def action_simps split: write_outcome.split)

lemma writes: "frames f (write_file p t)" "frames f (append_file p t)"
  by (simp_all add: write_file_def append_file_def put)

lemma makes: "frames f (make_dirs p)"
  by (rule obeysI) (simp add: make_dirs_def disk_outcome_def action_simps split: write_outcome.split)

lemma removes: "frames f (remove_file p)"
  by (rule obeysI) (simp add: remove_file_def disk_outcome_def action_simps)

lemma copies: "frames f (copy_file p q)"
proof (rule obeysI)
  fix s
  have "frames f (bindA (read_file p) (\<lambda>t. bindA (write_file d t) (\<lambda>_.
      bindA disk_outcome (\<lambda>r. if r = Written then ret () else raise (broken d)))))" for d
    by (intro frame.closure_rules read writes reads)
  then show "f (snd (copy_file p q s)) = f s"
    by (auto simp: copy_file_def raise_def Let_def dest: obeysD)
qed

lemma worlds: "frames f m \<Longrightarrow> frames (\<lambda>w. f (snd w)) (on_world m)"
  by (simp add: obeys_def on_world_def split: prod.split) (metis snd_conv)

lemma objects: "frames (\<lambda>w. f (snd w)) (obj_gets g)" "frames (\<lambda>w. f (snd w)) (obj_modify h)"
  by (simp_all add: obeys_def action_simps)

lemma records: "frames (\<lambda>w. f (snd w)) (record_experience shown src met art d reason q aps)"
  unfolding record_experience_def generate_id_def Let_def
  by (intro frame.closure_rules worlds objects writes reads)

end

text \<open>The charge of the provider is such a part.\<close>

interpretation charged: above_disk "charge g :: ('p, 'z) llm_world_scheme \<Rightarrow> nat" for g
  by unfold_locales (simp_all add: charge_def)

lemma in_memory_frames:
  fixes f :: "('p, 'z) agent_world_scheme \<Rightarrow> 'x"
  assumes "frames (\<lambda>w. f (snd w)) m" and "\<And>s a. f (s\<lparr>gen_memory := a\<rparr>) = f s"
  shows "frames f (in_memory m)"
proof (rule obeysI)
  fix s :: "('p, 'z) agent_world_scheme"
  show "f (snd (in_memory m s)) = f s"
    using obeysD [OF assms(1), of "(gen_memory s, s)"] assms(2) by (auto simp: in_memory_def split: prod.split)
qed

lemma for_each_obeys:
  assumes "contract R" and "\<And>x. obeys R (f x)"
  shows "obeys R (for_each f xs)"
  by (induction xs) (auto intro!: contract.closure_rules [OF assms(1)] assms(2))

subsection \<open>What the generation leaves alone\<close>

text \<open>The contract of a part of the state that a request to the model does not write.\<close>

locale beside_llm =
  fixes f :: "('p, 'z) llm_world_scheme \<Rightarrow> 'x"
  assumes wall [simp]: "f (s\<lparr>wall_pos := n\<rparr>) = f s"
    and guard_logs [simp]: "f (s\<lparr>guard_log := g\<rparr>) = f s"
    and caches [simp]: "f (s\<lparr>cache := c\<rparr>) = f s" "f (s\<lparr>cache_file := cf\<rparr>) = f s" "f (s\<lparr>cache_write_pos := n\<rparr>) = f s"
    and breakers [simp]: "f (s\<lparr>breaker := b\<rparr>) = f s"
    and windows [simp]: "f (s\<lparr>request_times := ts\<rparr>) = f s"
    and permitted [simp]: "f (s\<lparr>permits := n\<rparr>) = f s"
    and randoms [simp]: "f (s\<lparr>random_pos := n\<rparr>) = f s"
    and naps [simp]: "f (s\<lparr>slept := ds\<rparr>) = f s"
    and providers [simp]: "f (s\<lparr>provider := p\<rparr>) = f s"
begin

lemma guards: "frames f (guard_check_request rules p)"
proof (rule obeysI)
  fix s
  show "f (snd (guard_check_request rules p s)) = f s"
    using guard_check_cases [of rules p s] by (auto simp: guard_logged_def)
qed

lemma request_steps:
  "frames f (check_restricted_content rules p)" "frames f (allow_request cfg)" "frames f (check_rate_limit cfg)"
  "frames f (cache_get p m t)" "frames f (cache_put shown p m t r)" "frames f record_success" "frames f (record_failure cfg)"
  "frames f random_unit" "frames f (sleep d)" "frames f acquire" "frames f release" "frames f (api_once cfg api p m t)"
proof -
  show "frames f (check_restricted_content rules p)"
    unfolding check_restricted_content_def by (intro frame.closure_rules guards)
  show "frames f (cache_get p m t)"
    by (simp add: obeys_def cache_get_cases split: option.split)
  show "frames f (cache_put shown p m t r)"
    by (simp add: obeys_def cache_put_def cache_save_def Let_def action_simps split: write_outcome.split)
  show "frames f (api_once cfg api p m t)"
    unfolding api_once_def by (intro frame.closure_rules obeysI) (simp_all add: on_provider_def split: prod.split)
qed (simp_all add: obeys_def allow_request_def check_rate_limit_def record_success_def record_failure_def
    random_unit_def sleep_def acquire_def release_def action_simps)

lemma brackets: "frames f m \<Longrightarrow> frames f h \<Longrightarrow> frames f (finallyA m h)"
  by (auto simp: obeys_def finallyA_def split: prod.split sum.split) (metis snd_conv)+

lemma tries: "frames f (call_api_left n cfg api p m t)"
  by (induction n) (auto intro!: frame.closure_rules request_steps split: option.split)

lemma generates: "frames f (generate_code shown rules cfg api req lang)"
  unfolding generate_code_def primary_or_fallback_def keep_answer_def call_api_def Let_def
  by (intro frame.closure_rules request_steps brackets tries)

end

text \<open>The contract of a part of the state that the generation of a project does not write.\<close>

locale beside_agent = above_disk f + llm: beside_llm f
  for f :: "('p, 'z) agent_world_scheme \<Rightarrow> 'x" +
  assumes memories [simp]: "f (s\<lparr>gen_memory := a\<rparr>) = f s"
begin

lemma modules: "frames f (generate_module text shown rules cfg api spec target repair ms m)"
  unfolding generate_module_def module_path_def relative_to_def record_generation_def Let_def
  by (intro frame.closure_rules llm.generates writes makes in_memory_frames records memories)

lemma tests: "frames f (generate_test shown rules cfg api target rel)"
  unfolding generate_test_def Let_def
  by (intro frame.closure_rules llm.generates writes read)
    (auto intro!: frame.closure_rules split: exn.split exn_class.split)

lemma projects: "frames f (generate_project text shown rules cfg api spec target repair)"
  unfolding generate_project_def generate_tests_def ensure_manifest_def relative_to_def Let_def
  by (intro frame.closure_rules for_each_obeys frame.contract_axioms modules tests writes makes)

end

text \<open>The model of the client is such a part.\<close>

interpretation model: beside_agent "llm_model :: ('p, 'z) agent_world_scheme \<Rightarrow> string"
  by unfold_locales simp_all

lemma agent_parts: "charge g (s\<lparr>gen_memory := a\<rparr>) = charge g s"
  by (simp add: charge_def)

subsection \<open>The provider\<close>

lemma for_each_costs: "(\<And>x. costs c (k :: nat) (f x)) \<Longrightarrow> costs c (k * length xs) (for_each f xs)"
proof (induction xs)
  case (Cons x xs)
  then have "costs c (k + (k * length xs + 0)) (for_each f (x # xs))"
    unfolding for_each.simps by (intro costs_bind) (auto simp: costs_def ret_def)
  then show ?case by simp
qed (simp add: costs_def ret_def)

lemma for_each_length: "for_each f xs s = (Inr ys, t) \<Longrightarrow> length ys = length xs"
  by (induction xs arbitrary: s ys t) (auto simp: bind_value ret_def)

lemma costs_bind_value:
  assumes "costs c a m" and "\<And>s x t. m s = (Inr x, t) \<Longrightarrow> costs c b (f x)"
  shows "costs c (a + b :: nat) (bindA m f)"
proof (rule costsI)
  fix s
  obtain r t where m: "m s = (r, t)" by fastforce
  have t: "c t \<le> c s + a" using assms(1) m by (metis costs_def snd_conv)
  show "c (snd (bindA m f s)) \<le> c s + (a + b)"
  proof (cases r)
    case (Inr x)
    then have "c (snd (f x t)) \<le> c t + b" using assms(2) m by (simp add: costs_def)
    then show ?thesis using m Inr t by (simp add: bindA_def)
  qed (use m t in \<open>simp add: bindA_def\<close>)
qed

lemma charge_generate_module:
  assumes "\<And>req lang. costs (charge g :: ('p, 'z) agent_world_scheme \<Rightarrow> nat) k (generate_code shown rules cfg api req lang)"
  shows "costs (charge g :: ('p, 'z) agent_world_scheme \<Rightarrow> nat) k
    (generate_module text shown rules cfg api spec target repair modules m)"
  unfolding generate_module_def module_path_def relative_to_def record_generation_def Let_def
  by (intro costs_free_bind [OF costs_frames] costs_then_free [OF assms] costs_frames frame.closure_rules charged.writes
      charged.makes in_memory_frames charged.records agent_parts)

lemma charge_generate_test:
  assumes "\<And>req lang. costs (charge g :: ('p, 'z) agent_world_scheme \<Rightarrow> nat) k (generate_code shown rules cfg api req lang)"
  shows "costs (charge g :: ('p, 'z) agent_world_scheme \<Rightarrow> nat) k (generate_test shown rules cfg api target rel)"
proof -
  let ?c = "charge g :: ('p, 'z) agent_world_scheme \<Rightarrow> nat"
  have "costs ?c (k + 0)
      (catchA (bindA (generate_code shown rules cfg api q ''go'') (\<lambda>tests.
         bindA (write_file (path_join target n) (rstrip tests @ [CHR 0x0A])) (\<lambda>_. ret [n])))
        (\<lambda>e. case e of Raised RuntimeError _ \<Rightarrow> ret [] | _ \<Rightarrow> raise e))" for q n
    by (intro costs_catch costs_then_free [OF assms] costs_frames frame.closure_rules charged.writes)
      (auto intro!: frame.closure_rules split: exn.split exn_class.split)
  then have part: "costs ?c k
      (catchA (bindA (generate_code shown rules cfg api q ''go'') (\<lambda>tests.
         bindA (write_file (path_join target n) (rstrip tests @ [CHR 0x0A])) (\<lambda>_. ret [n])))
        (\<lambda>e. case e of Raised RuntimeError _ \<Rightarrow> ret [] | _ \<Rightarrow> raise e))" for q n
    by simp
  show ?thesis
    unfolding generate_test_def Let_def
    by (intro costs_if costs_free_bind [OF costs_frames] charged.read part charge_ret)
qed

lemma charge_generate_project:
  assumes "\<And>req lang. costs (charge g :: ('p, 'z) agent_world_scheme \<Rightarrow> nat) k (generate_code shown rules cfg api req lang)"
  shows "costs (charge g :: ('p, 'z) agent_world_scheme \<Rightarrow> nat) (2 * k * max 1 (length (sp_modules spec)))
    (generate_project text shown rules cfg api spec target repair)"
proof -
  let ?c = "charge g :: ('p, 'z) agent_world_scheme \<Rightarrow> nat"
  define ms :: "pydict list" where "ms = (if sp_modules spec = [] then [[(''name'', PStr ''main'')]] else sp_modules spec)"
  have ms: "length ms = max 1 (length (sp_modules spec))" by (cases "sp_modules spec") (simp_all add: ms_def)
  have tests: "costs ?c (k * length rels)
      (if b then generate_tests shown rules cfg api target rels else ret rels)" for b rels
    unfolding generate_tests_def
    by (intro costs_if charge_ret costs_then_free [OF for_each_costs] charge_generate_test assms)
  have rest: "costs ?c 0 (if b then bindA (ensure_manifest target n p) (\<lambda>m. ret (all @ [m]))
      else if b' then bindA (ensure_manifest target n' p') (\<lambda>m. ret (all @ [m])) else ret all)" for b b' n n' p p' all
    unfolding ensure_manifest_def relative_to_def by (intro costs_frames frame.closure_rules charged.writes)
  define after :: "string list \<Rightarrow> (('p, 'z) agent_world_scheme, string list) action"
    where "after rels = bindA (if spec_lang spec = ''go'' then generate_tests shown rules cfg api target rels else ret rels) (\<lambda>all.
       if spec_lang spec = ''go'' then
         bindA (ensure_manifest target ''go.mod'' (go_mod (rq_project_name (sp_requirement spec)))) (\<lambda>m. ret (all @ [m]))
       else if spec_lang spec = ''rust'' then
         bindA (ensure_manifest target ''Cargo.toml'' (cargo_toml (rq_project_name (sp_requirement spec)))) (\<lambda>m. ret (all @ [m]))
       else ret all)" for rels
  have after: "costs ?c (k * length rels + 0) (after rels)" for rels
    unfolding after_def by (intro costs_bind tests rest) simp
  have "costs ?c (k * length ms + k * length ms)
      (bindA (for_each (generate_module text shown rules cfg api spec target repair ms) ms) after)"
    by (rule costs_bind_value [OF for_each_costs [OF charge_generate_module [OF assms]]])
      (use after for_each_length in \<open>metis add_0_right\<close>)
  moreover have "k * length ms + k * length ms = 2 * k * max 1 (length (sp_modules spec))" by (simp add: ms)
  ultimately show ?thesis
    unfolding generate_project_def Let_def ms_def [symmetric] after_def
    by (intro costs_free_bind [OF costs_frames [OF charged.makes]]) simp
qed

end
