(* ===== verification/Orchestrator.thy ===== *)
theory Orchestrator
  imports Generator
begin

text \<open>
  The orchestrator (\<^verbatim>\<open>atlas_agent/orchestrator.py\<close>) and the command line (\<^verbatim>\<open>cli.py\<close>): the specification, the
  loop of attempts, the human approval and the deployment of every file. What is outside the repository
  is in the record \<open>services\<close>: the provider, the parser, the tools, pydantic's JSON of the models, and
  the order in which a set is listed.
\<close>

section \<open>Services\<close>

record ('p, 's) services =
  co_text :: "pyval \<Rightarrow> string"
  co_shown :: "rat \<Rightarrow> string"
  co_rules :: guard_rules
  co_config :: resource_config
  co_api :: "'p provider_api"
  co_parse :: "string \<Rightarrow> exn + unit"
  co_exec :: "'s tool"
  co_filename :: "exn \<Rightarrow> string"
  co_order :: "string list \<Rightarrow> string list"
  co_dump_requirement :: "requirement \<Rightarrow> string"
  co_dump_spec :: "atlas_spec \<Rightarrow> string"
  co_dump_artifact :: "artifact \<Rightarrow> string"

type_synonym ('p, 'z) agent_services = "('p, ('p, 'z) agent_world_scheme) services"

definition audit :: "string \<Rightarrow> pydict \<Rightarrow> string option \<Rightarrow> (('p, 'z) agent_world_scheme, unit) action" where
  "audit act details err = log_audit act ''orchestrator'' details ''success'' err"

section \<open>One attempt\<close>

text \<open>From the third attempt the fallback model takes the place of the primary one while the project is
  generated.\<close>

definition generate_attempt ::
  "('p, 'z) agent_services \<Rightarrow> nat \<Rightarrow> atlas_spec \<Rightarrow> string option \<Rightarrow> (('p, 'z) agent_world_scheme, string list \<times> rat) action" where
  "generate_attempt co n spec repair =
     bindA (gets llm_model) (\<lambda>original.
     bindA (if should_escalate_model n then modify (\<lambda>s. s\<lparr>llm_model := llm_fallback s\<rparr>) else ret ()) (\<lambda>_.
     bindA time_time (\<lambda>t0.
     bindA (generate_project (co_text co) (co_shown co) (co_rules co) (co_config co) (co_api co) spec
       (rq_target_folder (sp_requirement spec)) repair) (\<lambda>generated.
     bindA time_time (\<lambda>t1.
     bindA (modify (\<lambda>s. s\<lparr>llm_model := original\<rparr>)) (\<lambda>_. ret (generated, t1 - t0)))))))"

definition is_source :: "string \<Rightarrow> bool" where
  "is_source p \<longleftrightarrow> suffix ''.py'' p \<or> suffix ''.rs'' p \<or> suffix ''.go'' p"

definition checked :: "test_result \<Rightarrow> artifact \<Rightarrow> artifact" where
  "checked r a = a\<lparr>ar_test_results := ar_test_results a @ [r]\<rparr>"

definition scanned :: "security_finding list \<Rightarrow> artifact \<Rightarrow> artifact" where
  "scanned fs a = a\<lparr>ar_security_findings := ar_security_findings a @ fs\<rparr>"

definition scan_source ::
  "('p, 'z) agent_services \<Rightarrow> string \<Rightarrow> string \<Rightarrow> string \<Rightarrow> artifact \<Rightarrow> (('p, 'z) agent_world_scheme, artifact) action" where
  "scan_source co lang target rel a =
     bindA (run_security_scan (co_filename co) (co_exec co) (path_join target rel) lang target) (\<lambda>fs. ret (scanned fs a))"

definition check_source ::
  "('p, 'z) agent_services \<Rightarrow> string \<Rightarrow> string \<Rightarrow> artifact \<Rightarrow> (('p, 'z) agent_world_scheme, artifact) action" where
  "check_source co lang p a = bindA (check_syntax (co_parse co) (co_exec co) p lang) (\<lambda>r. ret (checked r a))"

fun fold_each :: "('a \<Rightarrow> 'b \<Rightarrow> ('s, 'b) action) \<Rightarrow> 'a list \<Rightarrow> 'b \<Rightarrow> ('s, 'b) action" where
  "fold_each f [] b = ret b"
| "fold_each f (x # xs) b = bindA (f x b) (fold_each f xs)"

definition validate_files ::
  "('p, 'z) agent_services \<Rightarrow> string \<Rightarrow> string \<Rightarrow> string list \<Rightarrow> artifact \<Rightarrow> (('p, 'z) agent_world_scheme, artifact) action" where
  "validate_files co lang target sources a =
     (if lang = ''go'' then
        bindA (check_source co lang target a) (fold_each (scan_source co lang target) sources)
      else fold_each (\<lambda>rel a. bindA (check_source co lang (path_join target rel) a) (scan_source co lang target rel)) sources a)"

definition all_syntax_passed :: "artifact \<Rightarrow> bool" where
  "all_syntax_passed a = list_all tr_passed (ar_test_results a)"

definition serious :: "security_finding \<Rightarrow> bool" where
  "serious f \<longleftrightarrow> sf_severity f = SevCritical \<or> sf_severity f = SevHigh"

definition upper :: "string \<Rightarrow> string" where
  "upper s = map (\<lambda>c. let n = of_char c :: nat in if 97 \<le> n \<and> n \<le> 122 then char_of (n - 32) else c) s"

definition test_errors :: "artifact \<Rightarrow> string list" where
  "test_errors a = concat (map tr_errors (filter (\<lambda>r. \<not> tr_passed r) (ar_test_results a)))"

definition security_errors :: "artifact \<Rightarrow> string list" where
  "security_errors a = map (\<lambda>f. ''['' @ upper (security_level_value (sf_severity f)) @ ''] '' @ sf_category f @ '': ''
     @ sf_message f @ '' -> '' @ sf_suggestion f) (filter serious (ar_security_findings a))"

text \<open>The text of the source files that exist.\<close>

definition code_length :: "string \<Rightarrow> string list \<Rightarrow> (('p, 'z) agent_world_scheme, nat) action" where
  "code_length target sources =
     fold_each (\<lambda>rel n. bindA (gets (path_exists (path_join target rel))) (\<lambda>there.
       if there then bindA (read_text (path_join target rel)) (\<lambda>t. ret (n + length t)) else ret n)) sources 0"

definition summary_value :: "metrics_summary \<Rightarrow> pyval" where
  "summary_value m = PDict [(''total_runs'', PInt (int (su_total_runs m))), (''success_rate'', PStr (su_success_rate m)),
     (''avg_attempts'', PStr (su_avg_attempts m)),
     (''common_failures'', PDict (map (\<lambda>p. (fst p, PInt (int (snd p)))) (su_common_failures m))),
     (''scores_by_attempt'', PDict (map (\<lambda>p. (show_nat (fst p), PStr (snd p))) (su_scores_by_attempt m)))]"

definition settle_loop :: "bool \<Rightarrow> nat \<Rightarrow> quality_score \<Rightarrow> string list \<Rightarrow> (('p, 'z) agent_world_scheme, pyval) action" where
  "settle_loop ok n q cats =
     bindA (modify (\<lambda>s. s\<lparr>loop_state := record_outcome ok n (qs_overall q) cats (loop_state s)\<rparr>)) (\<lambda>_.
     gets (\<lambda>s. summary_value (get_metrics (loop_state s))))"

definition failure_categories :: "('p, 'z) agent_services \<Rightarrow> artifact \<Rightarrow> string list" where
  "failure_categories co a = co_order co (remdups
     (map (\<lambda>e. strip (hd (split_at (CHR '':'') e))) (take 3 (test_errors a))
      @ map sf_category (filter serious (ar_security_findings a))))"

text \<open>What goes from one attempt to the next: the repair context, the text to patch, and the history.\<close>

type_synonym carry = "string option \<times> string \<times> attempt_record list"

definition attempt_passed ::
  "('p, 'z) agent_services \<Rightarrow> nat \<Rightarrow> quality_score \<Rightarrow> artifact \<Rightarrow> (('p, 'z) agent_world_scheme, unit) action" where
  "attempt_passed co n q a =
     bindA (settle_loop True n q []) (\<lambda>metrics.
     audit ''pipeline_success'' [(''attempts'', PInt (int n)), (''score'', PFloat (qs_overall q)),
       (''strategy'', PStr (strategy_value (determine_strategy n))), (''loop_metrics'', metrics)] None)"

definition loop_exhausted ::
  "('p, 'z) agent_services \<Rightarrow> nat \<Rightarrow> quality_score \<Rightarrow> artifact \<Rightarrow> (('p, 'z) agent_world_scheme, 'a) action" where
  "loop_exhausted co n q a =
     (let cats = failure_categories co a in
      bindA (settle_loop False n q cats) (\<lambda>metrics.
      bindA (audit ''pipeline_failed'' [(''error'', PStr ''LOOP_EXHAUSTED''), (''attempts'', PInt (int n)),
        (''final_score'', PFloat (qs_overall q)), (''failure_categories'', PList (map PStr cats)),
        (''loop_metrics'', metrics)] None) (\<lambda>_.
      raise (runtime_error (''LOOP_EXHAUSTED after '' @ show_nat n @ '' attempts (score='' @ fixed_text 2 (qs_overall q)
        @ '', failures='' @ list_repr cats @ '')'')))))"

definition previous_text :: "string \<Rightarrow> string list \<Rightarrow> string \<Rightarrow> (('p, 'z) agent_world_scheme, string) action" where
  "previous_text target sources previous =
     (case sources of
        [] \<Rightarrow> ret previous
      | rel # _ \<Rightarrow>
          bindA (gets (path_exists (path_join target rel))) (\<lambda>there.
          if there then read_text (path_join target rel) else ret previous))"

definition judge ::
  "('p, 'z) agent_services \<Rightarrow> quality_score \<Rightarrow> artifact \<Rightarrow> (('p, 'z) agent_world_scheme, bool) action" where
  "judge co q a = (if quality_passed q then validate_artifact (co_dump_artifact co) a else ret False)"

definition history_entry ::
  "nat \<Rightarrow> string \<Rightarrow> quality_score \<Rightarrow> artifact \<Rightarrow> nat \<Rightarrow> rat \<Rightarrow> rat \<Rightarrow> attempt_record" where
  "history_entry n model q a len latency stamp =
     \<lparr>at_number = n, at_strategy = determine_strategy n, at_model_used = model, at_prompt_hash = [], at_quality_score = q,
       at_errors = test_errors a, at_security_findings = security_errors a, at_code_length = len,
       at_latency_seconds = latency, at_timestamp = stamp\<rparr>"

text \<open>What follows a failed attempt: the repair context of the next one, or the end of the loop.\<close>

definition next_attempt ::
  "('p, 'z) agent_services \<Rightarrow> string \<Rightarrow> nat \<Rightarrow> quality_score \<Rightarrow> artifact \<Rightarrow> string list \<Rightarrow> string \<Rightarrow> attempt_record list \<Rightarrow>
   (('p, 'z) agent_world_scheme, artifact + carry) action" where
  "next_attempt co target n q a sources previous history =
     bindA (gets (\<lambda>s. co_order co (get_anti_patterns (orch_memory s)))) (\<lambda>anti.
     bindA (previous_text target sources previous) (\<lambda>code.
     if n = loop_max_attempts then loop_exhausted co n q a
     else ret (Inr (Some (build_structured_repair_context code (test_errors a) (security_errors a) anti history
       (determine_strategy (n + 1))), code, history))))"

text \<open>The verdict on an artifact that was validated.\<close>

definition conclude ::
  "('p, 'z) agent_services \<Rightarrow> string \<Rightarrow> nat \<Rightarrow> string list \<Rightarrow> rat \<Rightarrow> string \<Rightarrow> attempt_record list \<Rightarrow> artifact \<Rightarrow>
   (('p, 'z) agent_world_scheme, artifact + carry) action" where
  "conclude co target n generated latency previous history a =
     (let sources = filter is_source generated;
          q = compute_quality_score (all_syntax_passed a) (ar_security_findings a) generated in
      bindA (code_length target sources) (\<lambda>len.
      bindA (gets llm_model) (\<lambda>model.
      bindA time_time (\<lambda>stamp.
      bindA (judge co q a) (\<lambda>ok.
      if ok then bindA (attempt_passed co n q a) (\<lambda>_. ret (Inl a))
      else next_attempt co target n q a sources previous (history @ [history_entry n model q a len latency stamp]))))))"

definition one_attempt ::
  "('p, 'z) agent_services \<Rightarrow> atlas_spec \<Rightarrow> nat \<Rightarrow> carry \<Rightarrow> (('p, 'z) agent_world_scheme, artifact + carry) action" where
  "one_attempt co spec n = (\<lambda>(repair, previous, history).
     let req = sp_requirement spec; lang = spec_lang spec; target = rq_target_folder req in
     bindA (generate_attempt co n spec repair) (\<lambda>(generated, latency).
     bindA (new_artifact req spec generated) (\<lambda>fresh.
     bindA (validate_files co lang target (filter is_source generated) fresh)
       (conclude co target n generated latency previous history))))"

text \<open>The loop. The fifth attempt either passes or raises, so the test at its head is never what ends it.\<close>

function run_attempts ::
  "('p, 'z) agent_services \<Rightarrow> atlas_spec \<Rightarrow> nat \<Rightarrow> carry \<Rightarrow> (('p, 'z) agent_world_scheme, artifact) action" where
  "run_attempts co spec n c =
     (if loop_max_attempts < n then raise (Raised (OtherError ''AssertionError'') [])
      else bindA (one_attempt co spec n c) (\<lambda>r. case r of Inl a \<Rightarrow> ret a | Inr c' \<Rightarrow> run_attempts co spec (n + 1) c'))"
  by pat_completeness auto
termination by (relation "measure (\<lambda>(co, spec, n, c). Suc loop_max_attempts - n)") auto

declare run_attempts.simps [simp del]

section \<open>Deployment\<close>

definition deploy_file ::
  "('p, 'z) agent_services \<Rightarrow> string \<Rightarrow> string \<Rightarrow> string \<Rightarrow> (('p, 'z) agent_world_scheme, deployment_record) action" where
  "deploy_file co lang target rel =
     (let p = path_join target rel in deploy (co_parse co) True p p lang)"

text \<open>The first record that is not \<open>DEPLOYED\<close> ends the loop; otherwise the identifiers of all of them.\<close>

fun deploy_files ::
  "('p, 'z) agent_services \<Rightarrow> string \<Rightarrow> string \<Rightarrow> string list \<Rightarrow> string list \<Rightarrow>
   (('p, 'z) agent_world_scheme, deployment_record + string list) action" where
  "deploy_files co lang target [] ids = ret (Inr ids)"
| "deploy_files co lang target (rel # rels) ids =
     bindA (deploy_file co lang target rel) (\<lambda>d.
     if dr_status d \<noteq> ApDeployed then ret (Inl d)
     else deploy_files co lang target rels (ids @ [dr_deployment_id d]))"

definition reason_value :: "string option \<Rightarrow> pyval" where
  "reason_value r = (case r of Some x \<Rightarrow> PStr x | None \<Rightarrow> PNone)"

definition deployment_failed ::
  "deployment_record \<Rightarrow> artifact \<Rightarrow> (('p, 'z) agent_world_scheme, artifact) action" where
  "deployment_failed d a =
     bindA (audit ''deployment_failed'' [(''deployment_id'', PStr (dr_deployment_id d)),
       (''status'', PStr (approval_status_value (dr_status d))), (''target_path'', PStr (dr_target_path d)),
       (''reason'', reason_value (dr_rollback_reason d))] None) (\<lambda>_. ret (a\<lparr>ar_status := dr_status d\<rparr>))"

definition deployment_complete ::
  "string list \<Rightarrow> artifact \<Rightarrow> (('p, 'z) agent_world_scheme, artifact) action" where
  "deployment_complete ids a =
     (let status = (''status'', PStr (approval_status_value ApDeployed));
          count = (''deployment_count'', PInt (int (length ids))) in
      bindA (audit ''deployment_complete'' [count, (''deployment_ids'', PList (map PStr ids)), status] None) (\<lambda>_.
      bindA (audit ''pipeline_success'' [status, (''generated_files'', PList (map PStr (ar_generated_files a))), count] None)
        (\<lambda>_. ret (a\<lparr>ar_status := ApDeployed\<rparr>))))"

definition approve_and_deploy ::
  "('p, 'z) agent_services \<Rightarrow> requirement \<Rightarrow> artifact \<Rightarrow> (('p, 'z) agent_world_scheme, artifact) action" where
  "approve_and_deploy co req a =
     bindA (require_human_approval a) (\<lambda>(ok, a).
     if \<not> ok then bindA (audit ''pipeline_rejected'' [] (Some ''Human approval rejected'')) (\<lambda>_. ret (a\<lparr>ar_status := ApRejected\<rparr>))
     else
       bindA (deploy_files co (language_value (rq_language req)) (rq_target_folder req) (ar_generated_files a) []) (\<lambda>r.
       case r of Inl d \<Rightarrow> deployment_failed d a | Inr ids \<Rightarrow> deployment_complete ids a))"

section \<open>The pipeline\<close>

text \<open>What precedes the human gate, and the whole run.\<close>

definition make_spec :: "requirement \<Rightarrow> string \<Rightarrow> string list \<Rightarrow> atlas_spec" where
  "make_spec req architecture modules = \<lparr>sp_requirement = req, sp_architecture = architecture,
     sp_modules = map (\<lambda>m. [(''name'', PStr m)]) modules, sp_dependencies = [], sp_approved_by = None,
     sp_approved_at = None\<rparr>"

definition build_artifact ::
  "('p, 'z) agent_services \<Rightarrow> requirement \<Rightarrow> string \<Rightarrow> string list \<Rightarrow> (('p, 'z) agent_world_scheme, artifact) action" where
  "build_artifact co req architecture modules =
     bindA (audit ''pipeline_start'' [(''requirement'', PStr (co_dump_requirement co req))] None) (\<lambda>_.
     let spec = make_spec req architecture modules in
     bindA (validate_specification (co_dump_spec co) spec) (\<lambda>ok.
     if \<not> ok then
       bindA (audit ''pipeline_failed'' [] (Some ''Specification validation failed'')) (\<lambda>_.
       raise (value_error ''Specification validation failed''))
     else run_attempts co spec 1 (None, [], [])))"

definition run_pipeline ::
  "('p, 'z) agent_services \<Rightarrow> requirement \<Rightarrow> string \<Rightarrow> string list \<Rightarrow> (('p, 'z) agent_world_scheme, artifact) action" where
  "run_pipeline co req architecture modules = bindA (build_artifact co req architecture modules) (approve_and_deploy co req)"

text \<open>The constructor: each engine in turn, with the memory loaded twice.\<close>

definition orchestrator_init ::
  "(string \<Rightarrow> string option) \<Rightarrow> string \<Rightarrow> (('p, 'z) agent_world_scheme, resource_config) action" where
  "orchestrator_init env memory_path =
     bindA governance_init (\<lambda>_.
     bindA (llm_init None env) (\<lambda>cfg.
     bindA (new_memory memory_path) (\<lambda>m.
     bindA (modify (\<lambda>s. s\<lparr>gen_memory := m\<rparr>)) (\<lambda>_.
     bindA (new_memory memory_path) (\<lambda>m.
     bindA (modify (\<lambda>s. s\<lparr>orch_memory := m, loop_state := new_metrics\<rparr>)) (\<lambda>_. ret cfg))))))"

section \<open>The command line\<close>

text \<open>The exit code. The arguments are parsed; the printed lines are left out. The configuration that the
  client's constructor returns is the one its requests use.\<close>

definition cli_main ::
  "('p, 'z) agent_services \<Rightarrow> (string \<Rightarrow> string option) \<Rightarrow> string \<Rightarrow> bool \<Rightarrow> requirement \<Rightarrow> string \<Rightarrow> string list \<Rightarrow>
   (('p, 'z) agent_world_scheme, nat) action" where
  "cli_main co env memory_path auto_approve req architecture modules =
     catchA
       (bindA (if auto_approve then modify (\<lambda>s. s\<lparr>gov_settings := (gov_settings s)\<lparr>st_require_human_approval := False\<rparr>\<rparr>)
          else ret ()) (\<lambda>_.
        bindA (orchestrator_init env memory_path) (\<lambda>cfg.
        bindA (run_pipeline (co\<lparr>co_config := cfg\<rparr>) req architecture modules) (\<lambda>a.
        ret (if approval_status_value (ar_status a) = ''approved'' then 0 else 1)))))
       (\<lambda>e. ret 1)"

end
