(* ===== verification/Deployment_Frame.thy ===== *)
theory Deployment_Frame
  imports Deployment_Safety
begin

text \<open>
  What a deployment that succeeds leaves alone, on any disk. A file deployed onto itself, which is how the pipeline
  deploys, is validated in place, so the only places such a deployment writes to are the audit trail and the backup
  directories. \<open>spared\<close> is that contract; it composes over the files of a project.
\<close>

section \<open>The contract\<close>

definition spared :: "'z gov_world_scheme \<Rightarrow> 'z gov_world_scheme \<Rightarrow> bool" where
  "spared s t \<longleftrightarrow> dk_cwd t = dk_cwd s \<and> gov_settings t = gov_settings s
     \<and> (\<forall>x. x \<noteq> audit_file s \<and> backup_dir_name \<notin> set x \<longrightarrow> dk_files t x = dk_files s x)"

lemma audit_file_same: "dk_cwd t = dk_cwd s \<Longrightarrow> gov_settings t = gov_settings s \<Longrightarrow> audit_file t = audit_file s"
  by (simp add: audit_file_def place_def)

lemma spared_place: "spared s t \<Longrightarrow> place t p = place s p" "spared s t \<Longrightarrow> audit_file t = audit_file s"
  using audit_file_same [of t s] by (simp_all add: spared_def place_def)

interpretation spared: contract spared
proof
  show "spared s s" for s :: "'z gov_world_scheme" by (simp add: spared_def)
  show "spared s u" if "spared s t" "spared t u" for s t u :: "'z gov_world_scheme"
    using that spared_place(2) [OF that(1)] by (simp add: spared_def)
qed

text \<open>What writes no file.\<close>

lemma spared_frames:
  assumes "frames (\<lambda>s. (dk_files s, dk_cwd s, gov_settings s)) m"
  shows "obeys spared m"
  using assms by (auto simp: obeys_def spared_def)

lemma spared_reads: "obeys spared fresh_uuid" "obeys spared time_time" "obeys spared (read_text p)" "obeys spared (make_dirs p)"
proof -
  show "obeys spared fresh_uuid" "obeys spared time_time" by (rule spared_frames, simp add: obeys_def action_simps)+
  show "obeys spared (read_text p)"
    by (rule spared_frames, rule obeysI) (simp add: read_text_def read_file_def disk_outcome_def action_simps)
  show "obeys spared (make_dirs p)"
    by (rule spared_frames, rule obeysI) (simp add: make_dirs_def disk_outcome_def action_simps split: write_outcome.split)
qed

lemma spared_audit: "obeys spared (log_audit act cm details res err)"
proof (rule obeysI)
  fix s :: "'z gov_world_scheme"
  let ?t = "snd (log_audit act cm details res err s)"
  have "dk_cwd ?t = dk_cwd s" "gov_settings ?t = gov_settings s"
    by (simp_all add: log_audit_cases append_file_def put_text_disk put_text_settings Let_def logged_def)
  then show "spared s ?t" using audit_spares [of _ s act cm details res err] by (simp add: spared_def)
qed

section \<open>The backup\<close>

lemma fold_piece_place:
  assumes "slash \<notin> set x" and "b \<noteq> []" and "last b \<noteq> slash" and "\<not> is_abs x"
  shows "place s (path_join b x) = rev (norm_piece x (rev (place s b)))"
proof -
  have join: "path_join b x = b @ slash # x" using assms by (simp add: path_join_def)
  have abs: "is_abs (b @ slash # x) = is_abs b" using assms(2) by (cases b) (auto simp: is_abs_def)
  have "path_join (dk_cwd s) (b @ slash # x) = path_join (dk_cwd s) b @ slash # x"
    using assms(2) abs by (auto simp: path_join_def)
  then show ?thesis using assms(1) by (simp add: place_def join norm_pieces_append pieces_plain)
qed

lemma path_join_ends: "\<exists>h. path_join a b = h @ b"
  by (auto simp: path_join_def)

lemma basename_no_slash: "slash \<notin> set (basename p)"
  by (auto simp: basename_def dest: set_takeWhileD)

text \<open>Wherever the copy goes, a component of its place is the name of the backup directories.\<close>

lemma backup_inside:
  assumes "slash \<notin> set did"
  shows "backup_dir_name \<in> set (place s (backup_name p did))"
    "backup_dir_name \<in> set (place s (path_join (backup_name p did) (basename p)))"
proof -
  let ?b = "basename p @ ''.bak.'' @ did"
  have plain: "plain ?b" using assms basename_no_slash [of p] by (auto simp: plain_def)
  have place: "place s (backup_name p did) = place s (dirname p) @ [backup_dir_name, ?b]"
    unfolding backup_name_def place_join [OF plain] place_join [OF plain_backup(1)] by simp
  then show "backup_dir_name \<in> set (place s (backup_name p did))" by simp
  obtain h where "backup_name p did = h @ ?b"
    unfolding backup_name_def using path_join_ends by blast
  then have "backup_name p did \<noteq> []" "last (backup_name p did) = last ?b" by simp_all
  moreover have "last ?b \<noteq> slash"
    using plain last_in_set [of ?b] by (metis plain_def)
  ultimately have ends: "backup_name p did \<noteq> []" "last (backup_name p did) \<noteq> slash" by simp_all
  have "\<not> is_abs (basename p)" using basename_no_slash [of p] by (auto simp: is_abs_def split: list.splits)
  then have "place s (path_join (backup_name p did) (basename p)) = rev (norm_piece (basename p) (rev (place s (backup_name p did))))"
    using fold_piece_place [OF basename_no_slash ends] by blast
  then show "backup_dir_name \<in> set (place s (path_join (backup_name p did) (basename p)))"
    by (simp add: place norm_piece_def)
qed

lemma spared_copy:
  assumes "slash \<notin> set did"
  shows "obeys spared (copy_file p (backup_name p did))"
proof (rule obeysI)
  fix s :: "'z gov_world_scheme"
  let ?t = "snd (copy_file p (backup_name p did) s)"
  define d where "d = (if is_dir (backup_name p did) s then path_join (backup_name p did) (basename p) else backup_name p did)"
  have inside: "backup_dir_name \<in> set (place s d)" by (simp add: d_def backup_inside [OF assms])
  have read: "dk_files (snd (read_file p s)) = dk_files s" "dk_cwd (snd (read_file p s)) = dk_cwd s"
    "gov_settings (snd (read_file p s)) = gov_settings s"
    by (simp_all add: read_file_def disk_outcome_def action_simps)
  have put: "dk_cwd (snd (write_file d body u)) = dk_cwd u" "gov_settings (snd (write_file d body u)) = gov_settings u"
    "x \<noteq> place u d \<Longrightarrow> dk_files (snd (write_file d body u)) x = dk_files u x" for body x and u :: "'z gov_world_scheme"
    by (simp_all add: write_file_def put_text_disk put_text_settings)
  have tail: "dk_cwd (snd (bindA disk_outcome (\<lambda>r. if r = Written then ret () else raise (broken d)) u)) = dk_cwd u"
    "gov_settings (snd (bindA disk_outcome (\<lambda>r. if r = Written then ret () else raise (broken d)) u)) = gov_settings u"
    "dk_files (snd (bindA disk_outcome (\<lambda>r. if r = Written then ret () else raise (broken d)) u)) = dk_files u"
    for u :: "'z gov_world_scheme"
    by (simp_all add: disk_outcome_def action_simps)
  have "dk_cwd ?t = dk_cwd s \<and> gov_settings ?t = gov_settings s \<and> (\<forall>x. x \<noteq> place s d \<longrightarrow> dk_files ?t x = dk_files s x)"
  proof (cases "path_exists p s \<and> path_exists d s \<and> place s p = place s d")
    case True
    then show ?thesis by (simp add: copy_file_def Let_def d_def [symmetric] raise_def)
  next
    case False
    then have eq: "copy_file p (backup_name p did) s = bindA (read_file p) (\<lambda>body. bindA (write_file d body) (\<lambda>_.
        bindA disk_outcome (\<lambda>r. if r = Written then ret () else raise (broken d)))) s"
      by (simp only: copy_file_def Let_def d_def [symmetric] if_False)
    obtain r u where u: "read_file p s = (r, u)" by fastforce
    show ?thesis
    proof (cases r)
      case (Inl e)
      then show ?thesis using read u unfolding eq by (simp add: bindA_def)
    next
      case (Inr body)
      obtain r' v where v: "write_file d body u = (r', v)" by fastforce
      have same: "place u d = place s d" using read(2) u by (simp add: place_def)
      have "dk_cwd v = dk_cwd s \<and> gov_settings v = gov_settings s \<and> (\<forall>x. x \<noteq> place s d \<longrightarrow> dk_files v x = dk_files s x)"
        using put(1,2) [of body u] put(3) [of _ u body] read u v same by simp
      then show ?thesis using u v Inr tail [of v] unfolding eq by (cases r') (simp_all add: bindA_def [of "read_file p"] bindA_def [of "write_file d body"])
    qed
  qed
  then show "spared s ?t" using inside unfolding spared_def by metis
qed

section \<open>A file deployed onto itself\<close>

text \<open>What the validation after a deployment accepts, as a property of the disk.\<close>

definition sound_file :: "(string \<Rightarrow> exn + unit) \<Rightarrow> string \<Rightarrow> string \<Rightarrow> 'z disk_world_scheme \<Rightarrow> bool" where
  "sound_file parse lang p s \<longleftrightarrow> p \<noteq> [] \<and> (\<exists>x. dk_files s (place s p) = Some x \<and> deployable parse lang x)"

lemma sound_file_spared:
  assumes "spared s t" and "place s p \<noteq> audit_file s" and "backup_dir_name \<notin> set (place s p)"
  shows "sound_file parse lang p t = sound_file parse lang p s"
  using assms spared_place(1) [OF assms(1)] by (simp add: sound_file_def spared_def)

lemma read_text_value:
  "read_text p s = (Inr x, t) \<Longrightarrow> \<exists>y. dk_files s (place s p) = Some y \<and> x = universal y"
  by (auto simp: read_text_def bind_value ret_def read_file_def is_file_def raise_def disk_outcome_def split: if_splits)

lemma validation_sound:
  fixes s :: "'z gov_world_scheme"
  assumes run: "validate_deployment parse p lang s = (Inr v, t)" and v: "dv_syntax_valid v"
  shows "sound_file parse lang p s"
proof -
  define m where "m = (if lang = ''python'' then
           bindA (read_text p) (\<lambda>text. bindA (lift_res (parse text)) (\<lambda>_. ret (validation_found True [])))
         else if lang \<in> {''go'', ''rust''} then
           bindA (gets (\<lambda>s. dk_files s (place s p))) (\<lambda>f. ret (validation_found (f \<noteq> Some []) []))
         else ret (validation_found True []) :: ('z gov_world_scheme, deploy_validation) action)"
  have there: "is_file p s"
    using run v by (auto simp: validate_deployment_def validation_found_def ret_def split: if_splits)
  then obtain y where y: "p \<noteq> []" "dk_files s (place s p) = Some y" by (auto simp: is_file_def)
  have "m s = (Inr v, t)"
    using run v there
    by (auto simp: validate_deployment_def m_def [symmetric] catchA_def validation_found_def ret_def
        split: prod.splits sum.splits if_splits)
  then have "deployable parse lang y"
    using v y(2) unfolding m_def
    by (auto simp: deployable_def bind_value ret_def gets_def lift_res_def validation_found_def dest!: read_text_value split: if_splits)
  then show ?thesis using y by (simp add: sound_file_def)
qed

lemma spared_validate: "obeys spared (validate_deployment parse p lang)"
proof (rule obeysI)
  fix s :: "'z gov_world_scheme"
  have "obeys spared (catchA
        (if lang = ''python'' then
           bindA (read_text p) (\<lambda>text. bindA (lift_res (parse text)) (\<lambda>_. ret (validation_found True [])))
         else if lang \<in> {''go'', ''rust''} then
           bindA (gets (\<lambda>s. dk_files s (place s p))) (\<lambda>f. ret (validation_found (f \<noteq> Some []) []))
         else ret (validation_found True []))
        (\<lambda>e. ret (validation_found False
           [(if is_syntax_error e then ''Syntax error: '' else ''Validation error: '') @ exn_str e])))"
    by (intro spared.closure_rules spared_reads)
  then show "spared s (snd (validate_deployment parse p lang s))"
    unfolding validate_deployment_def by (auto simp: ret_def spared.contract_refl dest: obeysD)
qed

lemma failure_status:
  "record_deploy_failure governed did art target t backup reason validation s = (Inr d, u) \<Longrightarrow>
     dr_status d \<in> {ApRolledBack, ApDeployFailed}"
  by (auto simp: record_deploy_failure_def new_deployment_record_def failure_record_def bind_value lift_res_def ret_def
      split: if_splits)

lemma failed_status: "deploy_failed governed did art target t backup e s = (Inr d, u) \<Longrightarrow> dr_status d \<in> {ApRolledBack, ApDeployFailed}"
  by (auto simp: deploy_failed_def bind_value dest: failure_status)

lemma bind_outcome:
  assumes "bindA m f s = (Inr v, t)" and "obeys spared m"
  obtains x u where "m s = (Inr x, u)" "spared s u" "f x u = (Inr v, t)"
  using assms(1) obeysD [OF assms(2), of s] by (auto simp: bind_value)

text \<open>The source is the target: nothing is copied.\<close>

lemma spared_install: "obeys spared (deploy_install p p)"
  unfolding deploy_install_def by (simp only: simp_thms if_True) (intro spared.closure_rules spared_reads)

lemma spared_prepare:
  assumes "deploy_prepare governed did p target tm s = (Inr (Inr backup), t)" and "slash \<notin> set did"
  shows "spared s t"
proof -
  have "obeys spared (bindA (create_backup target did) (\<lambda>b. ret (Inr (Some b) :: deployment_record + string option)))"
    unfolding create_backup_def by (intro spared.closure_rules spared_reads spared_copy assms(2))
  from obeysD [OF this, of s] assms(1) show ?thesis
    by (auto simp: deploy_prepare_def ret_def bind_value spared.contract_refl split: if_splits)
qed

lemma finish_status:
  "deploy_finish parse governed did p target tm backup v s = (Inr d, t) \<Longrightarrow> dr_status d \<in> {ApRolledBack, ApDeployFailed, ApDeployed}"
  by (auto simp: deploy_finish_def bind_value lift_res_def ret_def new_deployment_record_def success_record_def
      dest!: failure_status split: if_splits)

lemma success_finish:
  assumes "deploy_finish parse governed did p target tm backup v s = (Inr d, t)" and "dr_status d = ApDeployed"
  shows "dv_syntax_valid v \<and> spared s t"
proof -
  have v: "dv_syntax_valid v"
    using assms failure_status by (fastforce simp: deploy_finish_def bind_value split: if_splits)
  have "obeys spared (bindA (lift_res (new_deployment_record (success_record did p target tm backup v))) (\<lambda>d.
        bindA (deploy_audit governed ''deployment_success'' d) (\<lambda>_. ret d)))"
    unfolding deploy_audit_def by (intro spared.closure_rules spared_audit)
  from obeysD [OF this, of s] assms(1) v show ?thesis by (simp add: deploy_finish_def)
qed

text \<open>A deployment of a file onto itself either fails, and says so, or finds the file sound and spares the rest.\<close>

lemma deploy_in_place:
  assumes "deploy parse governed p p lang s = (Inr d, t)"
  shows "dr_status d \<in> {ApRolledBack, ApDeployFailed}
    \<or> dr_status d = ApDeployed \<and> spared s t \<and> (\<exists>u. spared s u \<and> spared u t \<and> sound_file parse lang p u)"
proof -
  obtain i u0 where i: "fresh_uuid s = (Inr i, u0)" "spared s u0" "bindA time_time (deploy_from parse governed p p lang (take 12 i)) u0 = (Inr d, t)"
    using bind_outcome [OF assms [unfolded deploy_def] spared_reads(1)] .
  obtain tm u1 where tm: "spared u0 u1" "deploy_from parse governed p p lang (take 12 i) tm u1 = (Inr d, t)"
    using bind_outcome [OF i(3) spared_reads(2)] .
  have did: "slash \<notin> set (take 12 i)" using i(1) uuid_no_slash by (auto simp: fresh_uuid_def)
  let ?prepare = "deploy_prepare governed (take 12 i) p p tm"
  obtain r u2 where r: "attempt ?prepare u1 = (Inr r, u2)"
    and rest: "(case r of Inl e \<Rightarrow> deploy_failed governed (take 12 i) p p tm None e
     | Inr (Inl d) \<Rightarrow> ret d
     | Inr (Inr backup) \<Rightarrow>
         catchA
           (bindA (deploy_install p p) (\<lambda>_.
            bindA (validate_deployment parse p lang) (deploy_finish parse governed (take 12 i) p p tm backup)))
           (deploy_failed governed (take 12 i) p p tm backup)) u2 = (Inr d, t)"
    using tm(2) by (auto simp: deploy_from_def bind_value)
  have prepared: "?prepare u1 = (Inr x, u2)" if "r = Inr x" for x
    using r that by (auto simp: attempt_def catchA_def bindA_def ret_def split: prod.splits sum.splits if_splits)
  consider e where "r = Inl e" | d' where "r = Inr (Inl d')" | backup where "r = Inr (Inr backup)"
    by (metis sum.exhaust)
  then show ?thesis
  proof cases
    case 1
    then show ?thesis using rest failed_status by simp blast
  next
    case 2
    then have "d' = d" using rest by (simp add: ret_def)
    then show ?thesis using prepared [OF 2]
      by (auto simp: deploy_prepare_def bind_value ret_def dest!: failure_status split: if_splits)
  next
    case 3
    let ?m = "bindA (deploy_install p p) (\<lambda>_.
            bindA (validate_deployment parse p lang) (deploy_finish parse governed (take 12 i) p p tm backup))"
    have outcome: "?m u2 = (Inr d, t) \<or> (\<exists>e u. deploy_failed governed (take 12 i) p p tm backup e u = (Inr d, t))"
      using rest 3 by (auto simp: catchA_def split: prod.splits sum.splits if_splits)
    show ?thesis
    proof (cases "dr_status d = ApDeployed")
      case False
      have "dr_status d \<in> {ApRolledBack, ApDeployFailed, ApDeployed}" if "?m u2 = (Inr d, t)"
        using that by (auto simp: bind_value dest!: finish_status)
      then show ?thesis using outcome failed_status False by blast
    next
      case True
      then have "?m u2 = (Inr d, t)" using outcome failed_status by fastforce
      then obtain x u3 where u3: "spared u2 u3" "bindA (validate_deployment parse p lang) (deploy_finish parse governed (take 12 i) p p tm backup) u3 = (Inr d, t)"
        using bind_outcome [OF _ spared_install] by metis
      obtain v u4 where u4: "validate_deployment parse p lang u3 = (Inr v, u4)" "spared u3 u4" "deploy_finish parse governed (take 12 i) p p tm backup v u4 = (Inr d, t)"
        using bind_outcome [OF u3(2) spared_validate] .
      note success = success_finish [OF u4(3) True]
      have "spared s u3"
        using i(2) tm(1) spared_prepare [OF prepared [OF 3] did] u3(1) spared.contract_trans by blast
      moreover have "spared u3 t" using u4(2) success spared.contract_trans by blast
      ultimately show ?thesis using True validation_sound [OF u4(1)] success spared.contract_trans by blast
    qed
  qed
qed

end
