(* ===== verification/Pipeline.thy ===== *)
theory Pipeline
  imports Orchestrator Deployment_Frame
begin

text \<open>
  What a run of the pipeline may do: the calls of the provider it makes, the model it leaves, what an
  artifact that comes out of it satisfies, the record of its outcome, and the exit code of the command
  line. \<^verbatim>\<open>above_audit\<close> is the contract of a part of the state that the audit trail does not write,
  \<^verbatim>\<open>above_governance\<close> of one that the whole governance and the deployment do not write, and
  \<^verbatim>\<open>above_loop\<close> of one that nothing before the human gate writes.
\<close>

section \<open>What governance and deployment leave alone\<close>

locale above_audit = above_disk f for f :: "'z gov_world_scheme \<Rightarrow> 'x" +
  assumes logs [simp]: "f (s\<lparr>gov_logs := a\<rparr>) = f s"
begin

lemma new_records: "frames f (new_gov_record event_type operation_id agent_id act resource result metadata)"
  unfolding new_gov_record_def by (intro frame.closure_rules reads)

lemma audits: "frames f (log_audit act cm details res err)"
proof -
  have "frames f (modify (\<lambda>s. s\<lparr>gov_logs := gov_logs s @ [r]\<rparr>))" for r
    by (simp add: obeys_def action_simps)
  then show ?thesis
    unfolding log_audit_def log_audit_as_def by (intro frame.closure_rules new_records writes)
qed

lemma judgements: "frames f (validate_specification dump spec)" "frames f (validate_artifact dump' a)"
  unfolding validate_specification_def validate_artifact_def gov_failed_def by (intro frame.closure_rules audits)+

end

locale above_governance = above_audit f for f :: "'z gov_world_scheme \<Rightarrow> 'x" +
  assumes replies [simp]: "f (s\<lparr>gov_replies := b\<rparr>) = f s"
begin

lemma approvals: "frames f (require_human_approval a)"
proof -
  have "frames f (modify (\<lambda>s. s\<lparr>gov_replies := r\<rparr>))" for r
    by (simp add: obeys_def action_simps)
  then show ?thesis
    unfolding require_human_approval_def by (auto intro!: frame.closure_rules audits split: list.split)
qed

lemma rollbacks: "frames f (rollback target backup)"
  by (rule obeysI)
    (auto simp: rollback_def ret_def obeysD [OF copies] obeysD [OF removes] split: option.split)

lemma failures: "frames f (record_deploy_failure governed did art target t backup reason validation)"
  unfolding record_deploy_failure_def deploy_audit_def by (intro frame.closure_rules audits)

lemma prepares: "frames f (deploy_prepare governed did art target t)"
proof (rule obeysI)
  fix s
  have "frames f (bindA (record_deploy_failure governed did art target t None (''Source not found: '' @ art) None)
      (\<lambda>d. ret (Inl d :: deployment_record + string option)))"
    "frames f (bindA (create_backup target did) (\<lambda>b. ret (Inr (Some b) :: deployment_record + string option)))"
    unfolding create_backup_def by (intro frame.closure_rules failures makes copies)+
  then show "f (snd (deploy_prepare governed did art target t s)) = f s"
    unfolding deploy_prepare_def by (auto simp: ret_def dest: obeysD)
qed

lemma validations: "frames f (validate_deployment parse target lang)"
proof (rule obeysI)
  fix s
  have "frames f (catchA
        (if lang = ''python'' then
           bindA (read_text target) (\<lambda>text. bindA (lift_res (parse text)) (\<lambda>_. ret (validation_found True [])))
         else if lang \<in> {''go'', ''rust''} then
           bindA (gets (\<lambda>s. dk_files s (place s target))) (\<lambda>f. ret (validation_found (f \<noteq> Some []) []))
         else ret (validation_found True []))
        (\<lambda>e. ret (validation_found False
           [(if is_syntax_error e then ''Syntax error: '' else ''Validation error: '') @ exn_str e])))"
    by (intro frame.closure_rules read)
  then show "f (snd (validate_deployment parse target lang s)) = f s"
    unfolding validate_deployment_def by (auto simp: ret_def dest: obeysD)
qed

lemma deploys: "frames f (deploy parse governed art target lang)"
  unfolding deploy_def deploy_from_def deploy_failed_def deploy_install_def deploy_finish_def deploy_audit_def
  by (intro frame.closure_rules reads prepares rollbacks failures validations audits makes copies)

end

context above_disk
begin

lemma checks:
  assumes "\<And>c d l. frames f (exec c d l)"
  shows "frames f (check_syntax parse exec p language)" "frames f (run_security_scan filename exec p language base)"
proof -
  have cmds: "frames f (run_commands exec dir cs)" for dir cs
    by (induction cs rule: induct_list012) (auto intro!: frame.closure_rules assms)
  have "frames f (check_go exec p)"
    unfolding check_go_def by (intro frame.closure_rules assms cmds)
  then show "frames f (check_syntax parse exec p language)"
    unfolding check_syntax_def by (intro frame.closure_rules assms read)
  show "frames f (run_security_scan filename exec p language base)"
    unfolding run_security_scan_def scan_python_def scan_go_def scan_rust_def
    by (auto intro!: frame.closure_rules assms split: prod.split)
qed

end

section \<open>The bounds of a run\<close>

interpretation charged_gov: above_governance "charge g :: ('p, 'z) llm_world_scheme \<Rightarrow> nat" for g
  by unfold_locales (simp_all add: charge_def)

lemma fold_each_frames: "(\<And>x b. frames f (g x b)) \<Longrightarrow> frames f (fold_each g xs b)"
  by (induction xs arbitrary: b) (auto intro!: frame.closure_rules)

lemma charge_outcome: "frames (charge g) (settle_loop ok n q cats)"
proof -
  have "frames (charge g) (modify (\<lambda>s. s\<lparr>loop_state := r (loop_state s)\<rparr>))" for r
    by (simp add: obeys_def action_simps charge_def)
  then show ?thesis unfolding settle_loop_def by (intro frame.closure_rules)
qed

lemma charge_lengths: "frames (charge g) (code_length target sources :: (('p, 'z) agent_world_scheme, nat) action)"
  unfolding code_length_def by (intro fold_each_frames frame.closure_rules charged.read)

lemma charge_after:
  fixes co :: "('p, 'z) agent_services"
  assumes "\<And>c d l. frames (charge g) (co_exec co c d l)"
  shows "frames (charge g) (validate_files co lang target sources a)"
    "frames (charge g) (judge co q a)" "frames (charge g) (attempt_passed co n q a)"
    "frames (charge g) (next_attempt co target n q a sources previous history)"
proof -
  show "frames (charge g) (validate_files co lang target sources a)"
    unfolding validate_files_def check_source_def scan_source_def
    by (intro frame.closure_rules fold_each_frames charged.checks assms)
  show "frames (charge g) (judge co q a)"
    unfolding judge_def by (intro frame.closure_rules charged_gov.judgements)
  show "frames (charge g) (attempt_passed co n q a)"
    unfolding attempt_passed_def audit_def by (intro frame.closure_rules charge_outcome charged_gov.audits)
  have "frames (charge g) (loop_exhausted co n q a)"
    unfolding loop_exhausted_def audit_def Let_def by (intro frame.closure_rules charge_outcome charged_gov.audits)
  moreover have "frames (charge g) (previous_text target sources previous :: (('p, 'z) agent_world_scheme, string) action)"
    unfolding previous_text_def by (auto intro!: frame.closure_rules charged.read split: list.split)
  ultimately show "frames (charge g) (next_attempt co target n q a sources previous history)"
    unfolding next_attempt_def by (intro frame.closure_rules)
qed

lemma charge_attempt:
  fixes co :: "('p, 'z) agent_services"
  assumes "\<And>c d l. frames (charge g) (co_exec co c d l)"
    and "\<And>req lang. costs (charge g :: ('p, 'z) agent_world_scheme \<Rightarrow> nat) k
      (generate_code (co_shown co) (co_rules co) (co_config co) (co_api co) req lang)"
  shows "costs (charge g) (2 * k * max 1 (length (sp_modules spec))) (one_attempt co spec n c)"
proof -
  let ?c = "charge g :: ('p, 'z) agent_world_scheme \<Rightarrow> nat"
  have set_model: "frames ?c (modify (\<lambda>s. s\<lparr>llm_model := m s\<rparr>))" for m
    by (simp add: obeys_def action_simps charge_def)
  have "costs ?c (2 * k * max 1 (length (sp_modules spec))) (generate_attempt co n spec repair)" for repair
    unfolding generate_attempt_def
    by (intro costs_free_bind [OF costs_frames] costs_then_free [OF charge_generate_project] costs_frames assms(2)
        frame.closure_rules set_model charged.reads)
  moreover have "frames ?c (new_artifact req spec generated)" for req generated
    unfolding new_artifact_def by (intro frame.closure_rules charged.reads)
  ultimately show ?thesis
    unfolding one_attempt_def conclude_def Let_def split_beta
    by (intro costs_then_free costs_frames frame.closure_rules charge_after charge_lengths charged.reads assms(1))
qed

lemma charge_attempts:
  fixes co :: "('p, 'z) agent_services"
  assumes "\<And>n c. costs (charge g) k (one_attempt co spec n c)"
  shows "costs (charge g) (k * (Suc loop_max_attempts - n)) (run_attempts co spec n c)"
proof (induction "Suc loop_max_attempts - n" arbitrary: n c)
  case 0
  then show ?case by (simp add: run_attempts.simps charge_raise)
next
  case (Suc left)
  then have n: "n \<le> loop_max_attempts" and left: "left = Suc loop_max_attempts - (n + 1)" by auto
  have "costs (charge g) (k * left) (case r of Inl a \<Rightarrow> ret a | Inr c' \<Rightarrow> run_attempts co spec (n + 1) c')" for r
    using Suc.hyps(1) [OF left] left by (auto simp: charge_ret split: sum.split)
  then have "costs (charge g) (k + k * left) (run_attempts co spec n c)"
    using n by (subst run_attempts.simps) (simp only: if_False not_less [symmetric] simp_thms, intro costs_bind assms, simp_all)
  then show ?case using Suc.hyps(2) [symmetric] by simp
qed

lemma specification_valid:
  "validate_specification dump spec s = (Inr ok, t) \<Longrightarrow> ok \<longleftrightarrow> sp_architecture spec \<noteq> [] \<and> sp_modules spec \<noteq> []"
  by (auto simp: validate_specification_def gov_failed_def bind_value ret_def split: if_splits)

lemma make_spec_simps [simp]:
  "sp_requirement (make_spec req architecture modules) = req" "sp_architecture (make_spec req architecture modules) = architecture"
  "sp_modules (make_spec req architecture modules) = [] \<longleftrightarrow> modules = []"
  "length (sp_modules (make_spec req architecture modules)) = length modules"
  by (simp_all add: make_spec_def)

lemma charge_approve: "frames (charge g) (approve_and_deploy co req a)"
proof -
  have "frames (charge g) (deploy_files co lang target rels ids)" for lang target rels ids
    by (induction rels arbitrary: ids)
      (auto simp: deploy_file_def Let_def intro!: frame.closure_rules charged_gov.deploys)
  then show ?thesis
    unfolding approve_and_deploy_def deployment_failed_def deployment_complete_def audit_def Let_def
    by (auto intro!: frame.closure_rules charged_gov.approvals charged_gov.audits split: sum.split)
qed

text \<open>
  C6. The bounds of a run. When the tools leave the provider alone, and one call of it adds at most one
  to a count, a run of the pipeline adds at most 60 for each module: five attempts, two requests to a
  module (its source and, for Go, its tests), six calls to a request. Waiting is bounded the same way.
\<close>

theorem pipeline_bounds:
  fixes s :: "('p, 'z) agent_world_scheme"
  assumes "\<And>m p t n w. c (snd (co_api co m p t n w)) \<le> c w + (1 :: nat)"
    and "\<And>cmd d l. frames (\<lambda>s. (provider s, slept s)) (co_exec co cmd d l)"
  shows "c (provider (snd (run_pipeline co req architecture modules s))) \<le> c (provider s) + 60 * length modules
    \<and> length (slept (snd (run_pipeline co req architecture modules s))) \<le> length (slept s) + 40 * length modules"
proof -
  have tools: "frames (charge g) (co_exec co cmd d l)" for g :: "'p \<times> rat list \<Rightarrow> nat" and cmd d l
    using assms(2) [of cmd d l] by (simp add: obeys_def charge_def)
  have run: "charge g (snd (run_pipeline co req architecture modules s)) \<le> charge g s + 10 * k * length modules"
    if k: "\<And>req lang. costs (charge g :: ('p, 'z) agent_world_scheme \<Rightarrow> nat) k
        (generate_code (co_shown co) (co_rules co) (co_config co) (co_api co) req lang)" for g k
  proof -
    let ?spec = "make_spec req architecture modules"
    have attempts: "costs (charge g) (10 * k * length modules) (run_attempts co ?spec 1 c)" if "modules \<noteq> []" for c
    proof -
      have "max 1 (length modules) = length modules" using that by (cases modules) simp_all
      then show ?thesis
        using charge_attempts [OF charge_attempt [OF tools k, of ?spec], of 1 c] by (simp add: loop_max_attempts_def algebra_simps)
    qed
    have "costs (charge g) (0 + (0 + 10 * k * length modules)) (run_pipeline co req architecture modules)"
      unfolding run_pipeline_def build_artifact_def Let_def audit_def
      by (intro costs_then_free [OF _ costs_frames [OF charge_approve]] costs_bind [OF costs_frames [OF charged_gov.audits]]
          costs_bind_value [OF costs_frames [OF charged_gov.judgements(1)]])
        (auto dest!: specification_valid intro!: costs_free_bind [OF costs_frames [OF charged_gov.audits]] charge_raise
          attempts [unfolded One_nat_def])
    then show ?thesis by (simp add: costs_def)
  qed
  have calls: "costs (charge (\<lambda>q. c (fst q)) :: ('p, 'z) agent_world_scheme \<Rightarrow> nat) (3 + 3)
      (generate_code (co_shown co) (co_rules co) (co_config co) (co_api co) req lang)"
    "costs (charge (\<lambda>q. length (snd q)) :: ('p, 'z) agent_world_scheme \<Rightarrow> nat) (2 + 2)
      (generate_code (co_shown co) (co_rules co) (co_config co) (co_api co) req lang)" for req lang
    by (rule charge_generate, rule charge_calls, rule assms(1)) (rule charge_generate, rule charge_naps)
  show ?thesis
    using run [OF calls(1)] run [OF calls(2)] by (simp add: charge_def)
qed
section \<open>The model after an attempt\<close>

text \<open>
  C29. The escalation. After an attempt that generated the project the client has its own model again;
  when the generation raised in the third attempt or later, the client is left with the fallback model
  as its primary one, for every later request.
\<close>

theorem escalation_outcome:
  "case generate_attempt co n spec repair s of (r, t) \<Rightarrow>
     llm_model t = (if isl r \<and> 3 \<le> n then llm_fallback s else llm_model s)"
proof -
  let ?gen = "generate_project (co_text co) (co_shown co) (co_rules co) (co_config co) (co_api co) spec
    (rq_target_folder (sp_requirement spec)) repair"
  define s1 where "s1 = (if 3 \<le> n then s\<lparr>llm_model := llm_fallback s\<rparr> else s)\<lparr>wall_pos := Suc (wall_pos s)\<rparr>"
  obtain r u where gen: "?gen s1 = (r, u)" by fastforce
  then have "llm_model u = llm_model s1" using obeysD [OF model.projects] by (metis snd_conv)
  moreover have "generate_attempt co n spec repair s = (case r of Inl e \<Rightarrow> (Inl e, u)
      | Inr g \<Rightarrow> (Inr (g, wall_src u (wall_pos u) - wall_src s (wall_pos s)), u\<lparr>wall_pos := Suc (wall_pos u), llm_model := llm_model s\<rparr>))"
    using gen by (cases "3 \<le> n"; cases r)
      (simp_all add: generate_attempt_def bindA_def gets_def modify_def ret_def time_time_def should_escalate_model_def s1_def)
  ultimately show ?thesis by (auto simp: s1_def split: sum.split)
qed

section \<open>The outcome of a run\<close>

definition human_agrees :: "'z gov_world_scheme \<Rightarrow> bool" where
  "human_agrees s \<longleftrightarrow> \<not> st_require_human_approval (gov_settings s)
     \<or> (case gov_replies s of reply # _ \<Rightarrow> lower (strip reply) = ''yes'' | [] \<Rightarrow> False)"

interpretation logs: above_disk "gov_logs :: 'z gov_world_scheme \<Rightarrow> gov_record list"
  by unfold_locales simp_all

lemma audit_appends:
  assumes "audit act details err s = (Inr (), t)"
  shows "\<exists>r. gov_logs t = gov_logs s @ [r] \<and> gr_action r = act"
proof -
  define r where "r = governance_record act ''orchestrator'' details ''success'' err s"
  have "append_file (path_join (st_logs_dir (gov_settings s)) ''audit.log'') (audit_line r ''orchestrator'' err) (logged r s) = (Inr (), t)"
    using assms by (simp add: audit_def log_audit_cases r_def Let_def split: if_splits)
  then have "gov_logs t = gov_logs (logged r s)" using obeysD [OF logs.writes(2)] by (metis snd_conv)
  then show ?thesis by (auto simp: logged_def r_def governance_record_def)
qed

abbreviation yields :: "('a \<Rightarrow> bool) \<Rightarrow> ('s, 'a) action \<Rightarrow> bool" where
  "yields P m \<equiv> delivers (\<lambda>_. True) P m"

lemma yields_any: "yields (\<lambda>_. True) m"
  by (simp add: delivers_def)

lemma yields_then: "(\<And>x. yields P (f x)) \<Longrightarrow> yields P (bindA m f)"
  by (rule delivers_bind [OF yields_any])

lemma yields_value: "yields P m \<Longrightarrow> m s = (Inr v, t) \<Longrightarrow> P v"
  by (metis delivers_def fst_conv)

lemma yields_weaken: "yields P m \<Longrightarrow> (\<And>v. P v \<Longrightarrow> Q v) \<Longrightarrow> yields Q m"
  by (simp add: delivers_def)

text \<open>A file that is sound in the state \<open>s\<close>, unless it is one of those a deployment itself writes.\<close>

definition delivered :: "('p, 's) services \<Rightarrow> requirement \<Rightarrow> string \<Rightarrow> 'z gov_world_scheme \<Rightarrow> bool" where
  "delivered co req rel s \<longleftrightarrow> (let p = path_join (rq_target_folder req) rel in
     place s p = audit_file s \<or> backup_dir_name \<in> set (place s p)
     \<or> sound_file (co_parse co) (language_value (rq_language req)) p s)"

lemma delivered_spared: "spared s t \<Longrightarrow> delivered co req rel t = delivered co req rel s"
  using spared_place [of s t] sound_file_spared [of s t] by (auto simp: delivered_def Let_def)

lemma deploy_files_outcome:
  fixes co :: "('p, 'z) agent_services"
  assumes "deploy_files co (language_value (rq_language req)) (rq_target_folder req) rels ids s = (Inr r, t)"
  shows "case r of Inl d \<Rightarrow> dr_status d \<in> {ApRolledBack, ApDeployFailed}
    | Inr ids \<Rightarrow> spared s t \<and> list_all (\<lambda>rel. delivered co req rel t) rels"
  using assms
proof (induction rels arbitrary: ids s)
  case Nil
  then show ?case by (auto simp: ret_def spared.contract_refl)
next
  case (Cons rel rels)
  let ?p = "path_join (rq_target_folder req) rel"
  obtain d u where d: "deploy (co_parse co) True ?p ?p (language_value (rq_language req)) s = (Inr d, u)"
    and rest: "(if dr_status d \<noteq> ApDeployed then ret (Inl d) else deploy_files co (language_value (rq_language req))
      (rq_target_folder req) rels (ids @ [dr_deployment_id d])) u = (Inr r, t)"
    using Cons.prems by (auto simp: bind_value deploy_file_def Let_def)
  note first = deploy_in_place [OF d]
  show ?case
  proof (cases "dr_status d = ApDeployed")
    case False
    then show ?thesis using rest first by (auto simp: ret_def)
  next
    case True
    then obtain v where v: "spared s u" "spared v u" "sound_file (co_parse co) (language_value (rq_language req)) ?p v"
      using first by auto
    then have "delivered co req rel v" by (simp add: delivered_def)
    then have "delivered co req rel u" using delivered_spared [OF v(2)] by blast
    then show ?thesis using Cons.IH rest True v(1) delivered_spared spared.contract_trans
      by (fastforce split: sum.splits)
  qed
qed

text \<open>The rejection writes to the audit trail only.\<close>

lemma audit_file_kept: "audit_file (snd (log_audit act cm details res err s)) = audit_file s"
  by (simp add: log_audit_cases audit_file_def place_def append_file_def put_text_disk put_text_settings Let_def)
    (simp add: logged_def)

lemma approval_steps:
  "require_human_approval a s =
     (if \<not> st_require_human_approval (gov_settings s) then (Inr (True, a), s)
      else case gov_replies s of
        [] \<Rightarrow> (Inr (False, a), s)
      | reply # rest \<Rightarrow>
          (if human_agrees s
           then bindA (log_audit ''human_approval'' ''governance'' (project_detail a) ''approved'' None)
             (\<lambda>_. ret (True, a\<lparr>ar_status := ApApproved\<rparr>)) (s\<lparr>gov_replies := rest\<rparr>)
           else bindA (log_audit ''human_rejection'' ''governance'' (project_detail a) ''rejected'' None)
             (\<lambda>_. ret (False, a\<lparr>ar_status := ApRejected\<rparr>)) (s\<lparr>gov_replies := rest\<rparr>)))"
  by (simp add: require_human_approval_def human_agrees_def bindA_def gets_def modify_def ret_def split: list.split)

lemma approval_cases:
  assumes "require_human_approval a s = (Inr (ok, b), t)"
  shows "ok = human_agrees s \<and> (t = s \<and> b = a \<or> (\<exists>act res rest st. b = a\<lparr>ar_status := st\<rparr>
    \<and> t = snd (log_audit act ''governance'' (project_detail a) res None (s\<lparr>gov_replies := rest\<rparr>))))"
proof (cases "st_require_human_approval (gov_settings s) \<and> gov_replies s \<noteq> []")
  case True
  then obtain reply rest where r: "gov_replies s = reply # rest" "st_require_human_approval (gov_settings s)"
    by (cases "gov_replies s") auto
  have logged: "bindA (log_audit act ''governance'' (project_detail a) res None) (\<lambda>_. ret v) u = (Inr w, t)
      \<Longrightarrow> w = v \<and> t = snd (log_audit act ''governance'' (project_detail a) res None u)" for act res v w u
    by (auto simp: bind_value ret_def)
  show ?thesis
  proof (cases "human_agrees s")
    case True
    then have "bindA (log_audit ''human_approval'' ''governance'' (project_detail a) ''approved'' None)
        (\<lambda>_. ret (True, a\<lparr>ar_status := ApApproved\<rparr>)) (s\<lparr>gov_replies := rest\<rparr>) = (Inr (ok, b), t)"
      using assms r by (simp add: approval_steps)
    from logged [OF this] True show ?thesis by blast
  next
    case False
    then have "bindA (log_audit ''human_rejection'' ''governance'' (project_detail a) ''rejected'' None)
        (\<lambda>_. ret (False, a\<lparr>ar_status := ApRejected\<rparr>)) (s\<lparr>gov_replies := rest\<rparr>) = (Inr (ok, b), t)"
      using assms r by (simp add: approval_steps)
    from logged [OF this] False show ?thesis by blast
  qed
next
  case False
  then show ?thesis
    using assms by (auto simp: approval_steps human_agrees_def split: if_splits list.splits)
qed

lemma approval_facts:
  assumes "require_human_approval a s = (Inr (ok, b), t)"
  shows "ok = human_agrees s" "\<exists>st. b = a\<lparr>ar_status := st\<rparr>" "audit_file t = audit_file s"
    "x \<noteq> audit_file s \<Longrightarrow> dk_files t x = dk_files s x"
proof -
  have a: "a = a\<lparr>ar_status := ar_status a\<rparr>" by simp
  have same: "audit_file (s\<lparr>gov_replies := rest\<rparr>) = audit_file s" for rest by (simp add: audit_file_def place_def)
  note cases = approval_cases [OF assms]
  show "ok = human_agrees s" using cases by simp
  show "\<exists>st. b = a\<lparr>ar_status := st\<rparr>" using cases a by blast
  show "audit_file t = audit_file s" using cases by (auto simp: audit_file_kept same)
  show "dk_files t x = dk_files s x" if "x \<noteq> audit_file s"
    using that cases by (auto simp: audit_spares same)
qed

lemma approval_spared:
  assumes "require_human_approval a s = (Inr v, t)"
  shows "spared s t"
proof -
  have "spared s (s\<lparr>gov_replies := rest\<rparr>)" for rest by (simp add: spared_def)
  then have "spared s (snd (log_audit act cm details res err (s\<lparr>gov_replies := rest\<rparr>)))" for act cm details res err rest
    using spared.contract_trans obeysD [OF spared_audit] by metis
  moreover have "spared s s" by (rule spared.contract_refl)
  ultimately show ?thesis using approval_cases [of a s "fst v" "snd v" t] assms by auto
qed

text \<open>Without the consent nothing but the audit trail is written, also when the run raises.\<close>

lemma refusal:
  fixes co :: "('p, 'z) agent_services" and s :: "('p, 'z) agent_world_scheme"
  assumes no: "\<not> human_agrees s" and run: "approve_and_deploy co req a s = (r, t)" and x: "x \<noteq> audit_file s"
  shows "dk_files t x = dk_files s x"
proof -
  have same: "audit_file (s\<lparr>gov_replies := rest\<rparr>) = audit_file s" for rest by (simp add: audit_file_def place_def)
  obtain q u where asked: "require_human_approval a s = (q, u)" by fastforce
  have asked': "(\<exists>rest. bindA (log_audit ''human_rejection'' ''governance'' (project_detail a) ''rejected'' None)
      (\<lambda>_. ret (False, a\<lparr>ar_status := ApRejected\<rparr>)) (s\<lparr>gov_replies := rest\<rparr>) = (q, u)) \<or> q = Inr (False, a) \<and> u = s"
    using asked no by (simp add: approval_steps human_agrees_def split: list.splits) blast
  have u: "audit_file u = audit_file s \<and> dk_files u x = dk_files s x \<and> (case q of Inl e \<Rightarrow> True | Inr v \<Rightarrow> \<not> fst v)"
    using asked'
  proof
    assume "\<exists>rest. bindA (log_audit ''human_rejection'' ''governance'' (project_detail a) ''rejected'' None)
      (\<lambda>_. ret (False, a\<lparr>ar_status := ApRejected\<rparr>)) (s\<lparr>gov_replies := rest\<rparr>) = (q, u)"
    then obtain rest where "bindA (log_audit ''human_rejection'' ''governance'' (project_detail a) ''rejected'' None)
      (\<lambda>_. ret (False, a\<lparr>ar_status := ApRejected\<rparr>)) (s\<lparr>gov_replies := rest\<rparr>) = (q, u)" ..
    then have "u = snd (log_audit ''human_rejection'' ''governance'' (project_detail a) ''rejected'' None (s\<lparr>gov_replies := rest\<rparr>))
        \<and> (case q of Inl e \<Rightarrow> True | Inr v \<Rightarrow> \<not> fst v)"
      by (auto simp: bindA_def ret_def split: prod.splits sum.splits)
    then show ?thesis using x by (elim conjE) (simp add: audit_file_kept audit_spares same)
  qed simp
  show ?thesis
  proof (cases q)
    case (Inl e)
    then show ?thesis using asked run u by (simp add: approve_and_deploy_def bindA_def)
  next
    case (Inr v)
    then have "bindA (audit ''pipeline_rejected'' [] (Some ''Human approval rejected''))
        (\<lambda>_. ret ((snd v)\<lparr>ar_status := ApRejected\<rparr>)) u = (r, t)"
      using asked run u by (simp add: approve_and_deploy_def bindA_def split_beta)
    then have "t = snd (audit ''pipeline_rejected'' [] (Some ''Human approval rejected'') u)"
      by (auto simp: bindA_def ret_def split: prod.splits sum.splits)
    then show ?thesis using u x by (simp add: audit_def audit_spares)
  qed
qed

lemma last_audit:
  "bindA (audit act details err) (\<lambda>_. ret v) s = (Inr w, t) \<Longrightarrow> w = v \<and> gr_action (last (gov_logs t)) = act"
  by (auto simp: bind_value ret_def dest!: audit_appends)

lemma approve_outcome:
  fixes co :: "('p, 'z) agent_services"
  assumes "approve_and_deploy co req a s = (Inr b, t)"
  shows "b = a\<lparr>ar_status := ar_status b\<rparr> \<and>
    (if \<not> human_agrees s
     then ar_status b = ApRejected \<and> gr_action (last (gov_logs t)) = ''pipeline_rejected''
       \<and> (\<forall>x. x = audit_file s \<or> dk_files t x = dk_files s x)
     else if ar_status b = ApDeployed
     then gr_action (last (gov_logs t)) = ''pipeline_success'' \<and> spared s t
       \<and> list_all (\<lambda>rel. delivered co req rel t) (ar_generated_files a)
     else ar_status b \<in> {ApRolledBack, ApDeployFailed} \<and> gr_action (last (gov_logs t)) = ''deployment_failed'')"
proof -
  obtain ok a' u where asked: "require_human_approval a s = (Inr (ok, a'), u)"
    and rest: "(if \<not> ok then bindA (audit ''pipeline_rejected'' [] (Some ''Human approval rejected''))
        (\<lambda>_. ret (a'\<lparr>ar_status := ApRejected\<rparr>))
      else bindA (deploy_files co (language_value (rq_language req)) (rq_target_folder req) (ar_generated_files a') [])
        (\<lambda>r. case r of Inl d \<Rightarrow> deployment_failed d a' | Inr ids \<Rightarrow> deployment_complete ids a')) u = (Inr b, t)"
    using assms by (auto simp: approve_and_deploy_def bind_value)
  obtain st where a': "a' = a\<lparr>ar_status := st\<rparr>" using approval_facts(2) [OF asked] by blast
  show ?thesis
  proof (cases ok)
    case False
    then have no: "bindA (audit ''pipeline_rejected'' [] (Some ''Human approval rejected''))
        (\<lambda>_. ret (a'\<lparr>ar_status := ApRejected\<rparr>)) u = (Inr b, t)"
      using rest by simp
    have "dk_files t x = dk_files s x" if "x \<noteq> audit_file s" for x
    proof -
      have "t = snd (audit ''pipeline_rejected'' [] (Some ''Human approval rejected'') u)"
        using no by (auto simp: bind_value ret_def)
      then show ?thesis using that approval_facts(3,4) [OF asked] by (simp add: audit_def audit_spares)
    qed
    then show ?thesis using last_audit [OF no] False approval_facts(1) [OF asked] a' by auto
  next
    case True
    then obtain r v where d: "deploy_files co (language_value (rq_language req)) (rq_target_folder req)
          (ar_generated_files a') [] u = (Inr r, v)"
      and e: "(case r of Inl d \<Rightarrow> deployment_failed d a' | Inr ids \<Rightarrow> deployment_complete ids a') v = (Inr b, t)"
      using rest by (auto simp: bind_value)
    show ?thesis
    proof (cases r)
      case (Inl x)
      then show ?thesis
        using e deploy_files_outcome [OF d] True approval_facts(1) [OF asked] a'
        by (auto simp: deployment_failed_def dest!: last_audit)
    next
      case (Inr ids)
      then have all: "spared u v" "list_all (\<lambda>rel. delivered co req rel v) (ar_generated_files a)"
        using deploy_files_outcome [OF d] a' by simp_all
      have "obeys spared (deployment_complete ids a' :: (('p, 'z) agent_world_scheme, artifact) action)"
        unfolding deployment_complete_def audit_def Let_def by (intro spared.closure_rules spared_audit)
      from obeysD [OF this, of v] have "spared v t" using e Inr by simp
      then have all': "list_all (\<lambda>rel. delivered co req rel t) (ar_generated_files a)" "spared s t"
        by (use all \<open>spared v t\<close> in \<open>simp add: delivered_spared\<close>)
          (rule spared.contract_trans [OF approval_spared [OF asked] spared.contract_trans [OF all(1) \<open>spared v t\<close>]])
      obtain w where finished: "bindA (audit ''pipeline_success'' [(''status'', PStr (approval_status_value ApDeployed)),
          (''generated_files'', PList (map PStr (ar_generated_files a'))), (''deployment_count'', PInt (int (length ids)))] None)
          (\<lambda>_. ret (a'\<lparr>ar_status := ApDeployed\<rparr>)) w = (Inr b, t)"
        using e Inr by (auto simp: deployment_complete_def bind_value [of "audit _ _ _"] Let_def)
      show ?thesis using last_audit [OF finished] True approval_facts(1) [OF asked] a' all' by auto
    qed
  qed
qed

section \<open>What passes the loop\<close>

text \<open>What an artifact that left the loop satisfies.\<close>

definition vetted :: "requirement \<Rightarrow> artifact \<Rightarrow> bool" where
  "vetted req a \<longleftrightarrow> ar_requirement a = req \<and> ar_generated_files a \<noteq> [] \<and> list_all tr_passed (ar_test_results a)
     \<and> SevCritical \<notin> sf_severity ` set (ar_security_findings a)"

lemma validated:
  "validate_artifact dump a s = (Inr True, t) \<Longrightarrow>
     list_all tr_passed (ar_test_results a) \<and> SevCritical \<notin> sf_severity ` set (ar_security_findings a)"
  by (auto simp: validate_artifact_def gov_failed_def bind_value ret_def filter_empty_conv list_all_iff split: if_splits)

text \<open>The validation extends an artifact by results and findings only.\<close>

definition same_subject :: "artifact \<Rightarrow> artifact \<Rightarrow> bool" where
  "same_subject a b \<longleftrightarrow> ar_requirement b = ar_requirement a \<and> ar_generated_files b = ar_generated_files a"

lemma fold_each_yields:
  assumes "\<And>x b. I b \<Longrightarrow> yields I (g x b)"
  shows "I b \<Longrightarrow> yields I (fold_each g xs b)"
proof (induction xs arbitrary: b)
  case (Cons x xs)
  then show ?case unfolding fold_each.simps by (intro delivers_bind [OF assms])
qed (simp add: delivers_ret)

lemma validate_files_subject: "yields (same_subject a) (validate_files co lang target sources a)"
proof -
  have check: "yields (same_subject a) (check_source co lang p b)" if "same_subject a b" for p b
    unfolding check_source_def using that by (intro yields_then delivers_ret) (simp add: same_subject_def checked_def)
  have scan: "yields (same_subject a) (scan_source co lang target rel b)" if "same_subject a b" for rel b
    unfolding scan_source_def using that by (intro yields_then delivers_ret) (simp add: same_subject_def scanned_def)
  have "same_subject a a" by (simp add: same_subject_def)
  moreover have "yields (same_subject a) (if lang = ''go'' then
        bindA (check_source co lang target b) (fold_each (scan_source co lang target) sources)
      else fold_each (\<lambda>rel a. bindA (check_source co lang (path_join target rel) a) (scan_source co lang target rel)) sources b)"
    if "same_subject a b" for b
    using that by (intro delivers_if delivers_bind [OF check] fold_each_yields check scan)
  ultimately show ?thesis unfolding validate_files_def by blast
qed

lemma loop_exhausted_raises: "yields (\<lambda>_. False) (loop_exhausted co n q a)"
  unfolding loop_exhausted_def Let_def by (intro yields_then delivers_raise)

lemma next_attempt_yields:
  "yields (\<lambda>r. case r of Inl a \<Rightarrow> False | Inr c \<Rightarrow> n \<noteq> loop_max_attempts)
    (next_attempt co target n q a sources previous history)"
  unfolding next_attempt_def
  by (intro yields_then) (auto intro!: delivers_ret intro: yields_weaken [OF loop_exhausted_raises])

lemma judged:
  assumes "judge co q a s = (Inr True, t)" and "q = compute_quality_score ok fs generated"
  shows "generated \<noteq> [] \<and> list_all tr_passed (ar_test_results a) \<and> SevCritical \<notin> sf_severity ` set (ar_security_findings a)"
proof -
  have "quality_passed q" "validate_artifact (co_dump_artifact co) a s = (Inr True, t)"
    using assms(1) by (auto simp: judge_def ret_def split: if_splits)
  then show ?thesis
    using assms(2) validated [of "co_dump_artifact co" a s t] by (simp add: score_cases quality_passed_iff split: if_splits)
qed

lemma conclude_vets:
  assumes "ar_requirement a = req" and "ar_generated_files a = generated"
  shows "yields (\<lambda>r. case r of Inl b \<Rightarrow> vetted req b | Inr c \<Rightarrow> n \<noteq> loop_max_attempts)
    (conclude co target n generated latency previous history a)"
proof -
  let ?q = "compute_quality_score (all_syntax_passed a) (ar_security_findings a) generated"
  have judged: "yields (\<lambda>ok. ok \<longrightarrow> vetted req a) (judge co ?q a)"
    using judged [of co ?q a] assms by (auto intro!: deliversI simp: vetted_def) (metis prod.collapse)+
  have again: "yields (\<lambda>r. case r of Inl b \<Rightarrow> vetted req b | Inr c \<Rightarrow> n \<noteq> loop_max_attempts)
      (next_attempt co target n ?q a sources previous history)" for sources history
    by (rule yields_weaken [OF next_attempt_yields]) (auto split: sum.splits)
  show ?thesis
    unfolding conclude_def Let_def
    by (intro yields_then delivers_bind [OF judged]) (auto intro!: yields_then delivers_ret again)
qed

lemma attempt_vets:
  "yields (\<lambda>r. case r of Inl a \<Rightarrow> vetted (sp_requirement spec) a | Inr c \<Rightarrow> n \<noteq> loop_max_attempts) (one_attempt co spec n c)"
proof -
  obtain repair previous history where c: "c = (repair, previous, history)" by (cases c)
  let ?good = "\<lambda>r. case r of Inl a \<Rightarrow> vetted (sp_requirement spec) a | Inr c \<Rightarrow> n \<noteq> loop_max_attempts"
  have rest: "yields ?good (bindA (new_artifact (sp_requirement spec) spec generated) (\<lambda>fresh.
      bindA (validate_files co lang target (filter is_source generated) fresh)
        (conclude co target n generated latency previous history)))" for generated latency lang target
  proof (rule delivers_bind)
    show "yields (\<lambda>fresh. ar_requirement fresh = sp_requirement spec \<and> ar_generated_files fresh = generated)
        (new_artifact (sp_requirement spec) spec generated)"
      unfolding new_artifact_def by (intro yields_then delivers_ret) simp
  next
    fix fresh :: artifact
    assume fresh: "ar_requirement fresh = sp_requirement spec \<and> ar_generated_files fresh = generated"
    show "yields ?good (bindA (validate_files co lang target (filter is_source generated) fresh)
        (conclude co target n generated latency previous history))"
      by (rule delivers_bind [OF validate_files_subject conclude_vets]) (simp_all add: same_subject_def fresh)
  qed
  show ?thesis
    unfolding one_attempt_def Let_def c split_beta fst_conv snd_conv by (intro yields_then rest)
qed

lemma attempts_vet: "yields (vetted (sp_requirement spec)) (run_attempts co spec n c)"
proof (induction "Suc loop_max_attempts - n" arbitrary: n c)
  case 0
  then show ?case by (simp add: run_attempts.simps delivers_raise)
next
  case (Suc left)
  then have n: "\<not> loop_max_attempts < n" and left: "left = Suc loop_max_attempts - (n + 1)" by auto
  have "yields (vetted (sp_requirement spec)) (case r of Inl a \<Rightarrow> ret a | Inr c' \<Rightarrow> run_attempts co spec (n + 1) c')"
    if "case r of Inl a \<Rightarrow> vetted (sp_requirement spec) a | Inr c \<Rightarrow> n \<noteq> loop_max_attempts" for r
    using that Suc.hyps(1) [OF left] by (auto intro: delivers_ret split: sum.splits)
  then show ?case
    using n by (subst run_attempts.simps) (simp only: if_False, rule delivers_bind [OF attempt_vets])
qed

text \<open>A run that returns: the specification was complete, and the artifact came out of the loop and through
  the approval.\<close>

lemma built:
  assumes "build_artifact co req architecture modules s = (Inr a, u)"
  shows "architecture \<noteq> [] \<and> modules \<noteq> [] \<and> vetted req a"
proof -
  let ?spec = "make_spec req architecture modules"
  obtain ok u1 u2 where valid: "validate_specification (co_dump_spec co) ?spec u1 = (Inr ok, u2)"
    and rest: "(if \<not> ok then bindA (audit ''pipeline_failed'' [] (Some ''Specification validation failed'')) (\<lambda>_.
        raise (value_error ''Specification validation failed''))
      else run_attempts co ?spec 1 (None, [], [])) u2 = (Inr a, u)"
    using assms by (auto simp: build_artifact_def Let_def bind_value)
  have ok: ok using rest by (cases ok) (auto simp: bind_value raise_def)
  then have "run_attempts co ?spec 1 (None, [], []) u2 = (Inr a, u)" using rest by simp
  then show ?thesis
    using ok specification_valid [OF valid] yields_value [OF attempts_vet] by (metis make_spec_simps(1-3))
qed

lemma pipeline_returns:
  assumes "run_pipeline co req architecture modules s = (Inr b, t)"
  obtains a u where "build_artifact co req architecture modules s = (Inr a, u)" "approve_and_deploy co req a u = (Inr b, t)"
  using assms by (auto simp: run_pipeline_def bind_value)

lemma vetted_status: "vetted req (a\<lparr>ar_status := x\<rparr>) = vetted req a"
  by (simp add: vetted_def)

section \<open>What is decided before the gate\<close>

text \<open>The contract of a part of the state that nothing before the human gate writes, when the tools do not.\<close>

locale above_loop = beside_agent f + trail: above_audit f
  for f :: "('p, 'z) agent_world_scheme \<Rightarrow> 'x" +
  assumes models [simp]: "f (s\<lparr>llm_model := m\<rparr>) = f s"
    and loops [simp]: "f (s\<lparr>loop_state := l\<rparr>) = f s"
begin

lemma settles: "frames f (settle_loop ok n q cats)"
proof -
  have "frames f (modify (\<lambda>s. s\<lparr>loop_state := r (loop_state s)\<rparr>))" for r
    by (simp add: obeys_def action_simps)
  then show ?thesis unfolding settle_loop_def by (intro frame.closure_rules)
qed

lemma attempts_frame:
  fixes co :: "('p, 'z) agent_services"
  assumes "\<And>c d l. frames f (co_exec co c d l)"
  shows "frames f (one_attempt co spec n c)"
proof -
  have set_model: "frames f (modify (\<lambda>s. s\<lparr>llm_model := m s\<rparr>))" for m
    by (simp add: obeys_def action_simps)
  have generate: "frames f (generate_attempt co n spec repair)" for repair
    unfolding generate_attempt_def by (intro frame.closure_rules projects set_model reads)
  have validate: "frames f (validate_files co lang target sources a)" for lang target sources a
    unfolding validate_files_def check_source_def scan_source_def
    by (intro frame.closure_rules fold_each_frames checks assms)
  have ended: "frames f (loop_exhausted co n q a)" "frames f (attempt_passed co n q a)" "frames f (judge co q a)" for n q a
    unfolding loop_exhausted_def attempt_passed_def judge_def audit_def Let_def
    by (intro frame.closure_rules settles trail.audits trail.judgements)+
  have lengths: "frames f (code_length target sources)" for target sources
    unfolding code_length_def by (intro fold_each_frames frame.closure_rules read)
  have previous: "frames f (previous_text target sources p)" for target sources p
    unfolding previous_text_def by (auto intro!: frame.closure_rules read split: list.split)
  have carry: "frames f (next_attempt co target n q a sources p history)" for target n q a sources p history
    unfolding next_attempt_def by (intro frame.closure_rules previous ended)
  have fresh: "frames f (new_artifact req spec generated)" for req generated
    unfolding new_artifact_def by (intro frame.closure_rules reads)
  show ?thesis
    unfolding one_attempt_def conclude_def Let_def split_beta
    by (intro frame.closure_rules generate validate ended lengths carry fresh reads)
qed

lemma runs_frame:
  fixes co :: "('p, 'z) agent_services"
  assumes "\<And>c d l. frames f (co_exec co c d l)"
  shows "frames f (run_attempts co spec n c)"
proof (induction "Suc loop_max_attempts - n" arbitrary: n c)
  case 0
  then show ?case by (simp add: run_attempts.simps frame.raise_in)
next
  case (Suc left)
  then have n: "\<not> loop_max_attempts < n" and left: "left = Suc loop_max_attempts - (n + 1)" by auto
  show ?case
    using n by (subst run_attempts.simps) (simp only: if_False, intro frame.closure_rules attempts_frame assms Suc.hyps(1) [OF left])
qed

lemma builds:
  fixes co :: "('p, 'z) agent_services"
  assumes "\<And>c d l. frames f (co_exec co c d l)"
  shows "frames f (build_artifact co req architecture modules)"
  unfolding build_artifact_def audit_def Let_def
  by (intro frame.closure_rules trail.audits trail.judgements runs_frame assms)

end

text \<open>The settings and the answers of the human are such a part.\<close>

interpretation gate: above_loop "\<lambda>s :: ('p, 'z) agent_world_scheme. (gov_settings s, gov_replies s)"
  by unfold_locales simp_all

text \<open>The outcome of a run whose tools leave that part alone.\<close>

lemma gate_decides:
  fixes co :: "('p, 'z) agent_services"
  assumes "\<And>c d l. frames (\<lambda>s. (gov_settings s, gov_replies s)) (co_exec co c d l)"
    and "build_artifact co req architecture modules s = (r, u)"
  shows "human_agrees u = human_agrees s"
proof -
  have "gov_settings u = gov_settings s \<and> gov_replies u = gov_replies s"
    using obeysD [OF gate.builds [OF assms(1)], of req architecture modules s] assms(2) by (metis Pair_inject snd_conv)
  then show ?thesis by (simp add: human_agrees_def)
qed

text \<open>
  C30. The exit code. The command line reports success only for an artifact whose status is approved,
  and no run of the pipeline returns one: whatever the services and the state are, a successful
  deployment included, the exit code is 1.
\<close>

theorem cli_never_succeeds:
  fixes co :: "('p, 'z) agent_services"
  shows "case fst (cli_main co env memory_path auto_approve req architecture modules s) of
     Inr code \<Rightarrow> code = 1
   | Inl e \<Rightarrow> \<not> is_exception e"
proof -
  have status: "ar_status b \<noteq> ApApproved" if run: "run_pipeline co' req architecture modules u = (Inr b, t)"
    for co' :: "('p, 'z) agent_services" and u b t
  proof -
    obtain a v where "approve_and_deploy co' req a v = (Inr b, t)" using pipeline_returns [OF run] by metis
    from approve_outcome [OF this] show ?thesis by (cases "human_agrees v"; cases "ar_status b = ApDeployed") auto
  qed
  have approved: "approval_status_value st = ''approved'' \<longleftrightarrow> st = ApApproved" for st
    by (cases st) simp_all
  define m where "m = bindA (if auto_approve then modify (\<lambda>s. s\<lparr>gov_settings := (gov_settings s)\<lparr>st_require_human_approval := False\<rparr>\<rparr>)
          else ret ()) (\<lambda>_.
        bindA (orchestrator_init env memory_path) (\<lambda>cfg.
        bindA (run_pipeline (co\<lparr>co_config := cfg\<rparr>) req architecture modules) (\<lambda>a.
        ret (if approval_status_value (ar_status a) = ''approved'' then 0 else 1 :: nat))))"
  have one: "code = 1" if "m s = (Inr code, t)" for code t
    using that status by (auto simp: m_def bind_value ret_def approved)
  have "cli_main co env memory_path auto_approve req architecture modules = catchA m (\<lambda>e. ret 1)"
    by (simp add: cli_main_def m_def)
  then show ?thesis using one by (cases "m s") (auto simp: catchA_def ret_def split: sum.split)
qed

section \<open>Example\<close>

definition agent_demo :: "(string list, unit) agent_world_scheme" where
  "agent_demo =
     (let m = \<lparr>lm_path = ''m'', lm_index = [], lm_anti = []\<rparr>
      in llm_world.extend llm_demo \<lparr>gen_memory = m, orch_memory = m, loop_state = new_metrics, \<dots> = ()\<rparr>)"

definition demo_services :: "(string list, unit) agent_services" where
  "demo_services = \<lparr>co_text = (\<lambda>_. []), co_shown = exact_decimal, co_rules = load_rules None, co_config = default_config,
     co_api = demo_api, co_parse = (\<lambda>_. Inr ()), co_exec = demo_tool, co_filename = (\<lambda>_. []), co_order = id,
     co_dump_requirement = (\<lambda>_. []), co_dump_spec = (\<lambda>_. []), co_dump_artifact = (\<lambda>_. [])\<rparr>"

definition demo_requirement :: requirement where
  "demo_requirement = \<lparr>rq_description = ''a counter'', rq_language = Python, rq_project_name = ''p'', rq_target_folder = ''t'',
     rq_additional_rules = [], rq_constraints = []\<rparr>"

theorem pipeline_bounds_witness:
  "length (provider (snd (run_pipeline demo_services demo_requirement ''a'' [''m''] agent_demo))) \<le> 0 + 60"
proof -
  have "length (snd (co_api demo_services m p t n w)) \<le> length w + 1" for m p t n w
    by (simp add: demo_services_def demo_api_def)
  moreover have "frames (\<lambda>s. (provider s, slept s)) (co_exec demo_services cmd d l)" for cmd d l
    by (simp add: demo_services_def demo_tool_def obeys_def ret_def)
  ultimately have "length (provider (snd (run_pipeline demo_services demo_requirement ''a'' [''m''] agent_demo)))
      \<le> length (provider agent_demo) + 60 * length [''m'']"
    using pipeline_bounds [of length demo_services demo_requirement "''a''" "[''m'']" agent_demo] by blast
  moreover have "provider agent_demo = []" by (simp add: agent_demo_def llm_demo_def llm_world.defs Let_def)
  ultimately show ?thesis by simp
qed

end
