(* ===== verification/Delivery.thy ===== *)
theory Delivery
  imports Pipeline
begin

text \<open>
  The run that succeeds. Nothing above says that the pipeline ever delivers; here it is shown that, on a
  disk that works, with an open client, a provider that answers and tools that find nothing, a run for one
  Python module ends with the module deployed. \<open>works\<close> is the triple of an action that does not raise, and
  \<open>bench\<close> is what every step of such a run keeps of the disk.
\<close>

section \<open>Actions that do not raise\<close>

definition works :: "('s \<Rightarrow> bool) \<Rightarrow> ('s, 'a) action \<Rightarrow> ('a \<Rightarrow> 's \<Rightarrow> bool) \<Rightarrow> bool" where
  "works P m Q \<longleftrightarrow> triple P m Q (\<lambda>_ _. False)"

lemma worksI: "(\<And>s. P s \<Longrightarrow> \<exists>v t. m s = (Inr v, t) \<and> Q v t) \<Longrightarrow> works P m Q"
  by (fastforce simp: works_def triple_def)

lemma worksD: "works P m Q \<Longrightarrow> P s \<Longrightarrow> \<exists>v t. m s = (Inr v, t) \<and> Q v t"
  unfolding works_def by (drule tripleD) (auto split: prod.splits sum.splits)

lemma works_ret: "(\<And>s. P s \<Longrightarrow> Q v s) \<Longrightarrow> works P (ret v) Q"
  by (simp add: works_def triple_def ret_def)

lemma works_gets: "(\<And>s. P s \<Longrightarrow> Q (f s) s) \<Longrightarrow> works P (gets f) Q"
  by (simp add: works_def triple_def gets_def)

lemma works_modify: "(\<And>s. P s \<Longrightarrow> Q () (f s)) \<Longrightarrow> works P (modify f) Q"
  by (simp add: works_def triple_def modify_def)

lemma works_conseq: "works P m Q \<Longrightarrow> (\<And>s. P' s \<Longrightarrow> P s) \<Longrightarrow> (\<And>v s. Q v s \<Longrightarrow> Q' v s) \<Longrightarrow> works P' m Q'"
  unfolding works_def by (rule triple_conseq)

lemma works_bind: "works P m R \<Longrightarrow> (\<And>v. works (R v) (f v) Q) \<Longrightarrow> works P (bindA m f) Q"
  unfolding works_def by (rule triple_bind)

text \<open>The value satisfies a fact that the rest may use.\<close>

lemma works_then:
  assumes "works P m (\<lambda>v s. \<phi> v \<and> R s)" and "\<And>v. \<phi> v \<Longrightarrow> works R (f v) Q"
  shows "works P (bindA m f) Q"
proof (rule works_bind [OF assms(1)])
  show "works (\<lambda>s. \<phi> v \<and> R s) (f v) Q" for v
    using assms(2) [of v] by (cases "\<phi> v") (simp_all add: works_def triple_def)
qed

lemma works_step: "works P m (\<lambda>_. R) \<Longrightarrow> (\<And>v. works R (f v) Q) \<Longrightarrow> works P (bindA m f) Q"
  by (rule works_bind)

lemma works_look: "(\<And>v. works P (f v) Q) \<Longrightarrow> works P (bindA (gets g) f) Q"
  by (rule works_bind [OF works_gets])

lemma works_catch: "works P m Q \<Longrightarrow> works P (catchA m h) Q"
  unfolding works_def by (rule triple_catch) (simp_all add: triple_false)

lemma works_attempt: "works P m (\<lambda>v. Q (Inr v)) \<Longrightarrow> works P (attempt m) Q"
  unfolding works_def by (rule triple_attempt, erule triple_exn) simp

text \<open>What depends on a part of the state that the action does not write.\<close>

lemma works_kept:
  assumes "works P m Q" and "frames f m" and "\<And>s t. f t = f s \<Longrightarrow> I s \<Longrightarrow> I t"
  shows "works (\<lambda>s. P s \<and> I s) m (\<lambda>v s. Q v s \<and> I s)"
proof (rule worksI)
  fix s
  assume s: "P s \<and> I s"
  obtain v t where m: "m s = (Inr v, t)" "Q v t" using worksD [OF assms(1)] s by blast
  then have "I t" using obeysD [OF assms(2), of s] assms(3) s by simp
  then show "\<exists>v t. m s = (Inr v, t) \<and> Q v t \<and> I t" using m by blast
qed

lemma works_if: "(b \<Longrightarrow> works P m Q) \<Longrightarrow> (\<not> b \<Longrightarrow> works P m' Q) \<Longrightarrow> works P (if b then m else m') Q"
  by simp

section \<open>The disk of the run\<close>

text \<open>The working directory is \<open>w\<close>. The audit file \<open>l\<close>, the memory file \<open>q\<close> and the module \<open>a\<close> can be written, and
  the directory of the backups is there or can be made.\<close>

definition vault :: "string list \<Rightarrow> string list" where
  "vault a = butlast a @ [backup_dir_name]"

definition writable :: "string list \<Rightarrow> 'z disk_world_scheme \<Rightarrow> bool" where
  "writable x s \<longleftrightarrow> x \<notin> dk_dirs s \<and> butlast x \<in> dk_dirs s"

definition bench :: "string \<Rightarrow> string list \<Rightarrow> string list \<Rightarrow> string list \<Rightarrow> 'z gov_world_scheme \<Rightarrow> bool" where
  "bench w l q a s \<longleftrightarrow> calm s \<and> dk_cwd s = w \<and> audit_file s = l
     \<and> writable l s \<and> writable q s \<and> writable a s
     \<and> (\<forall>d \<in> set (way (vault a)). dk_files s d = None \<and> d \<notin> {l, q, a}) \<and> (\<forall>d \<in> dk_dirs s. butlast d \<noteq> vault a)
     \<and> l \<noteq> a \<and> q \<noteq> a \<and> butlast l \<noteq> vault a \<and> butlast q \<noteq> vault a"

text \<open>The module holds \<open>x\<close>.\<close>

definition at_bench ::
  "string \<Rightarrow> string list \<Rightarrow> string list \<Rightarrow> string list \<Rightarrow> string option \<Rightarrow> 'z gov_world_scheme \<Rightarrow> bool" where
  "at_bench w l q a x s \<longleftrightarrow> bench w l q a s \<and> dk_files s a = x"

lemma benchD:
  assumes "bench w l q a s"
  shows "calm s" "dk_cwd s = w" "audit_file s = l" "writable l s" "writable q s" "writable a s"
    "d \<in> set (way (vault a)) \<Longrightarrow> dk_files s d = None" "d \<in> set (way (vault a)) \<Longrightarrow> d \<notin> {l, q, a}"
    "d \<in> dk_dirs s \<Longrightarrow> butlast d \<noteq> vault a" "l \<noteq> a" "q \<noteq> a" "butlast l \<noteq> vault a" "butlast q \<noteq> vault a"
  using assms by (simp_all add: bench_def)

lemma bench_spot: "bench w l q a s \<Longrightarrow> place s p = spot w p"
  by (simp add: place_def bench_def)

text \<open>What it depends on.\<close>

lemma bench_agree:
  assumes "bench w l q a s" and "dk_dirs t = dk_dirs s" "dk_cwd t = dk_cwd s" "dk_src t = dk_src s"
    "gov_settings t = gov_settings s" and "\<And>d. d \<in> set (way (vault a)) \<Longrightarrow> dk_files t d = dk_files s d"
  shows "bench w l q a t"
proof -
  have "audit_file t = audit_file s" by (simp add: audit_file_def place_def assms(3,5))
  then show ?thesis using assms by (simp add: bench_def calm_def writable_def)
qed

lemma at_bench_agree:
  assumes "at_bench w l q a x s" and "dk_dirs t = dk_dirs s" "dk_cwd t = dk_cwd s" "dk_src t = dk_src s"
    "gov_settings t = gov_settings s" and "dk_files t = dk_files s"
  shows "at_bench w l q a x t"
  using assms bench_agree [of w l q a s t] by (simp add: at_bench_def)

lemma bench_write:
  assumes "bench w l q a s" and "y \<in> {l, q, a} \<or> butlast y = vault a"
  shows "bench w l q a (s\<lparr>dk_files := (dk_files s)(y \<mapsto> t), dk_pos := n\<rparr>)"
proof (rule bench_agree [OF assms(1)])
  fix d
  assume d: "d \<in> set (way (vault a))"
  have "d \<noteq> y"
  proof
    assume "d = y"
    then have "butlast y = vault a" using benchD(8) [OF assms(1) d] assms(2) by blast
    then have "length d = Suc (length (vault a)) \<or> d = []" using \<open>d = y\<close> by (cases "y = []") (auto simp flip: \<open>butlast y = vault a\<close>)
    moreover have "d \<noteq> []" using \<open>butlast y = vault a\<close> \<open>d = y\<close> by (auto simp: vault_def)
    ultimately show False using way_lengths(1) [OF d] by simp
  qed
  then show "dk_files (s\<lparr>dk_files := (dk_files s)(y \<mapsto> t), dk_pos := n\<rparr>) d = dk_files s d" by simp
qed simp_all

lemma put_text_calm:
  assumes "calm s" and "writable (place s p) s" and "p \<noteq> []"
  shows "put_text f p t s = (Inr (), s\<lparr>dk_files := (dk_files s)(place s p \<mapsto> f (dk_files s (place s p)) @ t), dk_pos := Suc (dk_pos s)\<rparr>)"
  using assms by (simp add: put_text_def is_dir_def writable_def disk_outcome_def action_simps calm_def)

lemma works_put:
  assumes "spot w p = y" and "p \<noteq> []" and "y \<in> {l, q, a}"
  shows "works (at_bench w l q a x) (put_text f p t) (\<lambda>_. at_bench w l q a (if y = a then Some (f x @ t) else x))"
proof (rule worksI)
  fix s :: "'z gov_world_scheme"
  assume s: "at_bench w l q a x s"
  then have b: "bench w l q a s" and x: "dk_files s a = x" by (simp_all add: at_bench_def)
  have "writable y s" using benchD(4-6) [OF b] assms(3) by blast
  then have "put_text f p t s = (Inr (), s\<lparr>dk_files := (dk_files s)(y \<mapsto> f (dk_files s y) @ t), dk_pos := Suc (dk_pos s)\<rparr>)"
    using put_text_calm [OF benchD(1) [OF b], of p f t] assms(1,2) by (simp add: bench_spot [OF b])
  moreover have "bench w l q a (s\<lparr>dk_files := (dk_files s)(y \<mapsto> f (dk_files s y) @ t), dk_pos := Suc (dk_pos s)\<rparr>)"
    using assms(3) by (intro bench_write [OF b]) blast
  ultimately show "\<exists>v u. put_text f p t s = (Inr v, u) \<and> at_bench w l q a (if y = a then Some (f x @ t) else x) u"
    using x by (auto simp: at_bench_def)
qed

lemma works_read:
  assumes "spot w p = a" and "p \<noteq> []"
  shows "works (at_bench w l q a (Some x)) (read_file p) (\<lambda>v s. v = x \<and> at_bench w l q a (Some x) s)"
    "works (at_bench w l q a (Some x)) (read_text p) (\<lambda>v s. v = universal x \<and> at_bench w l q a (Some x) s)"
proof -
  show read: "works (at_bench w l q a (Some x)) (read_file p) (\<lambda>v s. v = x \<and> at_bench w l q a (Some x) s)"
  proof (rule worksI)
    fix s :: "'z gov_world_scheme"
    assume s: "at_bench w l q a (Some x) s"
    then have b: "bench w l q a s" by (simp add: at_bench_def)
    have x: "dk_files s (place s p) = Some x" using s by (simp add: at_bench_def bench_spot [OF b] assms(1))
    have "a \<notin> dk_dirs s" "calm s" using benchD(1,6) [OF b] by (simp_all add: writable_def)
    then have "read_file p s = (Inr x, s\<lparr>dk_pos := Suc (dk_pos s)\<rparr>)"
      using x assms by (simp add: read_file_def is_dir_def is_file_def bench_spot [OF b] disk_outcome_def action_simps calm_def)
    moreover have "at_bench w l q a (Some x) (s\<lparr>dk_pos := Suc (dk_pos s)\<rparr>)"
      by (rule at_bench_agree [OF s]) simp_all
    ultimately show "\<exists>v t. read_file p s = (Inr v, t) \<and> v = x \<and> at_bench w l q a (Some x) t" by simp
  qed
  show "works (at_bench w l q a (Some x)) (read_text p) (\<lambda>v s. v = universal x \<and> at_bench w l q a (Some x) s)"
    unfolding read_text_def by (rule works_then [OF read]) (auto intro: works_ret)
qed

lemma works_audit:
  assumes "act \<noteq> []" "cm \<noteq> []" "res \<noteq> []"
  shows "works (at_bench w l q a x) (log_audit act cm details res err) (\<lambda>_. at_bench w l q a x)"
proof (rule worksI)
  fix s :: "'z gov_world_scheme"
  assume s: "at_bench w l q a x s"
  define r where "r = governance_record act cm details res err s"
  let ?p = "path_join (st_logs_dir (gov_settings s)) ''audit.log''"
  have u: "at_bench w l q a x (logged r s)" by (rule at_bench_agree [OF s]) (simp_all add: logged_def)
  have b: "bench w l q a s" using s by (simp add: at_bench_def)
  have l: "spot w ?p = l" "l \<noteq> a"
    using benchD(2,3,10) [OF b] by (simp_all add: audit_file_def place_def)
  have "?p \<noteq> []" by (rule path_join_nonempty) simp
  from worksD [OF works_put [OF l(1) this] u, of _ "audit_line r cm err"] l(2)
  show "\<exists>v t. log_audit act cm details res err s = (Inr v, t) \<and> at_bench w l q a x t"
    using assms by (simp add: log_audit_cases Let_def append_file_def r_def)
qed

lemma works_there:
  assumes "spot w p = butlast a" and "p \<noteq> []"
  shows "works (at_bench w l q a x) (make_dirs p) (\<lambda>_. at_bench w l q a x)"
proof (rule worksI)
  fix s :: "'z gov_world_scheme"
  assume s: "at_bench w l q a x s"
  then have "is_dir p s" using benchD(6) assms bench_spot by (fastforce simp: at_bench_def is_dir_def writable_def)
  then have "make_dirs p s = (Inr (), s)" using assms(2) by (simp add: make_dirs_def ret_def)
  then show "\<exists>v t. make_dirs p s = (Inr v, t) \<and> at_bench w l q a x t" using s by simp
qed

section \<open>The deployment of the module onto itself\<close>

lemma vault_longer: "d \<in> set (way (vault a)) \<Longrightarrow> butlast d \<noteq> vault a" "butlast a \<noteq> vault a"
proof -
  show "butlast a \<noteq> vault a" by (simp add: vault_def)
  assume d: "d \<in> set (way (vault a))"
  show "butlast d \<noteq> vault a"
  proof
    assume eq: "butlast d = vault a"
    then have "d \<noteq> []" by (auto simp: vault_def)
    then have "length d = Suc (length (vault a))" by (simp add: eq [symmetric])
    then show False using way_lengths(1) [OF d] by simp
  qed
qed

lemma works_vault:
  assumes "spot w p = vault a" and "p \<noteq> []"
  shows "works (at_bench w l q a x) (make_dirs p) (\<lambda>_ s. at_bench w l q a x s \<and> vault a \<in> dk_dirs s)"
proof (rule worksI)
  fix s :: "'z gov_world_scheme"
  assume s: "at_bench w l q a x s"
  then have b: "bench w l q a s" by (simp add: at_bench_def)
  note facts = benchD [OF b]
  have p: "place s p = vault a" using assms(1) by (simp add: bench_spot [OF b])
  show "\<exists>v t. make_dirs p s = (Inr v, t) \<and> at_bench w l q a x t \<and> vault a \<in> dk_dirs t"
  proof (cases "is_dir p s")
    case True
    then show ?thesis using s p by (simp add: make_dirs_def ret_def is_dir_def)
  next
    case False
    let ?t = "s\<lparr>dk_pos := Suc (dk_pos s), dk_dirs := dk_dirs s \<union> set (way (vault a))\<rparr>"
    have "\<not> is_file p s" using facts(7) [OF way_lengths(2)] p by (simp add: is_file_def)
    then have made: "make_dirs p s = (Inr (), ?t)"
      using False assms(2) facts(1,7) p by (simp add: make_dirs_def calm_def action_simps disk_outcome_def list_ex_iff)
    have "writable y ?t" if "y \<in> {l, q, a}" for y
      using facts(4-6) facts(8) [of y] that by (auto simp: writable_def)
    moreover have "audit_file ?t = l" using facts(3) by (simp add: audit_file_def place_def)
    moreover have "butlast d \<noteq> vault a" if "d \<in> dk_dirs ?t" for d
      using facts(9) vault_longer(1) that by auto
    ultimately have "bench w l q a ?t" using b by (simp add: bench_def calm_def)
    then show ?thesis using made s way_lengths(2) by (simp add: at_bench_def)
  qed
qed

lemma works_backup:
  assumes p: "spot w p = a" "p \<noteq> []" "plain (basename p)" and did: "slash \<notin> set did"
  shows "works (at_bench w l q a (Some x)) (create_backup p did) (\<lambda>_. at_bench w l q a (Some x))"
  unfolding create_backup_def
proof (rule works_step [OF works_vault], goal_cases)
  case 1
  show ?case using spot_backup(1) [OF p(3), of "[]" w] p(1) by (simp add: vault_def)
next
  case 2
  show ?case by (rule path_join_nonempty) (simp add: backup_dir_name_def)
next
  case (3 v)
  let ?b = "backup_name p did"
  have spots: "butlast (spot w ?b) = vault a"
    using spot_backup(2) [OF p(3) did, of w] p(1) by (simp add: vault_def butlast_append)
  have "works (\<lambda>s. at_bench w l q a (Some x) s \<and> vault a \<in> dk_dirs s) (copy_file p ?b) (\<lambda>_. at_bench w l q a (Some x))"
  proof (rule worksI)
    fix s :: "'z gov_world_scheme"
    assume "at_bench w l q a (Some x) s \<and> vault a \<in> dk_dirs s"
    then have s: "dk_files s a = Some x" "vault a \<in> dk_dirs s" and b: "bench w l q a s" by (simp_all add: at_bench_def)
    note facts = benchD [OF b]
    have dst: "\<not> is_dir ?b s" using facts(9) spots by (auto simp: is_dir_def bench_spot [OF b])
    have src: "is_file p s" "\<not> is_dir p s" "?b \<noteq> []" "a \<noteq> spot w ?b"
      using s(1) facts(6) p(1,2) vault_longer(2) [of a] spots
      by (auto simp: is_file_def is_dir_def writable_def bench_spot [OF b] backup_name_def path_join_nonempty)
    show "\<exists>v t. copy_file p ?b s = (Inr v, t) \<and> at_bench w l q a (Some x) t"
    proof (cases rule: copy_file_cases [OF facts(1) dst, of p, case_names failed copied])
      case (failed e t)
      then show ?thesis using src s(2) spots p(1) by (simp add: bench_spot [OF b])
    next
      case (copied y n)
      have "bench w l q a (s\<lparr>dk_files := (dk_files s)(spot w ?b \<mapsto> y), dk_pos := n\<rparr>)"
        using spots by (intro bench_write [OF b]) simp
      then show ?thesis using copied(3) s(1) src(4) by (simp add: at_bench_def bench_spot [OF b])
    qed
  qed
  then show ?case by (rule works_step) (simp add: works_ret)
qed

lemma works_deploy:
  assumes p: "spot w p = a" "p \<noteq> []" "plain (basename p)" "dirname p \<noteq> []" and parse: "parse (universal x) = Inr ()"
  shows "works (at_bench w l q a (Some x)) (deploy parse True p p ''python'')
    (\<lambda>d s. dr_status d = ApDeployed \<and> at_bench w l q a (Some x) s)"
proof -
  let ?R = "at_bench w l q a (Some x) :: 'z gov_world_scheme \<Rightarrow> bool"
  let ?good = "\<lambda>d s. dr_status d = ApDeployed \<and> ?R s"
  have there: "is_file p s" if "?R s" for s
  proof -
    have b: "bench w l q a s" using that by (simp add: at_bench_def)
    show ?thesis using that p(1,2) by (simp add: is_file_def bench_spot [OF b] at_bench_def)
  qed
  have prepare: "works ?R (deploy_prepare True did p p tm) (\<lambda>r s. (\<exists>b. r = Inr (Some b)) \<and> ?R s)"
    if did: "slash \<notin> set did" for did tm
  proof (rule worksI)
    fix s :: "'z gov_world_scheme"
    assume s: "?R s"
    obtain b t where "create_backup p did s = (Inr b, t)" "?R t"
      using worksD [OF works_backup [OF p(1-3) did] s] by blast
    then show "\<exists>v t. deploy_prepare True did p p tm s = (Inr v, t) \<and> (\<exists>b. v = Inr (Some b)) \<and> ?R t"
      using there [OF s] by (simp add: deploy_prepare_def path_exists_def bindA_def ret_def)
  qed
  have install: "works ?R (deploy_install p p) (\<lambda>_. ?R)"
    unfolding deploy_install_def
    using spot_backup(4) [OF p(3), of "[]" w] p(1,4)
    by (auto intro!: works_step [OF works_there] works_look works_ret)
  have validate: "works ?R (validate_deployment parse p ''python'') (\<lambda>v s. dv_syntax_valid v \<and> ?R s)"
  proof (rule worksI)
    fix s :: "'z gov_world_scheme"
    assume s: "?R s"
    obtain t where "read_text p s = (Inr (universal x), t)" "?R t" using worksD [OF works_read(2) [OF p(1,2)] s] by blast
    then show "\<exists>v t. validate_deployment parse p ''python'' s = (Inr v, t) \<and> dv_syntax_valid v \<and> ?R t"
      using there [OF s] parse by (simp add: validate_deployment_def action_simps validation_found_def)
  qed
  have finish: "works ?R (deploy_finish parse True did p p tm (Some b) v) ?good" if "dv_syntax_valid v" "did \<noteq> []" for did tm b v
  proof (rule worksI)
    fix s :: "'z gov_world_scheme"
    assume s: "?R s"
    define d where "d = success_record did p p tm (Some b) v"
    have d: "new_deployment_record d = Inr d" "dr_status d = ApDeployed"
      using that(2) p(2) by (simp_all add: d_def new_deployment_record_def success_record_def)
    have "works ?R (deploy_audit True ''deployment_success'' d) (\<lambda>_. ?R)"
      unfolding deploy_audit_def by (simp add: works_audit)
    from worksD [OF this s] show "\<exists>v' t. deploy_finish parse True did p p tm (Some b) v s = (Inr v', t) \<and> ?good v' t"
      using that(1) d by (auto simp: deploy_finish_def d_def [symmetric] bindA_def lift_res_def ret_def)
  qed
  have rest: "works ?R (deploy_from parse True p p ''python'' did tm) ?good" if "slash \<notin> set did" "did \<noteq> []" for did tm
    unfolding deploy_from_def
  proof (rule works_then)
    show "works ?R (attempt (deploy_prepare True did p p tm)) (\<lambda>r s. (\<exists>b. r = Inr (Inr (Some b))) \<and> ?R s)"
      by (rule works_attempt, rule works_conseq [OF prepare [OF that(1)]]) simp_all
  qed (auto intro!: works_catch works_step [OF install] works_then [OF validate] finish that(2))
  show ?thesis
  proof (rule worksI)
    fix s :: "'z gov_world_scheme"
    assume s: "?R s"
    have "?R (begun s)" by (rule at_bench_agree [OF s]) simp_all
    moreover have "slash \<notin> set (deploy_id s)" "deploy_id s \<noteq> []"
      using uuid_no_slash by (simp_all add: deploy_id_def)
    ultimately show "\<exists>v t. deploy parse True p p ''python'' s = (Inr v, t) \<and> ?good v t"
      unfolding deploy_begins using worksD [OF rest] by blast
  qed
qed

section \<open>The request to the model\<close>

text \<open>The breaker is closed, the window and the semaphore have room, and every cached answer is \<open>ok\<close>.\<close>

definition open_client :: "resource_config \<Rightarrow> (string \<Rightarrow> bool) \<Rightarrow> ('p, 'z) llm_world_scheme \<Rightarrow> bool" where
  "open_client cfg ok s \<longleftrightarrow> cb_status (breaker s) \<noteq> CircuitOpen \<and> length (request_times s) < rc_rate_limit_rpm cfg
     \<and> 0 < permits s \<and> list_all (\<lambda>e. ok (ce_response (snd e))) (cache s)"

text \<open>The provider answers, with a text that is not blank and is \<open>ok\<close>.\<close>

definition answering :: "(string \<Rightarrow> bool) \<Rightarrow> 'p provider_api \<Rightarrow> bool" where
  "answering ok api \<longleftrightarrow> (\<forall>m p t n w. \<exists>c u. api m p t n w = (Inr (Some c), u) \<and> strip c \<noteq> [] \<and> ok c)"

lemma works_finally: "works P m Q \<Longrightarrow> (\<And>v. works (Q v) h (\<lambda>_. R v)) \<Longrightarrow> works P (finallyA m h) R"
  by (rule worksI) (fastforce simp: finallyA_def dest!: worksD split: prod.splits sum.splits)

lemma works_call:
  fixes api :: "'p provider_api"
  assumes "answering ok api"
  shows "works (\<lambda>_ :: ('p, 'z) llm_world_scheme. True) (call_api cfg api p m t) (\<lambda>c _. ok c)"
proof -
  have "works (\<lambda>_ :: ('p, 'z) llm_world_scheme. True) (api_once cfg api p m t) (\<lambda>c _. ok c)"
  proof (rule worksI)
    fix s :: "('p, 'z) llm_world_scheme"
    obtain c u where "api m p t (rc_max_response_tokens cfg) (provider s) = (Inr (Some c), u)" "strip c \<noteq> []" "ok c"
      using assms unfolding answering_def by blast
    then show "\<exists>v u. api_once cfg api p m t s = (Inr v, u) \<and> ok v"
      by (simp add: api_once_def on_provider_def bindA_def ret_def)
  qed
  then show ?thesis by (simp add: call_api_def max_attempts_def numeral_3_eq_3 works_catch)
qed

lemma works_request:
  fixes api :: "'p provider_api"
  assumes "answering ok api"
  shows "works (\<lambda>s :: ('p, 'z) llm_world_scheme. 0 < permits s)
    (bindA acquire (\<lambda>acquired.
      if \<not> acquired then raise e
      else finallyA (bindA (primary_or_fallback cfg api p) (keep_answer shown p t)) release)) (\<lambda>c _. ok c)"
proof (rule works_then)
  show "works (\<lambda>s :: ('p, 'z) llm_world_scheme. 0 < permits s) acquire (\<lambda>v _. v \<and> True)"
    by (rule worksI) (auto simp: acquire_def action_simps)
next
  have primary: "works (\<lambda>_ :: ('p, 'z) llm_world_scheme. True) (primary_or_fallback cfg api p) (\<lambda>c _. ok c \<and> True)"
    unfolding primary_or_fallback_def
    using works_call [OF assms] by (intro works_look works_catch) simp
  have keep: "works (\<lambda>_ :: ('p, 'z) llm_world_scheme. True) (keep_answer shown p t c) (\<lambda>v _. ok v)" if "ok c" for c
  proof (rule worksI)
    fix s :: "('p, 'z) llm_world_scheme"
    obtain u where "cache_put shown p (llm_model s) t c s = (Inr (), u)"
      using cache_put_cache(2) by (metis prod.collapse)
    then show "\<exists>v u. keep_answer shown p t c s = (Inr v, u) \<and> ok v"
      using that by (simp add: keep_answer_def record_success_def bindA_def gets_def modify_def ret_def)
  qed
  fix acquired :: bool
  assume acquired
  have "works (\<lambda>_ :: ('p, 'z) llm_world_scheme. True) (bindA (primary_or_fallback cfg api p) (keep_answer shown p t)) (\<lambda>c _. ok c)"
    by (rule works_then [OF primary keep])
  moreover have "works (\<lambda>_ :: ('p, 'z) llm_world_scheme. ok v) release (\<lambda>_ _. ok v)" for v
    unfolding release_def by (rule works_modify)
  ultimately have "works (\<lambda>_ :: ('p, 'z) llm_world_scheme. True)
      (finallyA (bindA (primary_or_fallback cfg api p) (keep_answer shown p t)) release) (\<lambda>c _. ok c)"
    by (rule works_finally)
  then show "works (\<lambda>_ :: ('p, 'z) llm_world_scheme. True) (if \<not> acquired then raise e
      else finallyA (bindA (primary_or_fallback cfg api p) (keep_answer shown p t)) release) (\<lambda>c _. ok c)"
    using \<open>acquired\<close> by simp
qed

lemma works_generate:
  fixes api :: "'p provider_api"
  assumes "answering ok api" and "request_allowed rules req"
  shows "works (open_client cfg ok :: ('p, 'z) llm_world_scheme \<Rightarrow> bool) (generate_code shown rules cfg api req lang) (\<lambda>c _. ok c)"
  unfolding generate_code_def Let_def
proof (rule works_then)
  show "works (open_client cfg ok :: ('p, 'z) llm_world_scheme \<Rightarrow> bool) (check_restricted_content rules req) (\<lambda>v s. v = None \<and> open_client cfg ok s)"
  proof (rule worksI)
    fix s :: "('p, 'z) llm_world_scheme"
    assume "open_client cfg ok s"
    then show "\<exists>v t. check_restricted_content rules req s = (Inr v, t) \<and> v = None \<and> open_client cfg ok t"
      using guard_check_cases [of rules req s] assms(2)
      by (auto simp: check_restricted_content_def bindA_def ret_def guard_logged_def open_client_def)
  qed
next
  let ?P = "\<lambda>s :: ('p, 'z) llm_world_scheme. 0 < permits s \<and> list_all (\<lambda>e. ok (ce_response (snd e))) (cache s)"
  have allow: "works (open_client cfg ok :: ('p, 'z) llm_world_scheme \<Rightarrow> bool) (allow_request cfg) (\<lambda>v s. v \<and> open_client cfg ok s)"
    by (rule worksI) (auto simp: allow_request_def bindA_def gets_def ret_def open_client_def)
  have rate: "works (open_client cfg ok :: ('p, 'z) llm_world_scheme \<Rightarrow> bool) (check_rate_limit cfg) (\<lambda>_. ?P)"
  proof (rule worksI)
    fix s :: "('p, 'z) llm_world_scheme"
    assume s: "open_client cfg ok s"
    have "length (recent (wall_src s (wall_pos s)) (request_times s)) < rc_rate_limit_rpm cfg"
      using s by (auto simp: open_client_def recent_def intro: le_less_trans [OF length_filter_le])
    then show "\<exists>v t. check_rate_limit cfg s = (Inr v, t) \<and> ?P t"
      using s by (simp add: check_rate_limit_cases Let_def open_client_def)
  qed
  have lookup: "works ?P (cache_get p m t) (\<lambda>v s. pred_option ok v \<and> 0 < permits s)" for p m t
    by (rule worksI) (fastforce simp: cache_get_cases list_all_iff dest: map_of_SomeD split: option.split)
  fix v :: "string option"
  assume "v = None"
  then show "works (open_client cfg ok :: ('p, 'z) llm_world_scheme \<Rightarrow> bool) (case v of
        Some c \<Rightarrow> raise (rejected_category c)
      | None \<Rightarrow>
         bindA (allow_request cfg) (\<lambda>allowed.
         if \<not> allowed then raise (runtime_error ''Circuit breaker OPEN -- API temporarily unavailable'')
         else
           bindA (check_rate_limit cfg) (\<lambda>_.
           bindA (gets llm_model) (\<lambda>model.
           bindA (cache_get (code_prompt lang req) model ''0.2'') (\<lambda>cached.
           case cached of
             Some c \<Rightarrow> ret c
           | None \<Rightarrow>
               bindA acquire (\<lambda>acquired.
               if \<not> acquired then raise (runtime_error ''Max concurrent requests reached'')
               else finallyA
                 (bindA (primary_or_fallback cfg api (code_prompt lang req)) (keep_answer shown (code_prompt lang req) ''0.2''))
                 release)))))) (\<lambda>c _. ok c)"
    by (auto intro!: works_then [OF allow] works_step [OF rate] works_look works_then [OF lookup] works_request
        assms(1) works_ret split: option.split)
qed

section \<open>The module\<close>

definition module_text :: "string \<Rightarrow> string" where
  "module_text answer = rstrip (clean_code answer) @ [CHR 0x0A]"

text \<open>The answers whose module the parser accepts.\<close>

definition usable :: "(string \<Rightarrow> exn + unit) \<Rightarrow> string \<Rightarrow> bool" where
  "usable parse answer \<longleftrightarrow> parse (universal (module_text answer)) = Inr ()"

text \<open>The parts of the client that the disk and the governance leave alone, and what a request leaves alone.\<close>

interpretation client_part: above_governance
  "\<lambda>s :: ('p, 'z) agent_world_scheme. (breaker s, request_times s, permits s, cache s, gen_memory s)"
  by unfold_locales simp_all

interpretation bench_part: beside_llm
  "\<lambda>s :: ('p, 'z) agent_world_scheme. (dk_src s, dk_dirs s, dk_cwd s, dk_files s, gov_settings s, gen_memory s)"
  by unfold_locales simp_all

definition calling ::
  "string \<Rightarrow> string list \<Rightarrow> string list \<Rightarrow> string list \<Rightarrow> string option \<Rightarrow> resource_config \<Rightarrow> (string \<Rightarrow> bool) \<Rightarrow> learning_memory \<Rightarrow>
   ('p, 'z) agent_world_scheme \<Rightarrow> bool" where
  "calling w l q a x cfg ok mem s \<longleftrightarrow> at_bench w l q a x s \<and> open_client cfg ok s \<and> gen_memory s = mem"

lemma works_calling:
  fixes m :: "(('p, 'z) agent_world_scheme, 'a) action"
  assumes "works (at_bench w l q a x) m (\<lambda>v s. \<phi> v \<and> at_bench w l q a y s)"
    and "frames (\<lambda>s. (breaker s, request_times s, permits s, cache s, gen_memory s)) m"
  shows "works (calling w l q a x cfg ok mem) m (\<lambda>v s. \<phi> v \<and> calling w l q a y cfg ok mem s)"
  by (rule works_conseq [OF works_kept [OF assms, of "\<lambda>s. open_client cfg ok s \<and> gen_memory s = mem"]])
    (auto simp: calling_def open_client_def)

lemma works_calling_unit:
  fixes m :: "(('p, 'z) agent_world_scheme, 'a) action"
  assumes "works (at_bench w l q a x) m (\<lambda>_. at_bench w l q a y)"
    and "frames (\<lambda>s. (breaker s, request_times s, permits s, cache s, gen_memory s)) m"
  shows "works (calling w l q a x cfg ok mem) m (\<lambda>_. calling w l q a y cfg ok mem)"
  using works_calling [of w l q a x m "\<lambda>_. True" y cfg ok mem] assms by simp

lemma works_world:
  "works P m Q \<Longrightarrow> works (\<lambda>w. R (fst w) \<and> P (snd w)) (on_world m) (\<lambda>v w. R (fst w) \<and> Q v (snd w))"
  by (rule worksI) (fastforce simp: on_world_def dest!: worksD)

lemma works_clock: "works (at_bench w l q a x) time_time (\<lambda>_. at_bench w l q a x)"
  by (rule worksI) (auto simp: time_time_def intro: at_bench_agree)

lemma works_outcome: "works (at_bench w l q a x) disk_outcome (\<lambda>r s. r = Written \<and> at_bench w l q a x s)"
proof (rule worksI)
  fix s :: "'z gov_world_scheme"
  assume s: "at_bench w l q a x s"
  have "at_bench w l q a x (s\<lparr>dk_pos := Suc (dk_pos s)\<rparr>)" by (rule at_bench_agree [OF s]) simp_all
  then show "\<exists>v t. disk_outcome s = (Inr v, t) \<and> v = Written \<and> at_bench w l q a x t"
    using s by (simp add: disk_outcome_def at_bench_def bench_def calm_def)
qed

lemma works_record:
  assumes "spot w p = q" and "p \<noteq> []" and "q \<noteq> a"
  shows "works (\<lambda>u. lm_path (fst u) = p \<and> at_bench w l q a x (snd u)) (record_experience shown src met art d reason qual aps)
    (\<lambda>_ u. at_bench w l q a x (snd u))"
proof -
  let ?P = "\<lambda>u :: learning_memory \<times> 'z gov_world_scheme. lm_path (fst u) = p \<and> at_bench w l q a x (snd u)"
  have world: "works ?P (on_world m) (\<lambda>v u. \<phi> v \<and> ?P u)"
    if "works (at_bench w l q a x) m (\<lambda>v s. \<phi> v \<and> at_bench w l q a x s)" for m :: "('z gov_world_scheme, 'b) action" and \<phi>
    by (rule works_conseq [OF works_world [OF that, of "\<lambda>o'. lm_path o' = p"]]) simp_all
  have step: "works ?P (on_world m) (\<lambda>_. ?P)"
    if "works (at_bench w l q a x) m (\<lambda>_. at_bench w l q a x)" for m :: "('z gov_world_scheme, 'b) action"
    using world [of m "\<lambda>_. True"] that by simp
  have change: "works ?P (obj_modify f) (\<lambda>_. ?P)" if "\<And>o'. lm_path (f o') = lm_path o'" for f
    unfolding obj_modify_def using that by (intro works_modify) simp
  have place: "works ?P (obj_gets lm_path) (\<lambda>v u. v = p \<and> ?P u)"
    unfolding obj_gets_def by (rule works_gets) simp
  have append: "works (at_bench w l q a x) (append_file p t) (\<lambda>_. at_bench w l q a x)" for t
    unfolding append_file_def using works_put [of w p q l q a x _ t] assms by simp
  have ids: "works (at_bench w l q a x) (generate_id shown) (\<lambda>_. at_bench w l q a x)"
    unfolding generate_id_def by (intro works_step [OF works_clock] works_ret)
  show ?thesis
    unfolding record_experience_def Let_def
    by (auto intro!: works_step [OF step [OF ids]] works_step [OF step [OF works_clock]] works_step [OF change]
        works_then [OF place] works_step [OF step [OF append]] works_then [OF world [OF works_outcome]] works_ret)
qed

lemma works_record_generation:
  assumes "spot w (lm_path mem) = q" and "lm_path mem \<noteq> []" and "q \<noteq> a"
  shows "works (\<lambda>s. at_bench w l q a x s \<and> gen_memory s = mem) (record_generation shown spec name prompt) (\<lambda>_. at_bench w l q a x)"
proof -
  have "works (\<lambda>s :: ('p, 'z) agent_world_scheme. at_bench w l q a x s \<and> gen_memory s = mem)
      (in_memory (record_experience shown src met art d reason qual aps)) (\<lambda>_. at_bench w l q a x)" for src met art d reason qual aps
  proof (rule worksI)
    fix s :: "('p, 'z) agent_world_scheme"
    assume "at_bench w l q a x s \<and> gen_memory s = mem"
    then obtain e m t where r: "record_experience shown src met art d reason qual aps (gen_memory s, s) = (Inr e, (m, t))"
        "at_bench w l q a x t"
      using worksD [OF works_record [OF assms], of "(gen_memory s, s)" l x shown src met art d reason qual aps] by auto
    moreover have "at_bench w l q a x (t\<lparr>gen_memory := m\<rparr>)" by (rule at_bench_agree [OF r(2)]) simp_all
    ultimately show "\<exists>v u. in_memory (record_experience shown src met art d reason qual aps) s = (Inr v, u) \<and> at_bench w l q a x u"
      by (simp add: in_memory_def)
  qed
  then show ?thesis
    unfolding record_generation_def by (intro works_look) (auto intro!: works_step works_ret)
qed

lemma relpath_join:
  assumes "plain f"
  shows "relpath w (path_join target f) target = Inr f"
proof -
  have "common_prefix xs (xs @ ys) = length xs" for xs ys :: "string list" by (induction xs) simp_all
  moreover have "norm_pieces (path_join w (path_join target f)) = norm_pieces (path_join w target) @ [f]"
    using place_join [OF assms, of "undefined\<lparr>dk_cwd := w\<rparr>" target] by (simp add: place_def)
  moreover have "path_join target f \<noteq> []" "f \<noteq> []" using assms by (auto simp: plain_def path_join_nonempty)
  ultimately show ?thesis by (simp add: relpath_def Let_def)
qed

lemma spot_join: "plain f \<Longrightarrow> spot w (path_join target f) = spot w target @ [f]"
  using place_join [of f "undefined\<lparr>dk_cwd := w\<rparr>" target] by (simp add: place_def)

text \<open>One module is generated and its file written.\<close>

lemma works_module:
  fixes api :: "'p provider_api"
  assumes lang: "spec_lang spec = ''python''" and name: "shown_name text md = name" "plain (name @ ''.py'')"
    and a: "spot w (path_join target (name @ ''.py'')) = a" and q: "spot w (lm_path mem) = q" "lm_path mem \<noteq> []" "q \<noteq> a"
    and prompt: "module_prompt mem spec repair modules name = Inr prompt" "request_allowed rules prompt"
    and api: "answering ok api"
  shows "works (calling w l q a x cfg ok mem :: ('p, 'z) agent_world_scheme \<Rightarrow> bool)
    (generate_module text shown rules cfg api spec target repair modules md)
    (\<lambda>rel s. rel = name @ ''.py'' \<and> (\<exists>c. ok c \<and> at_bench w l q a (Some (module_text c)) s))"
proof -
  let ?p = "path_join target (name @ ''.py'')"
  let ?R = "\<lambda>x s :: ('p, 'z) agent_world_scheme. at_bench w l q a x s \<and> gen_memory s = mem"
  have p: "?p \<noteq> []" by (rule path_join_nonempty) simp
  have ask: "works (calling w l q a x cfg ok mem)
      (generate_code shown rules cfg api prompt ''python'' :: (('p, 'z) agent_world_scheme, string) action) (\<lambda>c s. ok c \<and> ?R x s)"
    by (rule works_conseq [OF works_kept [OF works_generate [OF api prompt(2)] bench_part.generates, of "?R x"]])
      (auto simp: calling_def intro: at_bench_agree)
  have "works (at_bench w l q a x) (write_file ?p t) (\<lambda>_. at_bench w l q a (Some t))" for t
    using works_put [OF a p, of l q a x "\<lambda>_. []" t] by (simp add: write_file_def)
  then have put: "works (?R x) (write_file ?p t) (\<lambda>_. ?R (Some t))" for t
    by (rule works_conseq [OF works_kept [OF _ client_part.writes(1), of _ _ _ _ "\<lambda>s. gen_memory s = mem"]]) simp_all
  have rel: "works (?R y) (relative_to target ?p) (\<lambda>v s. v = name @ ''.py'' \<and> ?R y s)" for y
    unfolding relative_to_def
    by (rule works_look) (simp add: relpath_join [OF name(2)] works_def triple_def lift_res_def)
  have "works (?R x) (bindA (module_path ''py'' target name) (\<lambda>p.
      bindA (write_file p (rstrip (clean_code c) @ [CHR 0x0A])) (\<lambda>_.
      bindA (relative_to target p) (\<lambda>rel. bindA (record_generation shown spec name prompt) (\<lambda>_. ret rel)))))
      (\<lambda>rel s. rel = name @ ''.py'' \<and> at_bench w l q a (Some (module_text c)) s)" for c
    unfolding module_path_def
    by (auto intro!: works_step [OF put] works_then [OF rel] works_step [OF works_record_generation [OF q]] works_ret
        simp: module_text_def)
  then have saved: "works (?R x) (bindA (module_path ''py'' target name) (\<lambda>p.
      bindA (write_file p (rstrip (clean_code c) @ [CHR 0x0A])) (\<lambda>_.
      bindA (relative_to target p) (\<lambda>rel. bindA (record_generation shown spec name prompt) (\<lambda>_. ret rel)))))
      (\<lambda>rel s. rel = name @ ''.py'' \<and> (\<exists>c. ok c \<and> at_bench w l q a (Some (module_text c)) s))" if "ok c" for c
    by (rule works_conseq) (use that in auto)
  have recall: "works (calling w l q a x cfg ok mem) (gets gen_memory) (\<lambda>v s. v = mem \<and> calling w l q a x cfg ok mem s)"
    by (rule works_gets) (simp add: calling_def)
  have eq: "generate_module text shown rules cfg api spec target repair modules md = bindA (gets gen_memory) (\<lambda>mem.
      bindA (lift_res (module_prompt mem spec repair modules name)) (\<lambda>prompt.
      bindA (generate_code shown rules cfg api prompt ''python'') (\<lambda>c. bindA (module_path ''py'' target name) (\<lambda>p.
      bindA (write_file p (rstrip (clean_code c) @ [CHR 0x0A])) (\<lambda>_.
      bindA (relative_to target p) (\<lambda>rel. bindA (record_generation shown spec name prompt) (\<lambda>_. ret rel)))))))"
    by (simp add: generate_module_def name(1) lang get_extension_def)
  have given: "works (calling w l q a x cfg ok mem :: ('p, 'z) agent_world_scheme \<Rightarrow> bool)
      (lift_res (module_prompt mem spec repair modules name)) (\<lambda>v s. v = prompt \<and> calling w l q a x cfg ok mem s)"
    by (simp add: prompt(1) works_def triple_def lift_res_def)
  show ?thesis
    unfolding eq
    by (rule works_then [OF recall], hypsubst, rule works_then [OF given], hypsubst, rule works_then [OF ask], rule saved)
qed

section \<open>The stages\<close>

text \<open>The module is written, with the text of an answer that is \<open>ok\<close>.\<close>

definition written ::
  "string \<Rightarrow> string list \<Rightarrow> string list \<Rightarrow> string list \<Rightarrow> (string \<Rightarrow> bool) \<Rightarrow> 'z gov_world_scheme \<Rightarrow> bool" where
  "written w l q a ok s \<longleftrightarrow> (\<exists>c. ok c \<and> at_bench w l q a (Some (module_text c)) s)"

lemma works_written:
  assumes "\<And>c. ok c \<Longrightarrow> works (at_bench w l q a (Some (module_text c))) m (\<lambda>v s. \<phi> v \<and> at_bench w l q a (Some (module_text c)) s)"
  shows "works (written w l q a ok) m (\<lambda>v s. \<phi> v \<and> written w l q a ok s)"
  by (rule worksI) (use assms in \<open>fastforce simp: written_def dest: worksD\<close>)

lemma works_written_unit:
  assumes "\<And>c. ok c \<Longrightarrow> works (at_bench w l q a (Some (module_text c))) m (\<lambda>_. at_bench w l q a (Some (module_text c)))"
  shows "works (written w l q a ok) m (\<lambda>_. written w l q a ok)"
  using works_written [of ok w l q a m "\<lambda>_. True"] assms by simp

text \<open>A change of the other parts of the state.\<close>

lemma works_other:
  fixes f :: "'z gov_world_scheme \<Rightarrow> 'z gov_world_scheme"
  assumes "\<And>s. dk_dirs (f s) = dk_dirs s" "\<And>s. dk_cwd (f s) = dk_cwd s" "\<And>s. dk_src (f s) = dk_src s"
    "\<And>s. gov_settings (f s) = gov_settings s" "\<And>s. dk_files (f s) = dk_files s"
  shows "works (written w l q a ok) (modify f) (\<lambda>_. written w l q a ok)"
proof (rule works_modify)
  fix s :: "'z gov_world_scheme"
  assume "written w l q a ok s"
  then obtain c where "ok c" and c: "at_bench w l q a (Some (module_text c)) s" by (auto simp: written_def)
  moreover have "at_bench w l q a (Some (module_text c)) (f s)" by (rule at_bench_agree [OF c assms])
  ultimately show "written w l q a ok (f s)" by (auto simp: written_def)
qed

lemma module_prompt_made: "\<exists>prompt. module_prompt mem spec repair [[(''name'', PStr name)]] name = Inr prompt"
  by (simp add: module_prompt_def bindR_def Let_def)

lemma works_project:
  fixes api :: "'p provider_api"
  assumes lang: "spec_lang spec = ''python''" and modules: "sp_modules spec = [[(''name'', PStr name)]]" and name: "plain (name @ ''.py'')"
    and a: "spot w (path_join target (name @ ''.py'')) = a" "target \<noteq> []"
    and q: "spot w (lm_path mem) = q" "lm_path mem \<noteq> []" "q \<noteq> a"
    and prompt: "\<And>prompt. module_prompt mem spec repair (sp_modules spec) name = Inr prompt \<Longrightarrow> request_allowed rules prompt"
    and api: "answering ok api"
  shows "works (calling w l q a x cfg ok mem :: ('p, 'z) agent_world_scheme \<Rightarrow> bool)
    (generate_project text shown rules cfg api spec target repair)
    (\<lambda>rels s. rels = [name @ ''.py''] \<and> written w l q a ok s)"
proof -
  obtain prompt where made: "module_prompt mem spec repair (sp_modules spec) name = Inr prompt"
    using module_prompt_made modules by metis
  have dir: "spot w target = butlast a" using a(1) spot_join [OF name, of w target] by (metis butlast_snoc)
  let ?gen = "generate_module text shown rules cfg api spec target repair (sp_modules spec)"
  have module: "works (calling w l q a x cfg ok mem :: ('p, 'z) agent_world_scheme \<Rightarrow> bool)
      (?gen [(''name'', PStr name)]) (\<lambda>rel s. rel = name @ ''.py'' \<and> written w l q a ok s)"
    unfolding written_def
    by (rule works_module [OF lang _ name a(1) q made prompt [OF made] api]) (simp add: shown_name_def)
  have dirs: "works (calling w l q a x cfg ok mem :: ('p, 'z) agent_world_scheme \<Rightarrow> bool) (make_dirs target)
      (\<lambda>_. calling w l q a x cfg ok mem)"
    by (rule works_calling_unit [OF works_there [OF dir a(2)] client_part.makes])
  have eq: "generate_project text shown rules cfg api spec target repair
      = bindA (make_dirs target) (\<lambda>_. bindA (?gen [(''name'', PStr name)]) (\<lambda>rel. ret [rel]))"
    by (simp add: generate_project_def lang modules bindA_assoc)
  show ?thesis
    unfolding eq by (rule works_step [OF dirs]) (auto intro!: works_then [OF module] works_ret)
qed

lemma works_first_attempt:
  fixes co :: "('p, 'z) agent_services"
  assumes project: "works (calling w l q a x cfg ok mem :: ('p, 'z) agent_world_scheme \<Rightarrow> bool) (generate_project (co_text co) (co_shown co) (co_rules co)
      (co_config co) (co_api co) spec (rq_target_folder (sp_requirement spec)) repair)
      (\<lambda>rels s. rels = gen \<and> written w l q a ok s)"
  shows "works (calling w l q a x cfg ok mem) (generate_attempt co 1 spec repair)
    (\<lambda>v s. fst v = gen \<and> written w l q a ok s)"
proof -
  have tick: "works (calling w l q a x cfg ok mem :: ('p, 'z) agent_world_scheme \<Rightarrow> bool) time_time
      (\<lambda>_. calling w l q a x cfg ok mem)"
    by (rule works_calling_unit [OF works_clock client_part.reads(2)])
  have tock: "works (written w l q a ok :: ('p, 'z) agent_world_scheme \<Rightarrow> bool) time_time (\<lambda>_. written w l q a ok)"
    by (rule works_written_unit [OF works_clock])
  have restore: "works (written w l q a ok :: ('p, 'z) agent_world_scheme \<Rightarrow> bool) (modify (\<lambda>s. s\<lparr>llm_model := original\<rparr>))
      (\<lambda>_. written w l q a ok)" for original
    by (rule works_other) simp_all
  have rest: "works (written w l q a ok :: ('p, 'z) agent_world_scheme \<Rightarrow> bool) (bindA time_time (\<lambda>t1.
      bindA (modify (\<lambda>s. s\<lparr>llm_model := original\<rparr>)) (\<lambda>_. ret (gen, t1 - t0)))) (\<lambda>v s. fst v = gen \<and> written w l q a ok s)"
    for original t0
    by (intro works_step [OF tock] works_step [OF restore] works_ret) simp
  have "\<not> should_escalate_model 1" by (simp add: should_escalate_model_def)
  then show ?thesis
    unfolding generate_attempt_def
    by (simp only: if_False bindA_ret)
      (rule works_look, rule works_step [OF tick], rule works_then [OF project], hypsubst, rule rest)
qed

text \<open>The scanner of Python finds nothing and leaves everything alone.\<close>

definition silent_scanner :: "'s tool \<Rightarrow> bool" where
  "silent_scanner exec \<longleftrightarrow> (\<forall>p s. \<exists>r. exec [''bandit'', ''-r'', p] None 30 s = (Inr r, s) \<and> pr_returncode r = 0)"

lemma works_check:
  fixes exec :: "'z gov_world_scheme tool"
  assumes "spot w p = a" "p \<noteq> []" and "\<And>c. ok c \<Longrightarrow> usable parse c"
  shows "works (written w l q a ok) (check_syntax parse exec p ''python'') (\<lambda>r s. tr_passed r \<and> written w l q a ok s)"
proof (rule works_written)
  fix c
  assume "ok c"
  then have "parse (universal (module_text c)) = Inr ()" using assms(3) by (simp add: usable_def)
  then have "works (at_bench w l q a (Some (module_text c)) :: 'z gov_world_scheme \<Rightarrow> bool)
      (bindA (read_text p) (\<lambda>source. bindA (lift_res (parse source)) (\<lambda>_. ret (check_result True [] []))))
      (\<lambda>r s. tr_passed r \<and> at_bench w l q a (Some (module_text c)) s)"
    by (intro works_then [OF works_read(2) [OF assms(1,2)]])
      (simp add: works_def triple_def lift_res_def bindA_def ret_def check_result_def)
  then show "works (at_bench w l q a (Some (module_text c)) :: 'z gov_world_scheme \<Rightarrow> bool) (check_syntax parse exec p ''python'')
      (\<lambda>r s. tr_passed r \<and> at_bench w l q a (Some (module_text c)) s)"
    unfolding check_syntax_def by (simp add: works_catch)
qed

lemma works_scan:
  assumes "silent_scanner exec" and "p \<noteq> []"
  shows "works P (run_security_scan filename exec p ''python'' base) (\<lambda>fs s. fs = [] \<and> P s)"
proof -
  have "works P (scan_python exec p shown_path) (\<lambda>fs s. fs = [] \<and> P s)" for shown_path
  proof (rule worksI)
    fix s
    assume "P s"
    moreover obtain r where "exec [''bandit'', ''-r'', p] None 30 s = (Inr r, s)" "pr_returncode r = 0"
      using assms(1) unfolding silent_scanner_def by blast
    ultimately show "\<exists>v t. scan_python exec p shown_path s = (Inr v, t) \<and> v = [] \<and> P t"
      by (simp add: scan_python_def bindA_def ret_def)
  qed
  moreover have "works P (lift_res (if base \<noteq> [] \<and> is_abs p then relpath w p base else Inr p)) (\<lambda>_. P)" for w
    using assms(2) by (simp add: works_def triple_def lift_res_def relpath_def Let_def)
  ultimately show ?thesis
    unfolding run_security_scan_def by (intro works_look works_step) (auto intro: works_catch)
qed

text \<open>The artifact as the validation leaves it.\<close>

definition clean_artifact :: "requirement \<Rightarrow> string list \<Rightarrow> artifact \<Rightarrow> bool" where
  "clean_artifact req gen a \<longleftrightarrow> ar_requirement a = req \<and> ar_generated_files a = gen \<and> ar_security_findings a = []
     \<and> list_all tr_passed (ar_test_results a)"

lemma works_validate:
  fixes co :: "('p, 'z) agent_services"
  assumes "spot w (path_join target f) = a" "f \<noteq> []" and "\<And>c. ok c \<Longrightarrow> usable (co_parse co) c" and "silent_scanner (co_exec co)"
    and fresh: "clean_artifact req gen b"
  shows "works (written w l q a ok) (validate_files co ''python'' target [f] b) (\<lambda>b s. clean_artifact req gen b \<and> written w l q a ok s)"
proof -
  have p: "path_join target f \<noteq> []" by (rule path_join_nonempty [OF assms(2)])
  have check: "works (written w l q a ok :: ('p, 'z) agent_world_scheme \<Rightarrow> bool) (check_source co ''python'' (path_join target f) b)
      (\<lambda>b s. clean_artifact req gen b \<and> written w l q a ok s)"
    unfolding check_source_def
    by (rule works_then [OF works_check [OF assms(1) p assms(3)]], assumption, rule works_ret)
      (use fresh in \<open>simp add: clean_artifact_def checked_def\<close>)
  have scan: "works (written w l q a ok :: ('p, 'z) agent_world_scheme \<Rightarrow> bool) (scan_source co ''python'' target f b')
      (\<lambda>b s. clean_artifact req gen b \<and> written w l q a ok s)" if "clean_artifact req gen b'" for b'
    unfolding scan_source_def
    by (rule works_then [OF works_scan [OF assms(4) p]], rule works_ret)
      (use that in \<open>simp add: clean_artifact_def scanned_def\<close>)
  have last: "works (written w l q a ok :: ('p, 'z) agent_world_scheme \<Rightarrow> bool) (ret b') (\<lambda>b s. clean_artifact req gen b \<and> written w l q a ok s)"
    if "clean_artifact req gen b'" for b'
    using that by (intro works_ret) simp
  show ?thesis
    by (simp add: validate_files_def bindA_assoc)
      (rule works_then [OF check], rule works_then [OF scan], assumption, simp only: fold_each.simps, rule last)
qed

lemma works_orch_audit:
  "act \<noteq> [] \<Longrightarrow> works (written w l q a ok) (audit act details err) (\<lambda>_. written w l q a ok)"
  unfolding audit_def by (rule works_written_unit [OF works_audit]) simp_all

lemma works_conclude:
  fixes co :: "('p, 'z) agent_services"
  assumes a: "spot w (path_join target f) = a" "f \<noteq> []" "is_source f" and b: "clean_artifact req [f] b"
  shows "works (written w l q a ok) (conclude co target n [f] latency previous history b)
    (\<lambda>r s. r = Inl b \<and> written w l q a ok s)"
proof -
  let ?W = "written w l q a ok :: ('p, 'z) agent_world_scheme \<Rightarrow> bool"
  have p: "path_join target f \<noteq> []" by (rule path_join_nonempty [OF a(2)])
  have read: "works ?W (read_text (path_join target f)) (\<lambda>_. ?W)"
    by (rule works_written_unit) (rule works_conseq [OF works_read(2) [OF a(1) p]], simp_all)
  have body: "works ?W (if there then bindA (read_text (path_join target f)) (\<lambda>t. ret (0 + length t)) else ret 0) (\<lambda>_. ?W)" for there
    by (auto intro!: works_step [OF read] works_ret)
  have len: "works ?W (code_length target [f]) (\<lambda>_. ?W)"
    unfolding code_length_def fold_each.simps
    by (rule works_step, rule works_look, rule body, rule works_ret)
  let ?q = "compute_quality_score (all_syntax_passed b) (ar_security_findings b) [f]"
  have passed: "quality_passed ?q"
    using b by (simp add: score_cases quality_passed_iff all_syntax_passed_def clean_artifact_def)
  have verdict: "works ?W (validate_artifact dump b) (\<lambda>v s. v \<and> ?W s)" for dump
    unfolding validate_artifact_def
    by (rule works_step [OF works_written_unit [OF works_audit]])
      (use b in \<open>auto simp: clean_artifact_def list_all_iff filter_empty_conv intro: works_ret\<close>)
  have settle: "works ?W (settle_loop True n qs cats) (\<lambda>_. ?W)" for qs cats
    unfolding settle_loop_def by (intro works_step [OF works_other] works_gets) simp_all
  have success: "works ?W (attempt_passed co n qs b) (\<lambda>_. ?W)" for qs
    unfolding attempt_passed_def by (rule works_step [OF settle], rule works_orch_audit) simp
  have tick: "works ?W time_time (\<lambda>_. ?W)" by (rule works_written_unit [OF works_clock])
  have ok: "works ?W (judge co ?q b) (\<lambda>v s. v \<and> ?W s)"
    using passed verdict by (simp add: judge_def)
  have source: "filter is_source [f] = [f]" using a(3) by simp
  show ?thesis
    unfolding conclude_def Let_def source
    by (rule works_step [OF len], rule works_look, rule works_step [OF tick], rule works_then [OF ok])
      (auto intro!: works_step [OF success] works_ret)
qed

lemma works_fresh: "works (written w l q a ok) (new_artifact req spec gen) (\<lambda>b s. clean_artifact req gen b \<and> written w l q a ok s)"
proof -
  have tick: "works (written w l q a ok) now (\<lambda>_. written w l q a ok)"
    unfolding now_def by (rule works_written_unit, rule worksI) (auto intro: at_bench_agree)
  show ?thesis
    unfolding new_artifact_def
    by (rule works_step [OF tick], rule works_ret) (simp add: clean_artifact_def)
qed

text \<open>The first attempt passes.\<close>

lemma works_attempts:
  fixes co :: "('p, 'z) agent_services"
  assumes lang: "spec_lang spec = ''python''" and modules: "sp_modules spec = [[(''name'', PStr name)]]" and name: "plain (name @ ''.py'')"
    and a: "spot w (path_join (rq_target_folder (sp_requirement spec)) (name @ ''.py'')) = a" "rq_target_folder (sp_requirement spec) \<noteq> []"
    and q: "spot w (lm_path mem) = q" "lm_path mem \<noteq> []" "q \<noteq> a"
    and prompt: "\<And>prompt. module_prompt mem spec None (sp_modules spec) name = Inr prompt \<Longrightarrow> request_allowed (co_rules co) prompt"
    and api: "answering (usable (co_parse co)) (co_api co)" and scanner: "silent_scanner (co_exec co)"
  shows "works (calling w l q a x (co_config co) (usable (co_parse co)) mem :: ('p, 'z) agent_world_scheme \<Rightarrow> bool)
    (run_attempts co spec 1 (None, [], []))
    (\<lambda>b s. clean_artifact (sp_requirement spec) [name @ ''.py''] b \<and> written w l q a (usable (co_parse co)) s)"
proof -
  let ?W = "written w l q a (usable (co_parse co)) :: ('p, 'z) agent_world_scheme \<Rightarrow> bool"
  let ?f = "name @ ''.py''" let ?target = "rq_target_folder (sp_requirement spec)"
  have "suffix ''.py'' ?f" by (rule suffixI) (rule refl)
  then have f: "?f \<noteq> []" "is_source ?f" "filter is_source [?f] = [?f]" by (simp_all add: is_source_def)
  have gen: "works (calling w l q a x (co_config co) (usable (co_parse co)) mem :: ('p, 'z) agent_world_scheme \<Rightarrow> bool)
      (generate_attempt co 1 spec None) (\<lambda>v s. fst v = [?f] \<and> ?W s)"
    by (rule works_first_attempt, rule works_project [OF lang modules name a q prompt api])
  have validated: "works ?W (validate_files co ''python'' ?target [?f] b) (\<lambda>b s. clean_artifact (sp_requirement spec) [?f] b \<and> ?W s)"
    if "clean_artifact (sp_requirement spec) [?f] b" for b
    by (rule works_validate [OF a(1) f(1) _ scanner that]) simp
  have concluded: "works ?W (conclude co ?target n [?f] latency previous history b) (\<lambda>r s. r = Inl b \<and> ?W s)"
    if "clean_artifact (sp_requirement spec) [?f] b" for n latency previous history b
    by (rule works_conclude [OF a(1) f(1,2) that])
  have rest: "works ?W (bindA (new_artifact (sp_requirement spec) spec [?f]) (\<lambda>fresh.
      bindA (validate_files co (spec_lang spec) ?target (filter is_source [?f]) fresh) (conclude co ?target 1 [?f] latency [] [])))
      (\<lambda>r s. (\<exists>b. r = Inl b \<and> clean_artifact (sp_requirement spec) [?f] b) \<and> ?W s)" for latency
    unfolding lang f(3)
    by (rule works_then [OF works_fresh], rule works_then [OF validated], assumption,
        rule works_conseq [OF concluded], assumption) auto
  have one: "works (calling w l q a x (co_config co) (usable (co_parse co)) mem :: ('p, 'z) agent_world_scheme \<Rightarrow> bool)
      (one_attempt co spec 1 (None, [], [])) (\<lambda>r s. (\<exists>b. r = Inl b \<and> clean_artifact (sp_requirement spec) [?f] b) \<and> ?W s)"
    unfolding one_attempt_def Let_def split_beta fst_conv snd_conv
    by (rule works_then [OF gen]) (simp only: rest)
  have "works (calling w l q a x (co_config co) (usable (co_parse co)) mem :: ('p, 'z) agent_world_scheme \<Rightarrow> bool)
      (bindA (one_attempt co spec 1 (None, [], [])) (case_sum ret (run_attempts co spec (1 + 1))))
      (\<lambda>b s. clean_artifact (sp_requirement spec) [?f] b \<and> ?W s)"
    by (rule works_then [OF one], elim exE conjE, simp only: sum.case, rule works_ret, simp)
  moreover have "\<not> loop_max_attempts < 1" by (simp add: loop_max_attempts_def)
  ultimately show ?thesis by (subst run_attempts.simps) (simp only: if_False)
qed

lemma works_specification:
  assumes "sp_architecture spec \<noteq> []" and "sp_modules spec \<noteq> []"
  shows "works (at_bench w l q a x) (validate_specification dump spec) (\<lambda>v s. v \<and> at_bench w l q a x s)"
  using assms unfolding validate_specification_def
  by (auto intro!: works_step [OF works_audit] works_ret)

lemma works_build:
  fixes co :: "('p, 'z) agent_services"
  assumes "rq_language req = Python" and "architecture \<noteq> []" and name: "plain (name @ ''.py'')"
    and a: "spot w (path_join (rq_target_folder req) (name @ ''.py'')) = a" "rq_target_folder req \<noteq> []"
    and q: "spot w (lm_path mem) = q" "lm_path mem \<noteq> []" "q \<noteq> a"
    and prompt: "\<And>prompt. module_prompt mem (make_spec req architecture [name]) None [[(''name'', PStr name)]] name = Inr prompt
      \<Longrightarrow> request_allowed (co_rules co) prompt"
    and api: "answering (usable (co_parse co)) (co_api co)" and scanner: "silent_scanner (co_exec co)"
  shows "works (calling w l q a x (co_config co) (usable (co_parse co)) mem :: ('p, 'z) agent_world_scheme \<Rightarrow> bool)
    (build_artifact co req architecture [name])
    (\<lambda>b s. clean_artifact req [name @ ''.py''] b \<and> written w l q a (usable (co_parse co)) s)"
proof -
  let ?C = "calling w l q a x (co_config co) (usable (co_parse co)) mem :: ('p, 'z) agent_world_scheme \<Rightarrow> bool"
  let ?spec = "make_spec req architecture [name]"
  have spec: "spec_lang ?spec = ''python''" "sp_modules ?spec = [[(''name'', PStr name)]]" "sp_requirement ?spec = req"
    "sp_architecture ?spec \<noteq> []" "sp_modules ?spec \<noteq> []"
    using assms(1,2) by (simp_all add: make_spec_def spec_lang_def)
  have start: "works ?C (audit ''pipeline_start'' details None) (\<lambda>_. ?C)" for details
    unfolding audit_def by (rule works_calling_unit [OF works_audit client_part.audits]) simp_all
  have valid: "works ?C (validate_specification dump ?spec) (\<lambda>v s. v \<and> ?C s)" for dump
    by (rule works_calling [OF works_specification [OF spec(4,5)] client_part.judgements(1)])
  have loop: "works ?C (run_attempts co ?spec 1 (None, [], [])) (\<lambda>b s. clean_artifact req [name @ ''.py''] b \<and> written w l q a (usable (co_parse co)) s)"
    using works_attempts [where w = w, OF spec(1,2) name _ _ q _ api scanner] a prompt by (simp add: spec(2,3))
  show ?thesis
    unfolding build_artifact_def Let_def
    by (rule works_step [OF start], rule works_then [OF valid], simp add: loop [unfolded One_nat_def])
qed

section \<open>The deployment of the module\<close>

lemma dirname_join:
  assumes "plain f" and "target \<noteq> []"
  shows "basename (path_join target f) = f" "dirname (path_join target f) \<noteq> []"
proof -
  have f: "slash \<notin> set f" "\<not> is_abs f" "f \<noteq> []" using assms(1) by (auto simp: plain_def is_abs_def split: list.splits)
  obtain h where h: "path_join target f = h @ slash # f"
  proof (cases "last target = slash")
    case True
    then have "target = butlast target @ [slash]" using append_butlast_last_id [OF assms(2)] by simp
    then have "path_join target f = butlast target @ slash # f"
      using True f(2) assms(2) unfolding path_join_def by (metis append.assoc append_Cons append_Nil)
    then show thesis by (rule that)
  next
    case False
    then show thesis using that [of target] f(2) assms(2) by (simp add: path_join_def)
  qed
  have cut: "takeWhile (\<lambda>c. c \<noteq> slash) (rev f @ slash # rev h) = rev f" "dropWhile (\<lambda>c. c \<noteq> slash) (rev f @ slash # rev h) = slash # rev h"
  proof -
    have "\<forall>c \<in> set (rev f). c \<noteq> slash" using f(1) by auto
    then show "takeWhile (\<lambda>c. c \<noteq> slash) (rev f @ slash # rev h) = rev f"
      "dropWhile (\<lambda>c. c \<noteq> slash) (rev f @ slash # rev h) = slash # rev h"
      by (simp_all add: takeWhile_append dropWhile_append)
  qed
  show "basename (path_join target f) = f" by (simp add: basename_def h cut)
  show "dirname (path_join target f) \<noteq> []"
    by (auto simp: dirname_def h cut Let_def list_all_iff)
qed

lemma works_shipped:
  fixes co :: "('p, 'z) agent_services"
  assumes "plain f" and "spot w (path_join target f) = a" and "target \<noteq> []"
  shows "works (written w l q a (usable (co_parse co)) :: ('p, 'z) agent_world_scheme \<Rightarrow> bool) (deploy_files co ''python'' target [f] [])
    (\<lambda>r s. (\<exists>ids. r = Inr ids) \<and> written w l q a (usable (co_parse co)) s)"
proof -
  let ?W = "written w l q a (usable (co_parse co)) :: ('p, 'z) agent_world_scheme \<Rightarrow> bool"
  let ?p = "path_join target f"
  have p: "?p \<noteq> []" "plain (basename ?p)" "dirname ?p \<noteq> []"
    using dirname_join [OF assms(1,3)] assms(1) path_join_nonempty [of f target] by (auto simp: plain_def)
  have "works ?W (deploy (co_parse co) True ?p ?p ''python'') (\<lambda>d s. dr_status d = ApDeployed \<and> ?W s)"
    by (rule works_written, rule works_deploy [OF assms(2) p]) (simp add: usable_def)
  then show ?thesis
    by (auto simp: deploy_file_def Let_def intro!: works_then works_ret)
qed

lemma works_gate:
  "works (written w l q a ok) (require_human_approval b) (\<lambda>v s. (\<exists>st. snd v = b\<lparr>ar_status := st\<rparr>) \<and> written w l q a ok s)"
proof -
  have reply: "works (written w l q a ok) (modify (\<lambda>s. s\<lparr>gov_replies := r\<rparr>)) (\<lambda>_. written w l q a ok)" for r
    by (rule works_other) simp_all
  have log: "works (written w l q a ok) (log_audit act ''governance'' details res None) (\<lambda>_. written w l q a ok)"
    if "act \<noteq> []" "res \<noteq> []" for act details res
    by (rule works_written_unit [OF works_audit]) (simp_all add: that)
  have same: "\<exists>st. b = b\<lparr>ar_status := st\<rparr>" by (rule exI [of _ "ar_status b"]) simp
  have asked: "works (written w l q a ok) (case replies of [] \<Rightarrow> ret (False, b) | reply # rest \<Rightarrow>
      bindA (modify (\<lambda>s. s\<lparr>gov_replies := rest\<rparr>)) (\<lambda>_.
        if lower (strip reply) = ''yes''
        then bindA (log_audit ''human_approval'' ''governance'' (project_detail b) ''approved'' None) (\<lambda>_.
          ret (True, b\<lparr>ar_status := ApApproved\<rparr>))
        else bindA (log_audit ''human_rejection'' ''governance'' (project_detail b) ''rejected'' None) (\<lambda>_.
          ret (False, b\<lparr>ar_status := ApRejected\<rparr>))))
      (\<lambda>v s. (\<exists>st. snd v = b\<lparr>ar_status := st\<rparr>) \<and> written w l q a ok s)" for replies
  proof (cases replies)
    case Nil
    then show ?thesis by (auto intro!: works_ret same)
  next
    case (Cons reply rest)
    then show ?thesis
      by (simp only: list.case) (rule works_step [OF reply], rule works_if;
        rule works_step [OF log], simp, simp, rule works_ret, auto)
  qed
  show ?thesis
    unfolding require_human_approval_def
    by (rule works_look, rule works_if, rule works_ret, simp add: same, rule works_look, rule asked)
qed

section \<open>The run\<close>

text \<open>What a run for one Python module needs: of the disk, the client and the services.\<close>

definition ready ::
  "('p, 'z) agent_services \<Rightarrow> requirement \<Rightarrow> string \<Rightarrow> string \<Rightarrow> ('p, 'z) agent_world_scheme \<Rightarrow> bool" where
  "ready co req architecture name s \<longleftrightarrow>
     rq_language req = Python \<and> architecture \<noteq> [] \<and> plain (name @ ''.py'') \<and> rq_target_folder req \<noteq> []
     \<and> lm_path (gen_memory s) \<noteq> []
     \<and> bench (dk_cwd s) (audit_file s) (place s (lm_path (gen_memory s)))
         (place s (path_join (rq_target_folder req) (name @ ''.py''))) s
     \<and> open_client (co_config co) (usable (co_parse co)) s
     \<and> (\<forall>prompt. module_prompt (gen_memory s) (make_spec req architecture [name]) None [[(''name'', PStr name)]] name
           = Inr prompt \<longrightarrow> request_allowed (co_rules co) prompt)
     \<and> answering (usable (co_parse co)) (co_api co) \<and> silent_scanner (co_exec co)"

lemma delivery:
  fixes co :: "('p, 'z) agent_services" and s :: "('p, 'z) agent_world_scheme"
  assumes ready: "ready co req architecture name s"
    and tools: "\<And>c d l. frames (\<lambda>s. (gov_settings s, gov_replies s)) (co_exec co c d l)"
  shows "\<exists>b t c. run_pipeline co req architecture [name] s = (Inr b, t)
    \<and> ar_status b = (if human_agrees s then ApDeployed else ApRejected) \<and> ar_generated_files b = [name @ ''.py'']
    \<and> usable (co_parse co) c
    \<and> dk_files t (place s (path_join (rq_target_folder req) (name @ ''.py''))) = Some (module_text c)"
proof -
  let ?w = "dk_cwd s" let ?l = "audit_file s" let ?q = "place s (lm_path (gen_memory s))"
  let ?f = "name @ ''.py''" let ?p = "path_join (rq_target_folder req) ?f" let ?a = "place s ?p"
  let ?W = "written ?w ?l ?q ?a (usable (co_parse co)) :: ('p, 'z) agent_world_scheme \<Rightarrow> bool"
  note r = ready [unfolded ready_def]
  have places: "spot ?w ?p = ?a" "spot ?w (lm_path (gen_memory s)) = ?q" by (simp_all add: place_def)
  have q: "?q \<noteq> ?a" using r by (simp add: bench_def)
  have "calling ?w ?l ?q ?a (dk_files s ?a) (co_config co) (usable (co_parse co)) (gen_memory s) s"
    using r by (simp add: calling_def at_bench_def)
  then obtain b u where b: "build_artifact co req architecture [name] s = (Inr b, u)" "clean_artifact req [?f] b" "?W u"
    using worksD [OF works_build [where req = req and architecture = architecture and name = name and co = co,
          OF _ _ _ places(1) _ places(2) _ q]] r by blast
  have agrees: "human_agrees u = human_agrees s" by (rule gate_decides [OF tools b(1)])
  obtain ok b' v st where gate: "require_human_approval b u = (Inr (ok, b'), v)" "b' = b\<lparr>ar_status := st\<rparr>" "?W v"
    using worksD [OF works_gate b(3), of b] by auto
  have ok: "ok = human_agrees s" using approval_facts(1) [OF gate(1)] agrees by simp
  have files: "ar_generated_files b' = [?f]" using b(2) gate(2) by (simp add: clean_artifact_def)
  have log: "works ?W (audit act details err) (\<lambda>_. ?W)" if "act \<noteq> []" for act details err
    by (rule works_orch_audit [OF that])
  have "\<exists>b'' t. approve_and_deploy co req b u = (Inr b'', t) \<and> ar_generated_files b'' = [?f] \<and> ?W t
      \<and> ar_status b'' = (if human_agrees s then ApDeployed else ApRejected)"
  proof (cases ok)
    case False
    obtain t where "audit ''pipeline_rejected'' [] (Some ''Human approval rejected'') v = (Inr (), t)" "?W t"
      using worksD [OF log gate(3), of "''pipeline_rejected''" "[]" "Some ''Human approval rejected''"] by auto
    then show ?thesis using gate(1) False ok files by (simp add: approve_and_deploy_def bindA_def ret_def)
  next
    case True
    obtain ids t where t: "deploy_files co ''python'' (rq_target_folder req) [?f] [] v = (Inr (Inr ids), t)" "?W t"
      using worksD [OF works_shipped [OF _ places(1)] gate(3)] r by auto
    have "works ?W (deployment_complete ids b') (\<lambda>b'' s. b'' = b'\<lparr>ar_status := ApDeployed\<rparr> \<and> ?W s)"
      unfolding deployment_complete_def Let_def by (intro works_step [OF log] works_ret) simp_all
    from worksD [OF this t(2)] obtain t' where "deployment_complete ids b' t = (Inr (b'\<lparr>ar_status := ApDeployed\<rparr>), t')" "?W t'"
      by auto
    then show ?thesis using gate(1) True ok files t r by (simp add: approve_and_deploy_def bindA_def)
  qed
  then obtain b'' t where t: "approve_and_deploy co req b u = (Inr b'', t)" "ar_generated_files b'' = [?f]" "?W t"
      "ar_status b'' = (if human_agrees s then ApDeployed else ApRejected)" by blast
  then obtain c where "usable (co_parse co) c" "dk_files t ?a = Some (module_text c)" by (auto simp: written_def at_bench_def)
  then show ?thesis using b(1) t by (auto simp: run_pipeline_def bindA_def)
qed

section \<open>What a run guarantees\<close>

text \<open>
  C4. What comes out of the pipeline. A run fails as the loop fails, with nothing asked and nothing deployed.
  When the loop hands over an artifact, the specification had an architecture and modules, at least one file was
  generated, every result of the validation passed and no finding is critical. Then the human decides, by
  the settings and the first answer of the state in which the run began: with the consent the artifact comes back
  deployed, rolled back or failed; without it the artifact comes back rejected and, even if the run
  raises, no file but the audit trail is any different from what it was when the human was asked. The
  tools are assumed to leave the settings and the answers alone.
\<close>

theorem pipeline_safe:
  fixes co :: "('p, 'z) agent_services" and s :: "('p, 'z) agent_world_scheme"
  assumes "\<And>c d l. frames (\<lambda>s. (gov_settings s, gov_replies s)) (co_exec co c d l)"
  shows "case build_artifact co req architecture modules s of
     (Inl e, u) \<Rightarrow> run_pipeline co req architecture modules s = (Inl e, u)
   | (Inr a, u) \<Rightarrow> architecture \<noteq> [] \<and> modules \<noteq> [] \<and> vetted req a
       \<and> (case run_pipeline co req architecture modules s of (r, t) \<Rightarrow>
           (case r of
              Inl e \<Rightarrow> True
            | Inr b \<Rightarrow> b = a\<lparr>ar_status := ar_status b\<rparr>
                \<and> ar_status b \<in> (if human_agrees s then {ApDeployed, ApRolledBack, ApDeployFailed} else {ApRejected}))
         \<and> (human_agrees s \<or> dk_files t |` (- {audit_file u}) = dk_files u |` (- {audit_file u})))"
proof (cases "build_artifact co req architecture modules s")
  case (Pair q u)
  show ?thesis
  proof (cases q)
    case (Inl e)
    then show ?thesis using Pair by (simp add: run_pipeline_def bindA_def)
  next
    case (Inr a)
    obtain r t where rest: "approve_and_deploy co req a u = (r, t)" by fastforce
    have run: "run_pipeline co req architecture modules s = (r, t)"
      using Pair Inr rest by (simp add: run_pipeline_def bindA_def)
    have agrees: "human_agrees u = human_agrees s" by (rule gate_decides [OF assms Pair])
    have "dk_files t |` (- {audit_file u}) = dk_files u |` (- {audit_file u})" if "\<not> human_agrees s"
      using refusal [OF _ rest] that agrees by (auto simp: restrict_map_def)
    moreover have "case r of Inl e \<Rightarrow> True | Inr b \<Rightarrow> b = a\<lparr>ar_status := ar_status b\<rparr>
        \<and> ar_status b \<in> (if human_agrees s then {ApDeployed, ApRolledBack, ApDeployFailed} else {ApRejected})"
      using approve_outcome [of co req a u _ t] rest agrees
      by (cases r) (auto split: if_splits)
    ultimately show ?thesis
      using built [of co req architecture modules s a u] Pair Inr run by auto
  qed
qed

text \<open>
  C5. The outcome and its record. A run that returns ends with the audit record of its outcome, and the
  status says which. When it is deployed, the files of the artifact are there at the end of the run, as the loop
  left them and sound: for Python the text parses, for Go and Rust it is not empty. Only the audit file and what
  lies in a directory of backups may differ.
\<close>

theorem pipeline_outcomes:
  fixes co :: "('p, 'z) agent_services" and s :: "('p, 'z) agent_world_scheme"
  shows "case run_pipeline co req architecture modules s of
     (Inl e, t) \<Rightarrow> True
   | (Inr b, t) \<Rightarrow> (case ar_status b of
         ApDeployed \<Rightarrow> gr_action (last (gov_logs t)) = ''pipeline_success''
           \<and> spared (snd (build_artifact co req architecture modules s)) t
           \<and> list_all (\<lambda>rel. delivered co req rel t) (ar_generated_files b)
       | ApRejected \<Rightarrow> gr_action (last (gov_logs t)) = ''pipeline_rejected''
       | ApRolledBack \<Rightarrow> gr_action (last (gov_logs t)) = ''deployment_failed''
       | ApDeployFailed \<Rightarrow> gr_action (last (gov_logs t)) = ''deployment_failed''
       | _ \<Rightarrow> False)"
proof (cases "run_pipeline co req architecture modules s")
  case (Pair r t)
  show ?thesis
  proof (cases r)
    case (Inr b)
    then have "run_pipeline co req architecture modules s = (Inr b, t)" using Pair by simp
    then obtain a u where run: "build_artifact co req architecture modules s = (Inr a, u)" "approve_and_deploy co req a u = (Inr b, t)"
      by (rule pipeline_returns)
    note outcome = approve_outcome [OF run(2)]
    have files: "ar_generated_files b = ar_generated_files a"
      using arg_cong [OF outcome [THEN conjunct1], of ar_generated_files] by simp
    note rest = outcome [THEN conjunct2]
    show ?thesis
    proof (cases "human_agrees u \<and> ar_status b = ApDeployed")
      case True
      then show ?thesis using rest by (simp add: Pair Inr files run(1))
    next
      case False
      then show ?thesis using rest by (cases "human_agrees u") (auto simp: Pair Inr)
    qed
  qed (simp add: Pair)
qed

text \<open>
  C36. The pipeline delivers. On a disk that works, with the directory of the target there, an open client
  under its limits, a prompt the restriction guard allows, a provider that answers with a text the parser accepts
  and a scanner that finds nothing, a run for one Python module does not raise. The module is on the disk, an
  answer's code with its fences removed; its status is deployed if the human agrees and rejected if not.
\<close>

theorem pipeline_delivers:
  fixes co :: "('p, 'z) agent_services" and s :: "('p, 'z) agent_world_scheme"
  assumes "ready co req architecture name s"
    and "\<And>c d l. frames (\<lambda>s. (gov_settings s, gov_replies s)) (co_exec co c d l)"
  shows "\<exists>b t c. run_pipeline co req architecture [name] s = (Inr b, t)
    \<and> ar_status b = (if human_agrees s then ApDeployed else ApRejected) \<and> ar_generated_files b = [name @ ''.py'']
    \<and> usable (co_parse co) c
    \<and> dk_files t (place s (path_join (rq_target_folder req) (name @ ''.py''))) = Some (module_text c)"
  by (rule delivery [OF assms])

section \<open>Two runs\<close>

text \<open>The module goes to \<open>/t\<close> and the logs to \<open>/l\<close>; the provider answers with the same code every time.\<close>

definition ready_demo :: "string \<Rightarrow> (string list, unit) agent_world_scheme" where
  "ready_demo reply = agent_demo\<lparr>dk_dirs := {[], [''t''], [''l'']}, gov_settings := default_settings\<lparr>st_logs_dir := ''/l''\<rparr>,
     gov_replies := [reply]\<rparr>"

definition ready_services :: "(string list, unit) agent_services" where
  "ready_services = demo_services\<lparr>co_api := (\<lambda>m p t n w. (Inr (Some ''x = 1''), w @ [m]))\<rparr>"

lemma ready_demo_parts:
  "dk_files (ready_demo reply) = (\<lambda>_. None)" "dk_dirs (ready_demo reply) = {[], [''t''], [''l'']}" "dk_cwd (ready_demo reply) = ''/''"
  "dk_src (ready_demo reply) = (\<lambda>_. Written)" "st_logs_dir (gov_settings (ready_demo reply)) = ''/l''"
  "lm_path (gen_memory (ready_demo reply)) = ''m''" "breaker (ready_demo reply) = new_circuit_breaker"
  "request_times (ready_demo reply) = []" "permits (ready_demo reply) = 2" "cache (ready_demo reply) = []"
  "st_require_human_approval (gov_settings (ready_demo reply))" "gov_replies (ready_demo reply) = [reply]"
  by (simp_all add: ready_demo_def agent_demo_def llm_demo_def llm_world.defs Let_def default_settings_def)

lemma ready_demo_places:
  "place (ready_demo reply) ''m'' = [''m'']" "place (ready_demo reply) (path_join ''t'' ''m.py'') = [''t'', ''m.py'']"
  "audit_file (ready_demo reply) = [''l'', ''audit.log'']" "vault [''t'', ''m.py''] = [''t'', ''.atlas_backups'']"
  by (simp_all add: audit_file_def place_def ready_demo_parts path_join_def is_abs_def norm_pieces_def norm_piece_def
      vault_def backup_dir_name_def)

lemma ready_demo_ready: "ready ready_services demo_requirement ''a'' ''m'' (ready_demo reply)"
proof -
  have services: "co_parse ready_services = (\<lambda>_. Inr ())" "co_config ready_services = default_config"
    "co_rules ready_services = load_rules None" "co_exec ready_services = demo_tool"
    "co_api ready_services = (\<lambda>m p t n w. (Inr (Some ''x = 1''), w @ [m]))"
    by (simp_all add: ready_services_def demo_services_def)
  have "bench ''/'' [''l'', ''audit.log''] [''m''] [''t'', ''m.py''] (ready_demo reply)"
    by (simp add: bench_def calm_def writable_def ready_demo_parts ready_demo_places way_def upt_rec)
  moreover have "open_client default_config ok (ready_demo reply)" for ok
    by (simp add: open_client_def ready_demo_parts new_circuit_breaker_def default_config_def)
  moreover have "request_allowed (load_rules None) prompt" for prompt
    by (simp add: request_allowed_def load_rules_def detect_category_def category_patterns_def category_map_def)
  moreover have "answering (usable (\<lambda>_. Inr ())) (co_api ready_services)"
  proof -
    have "strip ''x = 1'' \<noteq> []" by code_simp
    then show ?thesis by (simp add: answering_def services usable_def)
  qed
  moreover have "silent_scanner (demo_tool :: (string list, unit) agent_world_scheme tool)"
    by (simp add: silent_scanner_def demo_tool_def ret_def)
  ultimately show ?thesis
    by (simp add: ready_def services ready_demo_parts ready_demo_places demo_requirement_def plain_def)
qed

lemma ready_tools: "frames (\<lambda>s. (gov_settings s, gov_replies s)) (co_exec ready_services c d l)"
  by (simp add: ready_services_def demo_services_def demo_tool_def obeys_def ret_def)

lemma ready_demo_asks: "human_agrees (ready_demo ''yes'')" "\<not> human_agrees (ready_demo ''no'')"
proof -
  have "lower (strip ''yes'') = ''yes''" "lower (strip ''no'') \<noteq> ''yes''" by code_simp+
  then show "human_agrees (ready_demo ''yes'')" "\<not> human_agrees (ready_demo ''no'')"
    by (simp_all add: human_agrees_def ready_demo_parts)
qed

theorem pipeline_delivers_witness:
  "\<exists>b t c. run_pipeline ready_services demo_requirement ''a'' [''m''] (ready_demo ''yes'') = (Inr b, t)
     \<and> ar_status b = ApDeployed \<and> dk_files t [''t'', ''m.py''] = Some (module_text c)"
  using pipeline_delivers [OF ready_demo_ready ready_tools, of "''yes''"]
  by (auto simp: ready_demo_asks ready_demo_places demo_requirement_def)

text \<open>The human says no: the artifact is rejected and the module is as it was.\<close>

theorem pipeline_safe_witness:
  "\<exists>a u b t. build_artifact ready_services demo_requirement ''a'' [''m''] (ready_demo ''no'') = (Inr a, u)
     \<and> run_pipeline ready_services demo_requirement ''a'' [''m''] (ready_demo ''no'') = (Inr b, t)
     \<and> vetted demo_requirement a \<and> b = a\<lparr>ar_status := ApRejected\<rparr>
     \<and> dk_files t |` (- {audit_file u}) = dk_files u |` (- {audit_file u})"
proof -
  obtain b t where run: "run_pipeline ready_services demo_requirement ''a'' [''m''] (ready_demo ''no'') = (Inr b, t)"
    using delivery [OF ready_demo_ready ready_tools, of "''no''"] by blast
  then obtain a u where "build_artifact ready_services demo_requirement ''a'' [''m''] (ready_demo ''no'') = (Inr a, u)"
    by (rule pipeline_returns)
  with run show ?thesis
    using pipeline_safe [OF ready_tools, of demo_requirement "''a''" "[''m'']" "ready_demo ''no''"]
    by (simp add: ready_demo_asks) metis
qed

end
