(* ===== verification/Secure_Api.thy ===== *)
theory Secure_Api
  imports Json Sha256 Environment
begin

text \<open>
  The secure API (\<^verbatim>\<open>output/secure_api\<close>): the key, passwords and tokens of \<^verbatim>\<open>auth.py\<close>, the endpoints of
  \<^verbatim>\<open>main.py\<close> and the rows of \<^verbatim>\<open>models.py\<close>. \<^verbatim>\<open>bcrypt\<close> and \<^verbatim>\<open>PyJWT\<close> are the record \<open>crypto\<close>, the
  sessions of SQLAlchemy the record \<open>user_database\<close>, over a database state of any type; the laws that the
  properties need of them are hypotheses. The parsing of requests by FastAPI is left out: an endpoint takes
  its arguments, and the session it is given.
\<close>

section \<open>State\<close>

record user =
  us_id :: nat
  us_username :: string
  us_hash :: string

record 'd api_world = env_world +
  api_db :: 'd
  salt_src :: "nat \<Rightarrow> string"
  salt_pos :: nat

text \<open>\<^verbatim>\<open>db.query(User).filter(User.username == name).first()\<close>, and \<^verbatim>\<open>add\<close>, \<^verbatim>\<open>commit\<close> and
  \<^verbatim>\<open>refresh\<close> of a new user with a name and a hash. Both may raise.\<close>

record 'd user_database =
  ud_first :: "string \<Rightarrow> ('d, user option) action"
  ud_insert :: "string \<Rightarrow> string \<Rightarrow> ('d, unit) action"

definition on_db :: "('d, 'a) action \<Rightarrow> (('d, 'z) api_world_scheme, 'a) action" where
  "on_db m s = (case m (api_db s) of (r, d) \<Rightarrow> (r, s\<lparr>api_db := d\<rparr>))"

text \<open>The claims of a token: the data, and the time at which it expires.\<close>

record claims =
  cl_data :: pydict
  cl_exp :: datetime

record crypto =
  cy_hashpw :: "nat list \<Rightarrow> string \<Rightarrow> exn + string"
  cy_checkpw :: "nat list \<Rightarrow> string \<Rightarrow> exn + bool"
  cy_encode :: "claims \<Rightarrow> string \<Rightarrow> exn + string"
  cy_decode :: "string \<Rightarrow> string \<Rightarrow> datetime \<Rightarrow> exn + pydict"

section \<open>The key\<close>

definition no_secret_key :: exn where
  "no_secret_key = runtime_error (''FATAL: JWT_SECRET_KEY environment variable is not set. ''
     @ ''Refusing to start without a valid signing key. '' @ ''See governance/policies/security-policy.yaml'')"

definition load_secret_key :: "(string \<Rightarrow> string option) \<Rightarrow> exn + string" where
  "load_secret_key env =
     (case env ''JWT_SECRET_KEY'' of
        None \<Rightarrow> Inl no_secret_key
      | Some key \<Rightarrow>
          if key = [] then Inl no_secret_key
          else if length key < 32
          then Inl (value_error (''FATAL: JWT_SECRET_KEY must be at least 32 characters. Current length: '' @ show_nat (length key)))
          else Inr key)"

section \<open>Errors\<close>

definition http_exception :: "nat \<Rightarrow> string \<Rightarrow> exn" where
  "http_exception code detail = Raised (OtherError ''HTTPException'') (show_nat code @ '': '' @ detail)"

definition credentials_exception :: exn where
  "credentials_exception = http_exception 401 ''Could not validate credentials''"

text \<open>\<^verbatim>\<open>jwt.InvalidTokenError\<close> and its documented subclasses.\<close>

definition invalid_token_errors :: "string list" where
  "invalid_token_errors = [''InvalidTokenError'', ''DecodeError'', ''InvalidSignatureError'', ''ExpiredSignatureError'',
     ''InvalidAudienceError'', ''InvalidIssuerError'', ''InvalidIssuedAtError'', ''ImmatureSignatureError'',
     ''InvalidAlgorithmError'', ''MissingRequiredClaimError'', ''InvalidSubjectError'', ''InvalidJTIError'']"

fun invalid_token :: "exn \<Rightarrow> bool" where
  "invalid_token (Raised (OtherError n) m) = (n \<in> set invalid_token_errors)"
| "invalid_token e = False"

section \<open>Passwords and tokens\<close>

definition gensalt :: "(('d, 'z) api_world_scheme, string) action" where
  "gensalt s = (Inr (salt_src s (salt_pos s)), s\<lparr>salt_pos := Suc (salt_pos s)\<rparr>)"

definition verify_password :: "crypto \<Rightarrow> string \<Rightarrow> string \<Rightarrow> exn + bool" where
  "verify_password cy plain hashed = cy_checkpw cy (utf8 plain) hashed"

definition get_password_hash :: "crypto \<Rightarrow> string \<Rightarrow> (('d, 'z) api_world_scheme, string) action" where
  "get_password_hash cy password = bindA gensalt (\<lambda>salt. lift_res (cy_hashpw cy (utf8 password) salt))"

definition authenticate_user :: "'d user_database \<Rightarrow> crypto \<Rightarrow> string \<Rightarrow> string \<Rightarrow> (('d, 'z) api_world_scheme, user option) action" where
  "authenticate_user db cy name password =
     bindA (on_db (ud_first db name)) (\<lambda>r. case r of
         None \<Rightarrow> ret None
       | Some u \<Rightarrow> bindA (lift_res (verify_password cy password (us_hash u))) (\<lambda>ok. ret (if ok then Some u else None)))"

text \<open>A duration of zero is false, and gets the default of 15 minutes.\<close>

definition token_life :: "int option \<Rightarrow> int" where
  "token_life delta = (case delta of Some d \<Rightarrow> (if d = 0 then 15 * 60 * 1000000 else d) | None \<Rightarrow> 15 * 60 * 1000000)"

definition create_access_token ::
  "crypto \<Rightarrow> string \<Rightarrow> pydict \<Rightarrow> int option \<Rightarrow> (('d, 'z) api_world_scheme, string) action" where
  "create_access_token cy key data delta =
     bindA now (\<lambda>t.
     let expire = micros_of t + token_life delta in
     if expire < first_micro \<or> last_micro < expire then raise (Raised (OtherError ''OverflowError'') ''date value out of range'')
     else lift_res (cy_encode cy \<lparr>cl_data = dict_del ''exp'' data, cl_exp = at_micros expire\<rparr> key))"

definition token_subject :: "crypto \<Rightarrow> string \<Rightarrow> string \<Rightarrow> (('d, 'z) api_world_scheme, string) action" where
  "token_subject cy key token =
     catchA
       (bindA now (\<lambda>t.
        bindA (lift_res (cy_decode cy token key t)) (\<lambda>payload.
        case map_of payload ''sub'' of Some (PStr name) \<Rightarrow> ret name | _ \<Rightarrow> raise credentials_exception)))
       (\<lambda>e. if invalid_token e then raise credentials_exception else raise e)"

definition get_current_active_user :: "'d user_database \<Rightarrow> crypto \<Rightarrow> string \<Rightarrow> string \<Rightarrow> (('d, 'z) api_world_scheme, user) action" where
  "get_current_active_user db cy key token =
     bindA (token_subject cy key token) (\<lambda>name.
     bindA (on_db (ud_first db name)) (\<lambda>r. case r of None \<Rightarrow> raise credentials_exception | Some u \<Rightarrow> ret u))"

section \<open>Endpoints\<close>

definition create_user :: "'d user_database \<Rightarrow> crypto \<Rightarrow> string \<Rightarrow> string \<Rightarrow> (('d, 'z) api_world_scheme, pydict) action" where
  "create_user db cy name password =
     bindA (on_db (ud_first db name)) (\<lambda>r.
     if r \<noteq> None then raise (http_exception 400 ''Username already registered'')
     else
       bindA (get_password_hash cy password) (\<lambda>h.
       bindA (on_db (ud_insert db name h)) (\<lambda>_. ret [(''message'', PStr ''User created successfully'')])))"

definition login :: "'d user_database \<Rightarrow> crypto \<Rightarrow> string \<Rightarrow> string \<Rightarrow> string \<Rightarrow> (('d, 'z) api_world_scheme, pydict) action" where
  "login db cy key name password =
     bindA (authenticate_user db cy name password) (\<lambda>r. case r of
         None \<Rightarrow> raise (http_exception 400 ''Incorrect username or password'')
       | Some u \<Rightarrow>
           bindA (create_access_token cy key [(''sub'', PStr (us_username u))] None) (\<lambda>token.
           ret [(''access_token'', PStr token), (''token_type'', PStr ''bearer'')]))"

definition read_users_me :: "'d user_database \<Rightarrow> crypto \<Rightarrow> string \<Rightarrow> string \<Rightarrow> (('d, 'z) api_world_scheme, pydict) action" where
  "read_users_me db cy key token =
     bindA (get_current_active_user db cy key token) (\<lambda>u.
     ret [(''id'', PInt (int (us_id u))), (''username'', PStr (us_username u))])"

definition read_items :: "'d user_database \<Rightarrow> crypto \<Rightarrow> string \<Rightarrow> string \<Rightarrow> (('d, 'z) api_world_scheme, pydict list) action" where
  "read_items db cy key token =
     bindA (get_current_active_user db cy key token) (\<lambda>u.
     ret [[(''name'', PStr ''Item Foo''), (''owner'', PStr (us_username u))]])"

section \<open>Tokens\<close>

lemma not_invalid: "\<not> invalid_token credentials_exception"
  by (simp add: credentials_exception_def http_exception_def invalid_token_errors_def)

lemma subject_cases:
  "token_subject cy key token s =
     ((case cy_decode cy token key (clock_src s (clock_pos s)) of
        Inl e \<Rightarrow> Inl (if invalid_token e then credentials_exception else e)
      | Inr payload \<Rightarrow> (case map_of payload ''sub'' of Some (PStr who) \<Rightarrow> Inr who | _ \<Rightarrow> Inl credentials_exception)),
      s\<lparr>clock_pos := Suc (clock_pos s)\<rparr>)"
proof -
  have e: "is_exception e" if "invalid_token e" for e using that by (cases e) auto
  show ?thesis
    using e by (simp add: token_subject_def action_simps not_invalid split: sum.split option.split pyval.split)
qed

lemma me_cases:
  "fst (read_users_me db cy key token s) =
     (case cy_decode cy token key (clock_src s (clock_pos s)) of
        Inl e \<Rightarrow> Inl (if invalid_token e then credentials_exception else e)
      | Inr payload \<Rightarrow> (case map_of payload ''sub'' of
          Some (PStr who) \<Rightarrow> (case fst (ud_first db who (api_db s)) of
              Inl e \<Rightarrow> Inl e
            | Inr None \<Rightarrow> Inl credentials_exception
            | Inr (Some u) \<Rightarrow> Inr [(''id'', PInt (int (us_id u))), (''username'', PStr (us_username u))])
        | _ \<Rightarrow> Inl credentials_exception))"
  by (simp add: read_users_me_def get_current_active_user_def subject_cases on_db_def action_simps
      split: prod.split sum.split option.split pyval.split)

lemma made_token:
  assumes "create_access_token cy key data None s = (Inr token, t)"
  shows "\<exists>expires. micros_of expires = micros_of (clock_src s (clock_pos s)) + 900000000
    \<and> cy_encode cy \<lparr>cl_data = dict_del ''exp'' data, cl_exp = expires\<rparr> key = Inr token"
proof -
  let ?e = "micros_of (clock_src s (clock_pos s)) + 900000000"
  have "first_micro \<le> ?e" "?e \<le> last_micro" and made: "cy_encode cy \<lparr>cl_data = dict_del ''exp'' data, cl_exp = at_micros ?e\<rparr> key = Inr token"
    using assms by (auto simp: create_access_token_def token_life_def action_simps Let_def split: if_splits)
  then have "micros_of (at_micros ?e) = ?e" by (simp add: at_micros_inverse)
  with made show ?thesis by blast
qed

lemma token_db: "create_access_token cy key data delta s = (r, t) \<Longrightarrow> api_db t = api_db s"
  by (auto simp: create_access_token_def action_simps Let_def split: if_splits)

lemma token_clock: "clock_src t = clock_src s \<Longrightarrow> clock_pos t = clock_pos s \<Longrightarrow>
    fst (create_access_token cy key data delta t) = fst (create_access_token cy key data delta s)"
  by (simp add: create_access_token_def action_simps Let_def)

section \<open>The laws\<close>

text \<open>What is documented of the two libraries. A password passes the check against its own hash. A token for a
  user decodes, until the second in which it expires, to its payload, the expiry among it, in seconds; from then on
  decoding raises \<^verbatim>\<open>ExpiredSignatureError\<close>.\<close>

definition password_law :: "crypto \<Rightarrow> bool" where
  "password_law cy \<longleftrightarrow> (\<forall>p salt h. cy_hashpw cy p salt = Inr h \<longrightarrow> cy_checkpw cy p h = Inr True)"

definition token_law :: "crypto \<Rightarrow> string \<Rightarrow> bool" where
  "token_law cy key \<longleftrightarrow> (\<forall>who expires token t.
     cy_encode cy \<lparr>cl_data = [(''sub'', PStr who)], cl_exp = expires\<rparr> key = Inr token \<longrightarrow>
     (if micros_of t div 1000000 < micros_of expires div 1000000
      then \<exists>payload. cy_decode cy token key t = Inr payload \<and> map_of payload ''sub'' = Some (PStr who)
        \<and> map_of payload ''exp'' = Some (PInt (micros_of expires div 1000000))
      else \<exists>m. cy_decode cy token key t = Inl (Raised (OtherError ''ExpiredSignatureError'') m)))"

text \<open>Of the database, whose rows are \<open>rows\<close>: a query that returns changes none of them and has found one with
  the name if there is any, and a commit that returns has added one row with the name and the hash. Whether the
  names are distinct, which identifiers are given and what may fail is left open.\<close>

definition database_law :: "'d user_database \<Rightarrow> ('d \<Rightarrow> user set) \<Rightarrow> bool" where
  "database_law db rows \<longleftrightarrow>
     (\<forall>name d r d'. ud_first db name d = (Inr r, d') \<longrightarrow> rows d' = rows d
        \<and> (case r of None \<Rightarrow> \<forall>u \<in> rows d. us_username u \<noteq> name | Some u \<Rightarrow> u \<in> rows d \<and> us_username u = name))
     \<and> (\<forall>name h d d'. ud_insert db name h d = (Inr (), d') \<longrightarrow>
        (\<exists>i. rows d' = insert \<lparr>us_id = i, us_username = name, us_hash = h\<rparr> (rows d)))"

lemma database_first:
  assumes "database_law db rows" and "on_db (ud_first db name) s = (Inr r, t)"
  shows "rows (api_db t) = rows (api_db s) \<and> clock_src t = clock_src s \<and> clock_pos t = clock_pos s
    \<and> (case r of None \<Rightarrow> \<forall>u \<in> rows (api_db s). us_username u \<noteq> name | Some u \<Rightarrow> u \<in> rows (api_db s) \<and> us_username u = name)"
  using assms unfolding database_law_def by (auto simp: on_db_def split: prod.splits)

lemma database_insert:
  assumes "database_law db rows" and "on_db (ud_insert db name h) s = (Inr v, t)"
  shows "\<exists>i. rows (api_db t) = insert \<lparr>us_id = i, us_username = name, us_hash = h\<rparr> (rows (api_db s))"
  using assms unfolding database_law_def by (auto simp: on_db_def split: prod.splits)

lemma created_user:
  assumes "database_law db rows" and "create_user db cy name password s = (Inr r, t)"
  shows "\<exists>u salt. {v \<in> rows (api_db t). us_username v = name} = {u} \<and> cy_hashpw cy (utf8 password) salt = Inr (us_hash u)"
proof -
  obtain v h w x where first: "on_db (ud_first db name) s = (Inr None, v)"
    and hash: "get_password_hash cy password v = (Inr h, w)" and put: "on_db (ud_insert db name h) w = (Inr x, t)"
    using assms(2) by (auto simp: create_user_def bind_value raise_def ret_def split: if_splits)
  obtain salt where "cy_hashpw cy (utf8 password) salt = Inr h" and w: "api_db w = api_db v"
    using hash by (auto simp: get_password_hash_def gensalt_def bind_value lift_res_def)
  moreover have "\<forall>u \<in> rows (api_db w). us_username u \<noteq> name"
    using database_first [OF assms(1) first] w by simp
  moreover obtain i where "rows (api_db t) = insert \<lparr>us_id = i, us_username = name, us_hash = h\<rparr> (rows (api_db w))"
    using database_insert [OF assms(1) put] by blast
  ultimately show ?thesis
    by (intro exI [of _ "\<lparr>us_id = i, us_username = name, us_hash = h\<rparr>"] exI [of _ salt]) auto
qed

section \<open>Properties\<close>

text \<open>
  Who gets in. A login answers with a token only when the query found a user and the check of the
  password against the stored hash succeeded, and a token opens the account only when it decodes and
  the query finds the user it names; an invalid token never shows itself as anything but the 401.
\<close>

theorem api_access:
  "(case fst (login db cy key name password s) of
      Inl e \<Rightarrow> True
    | Inr reply \<Rightarrow> \<exists>u. fst (ud_first db name (api_db s)) = Inr (Some u) \<and> cy_checkpw cy (utf8 password) (us_hash u) = Inr True)
   \<and> (case fst (read_users_me db cy key token s) of
      Inl e \<Rightarrow> True
    | Inr reply \<Rightarrow> \<exists>payload who u. cy_decode cy token key (clock_src s (clock_pos s)) = Inr payload
        \<and> map_of payload ''sub'' = Some (PStr who) \<and> fst (ud_first db who (api_db s)) = Inr (Some u)
        \<and> reply = [(''id'', PInt (int (us_id u))), (''username'', PStr (us_username u))])
   \<and> (\<forall>e. cy_decode cy token key (clock_src s (clock_pos s)) = Inl e \<and> invalid_token e \<longrightarrow>
        fst (read_users_me db cy key token s) = Inl credentials_exception)"
proof (intro conjI)
  show "case fst (login db cy key name password s) of
      Inl e \<Rightarrow> True
    | Inr reply \<Rightarrow> \<exists>u. fst (ud_first db name (api_db s)) = Inr (Some u) \<and> cy_checkpw cy (utf8 password) (us_hash u) = Inr True"
    by (auto simp: login_def authenticate_user_def verify_password_def on_db_def bindA_def lift_res_def ret_def
        raise_def split: sum.splits prod.splits option.splits if_splits)
qed (auto simp: me_cases split: sum.splits option.splits pyval.splits)

text \<open>A token used in a state in which its user is the only one of that name.\<close>

lemma opened_account:
  assumes "token_law cy key" and "database_law db rows"
    and "cy_encode cy \<lparr>cl_data = [(''sub'', PStr name)], cl_exp = expires\<rparr> key = Inr token"
    and "{v \<in> rows (api_db s). us_username v = name} = {u}" and "ud_first db name (api_db s) = (Inr found, d)"
    and "us_username u = name"
  shows "fst (read_users_me db cy key token s) =
    (if micros_of (clock_src s (clock_pos s)) div 1000000 < micros_of expires div 1000000
     then Inr [(''id'', PInt (int (us_id u))), (''username'', PStr name)] else Inl credentials_exception)"
proof -
  let ?t = "clock_src s (clock_pos s)"
  have law: "if micros_of ?t div 1000000 < micros_of expires div 1000000
      then \<exists>payload. cy_decode cy token key ?t = Inr payload \<and> map_of payload ''sub'' = Some (PStr name)
        \<and> map_of payload ''exp'' = Some (PInt (micros_of expires div 1000000))
      else \<exists>m. cy_decode cy token key ?t = Inl (Raised (OtherError ''ExpiredSignatureError'') m)"
    using assms(1,3) unfolding token_law_def by blast
  have "case found of None \<Rightarrow> \<forall>u \<in> rows (api_db s). us_username u \<noteq> name | Some u \<Rightarrow> u \<in> rows (api_db s) \<and> us_username u = name"
    using assms(2,5) unfolding database_law_def by blast
  then have found: "found = Some u" using assms(4) by (cases found) auto
  show ?thesis
  proof (cases "micros_of ?t div 1000000 < micros_of expires div 1000000")
    case True
    with law obtain payload where "cy_decode cy token key ?t = Inr payload" "map_of payload ''sub'' = Some (PStr name)" by auto
    then show ?thesis using True assms(5,6) found by (simp add: me_cases)
  next
    case False
    with law obtain m where "cy_decode cy token key ?t = Inl (Raised (OtherError ''ExpiredSignatureError'') m)" by auto
    then show ?thesis using False by (simp add: me_cases invalid_token_errors_def)
  qed
qed

text \<open>What a login does right after a query that found \<open>u\<close>.\<close>

lemma login_found:
  assumes "on_db (ud_first db name) s = (r, t)"
  shows "login db cy key name password s = (case r of
      Inl e \<Rightarrow> (Inl e, t)
    | Inr None \<Rightarrow> (Inl (http_exception 400 ''Incorrect username or password''), t)
    | Inr (Some u) \<Rightarrow> (case cy_checkpw cy (utf8 password) (us_hash u) of
        Inl e \<Rightarrow> (Inl e, t)
      | Inr False \<Rightarrow> (Inl (http_exception 400 ''Incorrect username or password''), t)
      | Inr True \<Rightarrow> (case create_access_token cy key [(''sub'', PStr (us_username u))] None t of
          (Inl e, t') \<Rightarrow> (Inl e, t')
        | (Inr token, t') \<Rightarrow> (Inr [(''access_token'', PStr token), (''token_type'', PStr ''bearer'')], t'))))"
  using assms
  by (auto simp: login_def authenticate_user_def verify_password_def action_simps split: sum.split option.split bool.split prod.split)

text \<open>
  C37. Registering, logging in, and using the token. By the laws of bcrypt, PyJWT and the database above: after a
  registration that returns, a login with the same password is not refused; it fails only with an error of the
  query or of making the token. When it answers, its token opens, for 15 minutes, the account of that user and no
  other, whatever other users are added meanwhile, and from the second in which they are over it is refused with
  the 401. The token is used in any later state in which the users of that name are as they were and whose query
  does not fail.
\<close>

theorem api_roundtrip:
  fixes s :: "('d, 'z) api_world_scheme"
  assumes "password_law cy" and "token_law cy key" and "database_law db rows"
    and "create_user db cy name password s = (Inr created, s1)"
    and "login db cy key name password s1 = (res, s2)"
  shows "case res of
      Inl e \<Rightarrow> fst (ud_first db name (api_db s1)) = Inl e \<or> fst (create_access_token cy key [(''sub'', PStr name)] None s1) = Inl e
    | Inr reply \<Rightarrow> \<exists>token u. map_of reply ''access_token'' = Some (PStr token)
        \<and> {v \<in> rows (api_db s1). us_username v = name} = {u}
        \<and> (\<forall>(s3 :: ('d, 'z) api_world_scheme) found d. {v \<in> rows (api_db s3). us_username v = name} = {u} \<and> ud_first db name (api_db s3) = (Inr found, d) \<longrightarrow>
            fst (read_users_me db cy key token s3) =
              (if micros_of (clock_src s3 (clock_pos s3)) div 1000000
                  < (micros_of (clock_src s1 (clock_pos s1)) + 900000000) div 1000000
               then Inr [(''id'', PInt (int (us_id u))), (''username'', PStr name)] else Inl credentials_exception))"
proof -
  obtain u salt where u: "{v \<in> rows (api_db s1). us_username v = name} = {u}"
      "cy_hashpw cy (utf8 password) salt = Inr (us_hash u)"
    using created_user [OF assms(3,4)] by metis
  then have good: "cy_checkpw cy (utf8 password) (us_hash u) = Inr True" and name: "us_username u = name"
    using assms(1) by (auto simp: password_law_def)
  obtain r t where query: "on_db (ud_first db name) s1 = (r, t)" by fastforce
  then have err: "fst (ud_first db name (api_db s1)) = r" by (auto simp: on_db_def split: prod.splits)
  show ?thesis
  proof (cases r)
    case (Inl e)
    then have "res = Inl e" using login_found [OF query, of cy key password] assms(5) by simp
    then show ?thesis using Inl err by simp
  next
    case (Inr f)
    note facts = database_first [OF assms(3) query [unfolded Inr]]
    have f: "f = Some u" using facts u(1) by (cases f) auto
    have run: "login db cy key name password s1 = (case create_access_token cy key [(''sub'', PStr name)] None t of
          (Inl e, t') \<Rightarrow> (Inl e, t')
        | (Inr token, t') \<Rightarrow> (Inr [(''access_token'', PStr token), (''token_type'', PStr ''bearer'')], t'))"
      using login_found [OF query] good name by (simp add: Inr f)
    obtain x t' where made: "create_access_token cy key [(''sub'', PStr name)] None t = (x, t')" by fastforce
    show ?thesis
    proof (cases x)
      case (Inl e)
      then have "res = Inl e" using run assms(5) made by simp
      moreover have "fst (create_access_token cy key [(''sub'', PStr name)] None s1) = Inl e"
        using token_clock [of t s1 cy key "[(''sub'', PStr name)]" None] facts made Inl by simp
      ultimately show ?thesis by simp
    next
      case (Inr token)
      from made_token [OF made [unfolded Inr]] obtain expires where
        expires: "micros_of expires = micros_of (clock_src s1 (clock_pos s1)) + 900000000"
        and token: "cy_encode cy \<lparr>cl_data = [(''sub'', PStr name)], cl_exp = expires\<rparr> key = Inr token"
        using facts by auto
      have "fst (read_users_me db cy key token s3) =
              (if micros_of (clock_src s3 (clock_pos s3)) div 1000000
                  < (micros_of (clock_src s1 (clock_pos s1)) + 900000000) div 1000000
               then Inr [(''id'', PInt (int (us_id u))), (''username'', PStr name)] else Inl credentials_exception)"
        if "{v \<in> rows (api_db s3). us_username v = name} = {u}" "ud_first db name (api_db s3) = (Inr found, d)" for s3 :: "('d, 'z) api_world_scheme" and found d
        using opened_account [OF assms(2,3) token that name] expires by simp
      moreover have "res = Inr [(''access_token'', PStr token), (''token_type'', PStr ''bearer'')]"
        using run assms(5) made Inr by simp
      moreover have "map_of [(''access_token'', PStr token), (''token_type'', PStr ''bearer'')] ''access_token'' = Some (PStr token)"
        by simp
      ultimately show ?thesis using u(1) by (simp only: sum.case) blast
    qed
  qed
qed

section \<open>Examples\<close>

definition demo_claims :: claims where
  "demo_claims = \<lparr>cl_data = [(''sub'', PStr ''ann'')], cl_exp = at_micros 900000000\<rparr>"

definition demo_crypto :: crypto where
  "demo_crypto = \<lparr>cy_hashpw = (\<lambda>p salt. Inr (map char_of p @ CHR ''.'' # salt)),
     cy_checkpw = (\<lambda>p h. Inr (prefix (map char_of p @ ''.'') h)),
     cy_encode = (\<lambda>c key. if c = demo_claims then Inr ''t'' else Inl (type_error ''claims'')),
     cy_decode = (\<lambda>token key t. if token \<noteq> ''t'' then Inl (Raised (OtherError ''DecodeError'') ''Not enough segments'')
       else if micros_of t div 1000000 < 900 then Inr [(''sub'', PStr ''ann''), (''exp'', PInt 900)]
       else Inl (Raised (OtherError ''ExpiredSignatureError'') ''Signature has expired''))\<rparr>"

text \<open>A database of rows in a list, whose column of the names is unique.\<close>

definition demo_database :: "user list user_database" where
  "demo_database = \<lparr>ud_first = (\<lambda>name us. (Inr (find (\<lambda>u. us_username u = name) us), us)),
     ud_insert = (\<lambda>name h us. if name \<in> us_username ` set us
       then (Inl (Raised (OtherError ''IntegrityError'') ''UNIQUE constraint failed: users.username''), us)
       else (Inr (), us @ [\<lparr>us_id = length us + 1, us_username = name, us_hash = h\<rparr>]))\<rparr>"

definition api_demo :: "user list api_world" where
  "api_demo = \<lparr>uuid_src = demo_uuids, clock_src = demo_clock, uuid_pos = 0, clock_pos = 0, api_db = [],
     salt_src = (\<lambda>_. ''s''), salt_pos = 0\<rparr>"

lemma demo_laws: "password_law demo_crypto" "token_law demo_crypto key" "database_law demo_database set"
proof -
  show "password_law demo_crypto" by (auto simp: password_law_def demo_crypto_def)
  show "token_law demo_crypto key"
    by (auto simp: token_law_def demo_crypto_def demo_claims_def at_micros_inverse first_micro_def last_micro_def)
  show "database_law demo_database set"
    by (auto simp: database_law_def demo_database_def find_None_iff find_Some_iff split: option.splits if_splits)
qed

lemma demo_time: "micros_of (demo_clock n) = int n mod 1000 * 1000000"
  by transfer simp

lemma demo_char: "char_of (112 :: nat) = CHR ''p''"
  by code_simp

abbreviation "demo_ann \<equiv> \<lparr>us_id = 1, us_username = ''ann'', us_hash = ''p.s''\<rparr>"

lemma demo_registers:
  "create_user demo_database demo_crypto ''ann'' ''p'' api_demo =
     (Inr [(''message'', PStr ''User created successfully'')], api_demo\<lparr>salt_pos := 1, api_db := [demo_ann]\<rparr>)"
  by (simp add: create_user_def get_password_hash_def gensalt_def on_db_def demo_database_def
      api_demo_def demo_crypto_def utf8_def utf8_char_def action_simps Let_def demo_char)

lemma demo_logs_in:
  assumes "api_db s = [demo_ann]" and "clock_src s = demo_clock" "clock_pos s = 0"
  shows "login demo_database demo_crypto key ''ann'' ''p'' s =
    (Inr [(''access_token'', PStr ''t''), (''token_type'', PStr ''bearer'')], s\<lparr>clock_pos := 1\<rparr>)"
  using assms
  by (simp add: login_def authenticate_user_def on_db_def demo_database_def verify_password_def create_access_token_def
      token_life_def demo_crypto_def demo_claims_def utf8_def utf8_char_def action_simps Let_def demo_time first_micro_def
      last_micro_def demo_char)

text \<open>The token used after another user has registered, and the clock of the demonstration moved on.\<close>

theorem api_roundtrip_witness:
  "fst (read_users_me demo_database demo_crypto [] ''t''
      (api_demo\<lparr>salt_pos := 1, clock_pos := 1, api_db := [demo_ann, \<lparr>us_id = 2, us_username = ''bob'', us_hash = ''q.s''\<rparr>]\<rparr>))
    = Inr [(''id'', PInt 1), (''username'', PStr ''ann'')]"
proof -
  let ?s1 = "api_demo\<lparr>salt_pos := 1, api_db := [demo_ann]\<rparr>"
  let ?s3 = "api_demo\<lparr>salt_pos := 1, clock_pos := 1, api_db := [demo_ann, \<lparr>us_id = 2, us_username = ''bob'', us_hash = ''q.s''\<rparr>]\<rparr>"
  have login: "login demo_database demo_crypto [] ''ann'' ''p'' ?s1 =
      (Inr [(''access_token'', PStr ''t''), (''token_type'', PStr ''bearer'')], ?s1\<lparr>clock_pos := 1\<rparr>)"
    by (rule demo_logs_in) (simp_all add: api_demo_def)
  have found: "ud_first demo_database ''ann'' (api_db ?s3) = (Inr (Some demo_ann), api_db ?s3)"
    by (simp add: demo_database_def)
  have "{v \<in> set (api_db ?s1). us_username v = ''ann''} = {demo_ann}" "{v \<in> set (api_db ?s3). us_username v = ''ann''} = {demo_ann}"
    by auto
  then have "fst (read_users_me demo_database demo_crypto [] ''t'' ?s3) =
      (if micros_of (clock_src ?s3 (clock_pos ?s3)) div 1000000 < (micros_of (clock_src ?s1 (clock_pos ?s1)) + 900000000) div 1000000
       then Inr [(''id'', PInt (int (us_id demo_ann))), (''username'', PStr ''ann'')] else Inl credentials_exception)"
    using api_roundtrip [OF demo_laws demo_registers login] found by auto
  then show ?thesis by (simp add: api_demo_def demo_time)
qed

end
