(* ===== verification/Parallel_Paths.thy ===== *)
theory Parallel_Paths
  imports Text "HOL-Library.Product_Lexorder" "HOL-Library.List_Lexorder" "HOL-Library.Sublist"
begin

text \<open>
  The overlap detector (\<^verbatim>\<open>scripts/check_parallel_paths.py\<close>): the directories that implement a domain, the
  languages of each, and the exit code. A path is the list of its parts, a directory the list of its
  entries in the order in which it is listed. What is printed and symbolic links are not modelled.
\<close>

section \<open>Names\<close>

definition domains :: "string list" where
  "domains = [''market_data'', ''risk_engine'', ''memory_storage'', ''execution'', ''strategy'']"

definition excluded_parts :: "string list" where
  "excluded_parts = [''contracts'', ''tests'', ''output'', ''sdk'', ''fixtures'', ''target'', ''.git'', ''__pycache__'',
     ''.venv'', ''node_modules'']"

definition is_excluded :: "string list \<Rightarrow> bool" where
  "is_excluded p \<longleftrightarrow> list_ex (\<lambda>part. part \<in> set excluded_parts) p"

definition source_language :: "string \<Rightarrow> string option" where
  "source_language ext = map_of [(''.rs'', ''rust''), (''.py'', ''python''), (''.go'', ''go'')] ext"

text \<open>\<^verbatim>\<open>Path.suffix\<close>: from the last dot on, unless the dot is the first or the last character.\<close>

definition path_suffix :: "string \<Rightarrow> string" where
  "path_suffix name =
     (let ext = rev (takeWhile (\<lambda>c. c \<noteq> CHR ''.'') (rev name))
      in if ext = [] \<or> length name \<le> length ext + 1 then [] else CHR ''.'' # ext)"

definition domain_matches :: "string \<Rightarrow> string \<Rightarrow> bool" where
  "domain_matches name domain =
     (let normalized = map (\<lambda>c. if c = CHR ''-'' then CHR ''_'' else c) (lower name)
      in normalized = domain \<or> prefix (domain @ ''_'') normalized \<or> suffix (''_'' @ domain) normalized)"

section \<open>The walk\<close>

datatype tree = Leaf | Dir "(string \<times> tree) list"

definition leaves :: "(string \<times> tree) list \<Rightarrow> string list" where
  "leaves es = map fst (filter (\<lambda>e. snd e = Leaf) es)"

text \<open>\<^verbatim>\<open>os.walk\<close> as both loops use it: a directory with an excluded part is neither visited nor entered.
  Each visit has the path, the entries that are directories, and the files.\<close>

definition subdirs :: "string list \<Rightarrow> (string \<times> tree) list \<Rightarrow> (string \<times> tree) list" where
  "subdirs p es = filter (\<lambda>e. snd e \<noteq> Leaf \<and> \<not> is_excluded (p @ [fst e])) es"

fun walk :: "string list \<Rightarrow> tree \<Rightarrow> (string list \<times> (string \<times> tree) list \<times> string list) list" where
  "walk p Leaf = []"
| "walk p (Dir es) =
     (if is_excluded p then []
      else (p, subdirs p es, leaves es)
        # concat (map (\<lambda>e. if is_excluded (p @ [fst e]) then [] else walk (p @ [fst e]) (snd e)) es))"

definition collect_source_files :: "string list \<Rightarrow> tree \<Rightarrow> string list list" where
  "collect_source_files p t =
     sort (concat (map (\<lambda>(q, ds, fs). map (\<lambda>f. q @ [f]) (filter (\<lambda>f. source_language (path_suffix f) \<noteq> None) fs)) (walk p t)))"

section \<open>Implementations\<close>

record implementation =
  im_path :: "string list"
  im_languages :: "string list"
  im_files :: "string list list"

text \<open>The set of languages, without repetition.\<close>

definition languages_of :: "string list list \<Rightarrow> string list" where
  "languages_of files = remdups (List.map_filter (\<lambda>f. source_language (path_suffix (last f))) files)"

definition candidate :: "string \<Rightarrow> string list \<Rightarrow> string \<times> tree \<Rightarrow> implementation list" where
  "candidate domain p e =
     (if \<not> domain_matches (fst e) domain then []
      else let q = p @ [fst e]; files = collect_source_files q (snd e)
        in if files = [] then [] else [\<lparr>im_path = q, im_languages = languages_of files, im_files = files\<rparr>])"

definition candidates :: "string \<Rightarrow> string list \<Rightarrow> tree \<Rightarrow> implementation list" where
  "candidates domain base t =
     sort_key (\<lambda>i. (length (im_path i), join ''/'' (im_path i)))
       (concat (map (\<lambda>(p, ds, fs). concat (map (candidate domain p) ds)) (walk base t)))"

text \<open>A candidate below one that was selected is not selected.\<close>

definition below :: "implementation \<Rightarrow> implementation \<Rightarrow> bool" where
  "below i j \<longleftrightarrow> strict_prefix (im_path j) (im_path i)"

fun select_outermost :: "implementation list \<Rightarrow> implementation list \<Rightarrow> implementation list" where
  "select_outermost [] selected = selected"
| "select_outermost (c # cs) selected =
     select_outermost cs (if list_ex (below c) selected then selected else selected @ [c])"

definition find_implementations :: "string \<Rightarrow> string list \<Rightarrow> tree \<Rightarrow> implementation list" where
  "find_implementations domain base t = select_outermost (candidates domain base t) []"

datatype overlap = NoOverlap | Violation | Polyglot

definition classify :: "implementation list \<Rightarrow> overlap" where
  "classify impls =
     (case impls of
        [] \<Rightarrow> NoOverlap
      | [i] \<Rightarrow> NoOverlap
      | i # js \<Rightarrow>
          (if fold (\<lambda>j shared. filter (\<lambda>l. l \<in> set (im_languages j)) shared) js (im_languages i) \<noteq> []
           then Violation else Polyglot))"

section \<open>The exit code\<close>

fun entry_at :: "string list \<Rightarrow> tree \<Rightarrow> tree option" where
  "entry_at [] t = Some t"
| "entry_at (n # ns) Leaf = None"
| "entry_at (n # ns) (Dir es) = (case map_of es n of None \<Rightarrow> None | Some t \<Rightarrow> entry_at ns t)"

definition detector_main :: "string list \<Rightarrow> tree \<Rightarrow> nat" where
  "detector_main base t =
     (if entry_at [''governance'', ''01_ARCHITECTURE_LOCK.md''] t \<noteq> Some Leaf then 2
      else if list_ex (\<lambda>d. classify (find_implementations d base t) = Violation) domains then 1 else 0)"

section \<open>Facts\<close>

lemma select_outermost_set: "set (select_outermost cs sel) \<subseteq> set sel \<union> set cs"
  by (induction cs sel rule: select_outermost.induct) auto

lemma select_outermost_keeps: "set sel \<subseteq> set (select_outermost cs sel)"
  by (induction cs sel rule: select_outermost.induct) fastforce+

lemma below_trans: "below i j \<Longrightarrow> below j k \<Longrightarrow> below i k"
  by (auto simp: below_def dest: prefix_order.less_trans)

text \<open>Shorter paths come first, so an ancestor is met before what is below it.\<close>

lemma select_outermost_antichain:
  assumes "sorted (map (\<lambda>i. length (im_path i)) (sel @ cs))" and "\<forall>i \<in> set sel. \<forall>j \<in> set sel. \<not> below i j"
  shows "\<forall>i \<in> set (select_outermost cs sel). \<forall>j \<in> set (select_outermost cs sel). \<not> below i j"
  using assms
proof (induction cs sel rule: select_outermost.induct)
  case (2 c cs sel)
  have shorter: "\<not> below j c" if "j \<in> set (c # sel)" for j
  proof -
    have "length (im_path j) \<le> length (im_path c)"
      using "2.prems"(1) that by (auto simp: sorted_append)
    then show ?thesis by (auto simp: below_def strict_prefix_def prefix_def)
  qed
  show ?case
  proof (cases "list_ex (below c) sel")
    case True
    then show ?thesis using 2 by (simp add: sorted_append)
  next
    case False
    have "\<forall>i \<in> set (sel @ [c]). \<forall>j \<in> set (sel @ [c]). \<not> below i j"
      using "2.prems"(2) False shorter by (auto simp: list_ex_iff)
    then show ?thesis using 2 False by simp
  qed
qed simp

lemma select_outermost_covers:
  "c \<in> set cs \<Longrightarrow> c \<in> set (select_outermost cs sel) \<or> (\<exists>i \<in> set (select_outermost cs sel). below c i)"
proof (induction cs sel rule: select_outermost.induct)
  case (2 d cs sel)
  show ?case
  proof (cases "c = d")
    case True
    then show ?thesis
      using select_outermost_keeps [of "if list_ex (below d) sel then sel else sel @ [d]" cs]
      by (auto simp: list_ex_iff split: if_splits)
  next
    case False
    then show ?thesis using 2 by simp
  qed
qed simp

lemma fold_shared:
  "set (fold (\<lambda>j shared. filter (\<lambda>l. l \<in> set (im_languages j)) shared) js ls) = {l \<in> set ls. \<forall>j \<in> set js. l \<in> set (im_languages j)}"
  by (induction js arbitrary: ls) auto

lemma classify_violation:
  "classify impls = Violation \<longleftrightarrow> 2 \<le> length impls \<and> (\<exists>l. \<forall>i \<in> set impls. l \<in> set (im_languages i))"
proof (cases "\<exists>i j js. impls = i # j # js")
  case True
  then obtain i j js where impls: "impls = i # j # js" by blast
  define shared where "shared = fold (\<lambda>j shared. filter (\<lambda>l. l \<in> set (im_languages j)) shared) (j # js) (im_languages i)"
  have "classify impls = (if shared \<noteq> [] then Violation else Polyglot)"
    by (simp add: classify_def impls shared_def)
  moreover have "set shared = {l \<in> set (im_languages i). \<forall>k \<in> set (j # js). l \<in> set (im_languages k)}"
    unfolding shared_def by (rule fold_shared)
  moreover have "shared \<noteq> [] \<longleftrightarrow> (\<exists>l. l \<in> set shared)" by (cases shared) auto
  ultimately show ?thesis by (auto simp: impls)
next
  case False
  then have "impls = [] \<or> (\<exists>i. impls = [i])" by (metis neq_Nil_conv)
  then show ?thesis by (auto simp: classify_def)
qed

lemma walk_excluded: "is_excluded p \<Longrightarrow> walk p t = []"
  by (cases t) simp_all

lemma walk_visits: "(q, ds, fs) \<in> set (walk p t) \<Longrightarrow> prefix p q \<and> \<not> is_excluded q"
proof (induction p t rule: walk.induct)
  case (2 p es)
  then show ?case by (fastforce simp: prefix_def split: if_splits)
qed simp

text \<open>Source files are only found where the walk goes.\<close>

lemma collected_visits: "collect_source_files q t \<noteq> [] \<Longrightarrow> \<not> is_excluded q"
  using walk_excluded [of q t] by (auto simp: collect_source_files_def)

section \<open>Properties\<close>

text \<open>
  C38. The selection. What is selected for a domain are candidates, none of them inside another, and
  every candidate that is not selected lies inside one that is; no candidate has an excluded part.
\<close>

theorem detector_selects:
  "let found = find_implementations domain base t
   in set found \<subseteq> set (candidates domain base t)
     \<and> list_all (\<lambda>i. list_all (\<lambda>j. \<not> strict_prefix (im_path j) (im_path i)) found) found
     \<and> list_all (\<lambda>c. \<not> is_excluded (im_path c) \<and> list_ex (\<lambda>i. prefix (im_path i) (im_path c)) found) (candidates domain base t)"
proof -
  let ?cs = "candidates domain base t" and ?found = "find_implementations domain base t"
  have "sorted (map (\<lambda>i. (length (im_path i), join ''/'' (im_path i))) ?cs)"
    unfolding candidates_def by (rule sorted_sort_key)
  then have "sorted (map (\<lambda>i. length (im_path i)) ([] @ ?cs))"
    by (auto simp: sorted_map elim: sorted_wrt_mono_rel [rotated])
  then have antichain: "\<forall>i \<in> set ?found. \<forall>j \<in> set ?found. \<not> below i j"
    unfolding find_implementations_def by (rule select_outermost_antichain) simp
  have covered: "\<exists>i \<in> set ?found. prefix (im_path i) (im_path c)" if "c \<in> set ?cs" for c
    using select_outermost_covers [OF that, of "[]"] prefix_order.less_imp_le
    by (fastforce simp: find_implementations_def below_def)
  have "\<not> is_excluded (im_path c)" if "c \<in> set ?cs" for c
    using that by (auto simp: candidates_def candidate_def Let_def dest!: collected_visits split: if_splits)
  then show ?thesis
    using antichain covered select_outermost_set [of ?cs "[]"]
    by (auto simp: find_implementations_def Let_def list_all_iff list_ex_iff below_def)
qed

text \<open>
  C39. The exit code. It is 2 when the governance document is missing. Otherwise it is 1 exactly when
  some domain has at least two implementations of which all share a language: two implementations in the
  same language go unreported when a third one does not use it.
\<close>

theorem detector_exit_code:
  "detector_main base t =
     (if entry_at [''governance'', ''01_ARCHITECTURE_LOCK.md''] t \<noteq> Some Leaf then 2
      else if list_ex (\<lambda>d. let found = find_implementations d base t
          in 2 \<le> length found \<and> (\<exists>l. list_all (\<lambda>i. l \<in> set (im_languages i)) found)) domains then 1
      else 0)"
  by (simp add: detector_main_def classify_violation Let_def list_all_iff)

text \<open>
  A blind checkout. When a part of the path of the repository itself has an excluded name, the
  detector visits nothing and reports no overlap, whatever the repository holds.
\<close>

theorem detector_blind:
  assumes "is_excluded base" and "entry_at [''governance'', ''01_ARCHITECTURE_LOCK.md''] t = Some Leaf"
  shows "detector_main base t = 0 \<and> list_all (\<lambda>d. find_implementations d base t = []) domains"
proof -
  have "find_implementations d base t = []" for d
    using assms(1) by (simp add: find_implementations_def candidates_def walk_excluded)
  then show ?thesis using assms(2) by (simp add: detector_main_def classify_def list_ex_iff list_all_iff)
qed

definition demo_tree :: tree where
  "demo_tree = Dir [(''governance'', Dir [(''01_ARCHITECTURE_LOCK.md'', Leaf)]),
     (''a'', Dir [(''risk_engine'', Dir [(''x.py'', Leaf)])]), (''b'', Dir [(''risk-engine'', Dir [(''y.py'', Leaf)])]),
     (''c'', Dir [(''risk_engine_v2'', Dir [(''src'', Dir [(''z.rs'', Leaf)])])])]"

theorem detector_blind_witness:
  "detector_main [''/'', ''srv'', ''output'', ''r''] demo_tree = 0"
proof -
  have "is_excluded [''/'', ''srv'', ''output'', ''r'']" by (simp add: is_excluded_def excluded_parts_def)
  moreover have "entry_at [''governance'', ''01_ARCHITECTURE_LOCK.md''] demo_tree = Some Leaf" by (simp add: demo_tree_def)
  ultimately show ?thesis using detector_blind by blast
qed

text \<open>The detector at work: three implementations, of which two share a language.\<close>

lemma detector_pair_missed:
  "map im_languages (find_implementations ''risk_engine'' [''/'', ''r''] demo_tree) = [[''python''], [''python''], [''rust'']]
   \<and> detector_main [''/'', ''r''] demo_tree = 0"
  by code_simp

end
