(* ===== verification/Scripts.thy ===== *)
theory Scripts
  imports Json Sha256 "HOL-Library.Sublist"
begin

text \<open>
  Three scripts: the client that checks the secure API (\<^verbatim>\<open>output/secure_api/setup_and_run.py\<close>), and the two
  that check the schemas (\<^verbatim>\<open>scripts/validate_schemas.py\<close>, \<^verbatim>\<open>scripts/validate_strategy_signal_schema.py\<close>).
  What they print is left out. The network is \<open>http\<close>, the validator of \<^verbatim>\<open>jsonschema\<close> a pair of
  parameters, and \<open>text\<close> is \<^verbatim>\<open>str\<close> of a value.
\<close>

section \<open>The client of the secure API\<close>

text \<open>\<^verbatim>\<open>urllib.parse.urlencode\<close>, with \<^verbatim>\<open>quote_plus\<close>.\<close>

definition upper_hex :: "nat \<Rightarrow> char" where
  "upper_hex n = char_of (if n < 10 then 48 + n else 55 + n)"

definition url_safe :: "char \<Rightarrow> bool" where
  "url_safe c \<longleftrightarrow> (let n = of_char c :: nat in 48 \<le> n \<and> n \<le> 57 \<or> 65 \<le> n \<and> n \<le> 90 \<or> 97 \<le> n \<and> n \<le> 122
     \<or> c \<in> {CHR ''_'', CHR ''.'', CHR ''-'', CHR ''~''})"

definition quote_char :: "char \<Rightarrow> string" where
  "quote_char c = (if url_safe c then [c] else if c = CHR '' '' then ''+''
     else concat (map (\<lambda>b. [CHR ''%'', upper_hex (b div 16), upper_hex (b mod 16)]) (utf8_char c)))"

definition urlencode :: "(string \<times> string) list \<Rightarrow> string" where
  "urlencode kvs =
     join ''&'' (map (\<lambda>p. concat (map quote_char (fst p)) @ ''='' @ concat (map quote_char (snd p))) kvs)"

record http_request =
  hr_method :: string
  hr_url :: string
  hr_body :: "string option"
  hr_headers :: "(string \<times> string) list"

text \<open>An answer with its text; a refusal, whose text may not be UTF-8; any other exception.\<close>

datatype http_reply = Answered nat string | Refused nat "string option" | NoReply string

definition json_or_raw :: "string \<Rightarrow> pyval" where
  "json_or_raw raw = (case json_loads raw of Inr v \<Rightarrow> v | Inl e \<Rightarrow> PStr raw)"

definition request ::
  "(http_request \<Rightarrow> ('s, http_reply) action) \<Rightarrow> string \<Rightarrow> string \<Rightarrow> (string \<times> string) list option \<Rightarrow>
   (string \<times> string) list \<Rightarrow> ('s, nat option \<times> pyval) action" where
  "request http method url form headers =
     bindA (http \<lparr>hr_method = method, hr_url = url, hr_body = map_option urlencode form, hr_headers = headers\<rparr>) (\<lambda>r.
     case r of
       Answered code raw \<Rightarrow> ret (Some code, json_or_raw raw)
     | Refused code (Some raw) \<Rightarrow> ret (Some code, json_or_raw raw)
     | Refused code None \<Rightarrow> raise (Raised (OtherError ''UnicodeDecodeError'') ''invalid start byte'')
     | NoReply m \<Rightarrow> ret (None, PDict [(''error'', PStr m)]))"

definition base_url :: string where
  "base_url = ''http://127.0.0.1:8000''"

definition login_form :: "(string \<Rightarrow> string option) \<Rightarrow> (string \<times> string) list" where
  "login_form env =
     [(''username'', ''admin''),
      (''password'', case env ''SETUP_TEST_PASSWORD'' of Some p \<Rightarrow> p | None \<Rightarrow> ''CHANGE_ME_IMMEDIATELY'')]"

text \<open>The token of a login that was answered with status 200 and a dictionary.\<close>

definition login_token :: "nat option \<times> pyval \<Rightarrow> pyval option" where
  "login_token r =
     (case r of
        (Some code, PDict d) \<Rightarrow>
          (if code \<noteq> 200 then None
           else case map_of d ''access_token'' of Some v \<Rightarrow> (if truthy v then Some v else None) | None \<Rightarrow> None)
      | _ \<Rightarrow> None)"

text \<open>The exit code.\<close>

definition setup_main ::
  "(pyval \<Rightarrow> string) \<Rightarrow> (string \<Rightarrow> string option) \<Rightarrow> (http_request \<Rightarrow> ('s, http_reply) action) \<Rightarrow> ('s, nat) action" where
  "setup_main text env http =
     bindA (request http ''POST'' (base_url @ ''/users/?'' @ urlencode (login_form env)) None []) (\<lambda>_.
     bindA (request http ''POST'' (base_url @ ''/token'') (Some (login_form env))
       [(''Content-Type'', ''application/x-www-form-urlencoded'')]) (\<lambda>r.
     case login_token r of
       None \<Rightarrow> ret 1
     | Some token \<Rightarrow>
         bindA (request http ''GET'' (base_url @ ''/users/me'') None [(''Authorization'', ''Bearer '' @ text token)]) (\<lambda>me.
         ret (if fst me = Some 200 then 0 else 1))))"

section \<open>Schemas\<close>

text \<open>The JSON files below \<^verbatim>\<open>contracts/schemas\<close> in their order, each with what reading it gives. The result is
  the number of files and the names of those with an error.\<close>

definition validate_schemas :: "(string \<times> (exn + string)) list \<Rightarrow> nat \<times> string list" where
  "validate_schemas files =
     (let checked = filter (\<lambda>f. \<not> sublist ''.bak'' (fst f)) files
      in (length checked, map fst (filter (\<lambda>f. isl (bindR (snd f) json_loads)) checked)))"

definition schemas_exit :: "(string \<times> (exn + string)) list \<Rightarrow> nat" where
  "schemas_exit files = (if snd (validate_schemas files) \<noteq> [] then 1 else 0)"

text \<open>0.87 is the double nearest to it.\<close>

definition sample_event :: pyval where
  "sample_event = PDict
     [(''version'', PStr ''1.0.0''), (''event_id'', PStr ''550e8400-e29b-41d4-a716-446655440000''),
      (''timestamp_utc'', PStr ''2026-08-31T10:00:00Z''), (''trace_id'', PStr ''660e8400-e29b-41d4-a716-446655440001''),
      (''source_agent'', PStr ''strategy_selector_v2''),
      (''signal'', PDict [(''symbol'', PStr ''BTCUSDT''), (''direction'', PStr ''LONG''),
         (''confidence'', PFloat (to_double (87 / 100))), (''regime'', PStr ''TRENDING'')])]"

definition validate_strategy_schema ::
  "(pyval \<Rightarrow> exn + unit) \<Rightarrow> (pyval \<Rightarrow> pyval \<Rightarrow> string list) \<Rightarrow> (exn + string) \<Rightarrow> exn + unit" where
  "validate_strategy_schema check_schema iter_errors raw =
     bindR raw (\<lambda>t.
     bindR (json_loads t) (\<lambda>schema.
     bindR (check_schema schema) (\<lambda>_.
     if iter_errors schema sample_event \<noteq> []
     then Inl (Raised (OtherError ''AssertionError'') ''Sample validation failed'') else Inr ())))"

section \<open>Facts\<close>

text \<open>The requests of a run: the registration, whatever becomes of it, the login, and the question with the
  token of the login.\<close>

lemma setup_succeeds:
  assumes "setup_main text env http s = (Inr 0, t)"
  obtains token r u v where "login_token r = Some token"
    and "request http ''POST'' (base_url @ ''/token'') (Some (login_form env))
      [(''Content-Type'', ''application/x-www-form-urlencoded'')] u = (Inr r, v)"
    and "\<exists>body. request http ''GET'' (base_url @ ''/users/me'') None [(''Authorization'', ''Bearer '' @ text token)] v
      = (Inr (Some 200, body), t)"
  using assms by (auto simp: setup_main_def bind_value ret_def split: option.splits if_splits)

lemma schemas_ok: "schemas_exit files = 0 \<longleftrightarrow>
    list_all (\<lambda>f. sublist ''.bak'' (fst f) \<or> (\<exists>v. bindR (snd f) json_loads = Inr v)) files"
proof -
  have left: "isl r \<longleftrightarrow> \<not> (\<exists>v. r = Inr v)" for r :: "exn + pyval" by (cases r) simp_all
  show ?thesis
    by (simp add: schemas_exit_def validate_schemas_def Let_def filter_empty_conv list_all_iff left del: bindR_def)
qed

end
