(* ===== verification/Subscriber.thy ===== *)
theory Subscriber
  imports File_System
begin

text \<open>
  The subscriber of the experience engine (\<^verbatim>\<open>experience_engine/subscriber.py\<close>): its data models and its
  constructor. A default that reads the clock or draws an identifier does so in the order of the fields.
  Only the classification of events, which \<^verbatim>\<open>Experience\<close> has, can be reached: neither an
  \<^verbatim>\<open>ExperienceEvent\<close> nor the subscriber itself can be made.
\<close>

section \<open>Data\<close>

datatype memory_tier = TierEpisodic | TierProcedural | TierSemantic

fun tier_value :: "memory_tier \<Rightarrow> string" where
  "tier_value TierEpisodic = ''episodic''"
| "tier_value TierProcedural = ''procedural''"
| "tier_value TierSemantic = ''semantic''"

datatype experience_status = ExpSuccess | SkippedInvalid | DroppedStorageError | DroppedNoOutcome

fun experience_status_value :: "experience_status \<Rightarrow> string" where
  "experience_status_value ExpSuccess = ''success''"
| "experience_status_value SkippedInvalid = ''skipped_invalid''"
| "experience_status_value DroppedStorageError = ''dropped_storage_error''"
| "experience_status_value DroppedNoOutcome = ''dropped_no_outcome''"

record decay_policy =
  dp_decay_rate :: pyfloat
  dp_min_relevance :: pyfloat
  dp_max_age_seconds :: pyfloat

definition default_decay :: decay_policy where
  "default_decay = \<lparr>dp_decay_rate = Fin (5764607523034235 / 576460752303423488),
     dp_min_relevance = Fin (3602879701896397 / 36028797018963968), dp_max_age_seconds = Fin 86400\<rparr>"

definition in_unit :: "pyfloat \<Rightarrow> bool" where
  "in_unit x \<longleftrightarrow> float_le (Fin 0) x \<and> float_le x (Fin 1)"

definition not_negative :: "pyfloat \<Rightarrow> bool" where
  "not_negative x \<longleftrightarrow> float_le (Fin 0) x"

record incoming_signal =
  se_signal_id :: string
  se_symbol :: string
  se_direction :: string
  se_confidence :: pyfloat
  se_regime :: string
  se_timestamp :: pyfloat
  se_metadata :: pydict

text \<open>The constructors of the models check the ranges, and the direction, which they turn to lower case.\<close>

definition new_incoming_signal :: "incoming_signal \<Rightarrow> exn + incoming_signal" where
  "new_incoming_signal e =
     (if in_unit (se_confidence e) \<and> lower (se_direction e) \<in> {''buy'', ''sell'', ''hold''}
      then Inr (e\<lparr>se_direction := lower (se_direction e)\<rparr>) else Inl validation_error)"

record trade_outcome =
  to_outcome_id :: string
  to_signal_id :: string
  to_success :: bool
  to_pnl :: pyfloat
  to_execution_time :: pyfloat
  to_error_message :: "string option"

definition new_trade_outcome :: "trade_outcome \<Rightarrow> exn + trade_outcome" where
  "new_trade_outcome x = (if not_negative (to_execution_time x) then Inr x else Inl validation_error)"

record risk_report =
  rk_risk_score :: pyfloat
  rk_volatility :: pyfloat
  rk_drawdown :: pyfloat

definition new_risk_report :: "risk_report \<Rightarrow> exn + risk_report" where
  "new_risk_report r =
     (if in_unit (rk_risk_score r) \<and> not_negative (rk_volatility r) \<and> not_negative (rk_drawdown r)
      then Inr r else Inl validation_error)"

record tier_record =
  ti_record_id :: string
  ti_tier :: memory_tier
  ti_data :: pydict
  ti_relevance :: pyfloat
  ti_created_at :: rat
  ti_last_accessed :: rat
  ti_access_count :: int

definition new_tier_record ::
  "memory_tier \<Rightarrow> pydict \<Rightarrow> pyfloat \<Rightarrow> int \<Rightarrow> ('z sys_world_scheme, tier_record) action" where
  "new_tier_record tier data relevance count =
     bindA fresh_uuid (\<lambda>u.
     bindA time_time (\<lambda>created.
     bindA time_time (\<lambda>accessed.
     if in_unit relevance \<and> 0 \<le> count
     then ret \<lparr>ti_record_id = u, ti_tier = tier, ti_data = data, ti_relevance = relevance, ti_created_at = created,
       ti_last_accessed = accessed, ti_access_count = count\<rparr>
     else raise validation_error)))"

section \<open>The event\<close>

record experience_event =
  ee_event_id :: string
  ee_signal :: incoming_signal
  ee_outcome :: trade_outcome
  ee_risk :: risk_report
  ee_timestamp :: rat

text \<open>The validator of the outcome calls \<^verbatim>\<open>get\<close> on its third argument. Pydantic 2, whose \<^verbatim>\<open>field_validator\<close> it
  is, passes a \<^verbatim>\<open>ValidationInfo\<close> there, which has no such attribute, and lets an \<^verbatim>\<open>AttributeError\<close>
  through.\<close>

definition validate_outcome_link :: "trade_outcome \<Rightarrow> exn + trade_outcome" where
  "validate_outcome_link v = Inl (Raised (OtherError ''AttributeError'') ''ValidationInfo object has no attribute get'')"

definition new_experience_event ::
  "incoming_signal \<Rightarrow> trade_outcome \<Rightarrow> risk_report \<Rightarrow> ('z sys_world_scheme, experience_event) action" where
  "new_experience_event signal outcome risk =
     bindA fresh_uuid (\<lambda>u.
     bindA (lift_res (validate_outcome_link outcome)) (\<lambda>v.
     bindA time_time (\<lambda>t.
     ret \<lparr>ee_event_id = u, ee_signal = signal, ee_outcome = v, ee_risk = risk, ee_timestamp = t\<rparr>)))"

section \<open>The subscriber\<close>

record subscriber =
  sb_max_episodic :: int
  sb_max_procedural :: int
  sb_max_semantic :: int
  sb_policy :: decay_policy

text \<open>Reading the attribute \<^verbatim>\<open>_storage\<close> of an object that does not have it.\<close>

definition no_storage_attribute :: "exn option" where
  "no_storage_attribute = Some (Raised (OtherError ''AttributeError'') ''ExperienceSubscriber object has no attribute _storage'')"

text \<open>The last statement of the constructor reads an attribute that nothing has set.\<close>

definition subscriber_init :: "int \<Rightarrow> int \<Rightarrow> int \<Rightarrow> decay_policy option \<Rightarrow> exn + subscriber" where
  "subscriber_init episodic procedural semantic policy =
     (let self = \<lparr>sb_max_episodic = episodic, sb_max_procedural = procedural, sb_max_semantic = semantic,
            sb_policy = (case policy of Some p \<Rightarrow> p | None \<Rightarrow> default_decay)\<rparr>
      in case no_storage_attribute of Some e \<Rightarrow> Inl e | None \<Rightarrow> Inr self)"

section \<open>Facts\<close>

lemma lower_lower_char: "lower_char (lower_char c) = lower_char c"
proof -
  let ?n = "of_char c :: nat"
  have n: "?n < 256" by simp
  have up: "of_char (char_of (?n + 32) :: char) = ?n + 32" if "?n \<le> 222"
    using that by (simp add: take_bit_eq_mod)
  show ?thesis
    using up by (auto simp: lower_char_def Let_def)
qed

lemma lower_lower: "lower (lower s) = lower s"
  by (simp add: lower_def lower_lower_char)

lemma incoming_signal_canonical:
  assumes "new_incoming_signal e = Inr f"
  shows "new_incoming_signal f = Inr f"
proof -
  have "in_unit (se_confidence e) \<and> lower (se_direction e) \<in> {''buy'', ''sell'', ''hold''}"
    and f: "f = e\<lparr>se_direction := lower (se_direction e)\<rparr>"
    using assms unfolding new_incoming_signal_def by (metis Inl_Inr_False Inr_inject)+
  then show ?thesis unfolding new_incoming_signal_def f by (simp add: lower_lower del: insert_iff)
qed

lemma no_experience_event: "fst (new_experience_event signal outcome risk s)
    = Inl (Raised (OtherError ''AttributeError'') ''ValidationInfo object has no attribute get'')"
  by (simp add: new_experience_event_def validate_outcome_link_def action_simps)

end
