(* ===== verification/Spec2Isabelle.thy ===== *)
theory Spec2Isabelle
  imports Execution Gateway Memory_Database Strategy_Audit Secrets Llm_Limits Deployment_Safety Self_Correction Delivery Secure_Api Parallel_Paths
    Scripts Subscriber
begin

text \<open>
  Atlas AI, the Python engines: what this library models and what it proves.

  \<^bold>\<open>The program.\<close> The repository holds three cooperating Python systems under \<^verbatim>\<open>src/\<close>, and a few small
  programs beside them.

  \<^item> The agent control plane and the agent runtime (\<^verbatim>\<open>intelligence/agent_control_plane\<close>,
    \<^verbatim>\<open>intelligence/agent_runtime\<close>): a registry of agents with a lifecycle, permissions and policies, a
    scheduler with a resource ledger, messages between agents, a runtime state per agent, and the
    engine that executes a task. Each engine writes audit records to the sinks it was given.
  \<^item> The memory system (\<^verbatim>\<open>intelligence/memory_system\<close>, with the database storage in
    \<^verbatim>\<open>infrastructure/database\<close>): the kernel over a storage interface, typed stores, retrieval,
    consolidation, forgetting under a policy, the engine that turns outcomes into episodic memory, and
    the gateway through which an agent reaches all of it. Beside it stand the strategy signal boundary
    (\<^verbatim>\<open>strategy_intelligence\<close>) and the provider of secrets (\<^verbatim>\<open>shared/secrets\<close>).
  \<^item> The code generator (\<^verbatim>\<open>atlas_agent\<close>): a client of a language model with cache, rate limit, circuit
    breaker and restriction guard; the generator with its learning memory; the validator; the loop that
    scores, repairs and tries again; the governance engine; the deployment; the orchestrator that runs
    them in order, and the command line.
  \<^item> The secure API and the client that checks it (\<^verbatim>\<open>output/secure_api\<close>), the overlap detector and the schema
    checks (\<^verbatim>\<open>scripts\<close>).

  \<^bold>\<open>How the code is represented.\<close> A method is an action: a function from the state to a value or an
  exception and the new state (\<open>Prelude\<close>). \<open>raise\<close> is the \<^verbatim>\<open>raise\<close> of the source, \<open>catchA\<close> its
  \<^verbatim>\<open>except Exception\<close>, and what is not an \<^verbatim>\<open>Exception\<close> (a keyboard interrupt) passes through it. The state
  is a record per component, extended by the components that use it; in the control plane every engine
  owns some fields of one world and the audit log is another; in the code generator the chain is
  environment, disk, clock, governance, guard, cache, model client. Dictionaries are association lists in
  insertion order. What the outside decides is drawn from an arbitrary sequence kept in the state: random
  identifiers, both clocks, the outcome of every operation of the disk and of the network, the replies of
  the provider, the words of the human. A theorem therefore holds for every such sequence. Integers of
  Python are \<open>int\<close>, doubles are the rationals they denote with the rounding written out (\<open>Float64\<close>),
  SHA-256 works on 32-bit words (\<open>Sha256\<close>). Characters are the first 256 code points.

  \<^bold>\<open>The theories.\<close>

  \<^item> \<open>Prelude\<close>, \<open>Environment\<close>, \<open>Text\<close>, \<open>Iso_Time\<close>, \<open>Float64\<close>, \<open>Json\<close>, \<open>Regex\<close>, \<open>Sha256\<close>, \<open>File_System\<close>: what the
    sources use of Python and of its standard library; \<open>Iso_Roundtrip\<close> and \<open>Json_Roundtrip\<close> prove that
    their readers invert their printers. \<open>Triple\<close> is a small program logic for actions.
  \<^item> \<open>Audit_Log\<close> (the records and the sink interface as a locale), \<open>Audit_Database\<close> (the persistent sink),
    \<open>Transition_Table\<close> (the locale of status tables, interpreted by \<open>Registry\<close> and \<open>Runtime_State\<close>),
    \<open>Permissions\<close>, \<open>Scheduler\<close>, \<open>Communication\<close>, \<open>Execution\<close>: the control plane and the runtime, one theory
    for each engine.
  \<^item> \<open>Memory\<close> (records, validation, the storage interface with its contracts as locales, kernel, stores,
    retrieval, consolidation), \<open>Memory_Database\<close>, \<open>Forgetting\<close>, \<open>Experience\<close>, \<open>Gateway\<close>: the memory system.
  \<^item> \<open>Contract_Adapter\<close>, \<open>Strategy_Audit\<close>, \<open>Secrets\<close>: the signal boundary, its logger, the secrets.
  \<^item> \<open>Atlas_Models\<close>, \<open>Governance\<close>, \<open>Restriction_Guard\<close>, \<open>Llm_Cache\<close>, \<open>Llm_Client\<close>, \<open>Llm_Limits\<close>, \<open>Deployment\<close>,
    \<open>Deployment_Safety\<close>, \<open>Deployment_Frame\<close>: the parts of the code generator up to the request to the model, and
    the deployment, with the contract of what it spares.
  \<^item> \<open>Learning_Memory\<close> (\<^verbatim>\<open>memory/learning_memory.py\<close>, \<^verbatim>\<open>memory/experience.py\<close>), \<open>Code_Patcher\<close>
    (\<^verbatim>\<open>code_patcher.py\<close>), \<open>Self_Correction\<close> (\<^verbatim>\<open>self_correcting_loop.py\<close>), \<open>Validator\<close> (\<^verbatim>\<open>validator.py\<close>),
    \<open>Generator\<close> (\<^verbatim>\<open>generator.py\<close>), \<open>Orchestrator\<close> (\<^verbatim>\<open>orchestrator.py\<close>, \<^verbatim>\<open>cli.py\<close>): the pipeline. Each
    stage of \<^verbatim>\<open>run_pipeline\<close> is a definition (\<open>generate_attempt\<close>, \<open>validate_files\<close>, \<open>conclude\<close>,
    \<open>next_attempt\<close>), \<open>run_attempts\<close> is its loop, \<open>build_artifact\<close> the run up to the end of the loop, and
    \<open>approve_and_deploy\<close> the rest. \<open>Pipeline\<close> holds the bounds and the lemmas on whole runs; the locales
    \<open>above_disk\<close>, \<open>above_governance\<close>, \<open>beside_llm\<close>, \<open>beside_agent\<close> and \<open>above_loop\<close> state which parts of the state
    the lower components leave alone. \<open>Delivery\<close> shows what every run guarantees and that a run can succeed.
  \<^item> \<open>Secure_Api\<close>, \<open>Scripts\<close>, \<open>Parallel_Paths\<close>, \<open>Subscriber\<close>: the small programs, and the subscriber of the
    experience engine.

  \<^bold>\<open>What is shown.\<close> Invariants of whole runs: the resources of the scheduler are conserved, statuses follow
  their tables, long-term memory survives every sequence of calls of the gateway, a message is delivered
  at most once. Refinement: the database storage implements the storage interface up to the normal form that the
  columns of its table give a value (key order, the text of a time); what is proved of an exact storage in the
  gateway is not claimed of it. Round trips: signals
  through JSON, the cache over a restart, records through the kernel. Bounds: the size of the cache, the
  calls, waits and permits of a request to the model, the window of the rate limit. Errors: every branch
  of the principal operations, and the places where the code loses a record, an audit entry or a file.
  Safety on a disk that works: a deployment leaves either the new text and a record that says so, or the
  old files. For the pipeline: what leaves the loop was generated and validated; nothing is deployed without the
  consent of the human, as the settings and the answers of the first state give it; the audit trail ends
  with the outcome, and when that is deployed the files are there, sound and as the loop left them; a run with a
  willing provider on a disk that works delivers its module; the attempts, calls and waits are bounded, and the
  exit code of the command line is never 0. For the API: a registered user gets in with the right password for
  as long as the token lives, whatever the database, the token library and the password library are, as long as
  they keep their documented laws.

  \<^bold>\<open>Bounds and fuel.\<close> Recursion is structural, or ends by a measure given with the definition; the JSON
  reader takes the length of its text as fuel, which \<open>Json_Roundtrip\<close> shows to be enough for every text
  the printer makes. The loop of the pipeline makes at most five attempts (\<open>loop_max_attempts\<close>), and the
  termination of \<open>run_attempts\<close> is proved from its own test.

  \<^bold>\<open>Not modelled.\<close> Log lines and printed text; threads, except that what a lock protects is one step (the rate
  limit reads the clock just before it takes its lock; here the reading and the check are one step, so two
  threads whose readings come out of order are not covered); what the package of the provider does inside one
  call, where its own timeout and up to four retries (\<^verbatim>\<open>Groq(timeout=..., max_retries=4)\<close>) belong: the bounds on
  calls count the calls of the client, not the requests on the wire;
  the text of tracebacks; symbolic links and permissions of files; code points above 255 (a long dash of
  a message is written \<open>--\<close>); the parsing of arguments and of HTTP requests. The example API
  and the trial scripts that send one request to a provider hold no logic of the system; the tests
  are clients of what is modelled, except that the dictionary storage of the lifecycle tests is a provider
  of the storage interface. Code outside the repository is a parameter: the provider's package, the tools
  the validator starts, \<^verbatim>\<open>ast.parse\<close>, pydantic's own output, \<^verbatim>\<open>bcrypt\<close>, \<^verbatim>\<open>PyJWT\<close>, the session of \<^verbatim>\<open>SQLAlchemy\<close>,
  \<^verbatim>\<open>jsonschema\<close>, the table client, the YAML loader.
\<close>

end
